(* ===== verification/Prelude.thy ===== *)
theory Prelude
  imports Main "HOL-Library.AList" "HOL-Library.Sorting_Algorithms"
begin

text \<open>
  Shared vocabulary of the development: the types of identifiers and times, JavaScript
  \<open>Map\<close>/\<open>Record\<close> values as association lists in insertion order, database tables
  as lists of rows, results of fallible operations, decimal notation, and the interfaces
  (locales) that several components share.

  JavaScript strings are HOL strings, that is, sequences of code units below 256.
\<close>

section \<open>Types\<close>

type_synonym ident = string    \<comment> \<open>ULID primary keys\<close>
type_synonym millis = int      \<comment> \<open>milliseconds since the epoch, and durations\<close>
type_synonym ('k, 'v) jsmap = "('k \<times> 'v) list"

named_theorems model_simps "defining equations of small helpers the proofs always unfold"

section \<open>JavaScript maps\<close>

text \<open>
  A \<open>Map\<close> (or an object used as a record) iterates in insertion order; overwriting a key
  keeps its place and a new key goes to the end. This is what \<^const>\<open>AList.update\<close> and
  \<^const>\<open>AList.delete\<close> do.
\<close>

abbreviation map_get :: "('k, 'v) jsmap \<Rightarrow> 'k \<Rightarrow> 'v option" where
  "map_get m k \<equiv> map_of m k"

abbreviation map_set :: "'k \<Rightarrow> 'v \<Rightarrow> ('k, 'v) jsmap \<Rightarrow> ('k, 'v) jsmap" where
  "map_set k v m \<equiv> AList.update k v m"

abbreviation map_del :: "'k \<Rightarrow> ('k, 'v) jsmap \<Rightarrow> ('k, 'v) jsmap" where
  "map_del k m \<equiv> AList.delete k m"

definition map_ok :: "('k, 'v) jsmap \<Rightarrow> bool" where
  "map_ok m \<longleftrightarrow> distinct (map fst m)"

definition get_or :: "'v \<Rightarrow> 'v option \<Rightarrow> 'v" where  \<comment> \<open>the operator \<open>??\<close>\<close>
  "get_or d x = (case x of None \<Rightarrow> d | Some v \<Rightarrow> v)"

lemma get_or_simps [simp]: "get_or d None = d" "get_or d (Some v) = v"
  by (simp_all add: get_or_def)

lemma map_ok_Nil [simp]: "map_ok []"
  by (simp add: map_ok_def)

lemma map_ok_set [simp]: "map_ok m \<Longrightarrow> map_ok (map_set k v m)"
  by (simp add: map_ok_def distinct_update)

lemma map_ok_del [simp]: "map_ok m \<Longrightarrow> map_ok (map_del k m)"
  by (simp add: map_ok_def distinct_delete)

lemma map_get_set [simp]:
  "map_get (map_set k v m) k' = (if k' = k then Some v else map_get m k')"
  by (simp add: update_conv')

lemma map_get_del [simp]: "map_get (map_del k m) k' = (if k' = k then None else map_get m k')"
  by (simp add: delete_conv')

lemma map_ok_filter: "map_ok m \<Longrightarrow> map_ok (filter P m)"
  by (simp add: map_ok_def distinct_map_filter)

lemma map_get_map_values:
  "map_get (map (\<lambda>(k, v). (k, f k v)) m) k = map_option (f k) (map_get m k)"
  by (induction m) auto

lemma map_ok_map_values: "map_ok (map (\<lambda>(k, v). (k, f k v)) m) = map_ok m"
  by (simp add: map_ok_def case_prod_beta comp_def)

text \<open>
  The interface the code relies on wherever it keeps a keyed collection. The laws are those
  of a finite map; the client lemmas are used by every component that keeps a \<open>Map\<close>.
\<close>

locale keyed_store =
  fixes lookup :: "'m \<Rightarrow> 'k \<Rightarrow> 'v option"
    and store :: "'k \<Rightarrow> 'v \<Rightarrow> 'm \<Rightarrow> 'm"
    and remove :: "'k \<Rightarrow> 'm \<Rightarrow> 'm"
    and ok :: "'m \<Rightarrow> bool"
  assumes lookup_store: "lookup (store k v m) k' = (if k' = k then Some v else lookup m k')"
    and lookup_remove: "lookup (remove k m) k' = (if k' = k then None else lookup m k')"
    and ok_store: "ok m \<Longrightarrow> ok (store k v m)"
    and ok_remove: "ok m \<Longrightarrow> ok (remove k m)"
begin

lemma store_twice: "lookup (store k v (store k w m)) = lookup (store k v m)"
  by (rule ext) (simp add: lookup_store)

lemma store_remove: "lookup (remove k (store k v m)) = lookup (remove k m)"
  by (rule ext) (simp add: lookup_store lookup_remove)

lemma remove_idem: "lookup (remove k (remove k m)) = lookup (remove k m)"
  by (rule ext) (simp add: lookup_remove)

lemma store_frame: "k' \<noteq> k \<Longrightarrow> lookup (store k v m) k' = lookup m k'"
  by (simp add: lookup_store)

lemma remove_frame: "k' \<noteq> k \<Longrightarrow> lookup (remove k m) k' = lookup m k'"
  by (simp add: lookup_remove)

lemma ok_fold_store: "ok m \<Longrightarrow> ok (fold (\<lambda>(k, v). store k v) kvs m)"
  by (induction kvs arbitrary: m) (auto simp: ok_store)

end

interpretation js_map: keyed_store map_get map_set map_del map_ok
  by unfold_locales simp_all

fun first_seen :: "'a list \<Rightarrow> 'a list" where   \<comment> \<open>\<open>Array.from(new Set(xs))\<close>\<close>
  "first_seen [] = []"
| "first_seen (x # xs) = x # filter (\<lambda>y. y \<noteq> x) (first_seen xs)"

lemma set_first_seen [simp]: "set (first_seen xs) = set xs"
  by (induction xs) auto

lemma distinct_first_seen [simp]: "distinct (first_seen xs)"
  by (induction xs) auto

section \<open>Results\<close>

text \<open>A thrown error is \<^const>\<open>Inl\<close>, a normal return \<^const>\<open>Inr\<close>.\<close>

definition bind_result :: "'e + 'a \<Rightarrow> ('a \<Rightarrow> 'e + 'b) \<Rightarrow> 'e + 'b" where
  "bind_result r f = (case r of Inl e \<Rightarrow> Inl e | Inr a \<Rightarrow> f a)"

lemma bind_result_simps [simp]:
  "bind_result (Inl e) f = Inl e" "bind_result (Inr a) f = f a"
  by (simp_all add: bind_result_def)

lemma bind_result_InrD:
  "bind_result r f = Inr b \<Longrightarrow> \<exists>a. r = Inr a \<and> f a = Inr b"
  by (cases r) auto

section \<open>Tables\<close>

text \<open>
  A database table is the list of its rows; a query that promises no order returns them in
  table order. \<open>findUnique\<close> is \<^const>\<open>List.find\<close> on the key, \<open>updateMany\<close> and
  \<open>deleteMany\<close> act on the rows that satisfy the condition.
\<close>

definition update_where :: "('r \<Rightarrow> bool) \<Rightarrow> ('r \<Rightarrow> 'r) \<Rightarrow> 'r list \<Rightarrow> 'r list" where
  "update_where P f rows = map (\<lambda>r. if P r then f r else r) rows"

definition delete_where :: "('r \<Rightarrow> bool) \<Rightarrow> 'r list \<Rightarrow> 'r list" where
  "delete_where P rows = filter (\<lambda>r. \<not> P r) rows"

definition upsert_where :: "('r \<Rightarrow> bool) \<Rightarrow> 'r \<Rightarrow> ('r \<Rightarrow> 'r) \<Rightarrow> 'r list \<Rightarrow> 'r list" where
  "upsert_where P new f rows =
     (if \<exists>r \<in> set rows. P r then update_where P f rows else rows @ [new])"

lemma set_delete_where [simp]: "set (delete_where P rows) = {r \<in> set rows. \<not> P r}"
  by (auto simp: delete_where_def)

lemma set_update_whereE:
  assumes "x \<in> set (update_where P f rows)"
  obtains r where "r \<in> set rows" "x = (if P r then f r else r)"
proof -
  from assms have "x \<in> (\<lambda>r. if P r then f r else r) ` set rows"
    unfolding update_where_def by (simp only: set_map)
  then show ?thesis
    using that by (rule imageE)
qed

lemma find_delete_where_same [simp]: "List.find P (delete_where P rows) = None"
  by (simp add: find_None_iff)

lemma find_in_set: "List.find P rows = Some r \<Longrightarrow> r \<in> set rows \<and> P r"
  by (auto simp: find_Some_iff)

lemma find_delete_where_other:
  assumes "\<And>r. Q r \<Longrightarrow> \<not> P r"
  shows "List.find Q (delete_where P rows) = List.find Q rows"
  using assms by (induction rows) (auto simp: delete_where_def)

lemma find_update_where:
  assumes "\<And>r. P r \<Longrightarrow> Q (f r) = Q r"
  shows "List.find Q (update_where P f rows) =
    map_option (\<lambda>r. if P r then f r else r) (List.find Q rows)"
  using assms by (induction rows) (auto simp: update_where_def)

lemma find_update_where_other:
  assumes "\<And>r. P r \<Longrightarrow> \<not> Q r" and "\<And>r. P r \<Longrightarrow> \<not> Q (f r)"
  shows "List.find Q (update_where P f rows) = List.find Q rows"
  using assms by (induction rows) (auto simp: update_where_def)

lemma find_append:
  "List.find P (xs @ ys) = (case List.find P xs of None \<Rightarrow> List.find P ys | Some r \<Rightarrow> Some r)"
  by (induction xs) auto

lemma find_head: "List.find P xs = (case filter P xs of [] \<Rightarrow> None | x # _ \<Rightarrow> Some x)"
  by (induction xs) auto

lemma find_filter: "List.find P (filter Q xs) = List.find (\<lambda>x. Q x \<and> P x) xs"
  by (induction xs) auto

lemma distinct_map_unique:
  "distinct (map f xs) \<Longrightarrow> x \<in> set xs \<Longrightarrow> y \<in> set xs \<Longrightarrow> f x = f y \<Longrightarrow> x = y"
  by (induction xs) (auto simp: image_iff)

lemma find_unique_key:
  assumes "distinct (map kf rows)" and "r \<in> set rows"
  shows "List.find (\<lambda>x. kf x = kf r) rows = Some r"
  using assms by (induction rows) (auto simp: image_iff)

section \<open>Runs of a state machine\<close>

text \<open>
  Several components are event-driven: a step function and an invariant it keeps. The lift
  to whole runs is proved once here.
\<close>

locale stepping =
  fixes step :: "'s \<Rightarrow> 'e \<Rightarrow> 's"
    and inv :: "'s \<Rightarrow> bool"
  assumes inv_step: "inv s \<Longrightarrow> inv (step s e)"
begin

lemma inv_run: "inv s \<Longrightarrow> inv (foldl step s es)"
  by (induction es arbitrary: s) (auto simp: inv_step)

lemma inv_prefix: "inv s \<Longrightarrow> inv (foldl step s (take n es))"
  by (rule inv_run)

end

end
