(* ===== verification/JsText.thy ===== *)
theory JsText
  imports Prelude
begin

text \<open>
  JavaScript string operations the code uses, on code units below 256: white space as
  \<open>\s\<close> and \<open>trim\<close> see it, digits, decimal and radix-prefixed integer literals as
  \<open>BigInt(string)\<close> reads them, and decimal output.
\<close>

section \<open>White space and case\<close>

definition is_space :: "char \<Rightarrow> bool" where
  "is_space c \<longleftrightarrow> (of_char c :: nat) \<in> {9, 10, 11, 12, 13, 32, 160}"

definition trim_start :: "string \<Rightarrow> string" where
  "trim_start s = dropWhile is_space s"

definition trim :: "string \<Rightarrow> string" where
  "trim s = rev (trim_start (rev (trim_start s)))"

lemma trim_start_id: "s = [] \<or> \<not> is_space (hd s) \<Longrightarrow> trim_start s = s"
  by (cases s) (auto simp: trim_start_def)

lemma trim_id:
  assumes "s = [] \<or> (\<not> is_space (hd s) \<and> \<not> is_space (last s))"
  shows "trim s = s"
  using assms by (auto simp: trim_def trim_start_id hd_rev)

lemma set_trim_start: "set (trim_start s) \<subseteq> set s"
  by (auto simp: trim_start_def dest: set_dropWhileD)

lemma set_trim: "set (trim s) \<subseteq> set s"
proof -
  have "set (trim s) \<subseteq> set (rev (trim_start s))"
    unfolding trim_def set_rev by (rule set_trim_start [THEN subset_trans]) simp
  then show ?thesis using set_trim_start by auto
qed

lemma length_trim: "length (trim s) \<le> length s"
  unfolding trim_def trim_start_def
  by (metis length_dropWhile_le length_rev order_trans)

lemma trim_hd: "trim s \<noteq> [] \<Longrightarrow> \<not> is_space (last (trim s))"
  unfolding trim_def trim_start_def
  by (metis hd_dropWhile last_rev rev_is_Nil_conv)

definition lower_char :: "char \<Rightarrow> char" where
  "lower_char c =
     (let n = (of_char c :: nat)
      in if (65 \<le> n \<and> n \<le> 90) \<or> (192 \<le> n \<and> n \<le> 222 \<and> n \<noteq> 215)
         then char_of (n + 32) else c)"

definition toLowerCase :: "string \<Rightarrow> string" where
  "toLowerCase s = map lower_char s"

lemma length_toLowerCase [simp]: "length (toLowerCase s) = length s"
  by (simp add: toLowerCase_def)

section \<open>Digits\<close>

definition is_digit :: "char \<Rightarrow> bool" where
  "is_digit c \<longleftrightarrow> 48 \<le> (of_char c :: nat) \<and> (of_char c :: nat) \<le> 57"

definition digit_value :: "char \<Rightarrow> nat option" where
  "digit_value c =
     (let n = (of_char c :: nat)
      in if 48 \<le> n \<and> n \<le> 57 then Some (n - 48)
         else if 97 \<le> n \<and> n \<le> 102 then Some (n - 87)
         else if 65 \<le> n \<and> n \<le> 70 then Some (n - 55)
         else None)"

fun read_digits :: "nat \<Rightarrow> nat \<Rightarrow> string \<Rightarrow> nat option" where
  "read_digits b acc [] = Some acc"
| "read_digits b acc (c # cs) =
     (case digit_value c of
        None \<Rightarrow> None
      | Some d \<Rightarrow> if d < b then read_digits b (b * acc + d) cs else None)"

definition digit_char :: "nat \<Rightarrow> char" where
  "digit_char d = char_of (48 + d)"

fun show_nat :: "nat \<Rightarrow> string" where
  "show_nat n = (if n < 10 then [digit_char n] else show_nat (n div 10) @ [digit_char (n mod 10)])"

declare show_nat.simps [simp del]

definition show_int :: "int \<Rightarrow> string" where
  "show_int i = (if i < 0 then CHR ''-'' # show_nat (nat (- i)) else show_nat (nat i))"

lemma of_char_digit_char: "d < 10 \<Longrightarrow> (of_char (digit_char d) :: nat) = 48 + d"
  by (simp add: digit_char_def)

lemma digit_value_digit_char: "d < 10 \<Longrightarrow> digit_value (digit_char d) = Some d"
  by (simp add: digit_value_def of_char_digit_char)

lemma is_digit_digit_char: "d < 10 \<Longrightarrow> is_digit (digit_char d)"
  by (simp add: is_digit_def of_char_digit_char)

lemma is_digit_not_space: "is_digit c \<Longrightarrow> \<not> is_space c"
  by (auto simp: is_digit_def is_space_def)

lemma read_digits_append:
  "read_digits b acc (xs @ ys) =
     (case read_digits b acc xs of None \<Rightarrow> None | Some a \<Rightarrow> read_digits b a ys)"
  by (induction xs arbitrary: acc) (auto split: option.splits)

lemma show_nat_digits: "\<forall>c \<in> set (show_nat n). is_digit c"
proof (induction n rule: show_nat.induct)
  case (1 n)
  then show ?case
    by (subst show_nat.simps) (auto simp: is_digit_digit_char)
qed

lemma show_nat_nonempty [simp]: "show_nat n \<noteq> []"
  by (subst show_nat.simps) simp

lemma read_show_nat: "read_digits 10 0 (show_nat n) = Some n"
proof (induction n rule: show_nat.induct)
  case (1 n)
  show ?case
  proof (cases "n < 10")
    case True
    then show ?thesis
      by (subst show_nat.simps) (simp add: digit_value_digit_char)
  next
    case False
    with 1 show ?thesis
      by (subst show_nat.simps) (simp add: read_digits_append digit_value_digit_char)
  qed
qed

lemma show_nat_inj: "show_nat m = show_nat n \<Longrightarrow> m = n"
  by (metis option.inject read_show_nat)

definition padStart :: "nat \<Rightarrow> char \<Rightarrow> string \<Rightarrow> string" where
  "padStart n c s = replicate (n - length s) c @ s"

section \<open>\<open>BigInt(string)\<close>\<close>

text \<open>
  The string grammar of \<open>BigInt\<close>: surrounding white space is ignored, the empty string is
  0, a literal prefixed by 0x, 0o or 0b has no sign, a decimal literal may have one. Anything
  else is a \<open>SyntaxError\<close> (\<^const>\<open>None\<close>).
\<close>

definition read_literal :: "nat \<Rightarrow> string \<Rightarrow> int option" where
  "read_literal b cs = (if cs = [] then None else map_option int (read_digits b 0 cs))"

fun read_signed :: "string \<Rightarrow> int option" where
  "read_signed [] = None"
| "read_signed (c # cs) =
     (if c = CHR ''-'' then map_option uminus (read_literal 10 cs)
      else if c = CHR ''+'' then read_literal 10 cs
      else read_literal 10 (c # cs))"

fun read_prefixed :: "string \<Rightarrow> int option" where
  "read_prefixed (z # p # cs) =
     (if z = CHR ''0'' \<and> (p = CHR ''x'' \<or> p = CHR ''X'') then read_literal 16 cs
      else if z = CHR ''0'' \<and> (p = CHR ''o'' \<or> p = CHR ''O'') then read_literal 8 cs
      else if z = CHR ''0'' \<and> (p = CHR ''b'' \<or> p = CHR ''B'') then read_literal 2 cs
      else read_signed (z # p # cs))"
| "read_prefixed cs = read_signed cs"

definition BigInt :: "string \<Rightarrow> int option" where
  "BigInt s = (let t = trim s in if t = [] then Some 0 else read_prefixed t)"

lemma is_digit_facts:
  "is_digit c \<Longrightarrow> c \<noteq> CHR ''-''" "is_digit c \<Longrightarrow> c \<noteq> CHR ''+''"
  "is_digit c \<Longrightarrow> c \<noteq> CHR ''x''" "is_digit c \<Longrightarrow> c \<noteq> CHR ''X''"
  "is_digit c \<Longrightarrow> c \<noteq> CHR ''o''" "is_digit c \<Longrightarrow> c \<noteq> CHR ''O''"
  "is_digit c \<Longrightarrow> c \<noteq> CHR ''b''" "is_digit c \<Longrightarrow> c \<noteq> CHR ''B''"
  by (auto simp: is_digit_def)

lemma read_prefixed_digits:
  assumes "cs \<noteq> []" and "\<forall>c \<in> set cs. is_digit c"
  shows "read_prefixed cs = read_literal 10 cs"
  using assms by (cases cs rule: read_prefixed.cases) (auto simp: is_digit_facts)

lemma read_prefixed_minus: "read_prefixed (CHR ''-'' # cs) = map_option uminus (read_literal 10 cs)"
  by (cases cs) auto

lemma trim_show_int: "trim (show_int i) = show_int i"
proof (rule trim_id, rule disjI2)
  have digits: "\<forall>c \<in> set (show_nat n). \<not> is_space c" for n
    using show_nat_digits is_digit_not_space by blast
  then have "\<not> is_space (hd (show_nat n)) \<and> \<not> is_space (last (show_nat n))" for n
    by (meson hd_in_set last_in_set show_nat_nonempty)
  then show "\<not> is_space (hd (show_int i)) \<and> \<not> is_space (last (show_int i))"
    by (auto simp: show_int_def is_space_def)
qed

lemma BigInt_show_int: "BigInt (show_int i) = Some i"
proof -
  have lit: "read_literal 10 (show_nat n) = Some (int n)" for n
    by (simp add: read_literal_def read_show_nat)
  show ?thesis
  proof (cases "i < 0")
    case True
    then show ?thesis
      using trim_show_int [of i]
      by (simp add: BigInt_def show_int_def read_prefixed_minus lit)
  next
    case False
    then show ?thesis
      using trim_show_int [of i]
      by (simp add: BigInt_def show_int_def read_prefixed_digits show_nat_digits lit)
  qed
qed

section \<open>\<open>Number(string)\<close>\<close>

text \<open>\<open>Number(string)\<close> as a decimal mantissa and exponent; \<open>NaN\<close> for anything else.\<close>

datatype js_number = NaN | Infinite bool | Dec int int

definition digits_value :: "string \<Rightarrow> int" where
  "digits_value ds = int (get_or 0 (read_digits 10 0 ds))"

definition read_exponent :: "string \<Rightarrow> int option" where
  "read_exponent cs =
     (let (sg, ds) = (case cs of
            [] \<Rightarrow> (1, [])
          | c # r \<Rightarrow> if c = CHR ''-'' then (-1, r) else if c = CHR ''+'' then (1, r) else (1, c # r))
      in if ds = [] \<or> \<not> list_all is_digit ds then None else Some (sg * digits_value ds))"

definition read_decimal :: "string \<Rightarrow> js_number" where
  "read_decimal cs =
     (let ip = takeWhile is_digit cs; r = dropWhile is_digit cs;
          (fp, r) = (case r of
              c # r' \<Rightarrow> if c = CHR ''.'' then (takeWhile is_digit r', dropWhile is_digit r') else ([], r)
            | [] \<Rightarrow> ([], []))
      in if ip = [] \<and> fp = [] then NaN
         else (case r of
            [] \<Rightarrow> Dec (digits_value (ip @ fp)) (- int (length fp))
          | c # r \<Rightarrow> if c = CHR ''e'' \<or> c = CHR ''E'' then
                       (case read_exponent r of
                          None \<Rightarrow> NaN
                        | Some e \<Rightarrow> Dec (digits_value (ip @ fp)) (e - int (length fp)))
                     else NaN))"

definition negate :: "js_number \<Rightarrow> js_number" where
  "negate x = (case x of NaN \<Rightarrow> NaN | Infinite b \<Rightarrow> Infinite (\<not> b) | Dec m e \<Rightarrow> Dec (- m) e)"

definition read_unsigned :: "string \<Rightarrow> js_number" where
  "read_unsigned cs = (if cs = ''Infinity'' then Infinite True else read_decimal cs)"

definition Number :: "string \<Rightarrow> js_number" where
  "Number s =
     (let t = trim s
      in case t of
           [] \<Rightarrow> Dec 0 0
         | c # r \<Rightarrow>
             if c = CHR ''-'' then negate (read_unsigned r)
             else if c = CHR ''+'' then read_unsigned r
             else if c = CHR ''0'' \<and> r \<noteq> [] \<and> hd r \<in> set ''xXoObB'' then
               (case read_prefixed t of None \<Rightarrow> NaN | Some v \<Rightarrow> Dec v 0)
             else read_unsigned t)"

section \<open>\<open>encodeURIComponent\<close>\<close>

definition upper_hex :: "nat \<Rightarrow> char" where
  "upper_hex n = (if n < 10 then char_of (48 + n) else char_of (55 + n))"

definition percent :: "nat \<Rightarrow> string" where
  "percent n = [CHR ''%'', upper_hex (n div 16), upper_hex (n mod 16)]"

definition uri_char :: "char \<Rightarrow> string" where
  "uri_char c =
     (let n = (of_char c :: nat)
      in if (48 \<le> n \<and> n \<le> 57) \<or> (65 \<le> n \<and> n \<le> 90) \<or> (97 \<le> n \<and> n \<le> 122) \<or> n \<in> {33, 39, 40, 41, 42, 45, 46, 95, 126}
         then [c]
         else if n < 128 then percent n
         else percent (192 + n div 64) @ percent (128 + n mod 64))"

definition encodeURIComponent :: "string \<Rightarrow> string" where
  "encodeURIComponent s = concat (map uri_char s)"

end
