(* ===== verification/Permissions.thy ===== *)
theory Permissions
  imports JsText "HOL-Library.Word"
begin

unbundle bit_operations_syntax

text \<open>
  The permission bitset (packages/shared/src/permissions.ts): the flags, their serialised
  form, the set operations and the resolution of a member's permissions in a channel. A
  \<open>BigInt\<close> is an unbounded two's complement integer, so it is \<^typ>\<open>int\<close> with the bit
  operations of the library.
\<close>

section \<open>Flags\<close>

datatype (plugins only: code) permission_flag =
    VIEW_CHANNEL | SEND_MESSAGES | READ_MESSAGE_HISTORY | ATTACH_FILES | EMBED_LINKS
   | ADD_REACTIONS | USE_EXTERNAL_EMOJIS | MENTION_EVERYONE | MANAGE_MESSAGES
   | SEND_VOICE_MESSAGES | MANAGE_CHANNELS | MANAGE_ROLES | MANAGE_SERVER | CREATE_INVITES
   | MANAGE_EMOJIS | KICK_MEMBERS | BAN_MEMBERS | TIMEOUT_MEMBERS | VIEW_AUDIT_LOG
   | CONNECT_VOICE | SPEAK_VOICE | ENABLE_CAMERA | DISABLE_MEMBER_VIDEO | MUTE_MEMBERS
   | DEAFEN_MEMBERS | MOVE_MEMBERS | USE_VAD | STREAM_SCREEN | CREATE_CAMPAIGNS
   | MANAGE_CAMPAIGNS | MANAGE_CAMPAIGN_NOTES | VIEW_GM_NOTES | MANAGE_HANDOUTS
   | VIEW_PRIVATE_HANDOUTS | CREATE_SESSIONS | MANAGE_SESSIONS | ROLL_DICE
   | ROLL_PRIVATE_DICE | MANAGE_BOARD_GAMES | CREATE_GAME_NIGHTS | MANAGE_GAME_NIGHTS
   | REPORT_CONTENT | VIEW_MODERATION_QUEUE | REVIEW_HELD_CONTENT
   | MANAGE_SERVER_SAFETY_POLICY | MANAGE_INSTANCE_SAFETY_POLICY | MANAGE_QUARANTINE
   | MANAGE_REPORT_WORKFLOW | LOCK_USER_POSTING | LOCK_USER_UPLOADS | MANAGE_NICKNAMES
   | ADMINISTRATOR

fun flag_shift :: "permission_flag \<Rightarrow> nat" where
  "flag_shift VIEW_CHANNEL = 0"
| "flag_shift SEND_MESSAGES = 1"
| "flag_shift READ_MESSAGE_HISTORY = 2"
| "flag_shift ATTACH_FILES = 3"
| "flag_shift EMBED_LINKS = 4"
| "flag_shift ADD_REACTIONS = 5"
| "flag_shift USE_EXTERNAL_EMOJIS = 6"
| "flag_shift MENTION_EVERYONE = 7"
| "flag_shift MANAGE_MESSAGES = 8"
| "flag_shift SEND_VOICE_MESSAGES = 9"
| "flag_shift MANAGE_CHANNELS = 10"
| "flag_shift MANAGE_ROLES = 11"
| "flag_shift MANAGE_SERVER = 12"
| "flag_shift CREATE_INVITES = 13"
| "flag_shift MANAGE_EMOJIS = 14"
| "flag_shift KICK_MEMBERS = 15"
| "flag_shift BAN_MEMBERS = 16"
| "flag_shift TIMEOUT_MEMBERS = 17"
| "flag_shift VIEW_AUDIT_LOG = 18"
| "flag_shift CONNECT_VOICE = 19"
| "flag_shift SPEAK_VOICE = 20"
| "flag_shift ENABLE_CAMERA = 21"
| "flag_shift DISABLE_MEMBER_VIDEO = 22"
| "flag_shift MUTE_MEMBERS = 23"
| "flag_shift DEAFEN_MEMBERS = 24"
| "flag_shift MOVE_MEMBERS = 25"
| "flag_shift USE_VAD = 26"
| "flag_shift STREAM_SCREEN = 27"
| "flag_shift CREATE_CAMPAIGNS = 28"
| "flag_shift MANAGE_CAMPAIGNS = 29"
| "flag_shift MANAGE_CAMPAIGN_NOTES = 30"
| "flag_shift VIEW_GM_NOTES = 31"
| "flag_shift MANAGE_HANDOUTS = 32"
| "flag_shift VIEW_PRIVATE_HANDOUTS = 33"
| "flag_shift CREATE_SESSIONS = 34"
| "flag_shift MANAGE_SESSIONS = 35"
| "flag_shift ROLL_DICE = 36"
| "flag_shift ROLL_PRIVATE_DICE = 37"
| "flag_shift MANAGE_BOARD_GAMES = 38"
| "flag_shift CREATE_GAME_NIGHTS = 39"
| "flag_shift MANAGE_GAME_NIGHTS = 40"
| "flag_shift REPORT_CONTENT = 41"
| "flag_shift VIEW_MODERATION_QUEUE = 42"
| "flag_shift REVIEW_HELD_CONTENT = 43"
| "flag_shift MANAGE_SERVER_SAFETY_POLICY = 44"
| "flag_shift MANAGE_INSTANCE_SAFETY_POLICY = 45"
| "flag_shift MANAGE_QUARANTINE = 46"
| "flag_shift MANAGE_REPORT_WORKFLOW = 47"
| "flag_shift LOCK_USER_POSTING = 48"
| "flag_shift LOCK_USER_UPLOADS = 49"
| "flag_shift MANAGE_NICKNAMES = 50"
| "flag_shift ADMINISTRATOR = 62"

definition Permission :: "permission_flag \<Rightarrow> int" where
  "Permission f = push_bit (flag_shift f) 1"

definition PermissionFlags :: "permission_flag list" where
  "PermissionFlags =
     [VIEW_CHANNEL, SEND_MESSAGES, READ_MESSAGE_HISTORY, ATTACH_FILES, EMBED_LINKS,
      ADD_REACTIONS, USE_EXTERNAL_EMOJIS, MENTION_EVERYONE, MANAGE_MESSAGES,
      SEND_VOICE_MESSAGES, MANAGE_CHANNELS, MANAGE_ROLES, MANAGE_SERVER, CREATE_INVITES,
      MANAGE_EMOJIS, KICK_MEMBERS, BAN_MEMBERS, TIMEOUT_MEMBERS, VIEW_AUDIT_LOG,
      CONNECT_VOICE, SPEAK_VOICE, ENABLE_CAMERA, DISABLE_MEMBER_VIDEO, MUTE_MEMBERS,
      DEAFEN_MEMBERS, MOVE_MEMBERS, USE_VAD, STREAM_SCREEN, CREATE_CAMPAIGNS,
      MANAGE_CAMPAIGNS, MANAGE_CAMPAIGN_NOTES, VIEW_GM_NOTES, MANAGE_HANDOUTS,
      VIEW_PRIVATE_HANDOUTS, CREATE_SESSIONS, MANAGE_SESSIONS, ROLL_DICE,
      ROLL_PRIVATE_DICE, MANAGE_BOARD_GAMES, CREATE_GAME_NIGHTS, MANAGE_GAME_NIGHTS,
      REPORT_CONTENT, VIEW_MODERATION_QUEUE, REVIEW_HELD_CONTENT,
      MANAGE_SERVER_SAFETY_POLICY, MANAGE_INSTANCE_SAFETY_POLICY, MANAGE_QUARANTINE,
      MANAGE_REPORT_WORKFLOW, LOCK_USER_POSTING, LOCK_USER_UPLOADS, MANAGE_NICKNAMES,
      ADMINISTRATOR]"

definition PERMISSION_NONE :: int where
  "PERMISSION_NONE = 0"

definition PERMISSION_ALL :: int where
  "PERMISSION_ALL = fold (\<lambda>f acc. acc OR Permission f) PermissionFlags 0"

definition PERMISSION_DEFAULT_EVERYONE :: int where
  "PERMISSION_DEFAULT_EVERYONE =
     Permission VIEW_CHANNEL OR
     Permission SEND_MESSAGES OR
     Permission READ_MESSAGE_HISTORY OR
     Permission ATTACH_FILES OR
     Permission EMBED_LINKS OR
     Permission ADD_REACTIONS OR
     Permission USE_EXTERNAL_EMOJIS OR
     Permission SEND_VOICE_MESSAGES OR
     Permission CONNECT_VOICE OR
     Permission SPEAK_VOICE OR
     Permission ENABLE_CAMERA OR
     Permission STREAM_SCREEN OR
     Permission USE_VAD OR
     Permission ROLL_DICE OR
     Permission REPORT_CONTENT"

section \<open>Serialisation\<close>

datatype perm_input = PNull | PUndefined | PBig int | PText string

definition serializePermissions :: "int \<Rightarrow> string" where
  "serializePermissions perms = show_int perms"

text \<open>\<^const>\<open>None\<close> is the \<open>SyntaxError\<close> that \<open>BigInt\<close> throws.\<close>

definition parsePermissions :: "perm_input \<Rightarrow> int option" where
  "parsePermissions input =
     (case input of
        PNull \<Rightarrow> Some 0
      | PUndefined \<Rightarrow> Some 0
      | PBig n \<Rightarrow> Some n
      | PText s \<Rightarrow>
          if s = [] then Some 0
          else if take 2 s = ''0x'' \<or> take 2 s = ''0X'' then BigInt s
          else BigInt s)"

section \<open>Set operations\<close>

definition hasFlag :: "int \<Rightarrow> int \<Rightarrow> bool" where
  "hasFlag perms flag \<longleftrightarrow> perms AND flag = flag"

definition addFlag :: "int \<Rightarrow> int \<Rightarrow> int" where
  "addFlag perms flag = perms OR flag"

definition removeFlag :: "int \<Rightarrow> int \<Rightarrow> int" where
  "removeFlag perms flag = perms AND NOT flag"

definition combine :: "int list \<Rightarrow> int" where
  "combine sets = fold (\<lambda>p acc. acc OR p) sets 0"

section \<open>Resolution\<close>

record resolved_overwrite =
  ow_allow :: int
  ow_deny :: int

record resolve_context =
  isOwner :: bool
  everyoneRolePermissions :: int
  rolePermissions :: "int list"
  everyoneChannelOverwrite :: "resolved_overwrite option"
  roleChannelOverwrites :: "resolved_overwrite list option"
  userChannelOverwrite :: "resolved_overwrite option"

definition computeBasePermissions :: "bool \<Rightarrow> int \<Rightarrow> int list \<Rightarrow> int" where
  "computeBasePermissions owner everyone roles =
     (if owner then PERMISSION_ALL
      else let perms = fold (\<lambda>rp perms. perms OR rp) roles everyone
           in if hasFlag perms (Permission ADMINISTRATOR) then PERMISSION_ALL else perms)"

definition combine_overwrites :: "resolved_overwrite list \<Rightarrow> int \<times> int" where
  "combine_overwrites os =
     fold (\<lambda>ow (deny, allow). (deny OR ow_deny ow, allow OR ow_allow ow)) os (0, 0)"

definition computeChannelPermissions :: "resolve_context \<Rightarrow> int" where
  "computeChannelPermissions ctx =
     (if isOwner ctx then PERMISSION_ALL
      else
        let perms = computeBasePermissions False (everyoneRolePermissions ctx) (rolePermissions ctx)
        in if hasFlag perms (Permission ADMINISTRATOR) then PERMISSION_ALL
        else
          let perms = (case everyoneChannelOverwrite ctx of
                         None \<Rightarrow> perms
                       | Some ow \<Rightarrow> (perms AND NOT (ow_deny ow)) OR ow_allow ow);
              perms = (case roleChannelOverwrites ctx of
                         None \<Rightarrow> perms
                       | Some os \<Rightarrow>
                           if length os > 0 then
                             (let (combinedDeny, combinedAllow) = combine_overwrites os
                              in (perms AND NOT combinedDeny) OR combinedAllow)
                           else perms);
              perms = (case userChannelOverwrite ctx of
                         None \<Rightarrow> perms
                       | Some ow \<Rightarrow> (perms AND NOT (ow_deny ow)) OR ow_allow ow)
          in perms)"

definition can :: "int \<Rightarrow> int \<Rightarrow> bool" where
  "can perms flag \<longleftrightarrow> (if hasFlag perms (Permission ADMINISTRATOR) then True else hasFlag perms flag)"

definition describePermissions :: "int \<Rightarrow> permission_flag list" where
  "describePermissions perms = filter (\<lambda>f. hasFlag perms (Permission f)) PermissionFlags"

section \<open>Bits of the results\<close>

lemma bit_Permission: "bit (Permission f) i \<longleftrightarrow> i = flag_shift f"
  by (auto simp: Permission_def bit_simps)

lemma hasFlag_iff: "hasFlag perms flag \<longleftrightarrow> (\<forall>i. bit flag i \<longrightarrow> bit perms i)"
  unfolding hasFlag_def bit_eq_iff by (auto simp: bit_simps)

lemma hasFlag_Permission: "hasFlag perms (Permission f) \<longleftrightarrow> bit perms (flag_shift f)"
  by (simp add: hasFlag_iff bit_Permission)

lemma bit_fold_or:
  "bit (fold (\<lambda>x acc. acc OR g x) xs (a :: int)) i \<longleftrightarrow> bit a i \<or> (\<exists>x \<in> set xs. bit (g x) i)"
  by (induction xs arbitrary: a) (auto simp: bit_simps)

lemma set_PermissionFlags: "set PermissionFlags = UNIV"
proof -
  have "f \<in> set PermissionFlags" for f
    by (cases f) (simp_all add: PermissionFlags_def)
  then show ?thesis by blast
qed

lemma distinct_PermissionFlags: "distinct PermissionFlags"
  by (simp add: PermissionFlags_def)

lemma bit_PERMISSION_ALL: "bit PERMISSION_ALL i \<longleftrightarrow> (\<exists>f. i = flag_shift f)"
  by (auto simp: PERMISSION_ALL_def bit_fold_or bit_Permission set_PermissionFlags)

lemma hasFlag_PERMISSION_ALL: "hasFlag PERMISSION_ALL (Permission f)"
  by (auto simp: hasFlag_Permission bit_PERMISSION_ALL)

lemma PERMISSION_ALL_nonneg: "0 \<le> PERMISSION_ALL"
  unfolding PERMISSION_ALL_def PermissionFlags_def
  by (simp add: Permission_def)

lemma flag_shift_inj: "flag_shift f = flag_shift g \<Longrightarrow> f = g"
proof -
  have "distinct (map flag_shift PermissionFlags)"
    by (simp add: PermissionFlags_def)
  then have "inj_on flag_shift (set PermissionFlags)"
    by (simp add: distinct_map)
  then show "flag_shift f = flag_shift g \<Longrightarrow> f = g"
    by (simp add: set_PermissionFlags inj_on_def)
qed

lemma bit_combine: "bit (combine sets) i \<longleftrightarrow> (\<exists>p \<in> set sets. bit p i)"
  by (simp add: combine_def bit_fold_or)

lemma combine_overwrites_eq:
  "combine_overwrites os =
     (fold (\<lambda>ow acc. acc OR ow_deny ow) os 0, fold (\<lambda>ow acc. acc OR ow_allow ow) os 0)"
proof -
  have "fold (\<lambda>ow (deny, allow). (deny OR ow_deny ow, allow OR ow_allow ow)) os (d, a) =
    (fold (\<lambda>ow acc. acc OR ow_deny ow) os d, fold (\<lambda>ow acc. acc OR ow_allow ow) os a)" for d a
    by (induction os arbitrary: d a) auto
  then show ?thesis by (simp add: combine_overwrites_def)
qed

lemma bit_base:
  assumes "\<not> hasFlag (fold (\<lambda>rp perms. perms OR rp) roles everyone) (Permission ADMINISTRATOR)"
  shows "bit (computeBasePermissions False everyone roles) i \<longleftrightarrow>
    bit everyone i \<or> (\<exists>rp \<in> set roles. bit rp i)"
  using assms by (simp add: computeBasePermissions_def bit_fold_or)

section \<open>The resolution rules as a relation on single permissions\<close>

text \<open>
  The rules of the file's header, stated per permission bit and without any order: who is an
  administrator, and what each layer of overwrites does to one bit.
\<close>

definition layer :: "bool \<Rightarrow> bool \<Rightarrow> bool \<Rightarrow> bool" where
  "layer denied allowed before \<longleftrightarrow> allowed \<or> (before \<and> \<not> denied)"

definition base_bit :: "resolve_context \<Rightarrow> nat \<Rightarrow> bool" where
  "base_bit ctx i \<longleftrightarrow>
     bit (everyoneRolePermissions ctx) i \<or> (\<exists>rp \<in> set (rolePermissions ctx). bit rp i)"

definition unrestricted :: "resolve_context \<Rightarrow> bool" where
  "unrestricted ctx \<longleftrightarrow> isOwner ctx \<or> base_bit ctx (flag_shift ADMINISTRATOR)"

definition channel_bit :: "resolve_context \<Rightarrow> nat \<Rightarrow> bool" where
  "channel_bit ctx i \<longleftrightarrow>
     (let overwrite_layer = (\<lambda>os. layer (\<exists>ow \<in> os. bit (ow_deny ow) i) (\<exists>ow \<in> os. bit (ow_allow ow) i))
      in overwrite_layer (set_option (userChannelOverwrite ctx))
           (overwrite_layer (\<Union>os \<in> set_option (roleChannelOverwrites ctx). set os)
             (overwrite_layer (set_option (everyoneChannelOverwrite ctx)) (base_bit ctx i))))"

definition resolved_bit :: "resolve_context \<Rightarrow> nat \<Rightarrow> bool" where
  "resolved_bit ctx i \<longleftrightarrow>
     (if unrestricted ctx then \<exists>f. i = flag_shift f else channel_bit ctx i)"

lemma computeBasePermissions_admin:
  "hasFlag (computeBasePermissions False everyone roles) (Permission ADMINISTRATOR) \<longleftrightarrow>
   bit everyone (flag_shift ADMINISTRATOR) \<or> (\<exists>rp \<in> set roles. bit rp (flag_shift ADMINISTRATOR))"
  by (auto simp: computeBasePermissions_def hasFlag_Permission bit_fold_or bit_PERMISSION_ALL Let_def
      intro: exI [of _ ADMINISTRATOR])

lemma computeBasePermissions_cases:
  "computeBasePermissions owner everyone roles =
     (if owner \<or> bit everyone (flag_shift ADMINISTRATOR)
         \<or> (\<exists>rp \<in> set roles. bit rp (flag_shift ADMINISTRATOR))
      then PERMISSION_ALL else fold (\<lambda>rp perms. perms OR rp) roles everyone)"
  by (simp add: computeBasePermissions_def hasFlag_Permission bit_fold_or Let_def)

lemma channel_unrestricted:
  "unrestricted ctx \<Longrightarrow> computeChannelPermissions ctx = PERMISSION_ALL"
  by (auto simp: unrestricted_def base_bit_def computeChannelPermissions_def
      computeBasePermissions_admin Let_def)

lemma channel_restricted:
  assumes "\<not> unrestricted ctx"
  shows "bit (computeChannelPermissions ctx) i \<longleftrightarrow> channel_bit ctx i"
proof -
  let ?base = "computeBasePermissions False (everyoneRolePermissions ctx) (rolePermissions ctx)"
  have base: "bit ?base i \<longleftrightarrow> base_bit ctx i"
    using assms
    by (auto simp: unrestricted_def base_bit_def computeBasePermissions_cases bit_fold_or)
  have noadmin: "\<not> hasFlag ?base (Permission ADMINISTRATOR)" "\<not> isOwner ctx"
    using assms by (auto simp: unrestricted_def base_bit_def computeBasePermissions_admin)
  show ?thesis
    unfolding computeChannelPermissions_def channel_bit_def layer_def Let_def
    using noadmin
    by (simp add: base combine_overwrites_eq bit_simps bit_fold_or split: option.splits)
       (auto simp: base bit_simps bit_fold_or)
qed

section \<open>Properties\<close>

lemma bit_resolves: "bit (computeChannelPermissions ctx) i = resolved_bit ctx i"
  by (cases "unrestricted ctx")
     (simp_all add: resolved_bit_def channel_unrestricted channel_restricted bit_PERMISSION_ALL)

text \<open>
  C1. Channel permissions are resolved exactly by the documented rules: the owner and
  administrators get every flag; everybody else gets a bit if the user's own overwrite allows
  it, or does not deny it and the role overwrites allow it, or do not deny it and the everyone
  overwrite allows it, or does not deny it and some role grants it. Every bit of the returned
  integer is characterised.
\<close>
theorem computeChannelPermissions_resolves:
  "bit (computeChannelPermissions ctx) i \<longleftrightarrow> resolved_bit ctx i"
  by (rule bit_resolves)

text \<open>
  The resolution does not depend on the order in which the database returns the member's
  roles or the role overwrites, nor on duplicates among them.
\<close>
theorem computeChannelPermissions_order_independent:
  assumes "set (rolePermissions ctx) = set roles"
    and "roleChannelOverwrites ctx = Some os" and "set os = set os'"
  shows "computeChannelPermissions (ctx\<lparr>rolePermissions := roles, roleChannelOverwrites := Some os'\<rparr>)
    = computeChannelPermissions ctx"
proof (rule bit_eqI)
  fix i
  have "resolved_bit (ctx\<lparr>rolePermissions := roles, roleChannelOverwrites := Some os'\<rparr>) i
    = resolved_bit ctx i"
    using assms
    by (simp add: resolved_bit_def unrestricted_def base_bit_def channel_bit_def)
  then show "bit (computeChannelPermissions
        (ctx\<lparr>rolePermissions := roles, roleChannelOverwrites := Some os'\<rparr>)) i
    = bit (computeChannelPermissions ctx) i"
    by (simp add: bit_resolves)
qed

theorem computeChannelPermissions_order_independent_witness:
  "computeChannelPermissions
     \<lparr>isOwner = False, everyoneRolePermissions = 3, rolePermissions = [8, 4],
      everyoneChannelOverwrite = None,
      roleChannelOverwrites = Some [\<lparr>ow_allow = 0, ow_deny = 4\<rparr>, \<lparr>ow_allow = 4, ow_deny = 1\<rparr>],
      userChannelOverwrite = None\<rparr> =
   computeChannelPermissions
     \<lparr>isOwner = False, everyoneRolePermissions = 3, rolePermissions = [4, 8],
      everyoneChannelOverwrite = None,
      roleChannelOverwrites = Some [\<lparr>ow_allow = 4, ow_deny = 1\<rparr>, \<lparr>ow_allow = 0, ow_deny = 4\<rparr>],
      userChannelOverwrite = None\<rparr>"
  using computeChannelPermissions_order_independent
    [of "\<lparr>isOwner = False, everyoneRolePermissions = 3, rolePermissions = [4, 8],
          everyoneChannelOverwrite = None,
          roleChannelOverwrites = Some [\<lparr>ow_allow = 4, ow_deny = 1\<rparr>, \<lparr>ow_allow = 0, ow_deny = 4\<rparr>],
          userChannelOverwrite = None\<rparr>"
        "[8, 4]"
        "[\<lparr>ow_allow = 4, ow_deny = 1\<rparr>, \<lparr>ow_allow = 0, ow_deny = 4\<rparr>]"
        "[\<lparr>ow_allow = 0, ow_deny = 4\<rparr>, \<lparr>ow_allow = 4, ow_deny = 1\<rparr>]"]
  by (simp add: insert_commute)

lemma parse_show_permissions: "parsePermissions (PText (show_int perms)) = Some perms"
  using BigInt_show_int [of perms] by (auto simp: parsePermissions_def show_int_def)

text \<open>
  Permissions survive the trip through their wire form: the decimal string written by
  \<open>serializePermissions\<close> is read back by \<open>parsePermissions\<close> as the same integer.
\<close>
theorem parse_serialize_permissions:
  "parsePermissions (PText (serializePermissions perms)) = Some perms"
  unfolding serializePermissions_def by (rule parse_show_permissions)

end
