(* ===== verification/Bytes.thy ===== *)
theory Bytes
  imports JsText "HOL-Library.Word"
begin

text \<open>
  Bytes, and the text forms that Node's \<open>Buffer\<close> gives them: digits of an alphabet of \<open>2 ^ n\<close>
  characters, base 64, UTF-8. Strings of binary digits are lists of booleans.
\<close>

type_synonym byte = "8 word"

section \<open>Bits\<close>

text \<open>\<open>toString(2).padStart(n, '0')\<close> and \<open>parseInt(bits, 2)\<close>.\<close>

fun binary :: "nat \<Rightarrow> nat \<Rightarrow> bool list" where
  "binary 0 v = []"
| "binary (Suc n) v = binary n (v div 2) @ [odd v]"

definition bits_value :: "bool list \<Rightarrow> nat" where
  "bits_value bs = foldl (\<lambda>n b. 2 * n + of_bool b) 0 bs"

definition byte_bits :: "byte list \<Rightarrow> bool list" where
  "byte_bits buf = concat (map (\<lambda>b. binary 8 (unat b)) buf)"

text \<open>Digits of an alphabet of \<open>2 ^ n\<close> characters, the last chunk padded with zeros.\<close>

function encode_bits :: "nat \<Rightarrow> string \<Rightarrow> bool list \<Rightarrow> string" where
  "encode_bits n alphabet bits =
     (if bits = [] \<or> n = 0 then []
      else
        let chunk = take n bits @ replicate (n - length bits) False
        in alphabet ! bits_value chunk # encode_bits n alphabet (drop n bits))"
  by auto
termination
  by (relation "measure (\<lambda>(n, a, bits). length bits)") auto

declare encode_bits.simps [simp del]

fun index_of :: "char \<Rightarrow> string \<Rightarrow> nat option" where
  "index_of c [] = None"
| "index_of c (x # xs) = (if x = c then Some 0 else map_option Suc (index_of c xs))"

fun read_bytes :: "bool list \<Rightarrow> byte list" where
  "read_bytes (a # b # c # d # e # f # g # h # rest) =
     word_of_nat (bits_value [a, b, c, d, e, f, g, h]) # read_bytes rest"
| "read_bytes _ = []"

lemma length_binary [simp]: "length (binary n v) = n"
  by (induction n arbitrary: v) auto

lemma bits_value_snoc [simp]: "bits_value (bs @ [b]) = 2 * bits_value bs + of_bool b"
  by (simp add: bits_value_def)

lemma bits_value_Nil [simp]: "bits_value [] = 0"
  by (simp add: bits_value_def)

lemma bits_value_less: "bits_value bs < 2 ^ length bs"
  by (induction bs rule: rev_induct) (auto simp: of_bool_def)

lemma binary_bits_value: "binary (length bs) (bits_value bs) = bs"
  by (induction bs rule: rev_induct) auto

lemma bits_value_binary: "v < 2 ^ n \<Longrightarrow> bits_value (binary n v) = v"
proof (induction n arbitrary: v)
  case (Suc n)
  then have "v div 2 < 2 ^ n" by auto
  then show ?case by (simp add: Suc.IH)
qed simp

lemma encode_chars:
  "set (encode_bits n alphabet bits) \<subseteq> (\<lambda>v. alphabet ! v) ` {..<2 ^ n}"
proof (induction "length bits" arbitrary: bits rule: less_induct)
  case less
  let ?chunk = "take n bits @ replicate (n - length bits) False"
  have "bits_value ?chunk < 2 ^ n"
    using bits_value_less [of ?chunk] by (cases "length bits \<le> n") (auto simp: min_def)
  then show ?case
    using less [of "drop n bits"] by (subst encode_bits.simps) (auto simp: Let_def)
qed

lemma encode_bits_concat:
  assumes "0 < n" and "\<And>v. v < 2 ^ n \<Longrightarrow> f (alphabet ! v) = binary n v"
  shows "\<exists>pad. concat (map f (encode_bits n alphabet bits)) = bits @ pad \<and> length pad < n"
proof (induction "length bits" arbitrary: bits rule: less_induct)
  case less
  show ?case
  proof (cases "bits = []")
    case True
    then show ?thesis using assms(1) by (subst encode_bits.simps) simp
  next
    case False
    let ?chunk = "take n bits @ replicate (n - length bits) False" and ?rest = "encode_bits n alphabet (drop n bits)"
    have len: "length ?chunk = n" by simp
    have v: "bits_value ?chunk < 2 ^ n"
      using bits_value_less [of ?chunk] len by simp
    have inv: "binary n (bits_value ?chunk) = ?chunk"
      using binary_bits_value [of ?chunk] len by simp
    obtain pad where pad: "concat (map f ?rest) = drop n bits @ pad" "length pad < n"
      using less [of "drop n bits"] False assms(1) by auto
    have e: "encode_bits n alphabet bits = alphabet ! bits_value ?chunk # ?rest"
      using False assms(1) by (subst encode_bits.simps) (simp add: Let_def)
    have r: "concat (map f (encode_bits n alphabet bits)) = ?chunk @ drop n bits @ pad"
      by (simp add: e assms(2) [OF v] pad(1) inv)
    show ?thesis
    proof (cases "length bits < n")
      case True
      then have "?rest = []"
        by (subst encode_bits.simps) simp
      then have "pad = []" using pad(1) True by simp
      then show ?thesis
        using r True False by (intro exI [of _ "replicate (n - length bits) False"]) auto
    next
      case False
      then show ?thesis
        using r pad(2) by (intro exI [of _ pad]) (metis append.assoc append_Nil2 append_take_drop_id diff_is_0_eq' not_less replicate_0)
    qed
  qed
qed

lemma read_bytes_byte: "length xs = 8 \<Longrightarrow> read_bytes (xs @ ys) = word_of_nat (bits_value xs) # read_bytes ys"
  by (auto simp: numeral_eq_Suc length_Suc_conv)

lemma read_bytes_short: "length xs < 8 \<Longrightarrow> read_bytes xs = []"
  by (cases xs rule: read_bytes.cases) auto

lemma read_bytes_bits: "length pad < 8 \<Longrightarrow> read_bytes (byte_bits buf @ pad) = buf"
proof (induction buf)
  case (Cons b buf)
  have "unat b < 2 ^ 8"
    by (rule order_less_le_trans [OF unsigned_less]) simp
  then show ?case
    using Cons by (simp add: byte_bits_def read_bytes_byte bits_value_binary)
qed (simp add: byte_bits_def read_bytes_short)

section \<open>Base 64\<close>

text \<open>
  \<open>toString('base64')\<close>, and \<open>Buffer.from(s, 'base64')\<close>, which also reads the URL-safe
  alphabet and skips every character that is in neither.
\<close>

definition BASE64 :: string where
  "BASE64 = ''ABCDEFGHIJKLMNOPQRSTUVWXYZabcdefghijklmnopqrstuvwxyz0123456789+/''"

definition base64_text :: "byte list \<Rightarrow> string" where
  "base64_text buf =
     encode_bits 6 BASE64 (byte_bits buf) @ replicate ((3 - length buf mod 3) mod 3) (CHR ''='')"

definition base64_bits :: "char \<Rightarrow> bool list" where
  "base64_bits c =
     (case index_of (if c = CHR ''-'' then CHR ''+'' else if c = CHR ''_'' then CHR ''/'' else c) BASE64 of
        None \<Rightarrow> [] | Some idx \<Rightarrow> binary 6 idx)"

definition base64_bytes :: "string \<Rightarrow> byte list" where
  "base64_bytes s = read_bytes (concat (map base64_bits s))"

lemma base64_alphabet: "list_all (\<lambda>v. base64_bits (BASE64 ! v) = binary 6 v) [0..<64]"
  by (simp add: BASE64_def upt_rec base64_bits_def)

lemma base64_roundtrip: "base64_bytes (base64_text buf) = buf"
proof -
  have "base64_bits (BASE64 ! v) = binary 6 v" if "v < 2 ^ 6" for v
    using base64_alphabet that by (simp add: list_all_iff)
  then obtain pad where pad: "concat (map base64_bits (encode_bits 6 BASE64 (byte_bits buf))) = byte_bits buf @ pad" "length pad < 6"
    using encode_bits_concat [of 6 base64_bits BASE64 "byte_bits buf"] by auto
  have "base64_bits (CHR ''='') = []"
    by (simp add: base64_bits_def BASE64_def)
  then show ?thesis
    using pad by (simp add: base64_bytes_def base64_text_def read_bytes_bits)
qed

lemma base64_text_nonempty: "base64_text buf = [] \<longleftrightarrow> buf = []"
proof
  assume "base64_text buf = []"
  then show "buf = []" using base64_roundtrip [of buf] by (simp add: base64_bytes_def)
next
  show "buf = [] \<Longrightarrow> base64_text buf = []"
    by (simp add: base64_text_def byte_bits_def encode_bits.simps)
qed

section \<open>UTF-8\<close>

text \<open>\<open>Buffer.from(s, 'utf8')\<close> for code units below 256.\<close>

definition utf8_char :: "char \<Rightarrow> byte list" where
  "utf8_char c =
     (let n = (of_char c :: nat)
      in if n < 128 then [word_of_nat n] else [word_of_nat (192 + n div 64), word_of_nat (128 + n mod 64)])"

definition utf8 :: "string \<Rightarrow> byte list" where
  "utf8 s = concat (map utf8_char s)"

lemma utf8_char_split:
  assumes "utf8_char c @ x = utf8_char d @ y"
  shows "c = d \<and> x = y"
proof -
  have small: "unat (word_of_nat n :: byte) = n" if "n < 256" for n
    using that by (simp add: unat_of_nat take_bit_nat_eq_self)
  have b: "(of_char e :: nat) < 256" for e
    by simp
  have q: "(of_char e :: nat) div 64 < 4" for e
    using b [of e] by (intro less_mult_imp_div_less) simp
  have head: "\<exists>r. utf8_char e = word_of_nat h # r \<and> h < 256 \<and> (h < 128 \<longleftrightarrow> (of_char e :: nat) < 128)"
    if "h = (if (of_char e :: nat) < 128 then of_char e else 192 + of_char e div 64)" for e h
    using that q [of e] by (auto simp: utf8_char_def Let_def)
  let ?h = "\<lambda>e. if (of_char e :: nat) < 128 then of_char e else 192 + of_char e div 64 :: nat"
  obtain r r' where r: "utf8_char c = word_of_nat (?h c) # r" "utf8_char d = word_of_nat (?h d) # r'"
    and lt: "?h c < 256" "?h d < 256"
    using head [OF refl, of c] head [OF refl, of d] by blast
  have "unat (word_of_nat (?h c) :: byte) = unat (word_of_nat (?h d) :: byte)"
    using assms r by simp
  then have h: "?h c = ?h d"
    using small [OF lt(1)] small [OF lt(2)] by simp
  have "(of_char c :: nat) = of_char d \<and> x = y"
  proof (cases "(of_char c :: nat) < 128")
    case True
    then have "(of_char d :: nat) < 128" using h by (auto split: if_splits)
    then show ?thesis using True h assms by (simp add: utf8_char_def)
  next
    case False
    then have d: "\<not> (of_char d :: nat) < 128" using h by (auto split: if_splits)
    then have div: "(of_char c :: nat) div 64 = of_char d div 64" using h False by simp
    have "word_of_nat (128 + of_char c mod 64) = (word_of_nat (128 + of_char d mod 64) :: byte)" and xy: "x = y"
      using assms False d by (simp_all add: utf8_char_def Let_def)
    then have "unat (word_of_nat (128 + of_char c mod 64) :: byte) = unat (word_of_nat (128 + of_char d mod 64) :: byte)"
      by simp
    then have "(of_char c :: nat) mod 64 = of_char d mod 64"
      using small [of "128 + of_char c mod 64"] small [of "128 + of_char d mod 64"] by simp
    then show ?thesis using div xy by (metis div_mult_mod_eq)
  qed
  then show ?thesis by simp
qed

lemma utf8_inj: "utf8 s = utf8 t \<Longrightarrow> s = t"
proof (induction s arbitrary: t)
  case Nil
  then show ?case by (cases t) (auto simp: utf8_def utf8_char_def Let_def split: if_splits)
next
  case (Cons c s)
  then obtain d t' where t: "t = d # t'"
    by (cases t) (auto simp: utf8_def utf8_char_def Let_def split: if_splits)
  then show ?case
    using Cons utf8_char_split [of c "utf8 s" d "utf8 t'"] by (auto simp: utf8_def)
qed

end
