(* ===== verification/Database.thy ===== *)
theory Database
  imports Bytes
begin

text \<open>
  The tables (packages/db/prisma/schema.prisma) the modelled code reads and writes, with the
  columns it uses. Keys and unique indexes of the schema are the predicate \<open>db_ok\<close>.
\<close>

section \<open>Rows\<close>

datatype presence = Active | Idle | Dnd | Offline

datatype verification_level = VerNone | EmailVerified | AccountAge | MustPassGate

record user_row =
  usr_id :: ident
  usr_username :: string
  usr_displayName :: string
  usr_createdAt :: millis
  usr_emailVerifiedAt :: "millis option"
  usr_remoteUserId :: "string option"
  usr_remoteInstanceId :: "ident option"
  usr_presence :: presence
  usr_presenceUpdatedAt :: millis
  usr_manualDnd :: bool
  usr_customStatus :: "string option"
  usr_customStatusExpiresAt :: "millis option"
  usr_acceptsFederatedPresence :: bool

record server_row =
  srv_id :: ident
  srv_ownerUserId :: ident
  srv_name :: string
  srv_iconAttachmentId :: "ident option"
  srv_defaultRoleId :: "ident option"
  srv_federationEnabled :: bool
  srv_originInstanceId :: "ident option"
  srv_verificationLevel :: verification_level
  srv_verificationMinAccountAgeHours :: int
  srv_modLogChannelId :: "ident option"

record member_row =
  mem_serverId :: ident
  mem_userId :: ident
  mem_gatePassedAt :: "millis option"

record role_row =
  rol_id :: ident
  rol_serverId :: ident
  rol_name :: string
  rol_permissions :: int
  rol_position :: int

record member_role_row =
  mr_serverId :: ident
  mr_userId :: ident
  mr_roleId :: ident

datatype federation_mode = Inherit | ForceOn | ForceOff

record channel_row =
  chn_id :: ident
  chn_serverId :: ident
  chn_federationMode :: federation_mode

datatype overwrite_target = TargetRole | TargetUser

record overwrite_row =
  pov_channelId :: ident
  pov_targetType :: overwrite_target
  pov_targetId :: ident
  pov_allow :: int
  pov_deny :: int

record ban_row =
  ban_serverId :: ident
  ban_userId :: ident
  ban_bannedByUserId :: "ident option"
  ban_reason :: "string option"
  ban_expiresAt :: "millis option"
  ban_createdAt :: millis

record voice_row =
  voi_serverId :: ident
  voi_userId :: ident
  voi_channelId :: "ident option"
  voi_selfMute :: bool
  voi_selfDeaf :: bool
  voi_cameraOn :: bool
  voi_screenSharing :: bool
  voi_joinedAt :: "millis option"

record message_row =
  msg_id :: ident
  msg_serverId :: "ident option"
  msg_channelId :: "ident option"
  msg_authorId :: ident
  msg_system :: bool
  msg_content :: string
  msg_createdAt :: millis
  msg_deletedAt :: "millis option"

record block_row =
  blk_blockerId :: ident
  blk_blockedId :: ident
  blk_createdAt :: millis

datatype dm_kind = Direct | Group

record dm_channel_row =
  dmc_id :: ident
  dmc_kind :: dm_kind
  dmc_name :: "string option"
  dmc_createdById :: "ident option"
  dmc_createdAt :: millis
  dmc_lastMessageAt :: "millis option"
  dmc_pairKey :: "string option"

record dm_member_row =
  dmm_dmChannelId :: ident
  dmm_userId :: ident
  dmm_joinedAt :: millis
  dmm_lastReadAt :: "millis option"

datatype instance_status = PendingInbound | PendingOutbound | Peered | Revoked | Blocked

record remote_instance_row =
  rin_id :: ident
  rin_host :: string
  rin_status :: instance_status
  rin_capabilities :: "string list"
  rin_instanceKey :: "byte list"
  rin_previousInstanceKey :: "byte list option"

datatype metadata_value = MetaText string | MetaTime millis | MetaNumber int | MetaNull

record audit_row =
  aud_id :: ident
  aud_serverId :: "ident option"
  aud_actorId :: "ident option"
  aud_action :: string
  aud_targetType :: "string option"
  aud_targetId :: "string option"
  aud_metadata :: "(string, metadata_value) jsmap option"

record session_row =
  ses_id :: ident
  ses_userId :: ident
  ses_expiresAt :: millis
  ses_revokedAt :: "millis option"

section \<open>The database\<close>

record db =
  db_users :: "user_row list"
  db_servers :: "server_row list"
  db_members :: "member_row list"
  db_roles :: "role_row list"
  db_member_roles :: "member_role_row list"
  db_channels :: "channel_row list"
  db_overwrites :: "overwrite_row list"
  db_bans :: "ban_row list"
  db_voice_states :: "voice_row list"
  db_messages :: "message_row list"
  db_blocks :: "block_row list"
  db_dm_channels :: "dm_channel_row list"
  db_dm_members :: "dm_member_row list"
  db_remote_instances :: "remote_instance_row list"
  db_sessions :: "session_row list"
  db_audit :: "audit_row list"

definition find_user :: "db \<Rightarrow> ident \<Rightarrow> user_row option" where
  "find_user d u = List.find (\<lambda>r. usr_id r = u) (db_users d)"

definition find_server :: "db \<Rightarrow> ident \<Rightarrow> server_row option" where
  "find_server d s = List.find (\<lambda>r. srv_id r = s) (db_servers d)"

definition find_member :: "db \<Rightarrow> ident \<Rightarrow> ident \<Rightarrow> member_row option" where
  "find_member d s u = List.find (\<lambda>r. mem_serverId r = s \<and> mem_userId r = u) (db_members d)"

definition find_role :: "db \<Rightarrow> ident \<Rightarrow> role_row option" where
  "find_role d r = List.find (\<lambda>x. rol_id x = r) (db_roles d)"

definition find_channel :: "db \<Rightarrow> ident \<Rightarrow> channel_row option" where
  "find_channel d c = List.find (\<lambda>r. chn_id r = c) (db_channels d)"

definition find_ban :: "db \<Rightarrow> ident \<Rightarrow> ident \<Rightarrow> ban_row option" where
  "find_ban d s u = List.find (\<lambda>r. ban_serverId r = s \<and> ban_userId r = u) (db_bans d)"

definition find_session :: "db \<Rightarrow> ident \<Rightarrow> session_row option" where
  "find_session d i = List.find (\<lambda>r. ses_id r = i) (db_sessions d)"

lemmas find_defs =
  find_user_def find_server_def find_member_def find_role_def find_channel_def find_ban_def
  find_session_def

text \<open>Primary keys are unique, identifiers are not empty (every key is a generated ULID).\<close>

definition db_ok :: "db \<Rightarrow> bool" where
  "db_ok d \<longleftrightarrow>
     distinct (map usr_id (db_users d)) \<and>
     distinct (map srv_id (db_servers d)) \<and> (\<forall>s \<in> set (db_servers d). srv_id s \<noteq> []) \<and>
     distinct (map (\<lambda>m. (mem_serverId m, mem_userId m)) (db_members d)) \<and>
     distinct (map rol_id (db_roles d)) \<and>
     distinct (map chn_id (db_channels d)) \<and>
     (\<forall>c \<in> set (db_channels d). chn_serverId c \<in> srv_id ` set (db_servers d)) \<and>
     distinct (map (\<lambda>b. (ban_serverId b, ban_userId b)) (db_bans d)) \<and>
     distinct (map (\<lambda>b. (blk_blockerId b, blk_blockedId b)) (db_blocks d)) \<and>
     distinct (map dmc_id (db_dm_channels d))"

definition empty_db :: db where
  "empty_db = \<lparr>db_users = [], db_servers = [], db_members = [], db_roles = [],
     db_member_roles = [], db_channels = [], db_overwrites = [], db_bans = [],
     db_voice_states = [], db_messages = [], db_blocks = [], db_dm_channels = [],
     db_dm_members = [], db_remote_instances = [], db_sessions = [],
     db_audit = []\<rparr>"

end
