(* ===== verification/Errors.thy ===== *)
theory Errors
  imports Prelude
begin

text \<open>
  The error vocabulary of the API (packages/shared/src/errors.ts): the codes, the
  \<open>TavernError\<close> class and its named constructors with their default messages.
\<close>

datatype (plugins only: code) error_code =
    INTERNAL_ERROR | VALIDATION_ERROR | NOT_FOUND | RATE_LIMITED | CONFLICT
  | PAYLOAD_TOO_LARGE | UNSUPPORTED_MEDIA_TYPE
  | UNAUTHORIZED | PERMISSION_DENIED | INVALID_CREDENTIALS | INVALID_TOKEN | EXPIRED_TOKEN
  | INVALID_INVITE | INVALID_RESET_TOKEN | WEBAUTHN_VERIFICATION_FAILED
  | WEBAUTHN_CHALLENGE_EXPIRED | REGISTRATION_DISABLED | USERNAME_TAKEN | EMAIL_TAKEN
  | CHANNEL_HIDDEN | WRONG_CHANNEL_TYPE | CHANNEL_READ_ONLY | SLOWMODE_ACTIVE
  | MEMBER_TIMED_OUT | ROLE_HIERARCHY | MEMBER_BANNED | GATE_PENDING | VERIFICATION_REQUIRED
  | UPLOAD_BLOCKED | UPLOAD_QUARANTINED | UPLOAD_NOT_READY | SCANNER_UNAVAILABLE
  | INVALID_DICE_NOTATION | CAMPAIGN_LOCKED
  | CONTENT_HELD | ACCOUNT_LOCKED
  | VOICE_UNAVAILABLE | VOICE_STATE_STALE

record tavern_error =
  err_code :: error_code
  err_message :: string
  err_status :: nat
  err_details :: "string option"

definition TavernError :: "error_code \<Rightarrow> string \<Rightarrow> nat \<Rightarrow> string option \<Rightarrow> tavern_error" where
  "TavernError code message status details =
     \<lparr>err_code = code, err_message = message, err_status = status, err_details = details\<rparr>"

record api_error_body =
  body_ok :: bool
  body_code :: error_code
  body_message :: string
  body_details :: "string option"

definition toJSON :: "tavern_error \<Rightarrow> api_error_body" where
  "toJSON e = \<lparr>body_ok = False, body_code = err_code e, body_message = err_message e,
               body_details = err_details e\<rparr>"

text \<open>An omitted message is \<^const>\<open>None\<close> and selects the default.\<close>

definition unauthorized :: "string option \<Rightarrow> tavern_error" where
  "unauthorized m = TavernError UNAUTHORIZED (get_or ''Authentication required'' m) 401 None"

definition forbidden :: "string option \<Rightarrow> tavern_error" where
  "forbidden m = TavernError PERMISSION_DENIED (get_or ''You do not have permission'' m) 403 None"

definition notFound :: "string option \<Rightarrow> tavern_error" where
  "notFound m = TavernError NOT_FOUND (get_or ''Not found'' m) 404 None"

definition conflict :: "error_code \<Rightarrow> string \<Rightarrow> tavern_error" where
  "conflict code m = TavernError code m 409 None"

definition validation :: "string option \<Rightarrow> string option \<Rightarrow> tavern_error" where
  "validation m details = TavernError VALIDATION_ERROR (get_or ''Invalid input'' m) 400 details"

definition rateLimited :: "string option \<Rightarrow> tavern_error" where
  "rateLimited m = TavernError RATE_LIMITED (get_or ''Too many requests'' m) 429 None"

definition internal :: "string option \<Rightarrow> tavern_error" where
  "internal m = TavernError INTERNAL_ERROR (get_or ''Internal server error'' m) 500 None"

lemmas error_defs =
  TavernError_def unauthorized_def forbidden_def notFound_def conflict_def validation_def
  rateLimited_def internal_def

end
