(* ===== verification/PermissionService.thy ===== *)
theory PermissionService
  imports Permissions Database Errors
begin

text \<open>
  Permission decisions over the database (apps/api/src/services/permissions-service.ts): the
  member context, server and channel permissions, the guards that throw, the batched channel
  filter, and the role hierarchy.
\<close>

section \<open>Member context\<close>

record member_info =
  mi_isOwner :: bool
  mi_everyonePerms :: int
  mi_rolePerms :: "int list"
  mi_roleIds :: "ident list"
  mi_everyoneRoleId :: "ident option"

text \<open>A permission column is written out as a decimal string and parsed.\<close>

definition column_permissions :: "int \<Rightarrow> int" where
  "column_permissions p = get_or 0 (parsePermissions (PText (show_int p)))"

definition member_roles_of :: "db \<Rightarrow> ident \<Rightarrow> ident \<Rightarrow> role_row list" where
  "member_roles_of d serverId userId =
     List.map_filter (\<lambda>a. find_role d (mr_roleId a))
       (filter (\<lambda>a. mr_serverId a = serverId \<and> mr_userId a = userId) (db_member_roles d))"

definition loadMemberContext :: "db \<Rightarrow> ident \<Rightarrow> ident \<Rightarrow> member_info option" where
  "loadMemberContext d serverId userId =
     (case find_server d serverId of
        None \<Rightarrow> None
      | Some server \<Rightarrow>
          let isOwner = (srv_ownerUserId server = userId);
              member = find_member d serverId userId
          in if member = None \<and> \<not> isOwner then None
             else
               let everyonePerms =
                     (case Option.bind (srv_defaultRoleId server) (find_role d) of
                        None \<Rightarrow> PERMISSION_NONE
                      | Some r \<Rightarrow> column_permissions (rol_permissions r));
                   memberRoles = (if member = None then [] else member_roles_of d serverId userId)
               in Some \<lparr>mi_isOwner = isOwner,
                        mi_everyonePerms = everyonePerms,
                        mi_rolePerms = map (\<lambda>r. column_permissions (rol_permissions r)) memberRoles,
                        mi_roleIds = map rol_id memberRoles,
                        mi_everyoneRoleId = srv_defaultRoleId server\<rparr>)"

definition getServerPermissions :: "db \<Rightarrow> ident \<Rightarrow> ident \<Rightarrow> int" where
  "getServerPermissions d serverId userId =
     (case loadMemberContext d serverId userId of
        None \<Rightarrow> PERMISSION_NONE
      | Some ctx \<Rightarrow>
          computeBasePermissions (mi_isOwner ctx) (mi_everyonePerms ctx) (mi_rolePerms ctx))"

section \<open>Channel permissions\<close>

record collected =
  col_everyone :: "resolved_overwrite option"
  col_user :: "resolved_overwrite option"
  col_roles :: "resolved_overwrite list"

definition collect_overwrite ::
    "member_info \<Rightarrow> ident \<Rightarrow> overwrite_row \<Rightarrow> collected \<Rightarrow> collected" where
  "collect_overwrite ctx userId row c =
     (let ow = \<lparr>ow_allow = column_permissions (pov_allow row),
                ow_deny = column_permissions (pov_deny row)\<rparr>
      in if pov_targetType row = TargetRole then
           if Some (pov_targetId row) = mi_everyoneRoleId ctx then c\<lparr>col_everyone := Some ow\<rparr>
           else if pov_targetId row \<in> set (mi_roleIds ctx) then c\<lparr>col_roles := col_roles c @ [ow]\<rparr>
           else c
         else if pov_targetType row = TargetUser \<and> pov_targetId row = userId
              then c\<lparr>col_user := Some ow\<rparr>
         else c)"

definition collect_overwrites ::
    "member_info \<Rightarrow> ident \<Rightarrow> overwrite_row list \<Rightarrow> collected" where
  "collect_overwrites ctx userId rows =
     fold (collect_overwrite ctx userId) rows \<lparr>col_everyone = None, col_user = None, col_roles = []\<rparr>"

definition permissions_with ::
    "member_info \<Rightarrow> ident \<Rightarrow> overwrite_row list \<Rightarrow> int" where
  "permissions_with ctx userId rows =
     (let c = collect_overwrites ctx userId rows
      in computeChannelPermissions
           \<lparr>isOwner = False, everyoneRolePermissions = mi_everyonePerms ctx,
            rolePermissions = mi_rolePerms ctx, everyoneChannelOverwrite = col_everyone c,
            roleChannelOverwrites = Some (col_roles c), userChannelOverwrite = col_user c\<rparr>)"

definition getChannelPermissions :: "db \<Rightarrow> ident \<Rightarrow> ident \<Rightarrow> (int \<times> ident) option" where
  "getChannelPermissions d channelId userId =
     (case find_channel d channelId of
        None \<Rightarrow> None
      | Some channel \<Rightarrow>
          (case loadMemberContext d (chn_serverId channel) userId of
             None \<Rightarrow> Some (PERMISSION_NONE, chn_serverId channel)
           | Some ctx \<Rightarrow>
               if mi_isOwner ctx then Some (PERMISSION_ALL, chn_serverId channel)
               else
                 let overwrites = filter (\<lambda>r. pov_channelId r = channelId) (db_overwrites d)
                 in Some (permissions_with ctx userId overwrites, chn_serverId channel)))"

definition requireServerPermission ::
    "db \<Rightarrow> ident \<Rightarrow> ident \<Rightarrow> int \<Rightarrow> tavern_error + int" where
  "requireServerPermission d serverId userId flag =
     (let perms = getServerPermissions d serverId userId
      in if perms AND Permission ADMINISTRATOR = Permission ADMINISTRATOR then Inr perms
         else if perms AND flag \<noteq> flag then Inl (forbidden None)
         else Inr perms)"

definition requireChannelPermission ::
    "db \<Rightarrow> ident \<Rightarrow> ident \<Rightarrow> int \<Rightarrow> tavern_error + (int \<times> ident)" where
  "requireChannelPermission d channelId userId flag =
     (case getChannelPermissions d channelId userId of
        None \<Rightarrow> Inl (notFound (Some ''Channel not found''))
      | Some result \<Rightarrow>
          if fst result AND Permission ADMINISTRATOR \<noteq> Permission ADMINISTRATOR
             \<and> fst result AND flag \<noteq> flag
          then if flag = Permission VIEW_CHANNEL
               then Inl (notFound (Some ''Channel not found''))
               else Inl (forbidden None)
          else Inr result)"

section \<open>Filtering a channel list\<close>

definition viewable :: "int \<Rightarrow> bool" where
  "viewable perms \<longleftrightarrow>
     perms AND Permission ADMINISTRATOR = Permission ADMINISTRATOR
     \<or> perms AND Permission VIEW_CHANNEL = Permission VIEW_CHANNEL"

definition group_overwrites ::
    "overwrite_row list \<Rightarrow> (ident, overwrite_row list) jsmap" where
  "group_overwrites rows =
     fold (\<lambda>r m. map_set (pov_channelId r) (get_or [] (map_get m (pov_channelId r)) @ [r]) m) rows []"

definition filterVisibleChannels :: "db \<Rightarrow> ('c \<Rightarrow> ident) \<Rightarrow> 'c list \<Rightarrow> ident \<Rightarrow> 'c list" where
  "filterVisibleChannels d cid channels userId =
     (if length channels = 0 then []
      else
        let channelIds = map cid channels;
            channelRows = filter (\<lambda>r. chn_id r \<in> set channelIds) (db_channels d);
            serverIds = remdups (map chn_serverId channelRows)
        in if length serverIds \<noteq> 1 \<or> length channelRows \<noteq> length channels then
             filter (\<lambda>c. case getChannelPermissions d (cid c) userId of
                           None \<Rightarrow> False
                         | Some result \<Rightarrow> viewable (fst result)) channels
           else
             let serverId = hd serverIds
             in if serverId = [] then []
                else (case loadMemberContext d serverId userId of
                        None \<Rightarrow> []
                      | Some ctx \<Rightarrow>
                          if mi_isOwner ctx then channels
                          else
                            let allOverwrites =
                                  filter (\<lambda>r. pov_channelId r \<in> set channelIds) (db_overwrites d);
                                overwritesByChannel = group_overwrites allOverwrites
                            in filter (\<lambda>c.
                                 let overwrites = get_or [] (map_get overwritesByChannel (cid c))
                                 in viewable (permissions_with ctx userId overwrites)) channels))"

section \<open>Role hierarchy\<close>

definition permsToString :: "int \<Rightarrow> string" where
  "permsToString p = show_int p"

datatype position = Finite int | PositiveInfinity

fun at_or_above :: "int \<Rightarrow> position \<Rightarrow> bool" where  \<comment> \<open>\<open>position >= max\<close>\<close>
  "at_or_above p (Finite m) = (p \<ge> m)"
| "at_or_above p PositiveInfinity = False"

record actor_context =
  act_isOwner :: bool
  act_maxRolePosition :: position
  act_effectivePerms :: int

definition getActorRoleContext :: "db \<Rightarrow> ident \<Rightarrow> ident \<Rightarrow> actor_context option" where
  "getActorRoleContext d serverId userId =
     (case loadMemberContext d serverId userId of
        None \<Rightarrow> None
      | Some ctx \<Rightarrow>
          if mi_isOwner ctx then
            Some \<lparr>act_isOwner = True, act_maxRolePosition = PositiveInfinity,
                  act_effectivePerms = PERMISSION_ALL\<rparr>
          else
            let maxRolePosition =
                  (if length (mi_roleIds ctx) > 0 then
                     fold (\<lambda>r m. if rol_position r > m then rol_position r else m)
                       (filter (\<lambda>r. rol_id r \<in> set (mi_roleIds ctx)) (db_roles d)) 0
                   else 0)
            in Some \<lparr>act_isOwner = False, act_maxRolePosition = Finite maxRolePosition,
                     act_effectivePerms =
                       computeBasePermissions False (mi_everyonePerms ctx) (mi_rolePerms ctx)\<rparr>)"

record target_role =
  tr_position :: int
  tr_permissions :: int

fun check_targets :: "actor_context \<Rightarrow> target_role list \<Rightarrow> tavern_error + unit" where
  "check_targets actor [] = Inr ()"
| "check_targets actor (role # rs) =
     (if at_or_above (tr_position role) (act_maxRolePosition actor) then
        Inl (TavernError ROLE_HIERARCHY
               ''Cannot manage a role at or above your own highest role'' 403 None)
      else if tr_permissions role AND NOT (act_effectivePerms actor) \<noteq> PERMISSION_NONE then
        Inl (TavernError ROLE_HIERARCHY
               ''Cannot grant permissions you do not yourself hold'' 403 None)
      else check_targets actor rs)"

definition requireRoleHierarchy ::
    "db \<Rightarrow> ident \<Rightarrow> ident \<Rightarrow> target_role list \<Rightarrow> tavern_error + unit" where
  "requireRoleHierarchy d serverId actorUserId targetRoles =
     (case getActorRoleContext d serverId actorUserId of
        None \<Rightarrow> Inl (forbidden None)
      | Some actor \<Rightarrow> if act_isOwner actor then Inr () else check_targets actor targetRoles)"

section \<open>Lemmas\<close>

lemma column_permissions_id [simp]: "column_permissions p = p"
  by (simp add: column_permissions_def parse_show_permissions)

lemma viewable_iff:
  "viewable perms \<longleftrightarrow>
     hasFlag perms (Permission ADMINISTRATOR) \<or> hasFlag perms (Permission VIEW_CHANNEL)"
  by (simp add: viewable_def hasFlag_def)

lemma viewable_simps [simp]: "viewable PERMISSION_ALL" "\<not> viewable PERMISSION_NONE"
  by (simp_all add: viewable_iff hasFlag_PERMISSION_ALL)
     (simp add: hasFlag_Permission PERMISSION_NONE_def)

lemma group_overwrites_get:
  "get_or [] (map_get (group_overwrites rows) c) = filter (\<lambda>r. pov_channelId r = c) rows"
proof -
  have "get_or [] (map_get (fold (\<lambda>r m. map_set (pov_channelId r)
          (get_or [] (map_get m (pov_channelId r)) @ [r]) m) rows m) c) =
        get_or [] (map_get m c) @ filter (\<lambda>r. pov_channelId r = c) rows" for m
    by (induction rows arbitrary: m) auto
  then show ?thesis by (simp add: group_overwrites_def)
qed

text \<open>Whether one channel is visible, channel by channel.\<close>

definition channel_visible :: "db \<Rightarrow> ident \<Rightarrow> ident \<Rightarrow> bool" where
  "channel_visible d userId c \<longleftrightarrow>
     (case getChannelPermissions d c userId of None \<Rightarrow> False | Some result \<Rightarrow> viewable (fst result))"

lemma channel_visible_eq:
  assumes "find_channel d c = Some ch"
  shows "channel_visible d userId c \<longleftrightarrow>
    (case loadMemberContext d (chn_serverId ch) userId of
       None \<Rightarrow> False
     | Some ctx \<Rightarrow> mi_isOwner ctx \<or>
         viewable (permissions_with ctx userId (filter (\<lambda>r. pov_channelId r = c) (db_overwrites d))))"
  using assms
  by (simp add: channel_visible_def getChannelPermissions_def split: option.splits)

lemma find_channel_ok:
  assumes "db_ok d" and "r \<in> set (db_channels d)"
  shows "find_channel d (chn_id r) = Some r"
  using assms find_unique_key [where kf = chn_id and rows = "db_channels d" and r = r]
  by (simp add: find_channel_def db_ok_def)

lemma all_rows_found:
  assumes ok: "db_ok d"
    and len: "length (filter (\<lambda>r. chn_id r \<in> set ids) (db_channels d)) = length ids"
  shows "set ids = chn_id ` set (filter (\<lambda>r. chn_id r \<in> set ids) (db_channels d))"
proof -
  let ?rows = "filter (\<lambda>r. chn_id r \<in> set ids) (db_channels d)"
  have "distinct (map chn_id ?rows)"
    using ok by (simp add: db_ok_def distinct_map_filter)
  then have "card (chn_id ` set ?rows) = length ids"
    using len distinct_card [of "map chn_id ?rows"] by simp
  moreover have sub: "chn_id ` set ?rows \<subseteq> set ids" by auto
  moreover have "card (set ids) \<le> length ids" by (rule card_length)
  ultimately have "chn_id ` set ?rows = set ids"
    by (metis List.finite_set card_seteq)
  then show ?thesis by simp
qed

lemma singleton_serverIds:
  assumes "length (remdups xs) = 1" and "x \<in> set xs"
  shows "x = hd (remdups xs)"
proof -
  from assms(1) obtain y where y: "remdups xs = [y]"
    by (cases "remdups xs") auto
  then have "set xs = {y}"
    by (metis empty_set list.simps(15) set_remdups)
  with assms(2) y show ?thesis by simp
qed

lemma filterVisible_batched:
  assumes ok: "db_ok d" and found: "find_channel d k = Some ch"
    and server: "chn_serverId ch = s" and ctx: "loadMemberContext d s userId = Some ctx"
    and notowner: "\<not> mi_isOwner ctx" and mem: "k \<in> set ids"
  shows "viewable (permissions_with ctx userId
      (get_or [] (map_get (group_overwrites
        (filter (\<lambda>r. pov_channelId r \<in> set ids) (db_overwrites d))) k)))
    \<longleftrightarrow> channel_visible d userId k"
proof -
  have "filter (\<lambda>r. pov_channelId r = k) (filter (\<lambda>r. pov_channelId r \<in> set ids) (db_overwrites d))
    = filter (\<lambda>r. pov_channelId r = k) (db_overwrites d)"
    using mem by (auto intro: filter_cong)
  then show ?thesis
    using assms by (simp add: group_overwrites_get channel_visible_eq)
qed

text \<open>
  C2. The batched \<open>filterVisibleChannels\<close> (one member context, one overwrite query) returns
  exactly the channels, in their order, that the per-channel permission resolution shows to
  the user, for every input list.
\<close>
theorem filterVisibleChannels_correct:
  assumes ok: "db_ok d"
  shows "filterVisibleChannels d cid channels userId =
    filter (\<lambda>c. channel_visible d userId (cid c)) channels"
proof -
  let ?ids = "map cid channels"
  let ?rows = "filter (\<lambda>r. chn_id r \<in> set ?ids) (db_channels d)"
  let ?sids = "remdups (map chn_serverId ?rows)"
  show ?thesis
  proof (cases "channels = [] \<or> length ?sids \<noteq> 1 \<or> length ?rows \<noteq> length channels")
    case True
    then show ?thesis
      by (auto simp: filterVisibleChannels_def channel_visible_def Let_def)
  next
    case False
    then have one: "length ?sids = 1" and len: "length ?rows = length ?ids" and ne: "channels \<noteq> []"
      by auto
    let ?s = "hd ?sids"
    have row: "\<exists>ch. find_channel d (cid c) = Some ch \<and> chn_serverId ch = ?s"
      if "c \<in> set channels" for c
    proof -
      from all_rows_found [OF ok len] that obtain r where r: "r \<in> set ?rows" "chn_id r = cid c"
        by (metis (no_types, lifting) image_iff list.set_map imageI)
      then have "chn_serverId r = ?s"
        using singleton_serverIds [OF one, of "chn_serverId r"] by simp
      moreover from r have "find_channel d (cid c) = Some r"
        using find_channel_ok [OF ok, of r] by simp
      ultimately show ?thesis by blast
    qed
    from ne obtain c0 where "c0 \<in> set channels" by (cases channels) auto
    with row obtain ch0 where "find_channel d (cid c0) = Some ch0" "chn_serverId ch0 = ?s" by blast
    moreover from this have "ch0 \<in> set (db_channels d)"
      by (auto simp: find_channel_def dest: find_in_set)
    ultimately have "?s \<noteq> []"
      using ok by (force simp: db_ok_def)
    moreover have "viewable (permissions_with ctx userId (get_or [] (map_get (group_overwrites
        (filter (\<lambda>r. pov_channelId r \<in> set ?ids) (db_overwrites d))) (cid c))))
      = channel_visible d userId (cid c)"
      if "c \<in> set channels" "loadMemberContext d ?s userId = Some ctx" "\<not> mi_isOwner ctx" for c ctx
    proof -
      from row [OF that(1)] obtain ch
        where "find_channel d (cid c) = Some ch" "chn_serverId ch = ?s" by blast
      from filterVisible_batched [OF ok this that(2,3), of ?ids] that(1) show ?thesis by simp
    qed
    moreover have "channel_visible d userId (cid c)"
      if "c \<in> set channels" "loadMemberContext d ?s userId = Some ctx" "mi_isOwner ctx" for c ctx
      using row [OF that(1)] that by (auto simp: channel_visible_eq)
    moreover have "\<not> channel_visible d userId (cid c)"
      if "c \<in> set channels" "loadMemberContext d ?s userId = None" for c
      using row [OF that(1)] that by (auto simp: channel_visible_eq)
    ultimately show ?thesis
      using False
      by (auto simp: filterVisibleChannels_def Let_def intro!: filter_cong
          split: option.splits)
  qed
qed

definition sample_db :: db where
  "sample_db = empty_db\<lparr>
     db_servers := [\<lparr>srv_id = ''S'', srv_ownerUserId = ''olga'', srv_name = ''inn'',
        srv_iconAttachmentId = None, srv_defaultRoleId = Some ''everyone'',
        srv_federationEnabled = False, srv_originInstanceId = None,
        srv_verificationLevel = VerNone, srv_verificationMinAccountAgeHours = 0,
        srv_modLogChannelId = None\<rparr>],
     db_members := [\<lparr>mem_serverId = ''S'', mem_userId = ''ann'', mem_gatePassedAt = None\<rparr>],
     db_roles := [\<lparr>rol_id = ''everyone'', rol_serverId = ''S'', rol_name = ''everyone'',
                   rol_permissions = 3, rol_position = 0\<rparr>,
                  \<lparr>rol_id = ''mod'', rol_serverId = ''S'', rol_name = ''mod'',
                   rol_permissions = 2056, rol_position = 5\<rparr>],
     db_member_roles := [\<lparr>mr_serverId = ''S'', mr_userId = ''ann'', mr_roleId = ''mod''\<rparr>],
     db_channels := [\<lparr>chn_id = ''hall'', chn_serverId = ''S'', chn_federationMode = Inherit\<rparr>,
                     \<lparr>chn_id = ''cellar'', chn_serverId = ''S'', chn_federationMode = Inherit\<rparr>],
     db_overwrites := [\<lparr>pov_channelId = ''cellar'', pov_targetType = TargetRole,
                        pov_targetId = ''everyone'', pov_allow = 0, pov_deny = 1\<rparr>]\<rparr>"

lemma sample_db_ok: "db_ok sample_db"
  by (simp add: db_ok_def sample_db_def empty_db_def)

lemmas sample_simps =
  sample_db_def empty_db_def find_defs loadMemberContext_def member_roles_of_def
  getServerPermissions_def PERMISSION_NONE_def computeBasePermissions_cases
  getActorRoleContext_def List.map_filter_def

lemma sample_member:
  "loadMemberContext sample_db ''S'' ''ann'' =
     Some \<lparr>mi_isOwner = False, mi_everyonePerms = 3, mi_rolePerms = [2056], mi_roleIds = [''mod''],
           mi_everyoneRoleId = Some ''everyone''\<rparr>"
  by (simp add: sample_simps)

lemma sample_overwrites:
  "db_overwrites sample_db = [\<lparr>pov_channelId = ''cellar'', pov_targetType = TargetRole,
     pov_targetId = ''everyone'', pov_allow = 0, pov_deny = 1\<rparr>]"
  by (simp add: sample_db_def)

lemma sample_channel:
  "c \<in> {''cellar'', ''hall''} \<Longrightarrow> find_channel sample_db c =
     Some \<lparr>chn_id = c, chn_serverId = ''S'', chn_federationMode = Inherit\<rparr>"
  by (auto simp: sample_simps)

lemmas resolve_simps =
  channel_visible_eq permissions_with_def collect_overwrites_def collect_overwrite_def
  viewable_iff hasFlag_Permission bit_resolves resolved_bit_def unrestricted_def base_bit_def
  channel_bit_def layer_def

lemma sample_hidden:
  "channel_visible sample_db ''ann'' ''cellar'' = False"
  "channel_visible sample_db ''ann'' ''hall'' = True"
  by (simp_all add: resolve_simps sample_channel sample_member sample_overwrites)

theorem filterVisibleChannels_correct_witness:
  "filterVisibleChannels sample_db id [''cellar'', ''hall''] ''ann'' = [''hall'']"
  using filterVisibleChannels_correct [OF sample_db_ok, of id "[''cellar'', ''hall'']" "''ann''"]
  by (simp add: sample_hidden)

text \<open>
  A channel the caller may not view and a channel that does not exist are
  indistinguishable: asking for \<open>VIEW_CHANNEL\<close> either succeeds with the resolved permissions
  or fails with the same 404 error.
\<close>
theorem requireChannelPermission_no_leak:
  "requireChannelPermission d c userId (Permission VIEW_CHANNEL) =
     (if channel_visible d userId c then Inr (the (getChannelPermissions d c userId))
      else Inl (notFound (Some ''Channel not found'')))"
  by (auto simp: requireChannelPermission_def channel_visible_def viewable_def
      split: option.splits)

lemma fold_max_position:
  "p < fold (\<lambda>r m. if rol_position r > m then rol_position r else m) rs m0 \<longleftrightarrow>
     p < m0 \<or> (\<exists>r \<in> set rs. p < rol_position r)"
  by (induction rs arbitrary: m0) auto

lemma check_targets_ok:
  assumes "act_maxRolePosition actor = Finite m"
  shows "check_targets actor ts = Inr () \<longleftrightarrow>
    (\<forall>t \<in> set ts. tr_position t < m \<and>
       (\<forall>i. bit (tr_permissions t) i \<longrightarrow> bit (act_effectivePerms actor) i))"
proof (induction ts)
  case (Cons t ts)
  have "tr_permissions t AND NOT (act_effectivePerms actor) = PERMISSION_NONE \<longleftrightarrow>
      (\<forall>i. bit (tr_permissions t) i \<longrightarrow> bit (act_effectivePerms actor) i)"
    by (auto simp: bit_eq_iff bit_simps PERMISSION_NONE_def)
  with Cons assms show ?case by auto
qed simp

definition outranks :: "db \<Rightarrow> member_info \<Rightarrow> int \<Rightarrow> bool" where
  "outranks d ctx p \<longleftrightarrow>
     p < 0 \<or> (\<exists>r \<in> set (db_roles d). rol_id r \<in> set (mi_roleIds ctx) \<and> p < rol_position r)"

text \<open>
  C8. The role hierarchy check lets a request through exactly when the actor owns the server,
  or is a member, ranks strictly above every target role through one of the roles held, and
  holds every permission bit of every target role: \<open>MANAGE_ROLES\<close> cannot be used to escalate.
\<close>
theorem requireRoleHierarchy_iff:
  "requireRoleHierarchy d serverId actor targets = Inr () \<longleftrightarrow>
     (\<exists>ctx. loadMemberContext d serverId actor = Some ctx \<and>
        (mi_isOwner ctx \<or>
         (\<forall>t \<in> set targets. outranks d ctx (tr_position t) \<and>
            (\<forall>i. bit (tr_permissions t) i \<longrightarrow> bit (getServerPermissions d serverId actor) i))))"
proof (cases "loadMemberContext d serverId actor")
  case None
  then show ?thesis by (simp add: requireRoleHierarchy_def getActorRoleContext_def)
next
  case (Some ctx)
  let ?m = "if length (mi_roleIds ctx) > 0 then
       fold (\<lambda>r m. if rol_position r > m then rol_position r else m)
         (filter (\<lambda>r. rol_id r \<in> set (mi_roleIds ctx)) (db_roles d)) 0 else 0"
  have "p < ?m \<longleftrightarrow> outranks d ctx p" for p
    by (auto simp: fold_max_position outranks_def)
  with Some show ?thesis
    by (simp add: requireRoleHierarchy_def getActorRoleContext_def Let_def
        check_targets_ok getServerPermissions_def)
qed

theorem requireRoleHierarchy_iff_witness:
  "requireRoleHierarchy sample_db ''S'' ''ann'' [\<lparr>tr_position = 4, tr_permissions = 8\<rparr>] = Inr ()"
proof (rule requireRoleHierarchy_iff [THEN iffD2], rule exI, rule conjI [OF sample_member],
    rule disjI2, intro ballI conjI allI impI)
  fix t i
  assume t: "t \<in> set [\<lparr>tr_position = 4, tr_permissions = 8 :: int\<rparr>]"
  then show "outranks sample_db \<lparr>mi_isOwner = False, mi_everyonePerms = 3, mi_rolePerms = [2056],
      mi_roleIds = [''mod''], mi_everyoneRoleId = Some ''everyone''\<rparr> (tr_position t)"
    by (simp add: outranks_def sample_db_def)
  assume "bit (tr_permissions t) i"
  with t have "bit (8 :: int) i" by simp
  then have "i = 3"
    using bit_Permission [of ATTACH_FILES i] by (simp add: Permission_def)
  then show "bit (getServerPermissions sample_db ''S'' ''ann'') i"
    by (simp add: getServerPermissions_def sample_member computeBasePermissions_cases)
qed

end
