(* ===== verification/Dice.thy ===== *)
theory Dice
  imports JsText "HOL-Library.Word"
begin

text \<open>
  The dice notation parser and evaluator (packages/shared/src/dice.ts). Numbers are integers
  rounded as IEEE doubles round them (\<open>to_double\<close>); randomness is a state that \<open>rng\<close>
  threads through the rolls.
\<close>

section \<open>Numbers\<close>

fun bit_length :: "nat \<Rightarrow> nat" where
  "bit_length n = (if n = 0 then 0 else Suc (bit_length (n div 2)))"

declare bit_length.simps [simp del]

text \<open>Round to 53 significant bits, ties to even.\<close>

definition to_double_nat :: "nat \<Rightarrow> nat" where
  "to_double_nat n =
     (if n < 2 ^ 53 then n
      else let k = bit_length n - 53; q = n div 2 ^ k; r = n mod 2 ^ k; half = 2 ^ (k - 1)
           in (if r > half \<or> (r = half \<and> odd q) then q + 1 else q) * 2 ^ k)"

definition to_double :: "int \<Rightarrow> int" where
  "to_double i = (if i < 0 then - int (to_double_nat (nat (- i))) else int (to_double_nat (nat i)))"

definition js_add :: "int \<Rightarrow> int \<Rightarrow> int" where
  "js_add a b = to_double (a + b)"

lemma to_double_exact: "\<bar>i\<bar> < 2 ^ 53 \<Longrightarrow> to_double i = i"
  by (auto simp: to_double_def to_double_nat_def nat_less_iff)

lemma to_double_nonneg: "0 \<le> i \<Longrightarrow> 0 \<le> to_double i"
  by (simp add: to_double_def)

section \<open>Limits and errors\<close>

definition MAX_DICE_PER_ROLL :: int where "MAX_DICE_PER_ROLL = 100"
definition MAX_FACES :: int where "MAX_FACES = 1000"
definition MAX_NOTATION_LENGTH :: nat where "MAX_NOTATION_LENGTH = 128"

lemmas dice_limits = MAX_DICE_PER_ROLL_def MAX_FACES_def MAX_NOTATION_LENGTH_def

datatype dice_parse_error = DiceParseError (dpe_message: string) (dpe_position: nat)

section \<open>Tokenizer\<close>

record tokenizer =
  tk_input :: string
  tk_pos :: nat

definition peek :: "tokenizer \<Rightarrow> char option" where
  "peek t = (if tk_pos t < length (tk_input t) then Some (tk_input t ! tk_pos t) else None)"

definition consume :: "tokenizer \<Rightarrow> dice_parse_error + (char \<times> tokenizer)" where
  "consume t =
     (if tk_pos t \<ge> length (tk_input t) then Inl (DiceParseError ''Unexpected end of input'' (tk_pos t))
      else Inr (tk_input t ! tk_pos t, t\<lparr>tk_pos := tk_pos t + 1\<rparr>))"

definition match_literal :: "string \<Rightarrow> tokenizer \<Rightarrow> bool \<times> tokenizer" where
  "match_literal literal t =
     (let lower = toLowerCase (take (length literal) (drop (tk_pos t) (tk_input t)))
      in if lower = toLowerCase literal then (True, t\<lparr>tk_pos := tk_pos t + length literal\<rparr>)
         else (False, t))"

function scan :: "(char \<Rightarrow> bool) \<Rightarrow> string \<Rightarrow> nat \<Rightarrow> nat" where
  "scan P s pos = (if pos < length s \<and> P (s ! pos) then scan P s (Suc pos) else pos)"
  by pat_completeness auto
termination
  by (relation "measure (\<lambda>(P, s, pos). length s - pos)") auto

declare scan.simps [simp del]

definition skipWhitespace :: "tokenizer \<Rightarrow> tokenizer" where
  "skipWhitespace t = t\<lparr>tk_pos := scan is_space (tk_input t) (tk_pos t)\<rparr>"

definition parse_int :: "string \<Rightarrow> int" where  \<comment> \<open>\<open>Number.parseInt(digits, 10)\<close>\<close>
  "parse_int ds = to_double (int (get_or 0 (read_digits 10 0 ds)))"

definition readInteger :: "tokenizer \<Rightarrow> int option \<times> tokenizer" where
  "readInteger t =
     (let t = skipWhitespace t;
          start = tk_pos t;
          t = t\<lparr>tk_pos := scan is_digit (tk_input t) start\<rparr>
      in if tk_pos t = start then (None, t)
         else (Some (parse_int (drop start (take (tk_pos t) (tk_input t)))), t))"

section \<open>Parser\<close>

datatype keep_mode = KH | KL

datatype parsed_term =
    DiceTerm (pt_count: int) (pt_faces: int) (pt_keep: "(keep_mode \<times> int) option") (pt_sign: int)
  | ModifierTerm (pt_value: int) (pt_sign: int)

record parsed_roll =
  pr_notation :: string
  pr_terms :: "parsed_term list"

definition is_d :: "char option \<Rightarrow> bool" where
  "is_d c \<longleftrightarrow> c = Some (CHR ''d'') \<or> c = Some (CHR ''D'')"

definition parse_keep_amount ::
    "string \<Rightarrow> keep_mode \<Rightarrow> int \<Rightarrow> tokenizer \<Rightarrow>
     dice_parse_error + ((keep_mode \<times> int) option \<times> tokenizer)" where
  "parse_keep_amount literal mode cnt t =
     (case readInteger t of (amount, t) \<Rightarrow>
        (case amount of
           None \<Rightarrow> Inl (DiceParseError (''Expected positive integer after \"'' @ literal @ ''\"'') (tk_pos t))
         | Some a \<Rightarrow>
             if a \<le> 0 then
               Inl (DiceParseError (''Expected positive integer after \"'' @ literal @ ''\"'') (tk_pos t))
             else if a > cnt then
               Inl (DiceParseError ''Keep amount exceeds dice count'' (tk_pos t))
             else Inr (Some (mode, a), t)))"

definition parse_keep ::
    "int \<Rightarrow> tokenizer \<Rightarrow> dice_parse_error + ((keep_mode \<times> int) option \<times> tokenizer)" where
  "parse_keep cnt t =
     (case match_literal ''kh'' t of
        (True, t) \<Rightarrow> parse_keep_amount ''kh'' KH cnt t
      | (False, t) \<Rightarrow>
          (case match_literal ''kl'' t of
             (True, t) \<Rightarrow> parse_keep_amount ''kl'' KL cnt t
           | (False, t) \<Rightarrow> Inr (None, t)))"

definition parse_faces :: "tokenizer \<Rightarrow> dice_parse_error + (int \<times> tokenizer)" where
  "parse_faces t =
     (if peek t = Some (CHR ''%'') then
        bind_result (consume t) (\<lambda>(_, t). Inr (100, t))
      else
        (case readInteger t of (f, t) \<Rightarrow>
           (case f of
              None \<Rightarrow> Inl (DiceParseError ''Expected face count after \"d\"'' (tk_pos t))
            | Some faces \<Rightarrow> Inr (faces, t))))"

definition parseTerm :: "tokenizer \<Rightarrow> int \<Rightarrow> dice_parse_error + (parsed_term \<times> tokenizer)" where
  "parseTerm t sign =
     (let (cnt, t) = (if \<not> is_d (peek t) then readInteger t else (None, t))
      in if \<not> is_d (peek t) then
           (case cnt of
              None \<Rightarrow> Inl (DiceParseError ''Expected integer or \"d\"'' (tk_pos t))
            | Some v \<Rightarrow> Inr (ModifierTerm v sign, t))
         else
           bind_result (consume t) (\<lambda>(_, t).
           bind_result (parse_faces t) (\<lambda>(faces, t).
             let cnt = get_or 1 cnt
             in if cnt \<le> 0 \<or> cnt > MAX_DICE_PER_ROLL then
                  Inl (DiceParseError (''Dice count must be between 1 and '' @ show_int MAX_DICE_PER_ROLL)
                         (tk_pos t))
                else if faces \<le> 0 \<or> faces > MAX_FACES then
                  Inl (DiceParseError (''Faces must be between 1 and '' @ show_int MAX_FACES) (tk_pos t))
                else
                  bind_result (parse_keep cnt t) (\<lambda>(keep, t).
                    Inr (DiceTerm cnt faces keep sign, t)))))"

text \<open>
  Every step of the parser keeps the input, moves the position forward, and stays in range: what
  the termination of the loop and the positions of the errors rest on.
\<close>

definition later :: "tokenizer \<Rightarrow> tokenizer \<Rightarrow> bool" where
  "later t t' \<longleftrightarrow> tk_input t' = tk_input t \<and> tk_pos t \<le> tk_pos t' \<and>
     (tk_pos t \<le> length (tk_input t) \<longrightarrow> tk_pos t' \<le> length (tk_input t))"

lemma later_refl [simp]: "later t t"
  by (simp add: later_def)

lemma later_trans: "later t t' \<Longrightarrow> later t' t'' \<Longrightarrow> later t t''"
  by (auto simp: later_def)

lemma scan_bounds: "pos \<le> scan P s pos \<and> (pos \<le> length s \<longrightarrow> scan P s pos \<le> length s)"
proof (induction P s pos rule: scan.induct)
  case (1 P s pos)
  then show ?case by (subst (1 2) scan.simps) auto
qed

lemma skipWhitespace_later: "later t (skipWhitespace t)"
  using scan_bounds [of "tk_pos t" is_space "tk_input t"]
  by (auto simp: later_def skipWhitespace_def)

lemma readInteger_later: "readInteger t = (i, t') \<Longrightarrow> later t t'"
  using scan_bounds [of "tk_pos t" is_space "tk_input t"]
    scan_bounds [of "scan is_space (tk_input t) (tk_pos t)" is_digit "tk_input t"]
  by (auto simp: later_def readInteger_def skipWhitespace_def Let_def split: if_splits)

lemma consume_later: "consume t = Inr (c, t') \<Longrightarrow> later t t' \<and> tk_pos t' = Suc (tk_pos t)"
  by (auto simp: later_def consume_def split: if_splits)

lemma match_literal_later: "match_literal l t = (b, t') \<Longrightarrow> later t t'"
proof -
  assume m: "match_literal l t = (b, t')"
  have "toLowerCase (take (length l) (drop (tk_pos t) (tk_input t))) = toLowerCase l \<Longrightarrow>
      length l \<le> length (tk_input t) - tk_pos t"
    by (drule arg_cong [where f = length]) simp
  with m show ?thesis
    by (auto simp: later_def match_literal_def Let_def split: if_splits)
qed

lemma parse_keep_amount_later:
  "parse_keep_amount l m c t = Inr (k, t') \<Longrightarrow> later t t'"
  by (auto simp: parse_keep_amount_def dest: readInteger_later
      split: prod.splits option.splits if_splits)

lemma parse_keep_later: "parse_keep c t = Inr (k, t') \<Longrightarrow> later t t'"
  by (auto simp: parse_keep_def split: prod.splits bool.splits
      dest!: parse_keep_amount_later match_literal_later intro: later_trans)

lemma parse_faces_later: "parse_faces t = Inr (f, t') \<Longrightarrow> later t t'"
  by (auto simp: parse_faces_def split: if_splits option.splits prod.splits
      dest!: bind_result_InrD readInteger_later consume_later)

lemma parseTerm_later: "parseTerm t sign = Inr (tm, t') \<Longrightarrow> later t t'"
  by (auto simp: parseTerm_def Let_def split: if_splits option.splits prod.splits
      dest!: bind_result_InrD parse_keep_later parse_faces_later readInteger_later consume_later
      intro: later_trans [OF later_trans] later_trans)

lemma loop_advances:
  assumes "parseTerm (skipWhitespace t) sign = Inr (tm, t1)"
    and "peek (skipWhitespace t1) = Some c" and "consume (skipWhitespace t1) = Inr (c', t3)"
  shows "later t t3 \<and> tk_pos t < tk_pos t3" and "tk_pos t < length (tk_input t)"
proof -
  have l: "later t (skipWhitespace t1)"
    using skipWhitespace_later parseTerm_later [OF assms(1)] later_trans by blast
  have c: "later (skipWhitespace t1) t3 \<and> tk_pos t3 = Suc (tk_pos (skipWhitespace t1))"
    using consume_later [OF assms(3)] .
  show "later t t3 \<and> tk_pos t < tk_pos t3"
    using l c by (auto intro: later_trans) (auto simp: later_def)
  show "tk_pos t < length (tk_input t)"
    using l assms(2) by (auto simp: later_def peek_def split: if_splits)
qed

function parse_terms ::
    "tokenizer \<Rightarrow> int \<Rightarrow> int \<Rightarrow> parsed_term list \<Rightarrow> dice_parse_error + parsed_term list" where
  "parse_terms t sign totalDice terms =
     (case parseTerm (skipWhitespace t) sign of
        Inl e \<Rightarrow> Inl e
      | Inr (tm, t1) \<Rightarrow>
          (let totalDice = (case tm of DiceTerm cnt _ _ _ \<Rightarrow> totalDice + cnt
                                     | ModifierTerm _ _ \<Rightarrow> totalDice)
           in if (case tm of DiceTerm _ _ _ _ \<Rightarrow> totalDice > MAX_DICE_PER_ROLL
                           | ModifierTerm _ _ \<Rightarrow> False) then
                Inl (DiceParseError (''Total dice exceeds '' @ show_int MAX_DICE_PER_ROLL) (tk_pos t1))
              else
                (let terms = terms @ [tm]; t2 = skipWhitespace t1
                 in case peek t2 of
                      None \<Rightarrow> Inr terms
                    | Some c \<Rightarrow>
                        if c \<noteq> CHR ''+'' \<and> c \<noteq> CHR ''-'' then
                          Inl (DiceParseError (''Unexpected character \"'' @ [c] @ ''\"'') (tk_pos t2))
                        else
                          (case consume t2 of
                             Inl e \<Rightarrow> Inl e
                           | Inr (c, t3) \<Rightarrow>
                               parse_terms t3 (if c = CHR ''-'' then -1 else 1) totalDice terms))))"
  by pat_completeness (simp only: prod.inject)
termination
proof (relation "measure (\<lambda>(t, _). length (tk_input t) - tk_pos t)", goal_cases)
  case 1
  then show ?case by simp
next
  case (2 t sign totalDice terms r tm t1 td terms' t2 c r' c' t3)
  have "parseTerm (skipWhitespace t) sign = Inr (tm, t1)" and t2: "t2 = skipWhitespace t1"
    and p: "peek t2 = Some c" and "consume t2 = Inr (c', t3)"
    using 2 by blast+
  then have "later t t3 \<and> tk_pos t < tk_pos t3" and "tk_pos t < length (tk_input t)"
    using loop_advances by blast+
  then show ?case by (auto simp: later_def)
qed

declare parse_terms.simps [simp del]

definition parseDiceNotation :: "string \<Rightarrow> dice_parse_error + parsed_roll" where
  "parseDiceNotation notation =
     (let trimmed = trim notation
      in if trimmed = [] then Inl (DiceParseError ''Empty notation'' 0)
         else if length trimmed > MAX_NOTATION_LENGTH then
           Inl (DiceParseError
             (''Notation exceeds '' @ show_nat MAX_NOTATION_LENGTH @ '' characters'') 0)
         else
           bind_result
             (let t = skipWhitespace \<lparr>tk_input = trimmed, tk_pos = 0\<rparr>
              in if peek t = Some (CHR ''+'') \<or> peek t = Some (CHR ''-'') then
                   bind_result (consume t) (\<lambda>(c, t). Inr (if c = CHR ''-'' then -1 else 1, t))
                 else Inr (1, t))
             (\<lambda>(sign, t).
               bind_result (parse_terms t sign 0 []) (\<lambda>terms.
                 if terms = [] then Inl (DiceParseError ''No terms in notation'' 0)
                 else Inr \<lparr>pr_notation = trimmed, pr_terms = terms\<rparr>)))"


section \<open>What a parsed roll satisfies\<close>

definition keep_ok :: "int \<Rightarrow> (keep_mode \<times> int) option \<Rightarrow> bool" where
  "keep_ok cnt keep = (case keep of None \<Rightarrow> True | Some (_, a) \<Rightarrow> 1 \<le> a \<and> a \<le> cnt)"

definition term_ok :: "parsed_term \<Rightarrow> bool" where
  "term_ok tm = (case tm of
      DiceTerm cnt faces keep sign \<Rightarrow>
        1 \<le> cnt \<and> cnt \<le> MAX_DICE_PER_ROLL \<and> 1 \<le> faces \<and> faces \<le> MAX_FACES \<and>
        keep_ok cnt keep \<and> (sign = 1 \<or> sign = -1)
    | ModifierTerm v sign \<Rightarrow> 0 \<le> v \<and> (sign = 1 \<or> sign = -1))"

definition dice_of :: "parsed_term \<Rightarrow> int" where
  "dice_of tm = (case tm of DiceTerm cnt _ _ _ \<Rightarrow> cnt | ModifierTerm _ _ \<Rightarrow> 0)"

definition dice_sum :: "parsed_term list \<Rightarrow> int" where
  "dice_sum tms = sum_list (map dice_of tms)"

lemma dice_sum_simps [simp]:
  "dice_sum [] = 0" "dice_sum (tm # tms) = dice_of tm + dice_sum tms"
  "dice_sum (tms @ tms') = dice_sum tms + dice_sum tms'"
  by (simp_all add: dice_sum_def)

lemma parse_int_nonneg: "0 \<le> parse_int ds"
  by (simp add: parse_int_def to_double_nonneg)

lemma readInteger_nonneg: "readInteger t = (Some v, t') \<Longrightarrow> 0 \<le> v"
  by (auto simp: readInteger_def Let_def parse_int_nonneg split: if_splits)

lemma parse_keep_amount_ok:
  "parse_keep_amount l m c t = Inr (k, t') \<Longrightarrow> \<exists>a. k = Some (m, a) \<and> 1 \<le> a \<and> a \<le> c"
  by (auto simp: parse_keep_amount_def split: prod.splits option.splits if_splits)

lemma parse_keep_ok:
  "parse_keep c t = Inr (k, t') \<Longrightarrow> keep_ok c k"
  by (auto simp: parse_keep_def keep_ok_def split: prod.splits bool.splits dest!: parse_keep_amount_ok)

lemma parseTerm_ok:
  "parseTerm t sign = Inr (tm, t') \<Longrightarrow> sign = 1 \<or> sign = -1 \<Longrightarrow> term_ok tm"
  by (auto simp: parseTerm_def term_ok_def Let_def readInteger_nonneg parse_keep_ok
      split: if_splits option.splits prod.splits dest!: bind_result_InrD)

definition sign_of :: "char \<Rightarrow> int" where
  "sign_of c = (if c = CHR ''-'' then -1 else 1)"

lemma consume_peek: "peek t = Some c \<Longrightarrow> consume t = Inr (c, t\<lparr>tk_pos := tk_pos t + 1\<rparr>)"
  by (auto simp: consume_def peek_def split: if_splits)

lemma consume_peek': "consume t = Inr (c, t') \<Longrightarrow> peek t = Some c"
  by (auto simp: consume_def peek_def split: if_splits)

text \<open>One round of the loop, as the proofs use it.\<close>

lemma parse_terms_round:
  assumes "parseTerm (skipWhitespace t) sign = Inr (tm, t1)"
    and "td + dice_of tm \<le> MAX_DICE_PER_ROLL"
  shows "parse_terms t sign td terms =
    (case peek (skipWhitespace t1) of
       None \<Rightarrow> Inr (terms @ [tm])
     | Some c \<Rightarrow>
         if c \<noteq> CHR ''+'' \<and> c \<noteq> CHR ''-'' then
           Inl (DiceParseError (''Unexpected character \"'' @ [c] @ ''\"'') (tk_pos (skipWhitespace t1)))
         else parse_terms ((skipWhitespace t1)\<lparr>tk_pos := tk_pos (skipWhitespace t1) + 1\<rparr>) (sign_of c)
           (td + dice_of tm) (terms @ [tm]))"
  using assms
  by (subst parse_terms.simps)
    (cases tm; cases "peek (skipWhitespace t1)";
      simp add: dice_of_def Let_def sign_of_def consume_peek)

lemma parse_terms_InrD:
  assumes "parse_terms t sign td terms = Inr terms'"
  shows "\<exists>tm t1. parseTerm (skipWhitespace t) sign = Inr (tm, t1) \<and>
    (dice_of tm = 0 \<or> td + dice_of tm \<le> MAX_DICE_PER_ROLL) \<and>
    (terms' = terms @ [tm] \<or>
     (\<exists>c t3. consume (skipWhitespace t1) = Inr (c, t3) \<and>
        parse_terms t3 (sign_of c) (td + dice_of tm) (terms @ [tm]) = Inr terms'))"
proof -
  obtain tm t1 where tm: "parseTerm (skipWhitespace t) sign = Inr (tm, t1)"
    using assms by (subst (asm) parse_terms.simps) (auto split: sum.splits)
  moreover obtain e where e: "e = DiceParseError (''Total dice exceeds '' @ show_int MAX_DICE_PER_ROLL) (tk_pos t1)"
    by blast
  moreover have "dice_of tm = 0 \<or> td + dice_of tm \<le> MAX_DICE_PER_ROLL"
    using assms tm
    by (subst (asm) parse_terms.simps)
      (cases tm; simp add: dice_of_def Let_def split: if_split_asm)
  moreover have "terms' = terms @ [tm] \<or>
     (\<exists>c t3. consume (skipWhitespace t1) = Inr (c, t3) \<and>
        parse_terms t3 (sign_of c) (td + dice_of tm) (terms @ [tm]) = Inr terms')"
    using assms tm
    by (subst (asm) parse_terms.simps)
      (cases tm; cases "peek (skipWhitespace t1)";
        simp add: dice_of_def Let_def sign_of_def consume_peek split: if_split_asm)
  ultimately show ?thesis by blast
qed

lemma parse_terms_ok:
  assumes "parse_terms t sign td terms = Inr terms'"
    and "sign = 1 \<or> sign = -1" and "td = dice_sum terms"
    and "\<forall>tm \<in> set terms. term_ok tm" and "dice_sum terms \<le> MAX_DICE_PER_ROLL"
  shows "terms' \<noteq> [] \<and> (\<forall>tm \<in> set terms'. term_ok tm) \<and> dice_sum terms' \<le> MAX_DICE_PER_ROLL"
  using assms
proof (induction "length (tk_input t) - tk_pos t" arbitrary: t sign td terms rule: less_induct)
  case less
  obtain tm t1 where tm: "parseTerm (skipWhitespace t) sign = Inr (tm, t1)"
    and le: "dice_of tm = 0 \<or> td + dice_of tm \<le> MAX_DICE_PER_ROLL"
    and more: "terms' = terms @ [tm] \<or> (\<exists>c t3. consume (skipWhitespace t1) = Inr (c, t3) \<and>
        parse_terms t3 (sign_of c) (td + dice_of tm) (terms @ [tm]) = Inr terms')"
    using parse_terms_InrD [OF less.prems(1)] by blast
  have all: "\<forall>tm' \<in> set (terms @ [tm]). term_ok tm'"
    using parseTerm_ok [OF tm] less.prems(2,4) by auto
  have sum: "td + dice_of tm = dice_sum (terms @ [tm])" "dice_sum (terms @ [tm]) \<le> MAX_DICE_PER_ROLL"
    using le less.prems(3,5) by auto
  show ?case
    using more
  proof (elim disjE exE conjE)
    assume "terms' = terms @ [tm]"
    then show ?thesis using all sum by simp
  next
    fix c t3
    assume t3: "consume (skipWhitespace t1) = Inr (c, t3)"
      and rec: "parse_terms t3 (sign_of c) (td + dice_of tm) (terms @ [tm]) = Inr terms'"
    have "length (tk_input t3) - tk_pos t3 < length (tk_input t) - tk_pos t"
      using loop_advances [OF tm consume_peek' [OF t3] t3] by (auto simp: later_def)
    then show ?thesis
      using less.hyps [OF _ rec] all sum by (auto simp: sign_of_def)
  qed
qed

lemma parseDiceNotation_InrD:
  assumes "parseDiceNotation notation = Inr r"
  shows "pr_notation r = trim notation \<and> length (trim notation) \<le> MAX_NOTATION_LENGTH \<and>
    pr_terms r \<noteq> [] \<and> (\<forall>tm \<in> set (pr_terms r). term_ok tm) \<and> dice_sum (pr_terms r) \<le> MAX_DICE_PER_ROLL"
proof -
  obtain sign t terms where terms: "parse_terms t sign 0 [] = Inr terms"
    and sign: "sign = 1 \<or> sign = -1"
    and r: "r = \<lparr>pr_notation = trim notation, pr_terms = terms\<rparr>" "length (trim notation) \<le> MAX_NOTATION_LENGTH"
    using assms
    by (auto simp: parseDiceNotation_def Let_def split: if_splits dest!: bind_result_InrD)
  have "0 \<le> MAX_DICE_PER_ROLL" by (simp add: MAX_DICE_PER_ROLL_def)
  then show ?thesis
    using parse_terms_ok [OF terms sign] r by simp
qed


section \<open>Evaluation\<close>

text \<open>
  A random number generator is a function of its state and of \<open>max\<close>. The default one draws 32
  bits from \<open>crypto.getRandomValues\<close> where the platform has it, and otherwise the 53 bits of
  the numerator of \<open>Math.random()\<close>; both sources are arguments.
\<close>

type_synonym 's rng = "'s \<Rightarrow> int \<Rightarrow> int \<times> 's"

definition defaultRng :: "('s \<Rightarrow> 32 word \<times> 's) option \<Rightarrow> ('s \<Rightarrow> 53 word \<times> 's) \<Rightarrow> 's rng" where
  "defaultRng getRandomValues random s faces =
     (case getRandomValues of
        Some draw \<Rightarrow> (case draw s of (w, s) \<Rightarrow> (uint w mod faces + 1, s))
      | None \<Rightarrow> (case random s of (w, s) \<Rightarrow> (uint w * faces div 2 ^ 53 + 1, s)))"

record die_result =
  die_value :: int
  die_kept :: bool

datatype dice_term_result =
    DiceResult (dr_count: int) (dr_faces: int) (dr_keep: "(keep_mode \<times> int) option")
      (dr_rolls: "die_result list") (dr_sign: int) (dr_subtotal: int)
  | ModifierResult (dr_value: int) (dr_sign: int) (dr_subtotal: int)

record dice_roll_result =
  drr_notation :: string
  drr_terms :: "dice_term_result list"
  drr_total :: int

fun roll_dice :: "'s rng \<Rightarrow> int \<Rightarrow> nat \<Rightarrow> 's \<Rightarrow> die_result list \<times> 's" where
  "roll_dice rng faces 0 s = ([], s)"
| "roll_dice rng faces (Suc n) s =
     (case rng s faces of (v, s) \<Rightarrow>
        (case roll_dice rng faces n s of (rolls, s) \<Rightarrow>
           (\<lparr>die_value = v, die_kept = True\<rparr> # rolls, s)))"

definition keep_order :: "keep_mode \<Rightarrow> (int \<times> nat) comparator" where
  "keep_order mode = (case mode of KH \<Rightarrow> key (\<lambda>(v, i). - v) default | KL \<Rightarrow> key fst default)"

definition keep_indices :: "keep_mode \<Rightarrow> nat \<Rightarrow> die_result list \<Rightarrow> nat set" where
  "keep_indices mode amount rolls =
     set (map snd (take amount
       (Sorting_Algorithms.sort (keep_order mode) (zip (map die_value rolls) [0..<length rolls]))))"

definition apply_keep :: "(keep_mode \<times> int) option \<Rightarrow> die_result list \<Rightarrow> die_result list" where
  "apply_keep keep rolls =
     (case keep of
        None \<Rightarrow> rolls
      | Some (mode, amount) \<Rightarrow>
          let keepIndices = keep_indices mode (nat amount) rolls
          in map (\<lambda>(r, i). r\<lparr>die_kept := i \<in> keepIndices\<rparr>) (zip rolls [0..<length rolls]))"

definition kept_sum :: "die_result list \<Rightarrow> int" where
  "kept_sum rolls = foldl (\<lambda>sum r. js_add sum (die_value r)) 0 (filter die_kept rolls)"

definition eval_term :: "'s rng \<Rightarrow> parsed_term \<Rightarrow> 's \<Rightarrow> dice_term_result \<times> 's" where
  "eval_term rng tm s =
     (case tm of
        ModifierTerm v sign \<Rightarrow> (ModifierResult v sign (sign * v), s)
      | DiceTerm cnt faces keep sign \<Rightarrow>
          (case roll_dice rng faces (nat cnt) s of (rolls, s) \<Rightarrow>
             let rolls = apply_keep keep rolls
             in (DiceResult cnt faces keep rolls sign (sign * kept_sum rolls), s)))"

fun eval_terms ::
    "'s rng \<Rightarrow> parsed_term list \<Rightarrow> dice_term_result list \<Rightarrow> int \<Rightarrow> 's \<Rightarrow>
     (dice_term_result list \<times> int) \<times> 's" where
  "eval_terms rng [] terms tot s = ((terms, tot), s)"
| "eval_terms rng (tm # tms) terms tot s =
     (case eval_term rng tm s of (r, s) \<Rightarrow>
        eval_terms rng tms (terms @ [r]) (js_add tot (dr_subtotal r)) s)"

definition evaluateDiceNotation ::
    "'s rng \<Rightarrow> string \<Rightarrow> 's \<Rightarrow> (dice_parse_error + dice_roll_result) \<times> 's" where
  "evaluateDiceNotation rng notation s =
     (case parseDiceNotation notation of
        Inl e \<Rightarrow> (Inl e, s)
      | Inr parsed \<Rightarrow>
          (case eval_terms rng (pr_terms parsed) [] 0 s of ((terms, tot), s) \<Rightarrow>
             (Inr \<lparr>drr_notation = pr_notation parsed, drr_terms = terms, drr_total = tot\<rparr>, s)))"

subsection \<open>Which dice are kept\<close>

lemma length_roll_dice: "roll_dice rng faces n s = (rolls, s') \<Longrightarrow> length rolls = n"
  by (induction n arbitrary: s rolls s') (auto split: prod.splits)

lemma roll_dice_kept: "roll_dice rng faces n s = (rolls, s') \<Longrightarrow> r \<in> set rolls \<Longrightarrow> die_kept r"
  by (induction n arbitrary: s rolls s') (auto split: prod.splits)

lemma values_apply_keep [simp]: "map die_value (apply_keep keep rolls) = map die_value rolls"
  by (cases keep) (auto simp: apply_keep_def Let_def case_prod_beta comp_def intro: nth_equalityI)

lemma length_apply_keep [simp]: "length (apply_keep keep rolls) = length rolls"
  by (cases keep) (auto simp: apply_keep_def Let_def)

lemma keep_indices_subset: "keep_indices mode n rolls \<subseteq> {..<length rolls}"
proof -
  let ?z = "zip (map die_value rolls) [0..<length rolls]"
  have "set (Sorting_Algorithms.sort (keep_order mode) ?z) = set ?z"
    by (metis mset_sort set_mset_mset)
  then have "keep_indices mode n rolls \<subseteq> snd ` set ?z"
    by (auto simp: keep_indices_def dest!: in_set_takeD)
  also have "snd ` set ?z \<subseteq> {..<length rolls}"
    by (auto dest: set_zip_rightD)
  finally show ?thesis .
qed

lemma keep_indices_card:
  assumes "n \<le> length rolls"
  shows "card (keep_indices mode n rolls) = n"
proof -
  let ?z = "zip (map die_value rolls) [0..<length rolls]"
  let ?s = "Sorting_Algorithms.sort (keep_order mode) ?z"
  have "mset (map snd ?s) = image_mset snd (mset ?z)"
    by simp
  also have "\<dots> = mset (map snd ?z)"
    by (simp only: mset_map)
  also have "map snd ?z = [0..<length rolls]"
    by simp
  finally have d: "distinct (map snd ?s)"
    using mset_eq_imp_distinct_iff distinct_upt by blast
  then have "distinct (take n (map snd ?s))" and "length (take n (map snd ?s)) = n"
    using assms by simp_all
  then show ?thesis
    unfolding keep_indices_def take_map [symmetric] by (metis distinct_card)
qed

definition better :: "keep_mode \<Rightarrow> int \<Rightarrow> int \<Rightarrow> bool" where
  "better mode v w = (case mode of KH \<Rightarrow> w \<le> v | KL \<Rightarrow> v \<le> w)"

lemma sorted_take_drop:
  assumes "x \<in> set (take n (Sorting_Algorithms.sort cmp xs))"
    and "y \<in> set xs" and "y \<notin> set (take n (Sorting_Algorithms.sort cmp xs))"
  shows "compare cmp x y \<noteq> Greater"
proof -
  let ?s = "Sorting_Algorithms.sort cmp xs"
  have "set ?s = set xs"
    by (metis mset_sort set_mset_mset)
  then have "y \<in> set (drop n ?s)"
    using assms(2,3) by (metis Un_iff append_take_drop_id set_append)
  moreover have "Sorting_Algorithms.sorted cmp (take n ?s @ drop n ?s)"
    by simp
  ultimately show ?thesis
    using assms(1) unfolding sorted_append_iff by blast
qed

lemma keep_indices_best:
  assumes "i \<in> keep_indices mode n rolls" and "j < length rolls" and "j \<notin> keep_indices mode n rolls"
  shows "better mode (die_value (rolls ! i)) (die_value (rolls ! j))"
proof -
  let ?z = "zip (map die_value rolls) [0..<length rolls]"
  have z: "p \<in> set ?z \<longleftrightarrow> (\<exists>k < length rolls. p = (die_value (rolls ! k), k))" for p
    by (force simp: set_zip)
  obtain p where p: "p \<in> set (take n (Sorting_Algorithms.sort (keep_order mode) ?z))" "snd p = i"
    using assms(1) by (auto simp: keep_indices_def)
  have "set (Sorting_Algorithms.sort (keep_order mode) ?z) = set ?z"
    by (metis mset_sort set_mset_mset)
  then have "p \<in> set ?z"
    using p(1) in_set_takeD by fast
  then have pi: "p = (die_value (rolls ! i), i)"
    using p(2) z by auto
  have "(die_value (rolls ! j), j) \<in> set ?z"
    using assms(2) z by blast
  moreover have "(die_value (rolls ! j), j) \<notin> set (take n (Sorting_Algorithms.sort (keep_order mode) ?z))"
    using assms(3) by (force simp: keep_indices_def)
  ultimately have "compare (keep_order mode) p (die_value (rolls ! j), j) \<noteq> Greater"
    using sorted_take_drop [OF p(1)] by simp
  then show ?thesis
    by (cases mode) (auto simp: pi keep_order_def better_def)
qed

lemma nth_apply_keep:
  "i < length rolls \<Longrightarrow>
   apply_keep (Some (mode, a)) rolls ! i = (rolls ! i)\<lparr>die_kept := i \<in> keep_indices mode (nat a) rolls\<rparr>"
  by (simp add: apply_keep_def Let_def)

lemma kept_count:
  assumes "nat a \<le> length rolls"
  shows "length (filter die_kept (apply_keep (Some (mode, a)) rolls)) = nat a"
proof -
  let ?k = "keep_indices mode (nat a) rolls"
  have "length (filter die_kept (apply_keep (Some (mode, a)) rolls)) =
      card {i. i < length rolls \<and> die_kept (apply_keep (Some (mode, a)) rolls ! i)}"
    by (simp add: length_filter_conv_card)
  also have "{i. i < length rolls \<and> die_kept (apply_keep (Some (mode, a)) rolls ! i)} = ?k"
    using keep_indices_subset [of mode "nat a" rolls] by (auto simp: nth_apply_keep)
  finally show ?thesis
    using keep_indices_card [OF assms] by simp
qed

text \<open>
  Keeping dice: "kh n" and "kl n" keep exactly n of the dice rolled, change no value, and
  every kept die is at least as good as every dropped one (not lower for "kh", not higher for
  "kl"), ties included.
\<close>

theorem apply_keep_correct:
  assumes "1 \<le> a" and "a \<le> int (length rolls)"
  shows "length (filter die_kept (apply_keep (Some (mode, a)) rolls)) = nat a \<and>
    map die_value (apply_keep (Some (mode, a)) rolls) = map die_value rolls \<and>
    (\<forall>x \<in> set (apply_keep (Some (mode, a)) rolls). \<forall>y \<in> set (apply_keep (Some (mode, a)) rolls).
       die_kept x \<and> \<not> die_kept y \<longrightarrow> better mode (die_value x) (die_value y))"
proof (intro conjI ballI impI)
  show "length (filter die_kept (apply_keep (Some (mode, a)) rolls)) = nat a"
    using assms by (intro kept_count) simp
next
  fix x y
  assume x: "x \<in> set (apply_keep (Some (mode, a)) rolls)"
    and y: "y \<in> set (apply_keep (Some (mode, a)) rolls)" and k: "die_kept x \<and> \<not> die_kept y"
  obtain i j where "i < length rolls" "x = apply_keep (Some (mode, a)) rolls ! i"
    "j < length rolls" "y = apply_keep (Some (mode, a)) rolls ! j"
    using x y by (auto simp: in_set_conv_nth)
  then show "better mode (die_value x) (die_value y)"
    using k keep_indices_best by (auto simp: nth_apply_keep)
qed simp

theorem apply_keep_correct_witness:
  "map die_kept (apply_keep (Some (KH, 2)) (map (\<lambda>v. \<lparr>die_value = v, die_kept = True\<rparr>) [3, 5, 3])) =
     [True, True, False] \<and>
   length (filter die_kept (apply_keep (Some (KH, 2))
     (map (\<lambda>v. \<lparr>die_value = v, die_kept = True\<rparr>) [3, 5, 3]))) = 2"
  using apply_keep_correct [of 2 "map (\<lambda>v. \<lparr>die_value = v, die_kept = True\<rparr>) [3, 5, 3]" KH]
  by (simp add: apply_keep_def keep_indices_def keep_order_def Let_def upt_rec)

subsection \<open>Bounds\<close>

lemmas dice_eval_defs =
  parseDiceNotation_def parse_terms.simps parseTerm_def parse_faces_def parse_keep_def
  parse_keep_amount_def readInteger_def skipWhitespace_def scan.simps match_literal_def consume_def
  peek_def is_d_def parse_int_def to_double_def to_double_nat_def trim_def trim_start_def is_space_def
  is_digit_def toLowerCase_def lower_char_def digit_value_def dice_limits Let_def

text \<open>
  A notation the parser accepts has at most 128 characters after trimming, at least one term,
  every term within the limits (1 to 100 dice, 1 to 1000 faces, a keep amount between 1 and the
  number of dice, a sign of 1 or -1) and at most 100 dice in all.
\<close>

theorem parseDiceNotation_bounds:
  assumes "parseDiceNotation notation = Inr r"
  shows "pr_notation r = trim notation \<and> length (pr_notation r) \<le> 128 \<and> pr_terms r \<noteq> [] \<and>
    list_all term_ok (pr_terms r) \<and> dice_sum (pr_terms r) \<le> 100"
  using parseDiceNotation_InrD [OF assms] by (auto simp: dice_limits list_all_iff)

lemma parse_sample:
  "parseDiceNotation '' 2d6kh1 - 3'' =
     Inr \<lparr>pr_notation = ''2d6kh1 - 3'', pr_terms = [DiceTerm 2 6 (Some (KH, 1)) 1, ModifierTerm 3 (-1)]\<rparr>"
  by (simp add: dice_eval_defs)

theorem parseDiceNotation_bounds_witness:
  "dice_sum [DiceTerm 2 6 (Some (KH, 1)) 1, ModifierTerm 3 (-1)] \<le> (100 :: int)"
  using parseDiceNotation_bounds [OF parse_sample] by simp

locale dice_rng =
  fixes rng :: "'s rng"
  assumes in_range: "1 \<le> faces \<Longrightarrow> faces \<le> MAX_FACES \<Longrightarrow> 1 \<le> fst (rng s faces) \<and> fst (rng s faces) \<le> faces"
begin

lemma rolls_in_range:
  assumes "1 \<le> faces" and "faces \<le> MAX_FACES" and "roll_dice rng faces n s = (rolls, s')"
  shows "\<forall>v \<in> set (map die_value rolls). 1 \<le> v \<and> v \<le> faces"
  using assms(3)
proof (induction n arbitrary: s rolls s')
  case (Suc n)
  then show ?case
    using in_range [OF assms(1,2), of s] by (fastforce split: prod.splits)
qed simp

end

lemma div_below:
  fixes x k f :: int
  assumes "x < k * f" and "0 < k"
  shows "x div k < f"
proof -
  have "k * (x div k) + x mod k = x" and "0 \<le> x mod k"
    using assms(2) by simp_all
  then have "k * (x div k) < k * f"
    using assms(1) by linarith
  then show ?thesis
    using assms(2) by simp
qed

lemma defaultRng_range:
  assumes "1 \<le> faces" and "faces \<le> MAX_FACES"
  shows "1 \<le> fst (defaultRng g r s faces) \<and> fst (defaultRng g r s faces) \<le> faces"
proof (cases g)
  case None
  obtain w s' where r: "r s = (w, s')" by force
  have "uint w < 2 ^ 53"
    using uint_lt2p [of w] by simp
  then have "uint w * faces < 2 ^ 53 * faces"
    using assms by simp
  then have "uint w * faces div 2 ^ 53 < faces"
    by (rule div_below) simp
  moreover have "0 \<le> uint w * faces div 2 ^ 53"
    using assms by (simp add: pos_imp_zdiv_nonneg_iff)
  ultimately show ?thesis
    by (simp add: defaultRng_def None r)
next
  case (Some draw)
  obtain w s' where d: "draw s = (w, s')" by force
  have "uint w mod faces < faces" and "0 \<le> uint w mod faces"
    using assms by simp_all
  then show ?thesis
    unfolding defaultRng_def Some by (simp del: pos_mod_bound add: d)
qed

interpretation default_rng: dice_rng "defaultRng getRandomValues random"
  for getRandomValues random
  by unfold_locales (rule defaultRng_range)

subsection \<open>What the evaluation returns\<close>

definition kept_amount :: "int \<Rightarrow> (keep_mode \<times> int) option \<Rightarrow> int" where
  "kept_amount cnt keep = (case keep of None \<Rightarrow> cnt | Some (_, a) \<Rightarrow> a)"

definition term_result_ok :: "parsed_term \<Rightarrow> dice_term_result \<Rightarrow> bool" where
  "term_result_ok tm res =
     (case (tm, res) of
        (DiceTerm cnt faces keep sign, DiceResult cnt' faces' keep' rolls sign' subtotal) \<Rightarrow>
          cnt' = cnt \<and> faces' = faces \<and> keep' = keep \<and> sign' = sign \<and> length rolls = nat cnt \<and>
          list_all (\<lambda>r. 1 \<le> die_value r \<and> die_value r \<le> faces) rolls \<and>
          length (filter die_kept rolls) = nat (kept_amount cnt keep) \<and>
          subtotal = sign * sum_list (map die_value (filter die_kept rolls))
      | (ModifierTerm v sign, ModifierResult v' sign' subtotal) \<Rightarrow>
          v' = v \<and> sign' = sign \<and> subtotal = sign * v
      | _ \<Rightarrow> False)"

lemma foldl_js_add_exact:
  assumes "\<bar>a\<bar> + sum_list (map (\<lambda>x. \<bar>f x\<bar>) xs) < 2 ^ 53"
  shows "foldl (\<lambda>acc x. js_add acc (f x)) a xs = a + sum_list (map f xs)"
  using assms
proof (induction xs arbitrary: a)
  case (Cons x xs)
  have nonneg: "0 \<le> sum_list (map (\<lambda>x. \<bar>f x\<bar>) xs)"
    by (rule sum_list_nonneg) auto
  then have "js_add a (f x) = a + f x"
    using Cons.prems unfolding js_add_def by (intro to_double_exact) simp
  moreover have "\<bar>a + f x\<bar> + sum_list (map (\<lambda>x. \<bar>f x\<bar>) xs) < 2 ^ 53"
    using Cons.prems abs_triangle_ineq [of a "f x"] by simp
  ultimately show ?case
    using Cons.IH by simp
qed simp

lemma sum_list_bound:
  fixes f :: "'a \<Rightarrow> int"
  assumes "\<forall>x \<in> set xs. f x \<le> m"
  shows "sum_list (map f xs) \<le> int (length xs) * m"
  using assms by (induction xs) (auto simp: algebra_simps)

lemma kept_sum_exact:
  assumes "\<forall>v \<in> set (map die_value rolls). 1 \<le> v \<and> v \<le> MAX_FACES" and "length rolls \<le> 100"
  shows "kept_sum rolls = sum_list (map die_value (filter die_kept rolls))"
proof -
  let ?k = "filter die_kept rolls"
  have v: "\<forall>r \<in> set ?k. \<bar>die_value r\<bar> \<le> 1000"
    using assms(1) by (auto simp: MAX_FACES_def)
  have "length ?k \<le> 100"
    using assms(2) length_filter_le le_trans by blast
  then have "sum_list (map (\<lambda>r. \<bar>die_value r\<bar>) ?k) \<le> 100 * 1000"
    using sum_list_bound [OF v] by linarith
  then show ?thesis
    using foldl_js_add_exact [of 0 die_value ?k] by (simp add: kept_sum_def)
qed

lemma eval_terms_results:
  "eval_terms rng tms terms tot s = ((terms', tot'), s') \<Longrightarrow>
   \<exists>rs. terms' = terms @ rs \<and> tot' = foldl (\<lambda>acc r. js_add acc (dr_subtotal r)) tot rs \<and>
     list_all2 (\<lambda>tm r. \<exists>s s'. eval_term rng tm s = (r, s')) tms rs"
proof (induction tms arbitrary: terms tot s)
  case (Cons tm tms)
  obtain r s1 where r: "eval_term rng tm s = (r, s1)" by force
  then obtain rs where "terms' = (terms @ [r]) @ rs"
    "tot' = foldl (\<lambda>acc r. js_add acc (dr_subtotal r)) (js_add tot (dr_subtotal r)) rs"
    "list_all2 (\<lambda>tm r. \<exists>s s'. eval_term rng tm s = (r, s')) tms rs"
    using Cons.IH [of "terms @ [r]"] Cons.prems by auto
  with r show ?case
    by (intro exI [of _ "r # rs"]) auto
qed simp

context dice_rng begin

lemma eval_term_ok:
  assumes "eval_term rng tm s = (r, s')" and "term_ok tm"
  shows "term_result_ok tm r"
proof (cases tm)
  case (ModifierTerm v sign)
  then show ?thesis
    using assms by (auto simp: eval_term_def term_result_ok_def)
next
  case (DiceTerm cnt faces keep sign)
  obtain rolls s1 where rolls: "roll_dice rng faces (nat cnt) s = (rolls, s1)" by force
  have ok: "1 \<le> cnt" "cnt \<le> 100" "1 \<le> faces" "faces \<le> MAX_FACES" "keep_ok cnt keep"
    using assms(2) by (simp_all add: DiceTerm term_ok_def dice_limits)
  have range: "\<forall>v \<in> set (map die_value (apply_keep keep rolls)). 1 \<le> v \<and> v \<le> faces"
    using rolls_in_range [OF ok(3,4) rolls] by (simp only: values_apply_keep)
  then have range': "list_all (\<lambda>r. 1 \<le> die_value r \<and> die_value r \<le> faces) (apply_keep keep rolls)"
    unfolding list_all_iff by (metis image_eqI set_map)
  have len: "length rolls = nat cnt"
    using length_roll_dice [OF rolls] .
  have kept: "length (filter die_kept (apply_keep keep rolls)) = nat (kept_amount cnt keep)"
  proof (cases keep)
    case None
    then show ?thesis
      using roll_dice_kept [OF rolls] len by (simp add: apply_keep_def kept_amount_def)
  next
    case (Some k)
    then show ?thesis
      using ok(5) len kept_count [of "snd k" rolls "fst k"]
      by (cases k) (simp add: keep_ok_def kept_amount_def nat_mono)
  qed
  have sum: "kept_sum (apply_keep keep rolls) =
      sum_list (map die_value (filter die_kept (apply_keep keep rolls)))"
    using range ok(2,4) len by (intro kept_sum_exact) auto
  show ?thesis
    using assms(1) rolls range' kept len
    by (auto simp: DiceTerm eval_term_def term_result_ok_def Let_def sum)
qed

lemma evaluate_ok:
  assumes "evaluateDiceNotation rng notation s = (Inr res, s')"
  shows "\<exists>parsed. parseDiceNotation notation = Inr parsed \<and>
    list_all2 term_result_ok (pr_terms parsed) (drr_terms res) \<and>
    (sum_list (map (\<lambda>r. \<bar>dr_subtotal r\<bar>) (drr_terms res)) < 2 ^ 53 \<longrightarrow>
       drr_total res = sum_list (map dr_subtotal (drr_terms res)))"
proof -
  obtain parsed terms tot where p: "parseDiceNotation notation = Inr parsed"
    and e: "eval_terms rng (pr_terms parsed) [] 0 s = ((terms, tot), s')"
    and res: "drr_terms res = terms" "drr_total res = tot"
    using assms by (auto simp: evaluateDiceNotation_def split: sum.splits prod.splits)
  have "list_all2 (\<lambda>tm r. \<exists>s s'. eval_term rng tm s = (r, s')) (pr_terms parsed) terms"
    and tot: "tot = foldl (\<lambda>acc r. js_add acc (dr_subtotal r)) 0 terms"
    using eval_terms_results [OF e] by auto
  then have "list_all2 term_result_ok (pr_terms parsed) terms"
    using parseDiceNotation_InrD [OF p] eval_term_ok
    by (auto simp: list_all2_conv_all_nth)
  then show ?thesis
    using p res tot foldl_js_add_exact [of 0 dr_subtotal terms] by auto
qed

end


definition counting_rng :: "nat rng" where
  "counting_rng = defaultRng (Some (\<lambda>s. (word_of_nat s, s + 1))) (\<lambda>s. (0, s))"

lemma roll_sample:
  "roll_dice counting_rng 6 2 9 =
     ([\<lparr>die_value = 4, die_kept = True\<rparr>, \<lparr>die_value = 5, die_kept = True\<rparr>], 11)"
  unfolding numeral_2_eq_2 roll_dice.simps counting_rng_def by (simp add: defaultRng_def)

lemma keep_sample:
  "apply_keep (Some (KH, 1)) [\<lparr>die_value = 4, die_kept = True\<rparr>, \<lparr>die_value = 5, die_kept = True\<rparr>] =
     [\<lparr>die_value = 4, die_kept = False\<rparr>, \<lparr>die_value = 5, die_kept = True\<rparr>]"
  by (simp add: apply_keep_def keep_indices_def keep_order_def)

lemma evaluate_sample:
  "evaluateDiceNotation counting_rng '' 2d6kh1 - 3'' 9 =
     (Inr \<lparr>drr_notation = ''2d6kh1 - 3'',
        drr_terms = [DiceResult 2 6 (Some (KH, 1))
            [\<lparr>die_value = 4, die_kept = False\<rparr>, \<lparr>die_value = 5, die_kept = True\<rparr>] 1 5,
          ModifierResult 3 (-1) (-3)],
        drr_total = 2\<rparr>, 11)"
  by (simp add: evaluateDiceNotation_def parse_sample eval_term_def roll_sample keep_sample
      kept_sum_def js_add_def to_double_def to_double_nat_def)


end
