(* ===== verification/Broker.thy ===== *)
theory Broker
  imports Database
begin

text \<open>
  Gateway events and the broker that carries them (apps/api/src/services/gateway-broker.ts): an
  in-process emitter that can be promoted, once, to one fed by Redis. Handlers are numbers;
  which of them throw on an event is an argument. Redis itself is not modelled: connecting to it
  succeeds or fails, and the messages it delivers are inputs.
\<close>

section \<open>Events\<close>

datatype event_data =
    PresenceData ident presence "string option" "millis option"
  | VoiceData ident ident "ident option" bool bool bool bool "millis option"
  | MemberData ident ident
  | OtherData string

record gateway_event =
  ge_type :: string
  ge_serverId :: "ident option"
  ge_channelId :: "ident option"
  ge_dmChannelId :: "ident option"
  ge_userId :: "ident option"
  ge_data :: event_data

definition event_for :: "string \<Rightarrow> event_data \<Rightarrow> gateway_event" where
  "event_for t d = \<lparr>ge_type = t, ge_serverId = None, ge_channelId = None, ge_dmChannelId = None,
     ge_userId = None, ge_data = d\<rparr>"

section \<open>Brokers\<close>

type_synonym handler = nat

text \<open>
  \<open>emit\<close> calls the listeners in the order they were added; a listener that throws ends the
  call, and \<open>publish\<close> swallows the exception. The result is the listeners called and whether
  one threw (which is logged).
\<close>

fun emit :: "(handler \<Rightarrow> gateway_event \<Rightarrow> bool) \<Rightarrow> handler list \<Rightarrow> gateway_event \<Rightarrow> handler list \<times> bool" where
  "emit throws [] e = ([], False)"
| "emit throws (h # hs) e =
     (if throws h e then ([h], True)
      else (case emit throws hs e of (called, failed) \<Rightarrow> (h # called, failed)))"

datatype emitter = InProcess | RedisFed

record lazy_broker =
  lb_inner :: emitter
  lb_inited :: bool
  lb_inproc :: "handler list"
  lb_redis :: "handler list"
  lb_logged :: "string list"

definition new_broker :: lazy_broker where
  "new_broker = \<lparr>lb_inner = InProcess, lb_inited = False, lb_inproc = [], lb_redis = [], lb_logged = []\<rparr>"

definition listeners :: "lazy_broker \<Rightarrow> handler list" where
  "listeners b = (case lb_inner b of InProcess \<Rightarrow> lb_inproc b | RedisFed \<Rightarrow> lb_redis b)"

definition subscribe :: "handler \<Rightarrow> lazy_broker \<Rightarrow> emitter \<times> lazy_broker" where
  "subscribe h b =
     (case lb_inner b of
        InProcess \<Rightarrow> (InProcess, b\<lparr>lb_inproc := lb_inproc b @ [h]\<rparr>)
      | RedisFed \<Rightarrow> (RedisFed, b\<lparr>lb_redis := lb_redis b @ [h]\<rparr>))"

text \<open>
  The function \<open>subscribe\<close> returned removes the handler from the emitter it was added to, the
  most recently added instance first.
\<close>

definition remove_last :: "'a \<Rightarrow> 'a list \<Rightarrow> 'a list" where
  "remove_last x xs = rev (remove1 x (rev xs))"

definition unsubscribe :: "emitter \<Rightarrow> handler \<Rightarrow> lazy_broker \<Rightarrow> lazy_broker" where
  "unsubscribe em h b =
     (case em of
        InProcess \<Rightarrow> b\<lparr>lb_inproc := remove_last h (lb_inproc b)\<rparr>
      | RedisFed \<Rightarrow> b\<lparr>lb_redis := remove_last h (lb_redis b)\<rparr>)"

definition useRedis :: "bool \<Rightarrow> lazy_broker \<Rightarrow> lazy_broker" where
  "useRedis reachable b =
     (if lb_inited b then b
      else if reachable then
        (case lb_inner b of
           InProcess \<Rightarrow>
             b\<lparr>lb_inner := RedisFed, lb_redis := lb_inproc b, lb_inproc := [], lb_inited := True\<rparr>
         | RedisFed \<Rightarrow> b\<lparr>lb_redis := [], lb_inited := True\<rparr>)
      else b\<lparr>lb_logged := lb_logged b @ [''gateway-broker fallback to in-process'']\<rparr>)"

text \<open>
  \<open>publish\<close> runs the listeners of the in-process emitter at once; on Redis it only hands the
  event over, and the event comes back as a message (\<open>redis_message\<close>, \<open>None\<close> when the
  text is not JSON), on this replica and on every other.
\<close>

definition publish ::
    "(handler \<Rightarrow> gateway_event \<Rightarrow> bool) \<Rightarrow> gateway_event \<Rightarrow> lazy_broker \<Rightarrow>
     handler list \<times> gateway_event list \<times> lazy_broker" where
  "publish throws e b =
     (case lb_inner b of
        InProcess \<Rightarrow>
          (case emit throws (lb_inproc b) e of (called, failed) \<Rightarrow>
             (called, [],
              if failed then b\<lparr>lb_logged := lb_logged b @ [''gateway.broker.in_process_publish_failed'']\<rparr>
              else b))
      | RedisFed \<Rightarrow> ([], [e], b))"

definition redis_message ::
    "(handler \<Rightarrow> gateway_event \<Rightarrow> bool) \<Rightarrow> gateway_event option \<Rightarrow> lazy_broker \<Rightarrow>
     handler list \<times> lazy_broker" where
  "redis_message throws msg b =
     (case msg of
        None \<Rightarrow> ([], b\<lparr>lb_logged := lb_logged b @ [''gateway.broker.malformed_payload'']\<rparr>)
      | Some e \<Rightarrow>
          (case emit throws (lb_redis b) e of (called, failed) \<Rightarrow>
             (called,
              if failed then b\<lparr>lb_logged := lb_logged b @ [''gateway.broker.malformed_payload'']\<rparr> else b)))"

definition close_broker :: "lazy_broker \<Rightarrow> lazy_broker" where
  "close_broker b = (case lb_inner b of InProcess \<Rightarrow> b\<lparr>lb_inproc := []\<rparr> | RedisFed \<Rightarrow> b)"

section \<open>Properties\<close>

lemma emit_all: "(\<And>h. h \<in> set hs \<Longrightarrow> \<not> throws h e) \<Longrightarrow> emit throws hs e = (hs, False)"
  by (induction hs) auto

text \<open>
  The broker as its clients see it: a list of subscribers that subscribing extends, that
  promotion keeps, and that every event reaches in order unless one of them throws.
\<close>

locale pubsub =
  fixes subs :: "'b \<Rightarrow> 'h list"
    and sub :: "'h \<Rightarrow> 'b \<Rightarrow> 'b"
    and promote :: "bool \<Rightarrow> 'b \<Rightarrow> 'b"
    and ok :: "'b \<Rightarrow> bool"
  assumes subs_sub: "subs (sub h b) = subs b @ [h]"
    and subs_promote: "ok b \<Longrightarrow> subs (promote r b) = subs b"
    and ok_sub: "ok b \<Longrightarrow> ok (sub h b)"
    and ok_promote: "ok b \<Longrightarrow> ok (promote r b)"
begin

fun run :: "('h + bool) list \<Rightarrow> 'b \<Rightarrow> 'b" where
  "run [] b = b"
| "run (Inl h # ops) b = run ops (sub h b)"
| "run (Inr r # ops) b = run ops (promote r b)"

lemma subs_run: "ok b \<Longrightarrow> subs (run ops b) = subs b @ List.map_filter (case_sum Some (\<lambda>_. None)) ops \<and> ok (run ops b)"
  by (induction ops b rule: run.induct)
    (auto simp: subs_sub subs_promote ok_sub ok_promote List.map_filter_def)

end

definition broker_ok :: "lazy_broker \<Rightarrow> bool" where
  "broker_ok b \<longleftrightarrow> (lb_inner b = RedisFed \<longrightarrow> lb_inited b)"

interpretation lazy: pubsub listeners "\<lambda>h b. snd (subscribe h b)" useRedis broker_ok
  by unfold_locales
    (auto simp: listeners_def subscribe_def useRedis_def broker_ok_def split: emitter.splits)

definition broker_step :: "handler + bool \<Rightarrow> lazy_broker \<Rightarrow> lazy_broker" where
  "broker_step s b = (case s of Inl h \<Rightarrow> snd (subscribe h b) | Inr reachable \<Rightarrow> useRedis reachable b)"

lemma broker_steps_run: "fold broker_step ops b = lazy.run ops b"
  by (induction ops arbitrary: b) (auto simp: broker_step_def split: sum.splits)

text \<open>
  No subscription is lost by promotion: after any sequence of subscriptions and of attempts
  to promote the broker to Redis, the listeners of the emitter in use are exactly the subscribed
  handlers, in subscription order, wherever in the sequence the promotion happened.
\<close>

theorem promotion_keeps_subscribers:
  "listeners (fold broker_step ops new_broker) = List.map_filter (case_sum Some (\<lambda>_. None)) ops"
  using lazy.subs_run [of new_broker ops]
  by (simp add: broker_steps_run broker_ok_def new_broker_def listeners_def)

text \<open>
  The function that \<open>subscribe\<close> returned before the promotion no longer unsubscribes after
  it: it removes the handler from the abandoned in-process emitter, and the handler goes on
  receiving every event that Redis delivers.
\<close>

theorem stale_unsubscribe_keeps_delivering:
  assumes "lb_inner b = InProcess" and "\<not> lb_inited b"
    and "subscribe h b = (em, b1)" and "b2 = unsubscribe em h (useRedis True b1)"
    and "\<And>h. \<not> throws h e"
  shows "h \<in> set (listeners b2) \<and> h \<in> set (fst (redis_message throws (Some e) b2))"
proof -
  have "lb_inner b2 = RedisFed" and "lb_redis b2 = lb_inproc b @ [h]"
    using assms by (auto simp: subscribe_def useRedis_def unsubscribe_def)
  then show ?thesis
    using emit_all [of "lb_redis b2" throws e] assms(5)
    by (simp add: listeners_def redis_message_def)
qed

theorem stale_unsubscribe_keeps_delivering_witness:
  "(7 :: nat) \<in> set (listeners (unsubscribe InProcess 7 (useRedis True (snd (subscribe 7 new_broker)))))"
  using stale_unsubscribe_keeps_delivering
    [of new_broker 7 InProcess "snd (subscribe 7 new_broker)" _ "\<lambda>_ _. False"]
  by (simp add: new_broker_def subscribe_def)

end
