(* ===== verification/Presence.thy ===== *)
theory Presence
  imports Broker JsText
begin

text \<open>
  Presence: the service that derives a user's status from open sockets, reported activity and
  the sticky do-not-disturb flag (apps/api/src/services/presence-service.ts), and the query for the
  peers that a change is federated to (federation-presence-targets.ts). Each exported function is
  one step of \<open>presence_world\<close>: its in-memory maps, the database, the events published and the
  federation calls made. The clock is an argument.
\<close>

section \<open>Federation targets\<close>

record fan_out_peer =
  fop_instanceId :: ident
  fop_host :: string

definition find_instance :: "db \<Rightarrow> ident \<Rightarrow> remote_instance_row option" where
  "find_instance d i = List.find (\<lambda>r. rin_id r = i) (db_remote_instances d)"

text \<open>The peered home instance of a remote user, as both queries select it.\<close>

definition peered_home :: "db \<Rightarrow> ident \<Rightarrow> remote_instance_row option" where
  "peered_home d userId =
     (case Option.bind (find_user d userId) usr_remoteInstanceId of
        None \<Rightarrow> None
      | Some i \<Rightarrow> (case find_instance d i of
                     None \<Rightarrow> None
                   | Some ri \<Rightarrow> if rin_status ri = Peered then Some ri else None))"

definition shared_tavern :: "db \<Rightarrow> ident \<Rightarrow> ident \<Rightarrow> bool" where
  "shared_tavern d userId serverId \<longleftrightarrow>
     (\<exists>s \<in> set (db_servers d). srv_id s = serverId \<and> srv_federationEnabled s) \<and>
     (\<exists>m \<in> set (db_members d). mem_serverId m = serverId \<and> mem_userId m = userId)"

definition shared_dm :: "db \<Rightarrow> ident \<Rightarrow> ident \<Rightarrow> bool" where
  "shared_dm d userId dmChannelId \<longleftrightarrow>
     (\<exists>m \<in> set (db_dm_members d). dmm_dmChannelId m = dmChannelId \<and> dmm_userId m = userId)"

definition consume_peer :: "remote_instance_row \<Rightarrow> fan_out_peer list \<Rightarrow> fan_out_peer list" where
  "consume_peer ri out =
     (if rin_id ri \<in> fop_instanceId ` set out then out
      else out @ [\<lparr>fop_instanceId = rin_id ri, fop_host = rin_host ri\<rparr>])"

definition findPresenceFanOutPeers :: "db \<Rightarrow> ident \<Rightarrow> fan_out_peer list" where
  "findPresenceFanOutPeers d userId =
     (let tavernRows = List.map_filter (\<lambda>m. peered_home d (mem_userId m))
                         (filter (\<lambda>m. shared_tavern d userId (mem_serverId m)) (db_members d));
          dmRows = List.map_filter (\<lambda>m. peered_home d (dmm_userId m))
                     (filter (\<lambda>m. shared_dm d userId (dmm_dmChannelId m)) (db_dm_members d))
      in fold consume_peer dmRows (fold consume_peer tavernRows []))"

section \<open>State\<close>

record presence_fan_out =
  pfo_peer :: fan_out_peer
  pfo_userRemoteUserId :: string
  pfo_presence :: presence
  pfo_customStatus :: "string option"
  pfo_customStatusExpiresAt :: "millis option"
  pfo_updatedAt :: millis
  pfo_enabledOnInstance :: bool

record federation_deps =
  fed_selfHost :: string
  fed_presenceEnabledOnInstance :: bool

record presence_world =
  pw_clientActive :: "(ident, bool) jsmap"
  pw_openSockets :: "(ident, int) jsmap"
  pw_federation :: "federation_deps option"
  pw_debounced :: "(ident, millis) jsmap"   \<comment> \<open>pending timers, by due time\<close>
  pw_db :: db
  pw_published :: "gateway_event list"
  pw_fanned_out :: "presence_fan_out list"

definition FAN_OUT_DEBOUNCE_MS :: millis where "FAN_OUT_DEBOUNCE_MS = 5000"

definition configurePresenceFederation :: "federation_deps option \<Rightarrow> presence_world \<Rightarrow> presence_world" where
  "configurePresenceFederation deps w = w\<lparr>pw_federation := deps\<rparr>"

section \<open>Federation fan-out\<close>

text \<open>
  \<open>emitFanOut\<close> calls \<open>fanOutPresenceUpdate\<close> once per peer with these arguments; a call that
  throws is logged and the next one is made.
\<close>

definition emitFanOut :: "ident \<Rightarrow> presence_world \<Rightarrow> presence_world" where
  "emitFanOut userId w =
     (case pw_federation w of
        None \<Rightarrow> w
      | Some deps \<Rightarrow>
          (case find_user (pw_db w) userId of
             None \<Rightarrow> w
           | Some user \<Rightarrow>
               if usr_remoteInstanceId user \<noteq> None then w
               else if \<not> usr_acceptsFederatedPresence user then w
               else
                 let peers = findPresenceFanOutPeers (pw_db w) userId;
                     userRemoteUserId = usr_username user @ ''@'' @ fed_selfHost deps
                 in w\<lparr>pw_fanned_out := pw_fanned_out w @
                      map (\<lambda>peer.
                        \<lparr>pfo_peer = peer, pfo_userRemoteUserId = userRemoteUserId,
                         pfo_presence = usr_presence user,
                         pfo_customStatus = usr_customStatus user,
                         pfo_customStatusExpiresAt = usr_customStatusExpiresAt user,
                         pfo_updatedAt = usr_presenceUpdatedAt user,
                         pfo_enabledOnInstance = fed_presenceEnabledOnInstance deps\<rparr>) peers\<rparr>))"

definition scheduleFanOut :: "millis \<Rightarrow> ident \<Rightarrow> bool \<Rightarrow> presence_world \<Rightarrow> presence_world" where
  "scheduleFanOut now userId immediate w =
     (if pw_federation w = None then w
      else if immediate then
        emitFanOut userId (w\<lparr>pw_debounced := map_del userId (pw_debounced w)\<rparr>)
      else if map_get (pw_debounced w) userId \<noteq> None then w
      else w\<lparr>pw_debounced := map_set userId (now + FAN_OUT_DEBOUNCE_MS) (pw_debounced w)\<rparr>)"

definition debounce_timer :: "ident \<Rightarrow> presence_world \<Rightarrow> presence_world" where
  "debounce_timer userId w = emitFanOut userId (w\<lparr>pw_debounced := map_del userId (pw_debounced w)\<rparr>)"

section \<open>Local presence\<close>

record presence_snapshot =
  snap_presence :: presence
  snap_customStatus :: "string option"
  snap_customStatusExpiresAt :: "millis option"

definition broadcast :: "ident \<Rightarrow> presence_snapshot \<Rightarrow> presence_world \<Rightarrow> presence_world" where
  "broadcast userId snapshot w =
     w\<lparr>pw_published := pw_published w @
       [(event_for ''PRESENCE_UPDATE''
           (PresenceData userId (snap_presence snapshot) (snap_customStatus snapshot)
              (snap_customStatusExpiresAt snapshot)))\<lparr>ge_userId := Some userId\<rparr>]\<rparr>"

definition compute :: "ident \<Rightarrow> bool \<Rightarrow> presence_world \<Rightarrow> presence" where
  "compute userId manualDnd w =
     (if \<not> get_or 0 (map_get (pw_openSockets w) userId) > 0 then Offline
      else if manualDnd then Dnd
      else if get_or True (map_get (pw_clientActive w) userId) then Active else Idle)"

definition update_user :: "ident \<Rightarrow> (user_row \<Rightarrow> user_row) \<Rightarrow> db \<Rightarrow> db" where
  "update_user userId f d = d\<lparr>db_users := update_where (\<lambda>r. usr_id r = userId) f (db_users d)\<rparr>"

definition persistAndBroadcast :: "millis \<Rightarrow> ident \<Rightarrow> presence \<Rightarrow> presence_world \<Rightarrow> presence_world" where
  "persistAndBroadcast now userId new w =
     (case find_user (pw_db w) userId of
        None \<Rightarrow> w
      | Some row \<Rightarrow>
          if usr_presence row = new then w
          else
            let w = w\<lparr>pw_db := update_user userId
                        (\<lambda>r. r\<lparr>usr_presence := new, usr_presenceUpdatedAt := now\<rparr>) (pw_db w)\<rparr>;
                w = broadcast userId
                      \<lparr>snap_presence = new, snap_customStatus = usr_customStatus row,
                       snap_customStatusExpiresAt = usr_customStatusExpiresAt row\<rparr> w
            in scheduleFanOut now userId (new = Offline) w)"

definition markConnected :: "millis \<Rightarrow> ident \<Rightarrow> presence_world \<Rightarrow> presence_world" where
  "markConnected now userId w =
     (let prev = get_or 0 (map_get (pw_openSockets w) userId);
          w = w\<lparr>pw_openSockets := map_set userId (prev + 1) (pw_openSockets w)\<rparr>;
          w = (if map_get (pw_clientActive w) userId = None
               then w\<lparr>pw_clientActive := map_set userId True (pw_clientActive w)\<rparr> else w)
      in case find_user (pw_db w) userId of
           None \<Rightarrow> w
         | Some row \<Rightarrow> persistAndBroadcast now userId (compute userId (usr_manualDnd row) w) w)"

definition markDisconnected :: "millis \<Rightarrow> ident \<Rightarrow> presence_world \<Rightarrow> presence_world" where
  "markDisconnected now userId w =
     (let prev = get_or 0 (map_get (pw_openSockets w) userId);
          new = max 0 (prev - 1)
      in if new = 0 then
           persistAndBroadcast now userId Offline
             (w\<lparr>pw_openSockets := map_del userId (pw_openSockets w),
                pw_clientActive := map_del userId (pw_clientActive w)\<rparr>)
         else w\<lparr>pw_openSockets := map_set userId new (pw_openSockets w)\<rparr>)"

definition reportActivity :: "millis \<Rightarrow> ident \<Rightarrow> bool \<Rightarrow> presence_world \<Rightarrow> presence_world" where
  "reportActivity now userId active w =
     (let w = w\<lparr>pw_clientActive := map_set userId active (pw_clientActive w)\<rparr>
      in case find_user (pw_db w) userId of
           None \<Rightarrow> w
         | Some row \<Rightarrow> persistAndBroadcast now userId (compute userId (usr_manualDnd row) w) w)"

text \<open>Updating a row that does not exist makes the database client throw: \<^const>\<open>None\<close>.\<close>

definition setManualDnd :: "millis \<Rightarrow> ident \<Rightarrow> bool \<Rightarrow> presence_world \<Rightarrow> presence_world option" where
  "setManualDnd now userId dnd w =
     (if find_user (pw_db w) userId = None then None
      else
        let w = w\<lparr>pw_db := update_user userId (\<lambda>r. r\<lparr>usr_manualDnd := dnd\<rparr>) (pw_db w)\<rparr>
        in Some (persistAndBroadcast now userId (compute userId dnd w) w))"

definition write_custom_status ::
    "millis \<Rightarrow> ident \<Rightarrow> string option \<Rightarrow> millis option \<Rightarrow> presence_world \<Rightarrow> presence_world" where
  "write_custom_status now userId status expiresAt w =
     (case find_user (pw_db w) userId of
        None \<Rightarrow> w
      | Some existing \<Rightarrow>
          let w = w\<lparr>pw_db := update_user userId
                      (\<lambda>r. r\<lparr>usr_customStatus := status, usr_customStatusExpiresAt := expiresAt,
                             usr_presenceUpdatedAt := now\<rparr>) (pw_db w)\<rparr>;
              w = broadcast userId
                    \<lparr>snap_presence = compute userId (usr_manualDnd existing) w,
                     snap_customStatus = status, snap_customStatusExpiresAt = expiresAt\<rparr> w
          in scheduleFanOut now userId True w)"

definition setCustomStatus ::
    "millis \<Rightarrow> ident \<Rightarrow> string \<Rightarrow> millis option \<Rightarrow> presence_world \<Rightarrow> presence_world" where
  "setCustomStatus now userId status expiresAt w =
     write_custom_status now userId (Some status) expiresAt w"

definition clearCustomStatus :: "millis \<Rightarrow> ident \<Rightarrow> presence_world \<Rightarrow> presence_world" where
  "clearCustomStatus now userId w = write_custom_status now userId None None w"

definition getPresenceForUser ::
    "ident \<Rightarrow> presence_world \<Rightarrow> presence \<times> bool \<times> string option \<times> millis option" where
  "getPresenceForUser userId w =
     (case find_user (pw_db w) userId of
        None \<Rightarrow> (Offline, False, None, None)
      | Some row \<Rightarrow> (usr_presence row, usr_manualDnd row, usr_customStatus row, usr_customStatusExpiresAt row))"

lemmas presence_op_defs =
  markConnected_def markDisconnected_def reportActivity_def setManualDnd_def write_custom_status_def
  setCustomStatus_def clearCustomStatus_def


section \<open>Runs\<close>

datatype presence_op =
    Connected ident | Disconnected ident | Activity ident bool | ManualDnd ident bool
  | SetStatus ident string "millis option" | ClearStatus ident
  | DebounceTimer ident | Configure "federation_deps option"

definition presence_step :: "presence_world \<Rightarrow> millis \<times> presence_op \<Rightarrow> presence_world" where
  "presence_step w te = (case te of (now, e) \<Rightarrow> (case e of
      Connected u \<Rightarrow> markConnected now u w
    | Disconnected u \<Rightarrow> markDisconnected now u w
    | Activity u active \<Rightarrow> reportActivity now u active w
    | ManualDnd u dnd \<Rightarrow> get_or w (setManualDnd now u dnd w)
    | SetStatus u s x \<Rightarrow> setCustomStatus now u s x w
    | ClearStatus u \<Rightarrow> clearCustomStatus now u w
    | DebounceTimer u \<Rightarrow> if map_get (pw_debounced w) u \<noteq> None then debounce_timer u w else w
    | Configure deps \<Rightarrow> configurePresenceFederation deps w))"

text \<open>The persisted presence of every user is the one the rules derive.\<close>

definition presence_consistent :: "presence_world \<Rightarrow> bool" where
  "presence_consistent w \<longleftrightarrow>
     (\<forall>u row. find_user (pw_db w) u = Some row \<longrightarrow> usr_presence row = compute u (usr_manualDnd row) w)"

lemma find_user_update [simp]:
  assumes "\<And>r. usr_id (f r) = usr_id r"
  shows "find_user (update_user u f d) v =
    (if v = u then map_option f (find_user d v) else find_user d v)"
proof (cases "v = u")
  case True
  have "map_option (\<lambda>r. if usr_id r = u then f r else r) (List.find (\<lambda>r. usr_id r = u) (db_users d)) =
      map_option f (List.find (\<lambda>r. usr_id r = u) (db_users d))"
    by (cases "List.find (\<lambda>r. usr_id r = u) (db_users d)") (auto dest: find_in_set)
  then show ?thesis
    using True assms by (simp add: find_user_def update_user_def find_update_where)
next
  case False
  then show ?thesis
    using assms by (auto simp: find_user_def update_user_def intro!: find_update_where_other)
qed

text \<open>The fan-out touches neither the database nor the maps \<open>compute\<close> reads.\<close>

lemma emitFanOut_frame [simp]:
  "pw_db (emitFanOut u w) = pw_db w" "pw_openSockets (emitFanOut u w) = pw_openSockets w"
  "pw_clientActive (emitFanOut u w) = pw_clientActive w" "pw_published (emitFanOut u w) = pw_published w"
  "pw_debounced (emitFanOut u w) = pw_debounced w" "pw_federation (emitFanOut u w) = pw_federation w"
  by (simp_all add: emitFanOut_def Let_def split: option.split)

lemma scheduleFanOut_frame [simp]:
  "pw_db (scheduleFanOut now u i w) = pw_db w" "pw_openSockets (scheduleFanOut now u i w) = pw_openSockets w"
  "pw_clientActive (scheduleFanOut now u i w) = pw_clientActive w"
  "pw_published (scheduleFanOut now u i w) = pw_published w"
  "pw_federation (scheduleFanOut now u i w) = pw_federation w"
  by (simp_all add: scheduleFanOut_def)

lemma broadcast_frame [simp]:
  "pw_db (broadcast u s w) = pw_db w" "pw_openSockets (broadcast u s w) = pw_openSockets w"
  "pw_clientActive (broadcast u s w) = pw_clientActive w" "pw_debounced (broadcast u s w) = pw_debounced w"
  "pw_federation (broadcast u s w) = pw_federation w" "pw_fanned_out (broadcast u s w) = pw_fanned_out w"
  by (simp_all add: broadcast_def)

lemma persist_frame [simp]:
  "pw_openSockets (persistAndBroadcast now u p w) = pw_openSockets w"
  "pw_clientActive (persistAndBroadcast now u p w) = pw_clientActive w"
  "pw_federation (persistAndBroadcast now u p w) = pw_federation w"
  by (simp_all add: persistAndBroadcast_def Let_def split: option.split)

lemma compute_cong:
  "map_get (pw_openSockets w) u = map_get (pw_openSockets w') u \<Longrightarrow>
   map_get (pw_clientActive w) u = map_get (pw_clientActive w') u \<Longrightarrow>
   compute u d w = compute u d w'"
  by (simp add: compute_def)

lemma compute_frame [simp]:
  "compute v d (persistAndBroadcast now u p w) = compute v d w"
  "compute v d (scheduleFanOut now u i w) = compute v d w"
  "compute v d (broadcast u s w) = compute v d w"
  "compute v d (emitFanOut u w) = compute v d w"
  "compute v d (w\<lparr>pw_db := x\<rparr>) = compute v d w"
  "compute v d (w\<lparr>pw_debounced := y\<rparr>) = compute v d w"
  "compute v d (w\<lparr>pw_federation := z\<rparr>) = compute v d w"
  by (rule compute_cong; simp)+

lemma find_user_persist:
  "find_user (pw_db (persistAndBroadcast now u p w)) v =
     (if v = u then map_option (\<lambda>r. if usr_presence r = p then r
                                 else r\<lparr>usr_presence := p, usr_presenceUpdatedAt := now\<rparr>)
                      (find_user (pw_db w) v)
      else find_user (pw_db w) v)"
  by (simp add: persistAndBroadcast_def Let_def split: option.split)

text \<open>
  Every operation on one user either recomputes that user's presence from the new inputs or
  leaves the inputs as they are; the others' are not touched.
\<close>

lemma consistent_persist:
  assumes "\<And>v row. v \<noteq> u \<Longrightarrow> find_user (pw_db w) v = Some row \<Longrightarrow>
      usr_presence row = compute v (usr_manualDnd row) w"
    and "\<And>row. find_user (pw_db w) u = Some row \<Longrightarrow> p = compute u (usr_manualDnd row) w"
  shows "presence_consistent (persistAndBroadcast now u p w)"
  unfolding presence_consistent_def
proof (intro allI impI)
  fix v row'
  assume f: "find_user (pw_db (persistAndBroadcast now u p w)) v = Some row'"
  show "usr_presence row' = compute v (usr_manualDnd row') (persistAndBroadcast now u p w)"
  proof (cases "v = u")
    case True
    then obtain row where row: "find_user (pw_db w) u = Some row"
      and "row' = (if usr_presence row = p then row else row\<lparr>usr_presence := p, usr_presenceUpdatedAt := now\<rparr>)"
      using f by (auto simp: find_user_persist)
    then show ?thesis
      using assms(2) [OF row] True by (cases "usr_presence row = p") simp_all
  next
    case False
    then show ?thesis
      using f assms(1) by (simp add: find_user_persist)
  qed
qed

lemma consistentD:
  "presence_consistent w \<Longrightarrow> find_user (pw_db w) u = Some row \<Longrightarrow>
   usr_presence row = compute u (usr_manualDnd row) w"
  by (simp add: presence_consistent_def)

lemma consistent_transfer:
  assumes "presence_consistent w" and "v \<noteq> u" and "find_user (pw_db w) v = Some row"
    and "\<And>v. v \<noteq> u \<Longrightarrow> map_get (pw_openSockets w') v = map_get (pw_openSockets w) v"
    and "\<And>v. v \<noteq> u \<Longrightarrow> map_get (pw_clientActive w') v = map_get (pw_clientActive w) v"
  shows "usr_presence row = compute v (usr_manualDnd row) w'"
  using consistentD [OF assms(1,3)] assms(2,4,5) compute_cong by metis

definition refresh :: "millis \<Rightarrow> ident \<Rightarrow> presence_world \<Rightarrow> presence_world" where
  "refresh now u w =
     (case find_user (pw_db w) u of
        None \<Rightarrow> w
      | Some row \<Rightarrow> persistAndBroadcast now u (compute u (usr_manualDnd row) w) w)"

lemma refresh_consistent:
  assumes "presence_consistent w" and "pw_db w' = pw_db w"
    and "\<And>v. v \<noteq> u \<Longrightarrow> map_get (pw_openSockets w') v = map_get (pw_openSockets w) v"
    and "\<And>v. v \<noteq> u \<Longrightarrow> map_get (pw_clientActive w') v = map_get (pw_clientActive w) v"
  shows "presence_consistent (refresh now u w')"
proof -
  have others: "v \<noteq> u \<Longrightarrow> find_user (pw_db w') v = Some row \<Longrightarrow>
      usr_presence row = compute v (usr_manualDnd row) w'" for v row
    unfolding assms(2) by (rule consistent_transfer [OF assms(1), where u = u]) (simp_all add: assms)
  show ?thesis
  proof (cases "find_user (pw_db w') u")
    case None
    then have "\<forall>v row. find_user (pw_db w') v = Some row \<longrightarrow> v \<noteq> u" by auto
    then show ?thesis
      using others None by (simp add: refresh_def presence_consistent_def)
  next
    case (Some row)
    then have "refresh now u w' = persistAndBroadcast now u (compute u (usr_manualDnd row) w') w'"
      by (simp add: refresh_def)
    moreover have "presence_consistent \<dots>"
      using others Some by (intro consistent_persist) auto
    ultimately show ?thesis by simp
  qed
qed

lemma markConnected_consistent:
  assumes "presence_consistent w"
  shows "presence_consistent (markConnected now u w)"
proof -
  define w1 where "w1 = w\<lparr>pw_openSockets := map_set u (get_or 0 (map_get (pw_openSockets w) u) + 1) (pw_openSockets w)\<rparr>"
  define w2 where "w2 = (if map_get (pw_clientActive w1) u = None
      then w1\<lparr>pw_clientActive := map_set u True (pw_clientActive w1)\<rparr> else w1)"
  have "markConnected now u w = refresh now u w2"
    unfolding markConnected_def w2_def w1_def refresh_def Let_def ..
  moreover have "presence_consistent (refresh now u w2)"
    by (rule refresh_consistent [OF assms]) (simp_all add: w1_def w2_def)
  ultimately show ?thesis by simp
qed

lemma markDisconnected_consistent:
  assumes "presence_consistent w"
  shows "presence_consistent (markDisconnected now u w)"
proof (cases "max 0 (get_or 0 (map_get (pw_openSockets w) u) - 1) = 0")
  case True
  let ?w = "w\<lparr>pw_openSockets := map_del u (pw_openSockets w), pw_clientActive := map_del u (pw_clientActive w)\<rparr>"
  have m: "markDisconnected now u w = persistAndBroadcast now u Offline ?w"
    using True by (simp add: markDisconnected_def Let_def)
  have "v \<noteq> u \<Longrightarrow> find_user (pw_db ?w) v = Some row \<Longrightarrow>
      usr_presence row = compute v (usr_manualDnd row) ?w" for v row
    by (rule consistent_transfer [OF assms, where u = u]) simp_all
  then show ?thesis
    unfolding m by (intro consistent_persist) (auto simp: compute_def)
next
  case False
  let ?n = "max 0 (get_or 0 (map_get (pw_openSockets w) u) - 1)"
  have m: "markDisconnected now u w = w\<lparr>pw_openSockets := map_set u ?n (pw_openSockets w)\<rparr>"
    using False by (simp add: markDisconnected_def Let_def)
  have "compute v d (w\<lparr>pw_openSockets := map_set u ?n (pw_openSockets w)\<rparr>) = compute v d w" for v d
    using False by (auto simp: compute_def)
  then show ?thesis
    unfolding m using assms by (simp add: presence_consistent_def)
qed

lemma reportActivity_consistent:
  assumes "presence_consistent w"
  shows "presence_consistent (reportActivity now u a w)"
proof -
  let ?w = "w\<lparr>pw_clientActive := map_set u a (pw_clientActive w)\<rparr>"
  have "reportActivity now u a w = refresh now u ?w"
    unfolding reportActivity_def refresh_def Let_def ..
  moreover have "presence_consistent (refresh now u ?w)"
    by (rule refresh_consistent [OF assms]) simp_all
  ultimately show ?thesis by simp
qed

lemma setManualDnd_consistent:
  assumes "presence_consistent w" and "setManualDnd now u dnd w = Some w'"
  shows "presence_consistent w'"
proof -
  let ?w = "w\<lparr>pw_db := update_user u (\<lambda>r. r\<lparr>usr_manualDnd := dnd\<rparr>) (pw_db w)\<rparr>"
  have w': "w' = persistAndBroadcast now u (compute u dnd ?w) ?w"
    using assms(2) by (auto simp: setManualDnd_def Let_def split: if_splits)
  show ?thesis
    unfolding w' using assms(1)
    by (intro consistent_persist) (auto simp: presence_consistent_def)
qed

lemma custom_status_consistent:
  "presence_consistent w \<Longrightarrow> presence_consistent (write_custom_status now u s x w)"
  by (auto simp: presence_consistent_def write_custom_status_def Let_def split: option.split)

lemma presence_step_consistent:
  "presence_consistent w \<Longrightarrow> presence_consistent (presence_step w te)"
  by (auto simp: presence_step_def setCustomStatus_def clearCustomStatus_def debounce_timer_def
      configurePresenceFederation_def get_or_def
      markConnected_consistent markDisconnected_consistent reportActivity_consistent
      custom_status_consistent setManualDnd_consistent
      split: presence_op.split option.split prod.split)
    (auto simp: presence_consistent_def)

interpretation presence_run: stepping presence_step presence_consistent
  by unfold_locales (rule presence_step_consistent)

definition start_world :: "db \<Rightarrow> presence_world" where
  "start_world d = \<lparr>pw_clientActive = [], pw_openSockets = [], pw_federation = None,
     pw_debounced = [], pw_db = d, pw_published = [], pw_fanned_out = []\<rparr>"

lemma start_consistent:
  "\<forall>r \<in> set (db_users d). usr_presence r = Offline \<Longrightarrow> presence_consistent (start_world d)"
  by (auto simp: presence_consistent_def start_world_def compute_def find_user_def dest: find_in_set)


definition sample_user :: "ident \<Rightarrow> user_row" where
  "sample_user u = \<lparr>usr_id = u, usr_username = u, usr_displayName = u, usr_createdAt = 0,
     usr_emailVerifiedAt = None, usr_remoteUserId = None, usr_remoteInstanceId = None,
     usr_presence = Offline, usr_presenceUpdatedAt = 0, usr_manualDnd = False,
     usr_customStatus = None, usr_customStatusExpiresAt = None, usr_acceptsFederatedPresence = True\<rparr>"

definition presence_db :: db where
  "presence_db = empty_db\<lparr>db_users := [sample_user ''ann'', sample_user ''bob'']\<rparr>"

lemmas presence_eval =
  presence_db_def sample_user_def empty_db_def start_world_def presence_step_def presence_op_defs
  persistAndBroadcast_def broadcast_def scheduleFanOut_def compute_def update_user_def update_where_def
  find_user_def event_for_def Let_def


section \<open>Who hears of it\<close>

lemma consume_fold:
  "fop_instanceId ` set (fold consume_peer ris out) = fop_instanceId ` set out \<union> rin_id ` set ris"
  by (induction ris arbitrary: out) (auto simp: consume_peer_def)

lemma consume_fold_distinct:
  "distinct (map fop_instanceId out) \<Longrightarrow> distinct (map fop_instanceId (fold consume_peer ris out))"
  by (induction ris arbitrary: out) (auto simp: consume_peer_def)

lemma consume_fold_from:
  "p \<in> set (fold consume_peer ris out) \<Longrightarrow>
   p \<in> set out \<or> (\<exists>ri \<in> set ris. p = \<lparr>fop_instanceId = rin_id ri, fop_host = rin_host ri\<rparr>)"
  by (induction ris arbitrary: out) (fastforce simp: consume_peer_def split: if_splits)+

lemma set_map_filter_iff: "y \<in> set (List.map_filter f xs) \<longleftrightarrow> (\<exists>x \<in> set xs. f x = Some y)"
  by (induction xs) (auto simp: List.map_filter_def)

text \<open>
  The peers a presence change is federated to are, each once, exactly the instances that are
  peered and are the home of a user who shares with the user a federation-enabled server or a
  direct-message channel.
\<close>

theorem findPresenceFanOutPeers_exact:
  "distinct (map fop_instanceId (findPresenceFanOutPeers d u)) \<and>
   fop_instanceId ` set (findPresenceFanOutPeers d u) =
     {rin_id ri |ri. \<exists>v. peered_home d v = Some ri \<and>
        ((\<exists>m \<in> set (db_members d). mem_userId m = v \<and> shared_tavern d u (mem_serverId m)) \<or>
         (\<exists>m \<in> set (db_dm_members d). dmm_userId m = v \<and> shared_dm d u (dmm_dmChannelId m)))}"
  unfolding findPresenceFanOutPeers_def Let_def
  by (auto simp: consume_fold consume_fold_distinct set_map_filter_iff)
    (force simp: set_map_filter_iff)+

definition fan_out_allowed :: "presence_world \<Rightarrow> presence_fan_out \<Rightarrow> bool" where
  "fan_out_allowed w f \<longleftrightarrow>
     (\<exists>row \<in> set (db_users (pw_db w)).
        usr_remoteInstanceId row = None \<and> usr_acceptsFederatedPresence row \<and>
        pfo_peer f \<in> set (findPresenceFanOutPeers (pw_db w) (usr_id row)) \<and>
        pfo_presence f = usr_presence row \<and> pfo_customStatus f = usr_customStatus row \<and>
        pfo_updatedAt f = usr_presenceUpdatedAt row)"

lemma emitFanOut_allowed:
  "\<exists>new. pw_fanned_out (emitFanOut u w) = pw_fanned_out w @ new \<and> list_all (fan_out_allowed (emitFanOut u w)) new"
proof (cases "pw_federation w = None \<or> find_user (pw_db w) u = None")
  case False
  then obtain deps row where deps: "pw_federation w = Some deps" and row: "find_user (pw_db w) u = Some row"
    by auto
  then have "row \<in> set (db_users (pw_db w))" and "usr_id row = u"
    by (auto simp: find_user_def dest: find_in_set)
  then show ?thesis
    by (auto simp: emitFanOut_def deps row Let_def fan_out_allowed_def list_all_iff)
qed (auto simp: emitFanOut_def split: option.split)

lemma allowed_db:
  "pw_db w = pw_db w' \<Longrightarrow> fan_out_allowed w = fan_out_allowed w'"
  by (rule ext) (simp add: fan_out_allowed_def)

definition sends :: "presence_world \<Rightarrow> presence_world \<Rightarrow> bool" where
  "sends w w' \<longleftrightarrow> (\<exists>new. pw_fanned_out w' = pw_fanned_out w @ new \<and> list_all (fan_out_allowed w') new)"

lemma sends_none: "pw_fanned_out w' = pw_fanned_out w \<Longrightarrow> sends w w'"
  by (auto simp: sends_def)

lemma sends_emit: "pw_fanned_out w1 = pw_fanned_out w \<Longrightarrow> sends w (emitFanOut u w1)"
  using emitFanOut_allowed [of u w1] by (simp add: sends_def)

lemma sends_schedule: "pw_fanned_out w1 = pw_fanned_out w \<Longrightarrow> sends w (scheduleFanOut now u i w1)"
  by (auto simp: scheduleFanOut_def intro: sends_none sends_emit)

lemma sends_persist: "pw_fanned_out w1 = pw_fanned_out w \<Longrightarrow> sends w (persistAndBroadcast now u p w1)"
  by (auto simp: persistAndBroadcast_def Let_def intro!: sends_none sends_schedule split: option.split)

lemma sends_step: "sends w (presence_step w te)"
  by (auto simp: presence_step_def presence_op_defs debounce_timer_def configurePresenceFederation_def
      Let_def get_or_def intro!: sends_none sends_emit sends_schedule sends_persist
      split: presence_op.split option.split prod.split)

text \<open>
  Privacy of the federation fan-out, for every operation and timer: each presence update it
  hands to federation is for a user of this instance (no mirror of a remote user) who accepts
  federated presence, goes to one of that user's peers, and carries the values stored at that
  moment, not those of the moment the fan-out was scheduled.
\<close>

theorem fan_out_is_allowed:
  "\<exists>new. pw_fanned_out (presence_step w te) = pw_fanned_out w @ new \<and>
     list_all (fan_out_allowed (presence_step w te)) new"
  using sends_step [of w te] by (simp add: sends_def)

text \<open>
  With federation configured, a change to offline is sent at once and leaves no fan-out
  pending for the user; any other change sends nothing now and leaves one pending, due within the
  debounce window if the one already pending is.
\<close>

theorem offline_is_immediate:
  assumes "pw_federation w \<noteq> None" and "find_user (pw_db w) u = Some row" and "usr_presence row \<noteq> p"
  shows "(p = Offline \<longrightarrow> map_get (pw_debounced (persistAndBroadcast now u p w)) u = None \<and>
            (usr_remoteInstanceId row = None \<and> usr_acceptsFederatedPresence row \<longrightarrow>
             length (pw_fanned_out (persistAndBroadcast now u p w)) =
               length (pw_fanned_out w) +
               length (findPresenceFanOutPeers (pw_db (persistAndBroadcast now u p w)) u))) \<and>
         (p \<noteq> Offline \<longrightarrow> pw_fanned_out (persistAndBroadcast now u p w) = pw_fanned_out w \<and>
            map_get (pw_debounced (persistAndBroadcast now u p w)) u =
              Some (get_or (now + 5000) (map_get (pw_debounced w) u)))"
  using assms
  by (auto simp: persistAndBroadcast_def Let_def scheduleFanOut_def FAN_OUT_DEBOUNCE_MS_def emitFanOut_def)

theorem offline_is_immediate_witness:
  "map_get (pw_debounced (persistAndBroadcast 9 ''ann'' Active
     ((start_world presence_db)\<lparr>pw_federation := Some \<lparr>fed_selfHost = ''here.example'',
        fed_presenceEnabledOnInstance = True\<rparr>\<rparr>))) ''ann'' = Some 5009"
  using offline_is_immediate
    [of "(start_world presence_db)\<lparr>pw_federation := Some \<lparr>fed_selfHost = ''here.example'',
        fed_presenceEnabledOnInstance = True\<rparr>\<rparr>" "''ann''" "sample_user ''ann''" Active 9]
  by (simp add: presence_eval)

end
