(* ===== verification/AuditLog.thy ===== *)
theory AuditLog
  imports Broker
begin

text \<open>
  The state the moderation services share, and the audit log with its mirror into the
  moderation channel (apps/api/src/services/audit-service.ts).
\<close>

section \<open>The world of the services\<close>

text \<open>
  The services write the database, publish events and hand federation jobs to the outbox. The
  ULIDs they draw come from a supply, and the clock is an argument.
\<close>

record member_remove_job =
  mrj_serverId :: ident
  mrj_memberRemoteUserId :: string
  mrj_reason :: string
  mrj_removedAt :: millis
  mrj_actorUserId :: ident
  mrj_additionalPeers :: "ident list"
  mrj_enabledOnInstance :: bool

record service_world =
  sw_db :: db
  sw_published :: "gateway_event list"
  sw_member_removals :: "member_remove_job list"
  sw_ulids :: "nat \<Rightarrow> ident"
  sw_next :: nat

definition new_ulid :: "service_world \<Rightarrow> ident \<times> service_world" where
  "new_ulid w = (sw_ulids w (sw_next w), w\<lparr>sw_next := sw_next w + 1\<rparr>)"

definition publish_event :: "gateway_event \<Rightarrow> service_world \<Rightarrow> service_world" where
  "publish_event e w = w\<lparr>sw_published := sw_published w @ [e]\<rparr>"

section \<open>Audit entries\<close>

record audit_input =
  ai_serverId :: "ident option"
  ai_actorId :: "ident option"
  ai_action :: string
  ai_targetType :: "string option"
  ai_targetId :: "string option"
  ai_metadata :: "(string, metadata_value) jsmap option"

definition formatAction :: "string \<Rightarrow> string" where
  "formatAction action =
     (if action = ''member.timeout'' then ''timed out a member''
      else if action = ''member.timeout_clear'' then ''lifted a timeout''
      else if action = ''member.kick'' then ''kicked a member''
      else if action = ''member.warn'' then ''warned a member''
      else if action = ''message.deleted'' then ''deleted a message''
      else if action = ''message.bulk_delete'' then ''bulk-deleted messages''
      else if action = ''channel.updated'' then ''updated a room''
      else if action = ''automod.hit'' then ''auto-moderation triggered''
      else if action = ''automod.preset_enabled'' then ''enabled an auto-mod preset''
      else if action = ''automod.preset_disabled'' then ''disabled an auto-mod preset''
      else if action = ''raid.lockdown_started'' then ''raid lockdown engaged''
      else if action = ''raid.lockdown_lifted'' then ''raid lockdown lifted''
      else if action = ''server.verification_changed'' then ''changed the verification level''
      else ''did **'' @ action @ ''**'')"

text \<open>The reason as the mirror prints it; the dash is written as its UTF-8 bytes.\<close>

definition reason_suffix :: "(string, metadata_value) jsmap option \<Rightarrow> string" where
  "reason_suffix metadata =
     (case Option.bind metadata (\<lambda>m. map_get m ''reason'') of
        None \<Rightarrow> ''''
      | Some v \<Rightarrow> '' '' @ [CHR 0xE2, CHR 0x80, CHR 0x94] @ '' '' @
                  (case v of MetaText s \<Rightarrow> s | _ \<Rightarrow> ''''))"

definition target_suffix :: "string option \<Rightarrow> string option \<Rightarrow> string" where
  "target_suffix t i =
     (if get_or '''' t \<noteq> '''' \<and> get_or '''' i \<noteq> ''''
      then '' '' @ [CHR 0xB7] @ '' '' @ get_or '''' t @ '':'' @ get_or '''' i else '''')"

definition postModLogMirror :: "millis \<Rightarrow> audit_input \<Rightarrow> service_world \<Rightarrow> service_world" where
  "postModLogMirror now i w =
     (case ai_serverId i of
        None \<Rightarrow> w
      | Some serverId \<Rightarrow>
          (case find_server (sw_db w) serverId of
             None \<Rightarrow> w
           | Some server \<Rightarrow>
               (case srv_modLogChannelId server of
                  None \<Rightarrow> w
                | Some channelId \<Rightarrow>
                    let actor = Option.bind (ai_actorId i) (find_user (sw_db w));
                        actorName = get_or ''(system)'' (map_option usr_displayName actor);
                        content = ''**'' @ actorName @ ''** '' @ formatAction (ai_action i) @
                                  target_suffix (ai_targetType i) (ai_targetId i) @
                                  reason_suffix (ai_metadata i)
                    in (case new_ulid w of (messageId, w) \<Rightarrow>
                          publish_event
                            ((event_for ''MESSAGE_CREATE'' (OtherData content))
                              \<lparr>ge_serverId := Some serverId, ge_channelId := Some channelId\<rparr>)
                            (w\<lparr>sw_db := (sw_db w)\<lparr>db_messages := db_messages (sw_db w) @
                                [\<lparr>msg_id = messageId, msg_serverId = Some serverId,
                                  msg_channelId = Some channelId, msg_authorId = srv_ownerUserId server,
                                  msg_system = True, msg_content = content, msg_createdAt = now,
                                  msg_deletedAt = None\<rparr>]\<rparr>\<rparr>)))))"

definition writeAuditEntry :: "millis \<Rightarrow> audit_input \<Rightarrow> service_world \<Rightarrow> service_world" where
  "writeAuditEntry now i w =
     (case new_ulid w of (entryId, w) \<Rightarrow>
        let w = w\<lparr>sw_db := (sw_db w)\<lparr>db_audit := db_audit (sw_db w) @
                  [\<lparr>aud_id = entryId, aud_serverId = ai_serverId i, aud_actorId = ai_actorId i,
                    aud_action = ai_action i, aud_targetType = ai_targetType i,
                    aud_targetId = ai_targetId i, aud_metadata = ai_metadata i\<rparr>]\<rparr>\<rparr>
        in if get_or '''' (ai_serverId i) \<noteq> '''' then postModLogMirror now i w else w)"

text \<open>Apart from its own entry and the mirror message, an audit write changes nothing.\<close>

lemma writeAuditEntry_frame:
  "db_users (sw_db (writeAuditEntry now i w)) = db_users (sw_db w)"
  "db_servers (sw_db (writeAuditEntry now i w)) = db_servers (sw_db w)"
  "db_members (sw_db (writeAuditEntry now i w)) = db_members (sw_db w)"
  "db_roles (sw_db (writeAuditEntry now i w)) = db_roles (sw_db w)"
  "db_member_roles (sw_db (writeAuditEntry now i w)) = db_member_roles (sw_db w)"
  "db_channels (sw_db (writeAuditEntry now i w)) = db_channels (sw_db w)"
  "db_overwrites (sw_db (writeAuditEntry now i w)) = db_overwrites (sw_db w)"
  "db_bans (sw_db (writeAuditEntry now i w)) = db_bans (sw_db w)"
  "db_voice_states (sw_db (writeAuditEntry now i w)) = db_voice_states (sw_db w)"
  "sw_member_removals (writeAuditEntry now i w) = sw_member_removals w"
  by (simp_all add: writeAuditEntry_def postModLogMirror_def new_ulid_def publish_event_def Let_def
      split: option.split)

end
