(* ===== verification/Moderation.thy ===== *)
theory Moderation
  imports PermissionService AuditLog JsText
begin

text \<open>
  Moderation services: bans (apps/api/src/services/ban-service.ts), member blocks
  (block-service.ts) and the posting gate (verification-service.ts).
\<close>

section \<open>Bans\<close>

record ban_federation =
  bf_selfHost :: string
  bf_enabledOnInstance :: bool

record ban_input =
  bi_serverId :: ident
  bi_targetUserId :: ident
  bi_actorUserId :: ident
  bi_reason :: "string option"
  bi_expiresAt :: "millis option"
  bi_sweepRecentHours :: "int option"
  bi_federation :: "ban_federation option"

definition member_target_roles :: "db \<Rightarrow> ident \<Rightarrow> ident \<Rightarrow> target_role list" where
  "member_target_roles d serverId userId =
     map (\<lambda>r. \<lparr>tr_position = rol_position r, tr_permissions = column_permissions (rol_permissions r)\<rparr>)
       (member_roles_of d serverId userId)"

definition voice_cleared :: "voice_row \<Rightarrow> voice_row" where
  "voice_cleared r = r\<lparr>voi_channelId := None, voi_joinedAt := None, voi_screenSharing := False,
     voi_cameraOn := False\<rparr>"

text \<open>The messages the optional sweep soft-deletes.\<close>

definition swept :: "millis \<Rightarrow> ban_input \<Rightarrow> message_row \<Rightarrow> bool" where
  "swept now i m \<longleftrightarrow>
     (let hours = get_or 0 (bi_sweepRecentHours i)
      in hours > 0 \<and> msg_serverId m = Some (bi_serverId i) \<and> msg_authorId m = bi_targetUserId i \<and>
         msg_createdAt m \<ge> now - hours * 60 * 60 * 1000 \<and> msg_deletedAt m = None)"

definition ban_transaction :: "millis \<Rightarrow> ban_input \<Rightarrow> bool \<Rightarrow> db \<Rightarrow> db" where
  "ban_transaction now i isMember d =
     (let s = bi_serverId i; u = bi_targetUserId i;
          d = d\<lparr>db_bans := upsert_where (\<lambda>b. ban_serverId b = s \<and> ban_userId b = u)
                  \<lparr>ban_serverId = s, ban_userId = u, ban_bannedByUserId = Some (bi_actorUserId i),
                   ban_reason = bi_reason i, ban_expiresAt = bi_expiresAt i, ban_createdAt = now\<rparr>
                  (\<lambda>b. b\<lparr>ban_bannedByUserId := Some (bi_actorUserId i), ban_reason := bi_reason i,
                         ban_expiresAt := bi_expiresAt i\<rparr>) (db_bans d)\<rparr>;
          d = (if isMember then
                 d\<lparr>db_member_roles := delete_where (\<lambda>r. mr_serverId r = s \<and> mr_userId r = u) (db_member_roles d),
                   db_members := delete_where (\<lambda>m. mem_serverId m = s \<and> mem_userId m = u) (db_members d)\<rparr>
               else d)
      in d\<lparr>db_voice_states :=
             update_where (\<lambda>v. voi_serverId v = s \<and> voi_userId v = u) voice_cleared (db_voice_states d),
           db_messages :=
             update_where (swept now i) (\<lambda>m. m\<lparr>msg_deletedAt := Some now, msg_content := ''''\<rparr>)
               (db_messages d)\<rparr>)"

definition ban_audit :: "ban_input \<Rightarrow> nat \<Rightarrow> audit_input" where
  "ban_audit i messagesDeleted =
     \<lparr>ai_serverId = Some (bi_serverId i), ai_actorId = Some (bi_actorUserId i),
      ai_action = ''member.banned'', ai_targetType = Some ''user'',
      ai_targetId = Some (bi_targetUserId i),
      ai_metadata = Some ([(''reason'', case bi_reason i of None \<Rightarrow> MetaNull | Some r \<Rightarrow> MetaText r),
         (''expiresAt'', case bi_expiresAt i of None \<Rightarrow> MetaNull | Some t \<Rightarrow> MetaTime t)] @
        (if get_or 0 (bi_sweepRecentHours i) \<noteq> 0 then
           [(''sweepRecentHours'', MetaNumber (get_or 0 (bi_sweepRecentHours i))),
            (''messagesDeleted'', MetaNumber (int messagesDeleted))] else []))\<rparr>"

definition ban_event :: "string \<Rightarrow> ident \<Rightarrow> ident \<Rightarrow> gateway_event" where
  "ban_event t serverId userId =
     (event_for t (MemberData serverId userId))\<lparr>ge_serverId := Some serverId, ge_userId := Some userId\<rparr>"

definition ban_fan_out ::
    "millis \<Rightarrow> ban_input \<Rightarrow> server_row \<Rightarrow> user_row option \<Rightarrow> service_world \<Rightarrow> service_world" where
  "ban_fan_out now i server target w =
     (case (bi_federation i, target) of
        (Some federation, Some user) \<Rightarrow>
          if srv_federationEnabled server \<and> srv_originInstanceId server = None then
            w\<lparr>sw_member_removals := sw_member_removals w @
               [\<lparr>mrj_serverId = bi_serverId i,
                 mrj_memberRemoteUserId =
                   get_or (usr_username user @ ''@'' @ bf_selfHost federation) (usr_remoteUserId user),
                 mrj_reason = ''banned'', mrj_removedAt = now, mrj_actorUserId = bi_actorUserId i,
                 mrj_additionalPeers = (case usr_remoteInstanceId user of None \<Rightarrow> [] | Some p \<Rightarrow> [p]),
                 mrj_enabledOnInstance = bf_enabledOnInstance federation\<rparr>]\<rparr>
          else w
      | _ \<Rightarrow> w)"

definition banMember :: "millis \<Rightarrow> ban_input \<Rightarrow> service_world \<Rightarrow> (tavern_error + nat) \<times> service_world" where
  "banMember now i w =
     (let d = sw_db w; s = bi_serverId i; u = bi_targetUserId i
      in if u = bi_actorUserId i then (Inl (validation (Some ''You cannot ban yourself'') None), w)
         else
           (case find_server d s of
              None \<Rightarrow> (Inl (notFound (Some ''Server not found'')), w)
            | Some server \<Rightarrow>
                if srv_ownerUserId server = u then
                  (Inl (TavernError ROLE_HIERARCHY ''The server owner cannot be banned'' 403 None), w)
                else
                  let target = find_user d u;
                      isMember = (find_member d s u \<noteq> None);
                      targetRoles = (if isMember then member_target_roles d s u else []);
                      hierarchy = (if length targetRoles > 0
                                   then requireRoleHierarchy d s (bi_actorUserId i) targetRoles
                                   else Inr ())
                  in (case hierarchy of
                        Inl e \<Rightarrow> (Inl e, w)
                      | Inr _ \<Rightarrow>
                          let messagesDeleted = length (filter (swept now i) (db_messages d));
                              w = w\<lparr>sw_db := ban_transaction now i isMember d\<rparr>;
                              w = writeAuditEntry now (ban_audit i messagesDeleted) w;
                              w = publish_event (ban_event ''GUILD_BAN_ADD'' s u) w;
                              w = ban_fan_out now i server target w
                          in (Inr messagesDeleted, w))))"

definition unbanMember ::
    "millis \<Rightarrow> ident \<Rightarrow> ident \<Rightarrow> ident \<Rightarrow> service_world \<Rightarrow> (tavern_error + unit) \<times> service_world" where
  "unbanMember now serverId targetUserId actorUserId w =
     (case find_ban (sw_db w) serverId targetUserId of
        None \<Rightarrow> (Inl (notFound (Some ''No active ban for this user'')), w)
      | Some existing \<Rightarrow>
          let w = w\<lparr>sw_db := (sw_db w)\<lparr>db_bans := delete_where
                    (\<lambda>b. ban_serverId b = serverId \<and> ban_userId b = targetUserId) (db_bans (sw_db w))\<rparr>\<rparr>;
              w = writeAuditEntry now
                    \<lparr>ai_serverId = Some serverId, ai_actorId = Some actorUserId,
                     ai_action = ''member.unbanned'', ai_targetType = Some ''user'',
                     ai_targetId = Some targetUserId, ai_metadata = None\<rparr> w
          in (Inr (), publish_event (ban_event ''GUILD_BAN_REMOVE'' serverId targetUserId) w))"

text \<open>Reads that find an expired ban delete it.\<close>

definition isBanned :: "millis \<Rightarrow> ident \<Rightarrow> ident \<Rightarrow> db \<Rightarrow> bool \<times> db" where
  "isBanned now serverId userId d =
     (case find_ban d serverId userId of
        None \<Rightarrow> (False, d)
      | Some ban \<Rightarrow>
          if (case ban_expiresAt ban of None \<Rightarrow> False | Some t \<Rightarrow> t \<le> now) then
            (False, d\<lparr>db_bans := delete_where
               (\<lambda>b. ban_serverId b = serverId \<and> ban_userId b = userId) (db_bans d)\<rparr>)
          else (True, d))"

definition newest_first :: "ban_row comparator" where
  "newest_first = key (\<lambda>b. - ban_createdAt b) default"

definition ban_expired :: "millis \<Rightarrow> ban_row \<Rightarrow> bool" where
  "ban_expired now b = (case ban_expiresAt b of None \<Rightarrow> False | Some t \<Rightarrow> t \<le> now)"

definition listBans :: "millis \<Rightarrow> ident \<Rightarrow> db \<Rightarrow> ban_row list \<times> db" where
  "listBans now serverId d =
     (let rows = Sorting_Algorithms.sort newest_first (filter (\<lambda>b. ban_serverId b = serverId) (db_bans d));
          expiredIds = map ban_userId (filter (ban_expired now) rows);
          live = filter (\<lambda>b. \<not> ban_expired now b) rows
      in (live,
          if length expiredIds > 0 then
            d\<lparr>db_bans := delete_where (\<lambda>b. ban_serverId b = serverId \<and> ban_userId b \<in> set expiredIds)
                (db_bans d)\<rparr>
          else d))"

definition activeBanServerIds :: "millis \<Rightarrow> ident \<Rightarrow> db \<Rightarrow> ident set" where
  "activeBanServerIds now userId d =
     set (map ban_serverId (filter (\<lambda>b. ban_userId b = userId \<and>
        (case ban_expiresAt b of None \<Rightarrow> True | Some t \<Rightarrow> t > now)) (db_bans d)))"

section \<open>Blocks\<close>

definition isBlocked :: "db \<Rightarrow> ident \<Rightarrow> ident \<Rightarrow> bool" where
  "isBlocked d blockerId blockedId \<longleftrightarrow>
     List.find (\<lambda>r. blk_blockerId r = blockerId \<and> blk_blockedId r = blockedId) (db_blocks d) \<noteq> None"

definition blockExistsEitherDirection :: "db \<Rightarrow> ident \<Rightarrow> ident \<Rightarrow> bool \<times> bool" where
  "blockExistsEitherDirection d a b =
     (if a = b then (False, False)
      else
        let rows = filter (\<lambda>r. (blk_blockerId r = a \<and> blk_blockedId r = b) \<or>
                               (blk_blockerId r = b \<and> blk_blockedId r = a)) (db_blocks d)
        in (list_ex (\<lambda>r. blk_blockerId r = a \<and> blk_blockedId r = b) rows,
            list_ex (\<lambda>r. blk_blockerId r = b \<and> blk_blockedId r = a) rows))"

definition blockersOf :: "db \<Rightarrow> ident \<Rightarrow> ident list \<Rightarrow> ident set" where
  "blockersOf d authorId candidateIds =
     (if length candidateIds = 0 then {}
      else set (map blk_blockerId
             (filter (\<lambda>r. blk_blockedId r = authorId \<and> blk_blockerId r \<in> set candidateIds) (db_blocks d))))"

definition getBlockedIds :: "db \<Rightarrow> ident \<Rightarrow> ident set" where
  "getBlockedIds d userId =
     set (map blk_blockedId (filter (\<lambda>r. blk_blockerId r = userId) (db_blocks d)))"

record blocked_user =
  bu_userId :: ident
  bu_displayName :: string
  bu_username :: string
  bu_createdAt :: millis

definition listBlocks :: "db \<Rightarrow> ident \<Rightarrow> blocked_user list" where
  "listBlocks d userId =
     List.map_filter (\<lambda>r. map_option (\<lambda>u. \<lparr>bu_userId = blk_blockedId r, bu_displayName = usr_displayName u,
           bu_username = usr_username u, bu_createdAt = blk_createdAt r\<rparr>) (find_user d (blk_blockedId r)))
       (Sorting_Algorithms.sort (key (\<lambda>r. - blk_createdAt r) default)
         (filter (\<lambda>r. blk_blockerId r = userId) (db_blocks d)))"

section \<open>The posting gate\<close>

definition assertCanPostUnderVerification :: "millis \<Rightarrow> db \<Rightarrow> ident \<Rightarrow> ident \<Rightarrow> tavern_error + unit" where
  "assertCanPostUnderVerification now d serverId userId =
     (case find_server d serverId of
        None \<Rightarrow> Inr ()
      | Some server \<Rightarrow>
          (case srv_verificationLevel server of
             VerNone \<Rightarrow> Inr ()
           | EmailVerified \<Rightarrow>
               if Option.bind (find_user d userId) usr_emailVerifiedAt = None then
                 Inl (TavernError VERIFICATION_REQUIRED ''Verify your email before posting in this tavern'' 403 None)
               else Inr ()
           | AccountAge \<Rightarrow>
               let minMs = srv_verificationMinAccountAgeHours server * 60 * 60 * 1000
               in if (case find_user d userId of None \<Rightarrow> True | Some u \<Rightarrow> now - usr_createdAt u < minMs) then
                    Inl (TavernError VERIFICATION_REQUIRED
                           ''Your account is too new to post in this tavern yet'' 403 None)
                  else Inr ()
           | MustPassGate \<Rightarrow>
               if Option.bind (find_member d serverId userId) mem_gatePassedAt = None then
                 Inl (TavernError VERIFICATION_REQUIRED
                        ''You need to be approved before posting in this tavern'' 403 None)
               else Inr ()))"


section \<open>Properties\<close>

definition bans_ok :: "db \<Rightarrow> bool" where
  "bans_ok d \<longleftrightarrow> distinct (map (\<lambda>b. (ban_serverId b, ban_userId b)) (db_bans d))"

lemma db_ok_bans: "db_ok d \<Longrightarrow> bans_ok d"
  by (simp add: db_ok_def bans_ok_def)

definition active_ban :: "millis \<Rightarrow> db \<Rightarrow> ident \<Rightarrow> ident \<Rightarrow> bool" where
  "active_ban now d s u \<longleftrightarrow>
     (\<exists>b \<in> set (db_bans d). ban_serverId b = s \<and> ban_userId b = u \<and> \<not> ban_expired now b)"

lemma find_ban_iff:
  assumes "bans_ok d"
  shows "find_ban d s u = Some b \<longleftrightarrow> b \<in> set (db_bans d) \<and> ban_serverId b = s \<and> ban_userId b = u"
proof
  assume "find_ban d s u = Some b"
  then show "b \<in> set (db_bans d) \<and> ban_serverId b = s \<and> ban_userId b = u"
    by (auto simp: find_ban_def dest: find_in_set)
next
  assume b: "b \<in> set (db_bans d) \<and> ban_serverId b = s \<and> ban_userId b = u"
  then show "find_ban d s u = Some b"
    using find_unique_key [where kf = "\<lambda>b. (ban_serverId b, ban_userId b)" and rows = "db_bans d" and r = b]
      assms by (auto simp: find_ban_def bans_ok_def)
qed

lemma ban_unique:
  assumes "bans_ok d" and "b \<in> set (db_bans d)" and "b' \<in> set (db_bans d)"
    and "ban_serverId b = ban_serverId b'" and "ban_userId b = ban_userId b'"
  shows "b = b'"
  using assms distinct_map_unique [of "\<lambda>b. (ban_serverId b, ban_userId b)" "db_bans d" b b']
  by (simp add: bans_ok_def)

lemma find_ban_None: "find_ban d s u = None \<longleftrightarrow> (\<forall>b \<in> set (db_bans d). \<not> (ban_serverId b = s \<and> ban_userId b = u))"
  by (auto simp: find_ban_def find_None_iff)

lemma active_ban_found:
  assumes "bans_ok d"
  shows "active_ban now d s u \<longleftrightarrow>
    (case find_ban d s u of None \<Rightarrow> False | Some b \<Rightarrow> \<not> ban_expired now b)"
proof (cases "find_ban d s u")
  case None
  moreover from None have "\<not> active_ban now d s u"
    by (auto simp: find_ban_None active_ban_def)
  ultimately show ?thesis by simp
next
  case (Some b)
  then have "b \<in> set (db_bans d)" "ban_serverId b = s" "ban_userId b = u"
    using find_ban_iff [OF assms] by blast+
  then show ?thesis
    using Some ban_unique [OF assms] by (auto simp: active_ban_def)
qed

lemma isBanned_active:
  assumes "bans_ok d"
  shows "fst (isBanned now s u d) = active_ban now d s u"
  by (simp add: active_ban_found [OF assms] isBanned_def ban_expired_def split: option.split)

lemma isBanned_cleanup:
  assumes "bans_ok d"
  shows "active_ban now (snd (isBanned now s u d)) s' u' = active_ban now d s' u'"
proof (cases "find_ban d s u")
  case (Some b)
  then have "b \<in> set (db_bans d)" "ban_serverId b = s" "ban_userId b = u"
    using find_ban_iff [OF assms] by blast+
  then have "b' \<in> set (db_bans d) \<Longrightarrow> ban_serverId b' = s \<Longrightarrow> ban_userId b' = u \<Longrightarrow> b' = b" for b'
    using ban_unique [OF assms] by simp
  then show ?thesis
    using Some by (auto simp: isBanned_def active_ban_def ban_expired_def split: option.splits)
qed (simp add: isBanned_def)

lemma listBans_set:
  "b \<in> set (fst (listBans now s d)) \<longleftrightarrow> b \<in> set (db_bans d) \<and> ban_serverId b = s \<and> \<not> ban_expired now b"
proof -
  have "set (Sorting_Algorithms.sort newest_first xs) = set xs" for xs
    by (metis mset_sort set_mset_mset)
  then show ?thesis by (auto simp: listBans_def Let_def)
qed

lemma listBans_cleanup:
  assumes "bans_ok d"
  shows "active_ban now (snd (listBans now s d)) s' u' = active_ban now d s' u'"
proof -
  have set_sort: "set (Sorting_Algorithms.sort newest_first xs) = set xs" for xs
    by (metis mset_sort set_mset_mset)
  define gone where "gone b \<longleftrightarrow> ban_serverId b = s \<and>
      (\<exists>b' \<in> set (db_bans d). ban_serverId b' = s \<and> ban_userId b' = ban_userId b \<and> ban_expired now b')" for b :: ban_row
  have "b \<in> set (db_bans (snd (listBans now s d))) \<longleftrightarrow> b \<in> set (db_bans d) \<and> \<not> gone b" for b
  proof -
    define ids where "ids = map ban_userId (filter (ban_expired now)
        (Sorting_Algorithms.sort newest_first (filter (\<lambda>b. ban_serverId b = s) (db_bans d))))"
    have "v \<in> set ids \<longleftrightarrow> (\<exists>b' \<in> set (db_bans d). ban_serverId b' = s \<and> ban_userId b' = v \<and> ban_expired now b')" for v
      by (auto simp: ids_def set_sort)
    then have "gone b \<longleftrightarrow> ban_serverId b = s \<and> ban_userId b \<in> set ids"
      by (simp add: gone_def)
    then show ?thesis
      by (cases "ids = []") (auto simp: listBans_def Let_def simp flip: ids_def, auto simp: ids_def)
  qed
  moreover have "gone b \<Longrightarrow> b \<in> set (db_bans d) \<Longrightarrow> ban_expired now b" for b
    unfolding gone_def using ban_unique [OF assms, of b] by metis
  ultimately show ?thesis
    unfolding active_ban_def by blast
qed

text \<open>
  The three ways to ask about a ban agree, at the same instant: the single check, the set of
  servers a user is banned from, and the list of a server's bans; and the expired rows that two of
  them delete on the way change none of the answers.
\<close>

theorem ban_views_agree:
  assumes "db_ok d"
  shows "fst (isBanned now s u d) = (s \<in> activeBanServerIds now u d) \<and>
    fst (isBanned now s u d) = (u \<in> ban_userId ` set (fst (listBans now s d))) \<and>
    activeBanServerIds now v (snd (isBanned now s u d)) = activeBanServerIds now v d \<and>
    activeBanServerIds now v (snd (listBans now s d)) = activeBanServerIds now v d"
proof -
  have active: "s \<in> activeBanServerIds now u d \<longleftrightarrow> active_ban now d s u" for s u d
    by (auto simp: activeBanServerIds_def active_ban_def ban_expired_def not_le split: option.splits)
  then have all: "activeBanServerIds now v d = {s. active_ban now d s v}" for v d
    by blast
  have listed: "u \<in> ban_userId ` set (fst (listBans now s d)) \<longleftrightarrow> active_ban now d s u"
    by (auto simp: listBans_set active_ban_def)
  show ?thesis
    unfolding all listed using db_ok_bans [OF assms]
    by (simp add: isBanned_active isBanned_cleanup listBans_cleanup)
qed

definition ban_db :: db where
  "ban_db = sample_db\<lparr>db_bans :=
     [\<lparr>ban_serverId = ''S'', ban_userId = ''bob'', ban_bannedByUserId = Some ''ann'',
       ban_reason = None, ban_expiresAt = Some 50, ban_createdAt = 0\<rparr>]\<rparr>"

lemma ban_db_ok: "db_ok ban_db"
  using sample_db_ok by (simp add: ban_db_def db_ok_def)

theorem ban_views_agree_witness:
  "fst (isBanned 40 ''S'' ''bob'' ban_db) \<and> \<not> fst (isBanned 50 ''S'' ''bob'' ban_db) \<and>
   ''S'' \<in> activeBanServerIds 40 ''bob'' ban_db \<and> ''S'' \<notin> activeBanServerIds 50 ''bob'' ban_db"
  using ban_views_agree [OF ban_db_ok, of 40 "''S''" "''bob''"]
    ban_views_agree [OF ban_db_ok, of 50 "''S''" "''bob''"]
  by (simp add: isBanned_def ban_db_def find_ban_def)

lemma find_none_where: "List.find P (delete_where P rows) = None"
  by simp

lemma sorted_effects_frame [simp]:
  "sw_db (publish_event e w) = sw_db w"
  "sw_db (ban_fan_out now i server target w) = sw_db w"
  "sw_published (ban_fan_out now i server target w) = sw_published w"
  by (simp_all add: publish_event_def ban_fan_out_def split: option.split)

lemma loadMemberContext_cong:
  assumes "db_servers d' = db_servers d" and "db_members d' = db_members d" and "db_roles d' = db_roles d"
    and "db_member_roles d' = db_member_roles d"
  shows "loadMemberContext d' s u = loadMemberContext d s u"
proof -
  have "find_server d' = find_server d" and "find_role d' = find_role d" and "find_member d' = find_member d"
    using assms by (auto simp: find_defs intro!: ext)
  moreover from this have "member_roles_of d' = member_roles_of d"
    using assms by (auto simp: member_roles_of_def intro!: ext)
  ultimately show ?thesis
    by (simp only: loadMemberContext_def)
qed

lemma banMember_InrD:
  assumes "banMember now i w = (Inr n, w')"
  shows "bi_targetUserId i \<noteq> bi_actorUserId i" "db_bans (sw_db w') = db_bans (ban_transaction now i m (sw_db w))"
    and "\<exists>server. find_server (sw_db w) (bi_serverId i) = Some server \<and> srv_ownerUserId server \<noteq> bi_targetUserId i"
    and "loadMemberContext (sw_db w') s u = loadMemberContext
      (ban_transaction now i (find_member (sw_db w) (bi_serverId i) (bi_targetUserId i) \<noteq> None) (sw_db w)) s u"
    and "db_voice_states (sw_db w') = db_voice_states (ban_transaction now i m (sw_db w))"
    and "ban_event ''GUILD_BAN_ADD'' (bi_serverId i) (bi_targetUserId i) \<in> set (sw_published w')"
    and "n = length (filter (swept now i) (db_messages (sw_db w)))"
proof -
  show "loadMemberContext (sw_db w') s u = loadMemberContext
      (ban_transaction now i (find_member (sw_db w) (bi_serverId i) (bi_targetUserId i) \<noteq> None) (sw_db w)) s u"
    by (rule loadMemberContext_cong)
      (use assms in \<open>auto simp: banMember_def Let_def writeAuditEntry_frame split: if_splits option.splits sum.splits\<close>)
qed (use assms in \<open>auto simp: banMember_def Let_def writeAuditEntry_frame ban_transaction_def publish_event_def
      split: if_splits option.splits sum.splits\<close>)

lemma find_upsert:
  assumes "P new" and "\<And>r. P r \<Longrightarrow> P (f r)"
  shows "\<exists>r. List.find P (upsert_where P new f rows) = Some r \<and> (r = new \<or> (\<exists>r0. P r0 \<and> r = f r0))"
proof (cases "\<exists>r \<in> set rows. P r")
  case True
  then obtain r0 where r0: "List.find P rows = Some r0"
    by (metis find_None_iff not_None_eq)
  have "List.find P (update_where P f rows) = map_option (\<lambda>r. if P r then f r else r) (List.find P rows)"
    by (rule find_update_where) (simp add: assms(2))
  then show ?thesis
    using True r0 by (auto simp: upsert_where_def dest: find_in_set)
next
  case False
  then have "List.find P rows = None"
    by (simp add: find_None_iff)
  then show ?thesis
    using False assms(1) by (simp add: upsert_where_def find_append)
qed

lemma ban_target_gone:
  assumes "banMember now i w = (Inr n, w')"
  shows "(\<exists>server. find_server (sw_db w') (bi_serverId i) = Some server \<and> srv_ownerUserId server \<noteq> bi_targetUserId i) \<and>
    find_member (sw_db w') (bi_serverId i) (bi_targetUserId i) = None"
proof -
  let ?d = "ban_transaction now i (find_member (sw_db w) (bi_serverId i) (bi_targetUserId i) \<noteq> None) (sw_db w)"
  have "db_servers (sw_db w') = db_servers ?d" "db_members (sw_db w') = db_members ?d"
    using assms by (auto simp: banMember_def Let_def writeAuditEntry_frame split: if_splits option.splits sum.splits)
  moreover have "db_servers ?d = db_servers (sw_db w)"
    by (simp add: ban_transaction_def Let_def)
  moreover have "find_member ?d (bi_serverId i) (bi_targetUserId i) = None"
    by (auto simp: ban_transaction_def Let_def find_member_def)
  ultimately show ?thesis
    using banMember_InrD(3) [OF assms] by (simp add: find_server_def find_member_def)
qed

lemma ban_context_gone:
  "banMember now i w = (Inr n, w') \<Longrightarrow> loadMemberContext (sw_db w') (bi_serverId i) (bi_targetUserId i) = None"
  using ban_target_gone [of now i w n w'] by (auto simp: loadMemberContext_def)

text \<open>
  A ban that succeeds takes effect at once: the target is no longer a member (no member
  context, no permission on the server), \<open>isBanned\<close> answers yes until the expiry, the target sits in
  no voice room of the server with camera or screen on, and the event that severs the target's
  sockets is published. The target was neither the actor nor the owner.
\<close>

theorem banMember_revokes_access:
  assumes "banMember now i w = (Inr n, w')"
    and "case bi_expiresAt i of None \<Rightarrow> True | Some t \<Rightarrow> later < t"
  shows "loadMemberContext (sw_db w') (bi_serverId i) (bi_targetUserId i) = None \<and>
    getServerPermissions (sw_db w') (bi_serverId i) (bi_targetUserId i) = 0 \<and>
    fst (isBanned later (bi_serverId i) (bi_targetUserId i) (sw_db w')) \<and>
    list_all (\<lambda>v. voi_serverId v = bi_serverId i \<longrightarrow> voi_userId v = bi_targetUserId i \<longrightarrow>
      voi_channelId v = None \<and> \<not> voi_cameraOn v \<and> \<not> voi_screenSharing v) (db_voice_states (sw_db w')) \<and>
    ban_event ''GUILD_BAN_ADD'' (bi_serverId i) (bi_targetUserId i) \<in> set (sw_published w') \<and>
    bi_targetUserId i \<noteq> bi_actorUserId i"
proof -
  let ?s = "bi_serverId i" and ?u = "bi_targetUserId i"
  have ctx: "loadMemberContext (sw_db w') ?s ?u = None"
    by (rule ban_context_gone [OF assms(1)])
  let ?P = "\<lambda>b. ban_serverId b = ?s \<and> ban_userId b = ?u"
  have "\<exists>b. find_ban (sw_db w') ?s ?u = Some b \<and> ban_expiresAt b = bi_expiresAt i"
    using find_upsert [of ?P "\<lparr>ban_serverId = ?s, ban_userId = ?u, ban_bannedByUserId = Some (bi_actorUserId i),
        ban_reason = bi_reason i, ban_expiresAt = bi_expiresAt i, ban_createdAt = now\<rparr>"
        "\<lambda>b. b\<lparr>ban_bannedByUserId := Some (bi_actorUserId i), ban_reason := bi_reason i,
               ban_expiresAt := bi_expiresAt i\<rparr>" "db_bans (sw_db w)"]
    by (auto simp: find_ban_def banMember_InrD(2) [OF assms(1), where m = True] ban_transaction_def Let_def)
  then have banned: "fst (isBanned later ?s ?u (sw_db w'))"
    using assms(2) by (auto simp: isBanned_def split: option.splits)
  have voice: "list_all (\<lambda>v. voi_serverId v = ?s \<longrightarrow> voi_userId v = ?u \<longrightarrow>
      voi_channelId v = None \<and> \<not> voi_cameraOn v \<and> \<not> voi_screenSharing v) (db_voice_states (sw_db w'))"
    by (auto simp: list_all_iff banMember_InrD(5) [OF assms(1), where m = True] ban_transaction_def Let_def update_where_def
        voice_cleared_def)
  show ?thesis
    using ctx banned voice banMember_InrD(1,6) [OF assms(1)]
    by (simp add: getServerPermissions_def PERMISSION_NONE_def)
qed

definition sample_world :: service_world where
  "sample_world = \<lparr>sw_db = sample_db, sw_published = [], sw_member_removals = [], sw_ulids = show_nat, sw_next = 0\<rparr>"

definition sample_ban :: ban_input where
  "sample_ban = \<lparr>bi_serverId = ''S'', bi_targetUserId = ''ann'', bi_actorUserId = ''olga'',
     bi_reason = None, bi_expiresAt = Some 100, bi_sweepRecentHours = None, bi_federation = None\<rparr>"

lemma sample_ban_allowed: "requireRoleHierarchy sample_db ''S'' ''olga'' ts = Inr ()"
  by (simp add: requireRoleHierarchy_def sample_simps)

lemma sample_ban_runs: "\<exists>w'. banMember 10 sample_ban sample_world = (Inr 0, w')"
proof -
  have "find_server sample_db ''S'' \<noteq> None" "srv_ownerUserId (the (find_server sample_db ''S'')) = ''olga''"
    "db_messages sample_db = []"
    by (simp_all add: sample_db_def empty_db_def find_server_def)
  then show ?thesis
    by (auto simp: banMember_def sample_ban_def sample_world_def Let_def sample_ban_allowed split: if_splits)
qed

theorem banMember_revokes_access_witness:
  "\<exists>w'. banMember 10 sample_ban sample_world = (Inr 0, w') \<and>
     getServerPermissions (sw_db w') ''S'' ''ann'' = 0 \<and> fst (isBanned 99 ''S'' ''ann'' (sw_db w'))"
proof -
  obtain w' where w': "banMember 10 sample_ban sample_world = (Inr 0, w')"
    using sample_ban_runs by blast
  then show ?thesis
    using banMember_revokes_access [OF w', of 99] by (simp add: sample_ban_def)
qed

text \<open>
  Whether a ban goes through: exactly when the actor is not the target, the server exists, the
  target is not its owner, and either the target holds no role as a member or the role hierarchy lets
  the actor manage every role held. A refused ban changes nothing.
\<close>

theorem banMember_allowed_iff:
  "((\<exists>n. fst (banMember now i w) = Inr n) \<longleftrightarrow>
     bi_targetUserId i \<noteq> bi_actorUserId i \<and>
     (\<exists>server. find_server (sw_db w) (bi_serverId i) = Some server \<and>
        srv_ownerUserId server \<noteq> bi_targetUserId i) \<and>
     (let roles = member_target_roles (sw_db w) (bi_serverId i) (bi_targetUserId i)
      in find_member (sw_db w) (bi_serverId i) (bi_targetUserId i) = None \<or> roles = [] \<or>
         requireRoleHierarchy (sw_db w) (bi_serverId i) (bi_actorUserId i) roles = Inr ())) \<and>
   (snd (banMember now i w) = w \<or> (\<exists>n. fst (banMember now i w) = Inr n))"
  by (auto simp: banMember_def Let_def split: option.splits sum.splits)

text \<open>
  The block lookups agree: the pair query answers as two directional lookups do (and no for a
  user and themself), the batched query picks exactly the candidates that blocked the author, and the
  ids a user has blocked are those the directional lookup confirms.
\<close>

theorem block_lookups_agree:
  "blockExistsEitherDirection d a b = (a \<noteq> b \<and> isBlocked d a b, a \<noteq> b \<and> isBlocked d b a) \<and>
   blockersOf d author candidates = {c. c \<in> set candidates \<and> isBlocked d c author} \<and>
   getBlockedIds d u = {v. isBlocked d u v}"
  by (auto simp: blockExistsEitherDirection_def isBlocked_def blockersOf_def getBlockedIds_def
      find_None_iff list_ex_iff)

end
