(* ===== verification/Automod.thy ===== *)
theory Automod
  imports JsText Database
begin

text \<open>
  Automod rules (apps/api/src/services/automod-service.ts): evaluating the rules of a server on a
  message, with the in-memory rate counters. Compiling and matching a user's regular expression is
  an argument (\<open>None\<close> when the pattern does not compile).
\<close>

section \<open>Text helpers\<close>

definition number_or :: "js_number \<Rightarrow> int \<Rightarrow> js_number" where  \<comment> \<open>\<open>x || d\<close>\<close>
  "number_or x d = (case x of NaN \<Rightarrow> Dec d 0 | Infinite b \<Rightarrow> x | Dec m e \<Rightarrow> if m = 0 then Dec d 0 else x)"

definition exceeds :: "nat \<Rightarrow> js_number \<Rightarrow> bool" where  \<comment> \<open>\<open>n > limit\<close>\<close>
  "exceeds n limit =
     (case limit of
        NaN \<Rightarrow> False
      | Infinite b \<Rightarrow> \<not> b
      | Dec m e \<Rightarrow> if e \<ge> 0 then int n > m * 10 ^ nat e else int n * 10 ^ nat (- e) > m)"

definition is_separator :: "char \<Rightarrow> bool" where
  "is_separator c \<longleftrightarrow> is_space c \<or> c = CHR '',''"

function split_words :: "string \<Rightarrow> string list" where
  "split_words s =
     (let r = dropWhile is_separator s
      in if r = [] then []
         else takeWhile (\<lambda>c. \<not> is_separator c) r # split_words (dropWhile (\<lambda>c. \<not> is_separator c) r))"
  by auto
termination
proof (relation "measure length", goal_cases)
  case (2 s r)
  then have "\<not> is_separator (hd r)" and ne: "r \<noteq> []"
    by (simp_all add: hd_dropWhile)
  then have "length (dropWhile (\<lambda>c. \<not> is_separator c) r) < length r"
    by (cases r) (simp_all add: le_imp_less_Suc length_dropWhile_le)
  also have "length r \<le> length s"
    unfolding 2 by (rule length_dropWhile_le)
  finally show ?case by simp
qed simp

declare split_words.simps [simp del]

fun is_prefix :: "string \<Rightarrow> string \<Rightarrow> bool" where
  "is_prefix [] ys = True"
| "is_prefix (x # xs) [] = False"
| "is_prefix (x # xs) (y # ys) = (x = y \<and> is_prefix xs ys)"

fun string_includes :: "string \<Rightarrow> string \<Rightarrow> bool" where
  "string_includes [] w = (w = [])"
| "string_includes (c # cs) w = (is_prefix w (c # cs) \<or> string_includes cs w)"

text \<open>
  The number of matches of the URL pattern: at a word boundary, http or https, two slashes and at
  least one character that is not white space, a bracket or a parenthesis.
\<close>

definition is_word_char :: "char \<Rightarrow> bool" where
  "is_word_char c \<longleftrightarrow>
     (let n = (of_char c :: nat)
      in (48 \<le> n \<and> n \<le> 57) \<or> (65 \<le> n \<and> n \<le> 90) \<or> n = 95 \<or> (97 \<le> n \<and> n \<le> 122))"

definition url_char :: "char \<Rightarrow> bool" where
  "url_char c \<longleftrightarrow> \<not> is_space c \<and> c \<notin> set ''<>()[]''"

definition url_tail :: "string \<Rightarrow> string option" where
  "url_tail s =
     (let after = (if is_prefix ''https://'' s then Some (drop 8 s)
                   else if is_prefix ''http://'' s then Some (drop 7 s) else None)
      in case after of
           None \<Rightarrow> None
         | Some r \<Rightarrow> if r \<noteq> [] \<and> url_char (hd r) then Some (dropWhile url_char r) else None)"

lemma url_tail_shorter: "url_tail s = Some r \<Longrightarrow> length r < length s"
proof -
  assume u: "url_tail s = Some r"
  then obtain k where "r = dropWhile url_char (drop k s)" "drop k s \<noteq> []" "0 < k"
    by (auto simp: url_tail_def Let_def split: if_splits option.splits)
  moreover have "length (dropWhile url_char (drop k s)) \<le> length (drop k s)"
    by (rule length_dropWhile_le)
  ultimately show ?thesis by auto
qed

function count_urls :: "bool \<Rightarrow> string \<Rightarrow> nat" where
  "count_urls in_word [] = 0"
| "count_urls in_word (c # cs) =
     (case (if in_word then None else url_tail (c # cs)) of
        Some r \<Rightarrow> Suc (count_urls False r)
      | None \<Rightarrow> count_urls (is_word_char c) cs)"
  by pat_completeness auto
termination
  by (relation "measure (\<lambda>(_, s). length s)") (auto split: if_splits dest: url_tail_shorter)

section \<open>Rules\<close>

datatype rule_kind = Regex | Wordlist | LinkRate | MessageRate | OtherKind

record automod_rule =
  ar_id :: ident
  ar_serverId :: ident
  ar_enabled :: bool
  ar_position :: int
  ar_kind :: rule_kind
  ar_pattern :: string

type_synonym rate_state = "(string, millis list) jsmap"

definition recent :: "millis \<Rightarrow> millis \<Rightarrow> bool" where
  "recent now t \<longleftrightarrow> now - t < 60000"

definition last_n :: "nat \<Rightarrow> 'a list \<Rightarrow> 'a list" where  \<comment> \<open>\<open>slice(-n)\<close> for positive n\<close>
  "last_n n xs = drop (length xs - n) xs"

definition kept_events :: "millis \<Rightarrow> string \<Rightarrow> rate_state \<Rightarrow> millis list" where
  "kept_events now k st = last_n 64 (filter (recent now) (get_or [] (map_get st k)))"

definition rule_matches ::
    "(string \<Rightarrow> (string \<Rightarrow> bool) option) \<Rightarrow> millis \<Rightarrow> automod_rule \<Rightarrow> ident \<Rightarrow> string \<Rightarrow> ident \<Rightarrow>
     rate_state \<Rightarrow> bool \<times> rate_state" where
  "rule_matches RegExp now rule userId content serverId st =
     (case ar_kind rule of
        Regex \<Rightarrow> ((case RegExp (ar_pattern rule) of None \<Rightarrow> False | Some test \<Rightarrow> test content), st)
      | Wordlist \<Rightarrow>
          (let words = filter (\<lambda>w. w \<noteq> []) (map (\<lambda>s. toLowerCase (trim s)) (split_words (ar_pattern rule)));
               lower = toLowerCase content
           in (list_ex (string_includes lower) words, st))
      | LinkRate \<Rightarrow>
          (let limit = number_or (Number (ar_pattern rule)) 5;
               k = ''link:'' @ serverId @ '':'' @ userId;
               urls = count_urls False content
           in if urls = 0 then (False, st)
              else
                let events = kept_events now k st @ replicate urls now
                in (exceeds (length events) limit, map_set k events st))
      | MessageRate \<Rightarrow>
          (let limit = number_or (Number (ar_pattern rule)) 10;
               k = ''msg:'' @ serverId @ '':'' @ userId;
               events = kept_events now k st @ [now]
           in (exceeds (length events) limit, map_set k events st))
      | OtherKind \<Rightarrow> (False, st))"

fun first_match ::
    "(string \<Rightarrow> (string \<Rightarrow> bool) option) \<Rightarrow> millis \<Rightarrow> automod_rule list \<Rightarrow> ident \<Rightarrow> string \<Rightarrow> ident \<Rightarrow>
     rate_state \<Rightarrow> automod_rule option \<times> rate_state" where
  "first_match RegExp now [] userId content serverId st = (None, st)"
| "first_match RegExp now (rule # rules) userId content serverId st =
     (case rule_matches RegExp now rule userId content serverId st of
        (True, st) \<Rightarrow> (Some rule, st)
      | (False, st) \<Rightarrow> first_match RegExp now rules userId content serverId st)"

definition evaluateAutomod ::
    "(string \<Rightarrow> (string \<Rightarrow> bool) option) \<Rightarrow> millis \<Rightarrow> automod_rule list \<Rightarrow> ident \<Rightarrow> ident \<Rightarrow> string \<Rightarrow>
     rate_state \<Rightarrow> automod_rule option \<times> rate_state" where
  "evaluateAutomod RegExp now table serverId userId content st =
     (let rules = Sorting_Algorithms.sort (key ar_position default)
                    (filter (\<lambda>r. ar_serverId r = serverId \<and> ar_enabled r) table)
      in first_match RegExp now rules userId content serverId st)"

section \<open>Properties\<close>

text \<open>A run of one message-rate rule over the messages a user sends at times \<open>ts\<close>.\<close>

definition rate_run ::
    "automod_rule \<Rightarrow> ident \<Rightarrow> ident \<Rightarrow> millis list \<Rightarrow> rate_state" where
  "rate_run rule userId serverId ts =
     fold (\<lambda>t st. snd (rule_matches (\<lambda>_. None) t rule userId ''m'' serverId st)) ts []"

lemma rev_last_n: "rev (last_n n xs) = take n (rev xs)"
  by (cases "n \<le> length xs") (simp_all add: last_n_def rev_drop)

lemma filter_takeWhile_recent:
  "sorted_wrt (\<ge>) xs \<Longrightarrow> filter (recent now) xs = takeWhile (recent now) xs"
proof (induction xs)
  case (Cons x xs)
  show ?case
  proof (cases "recent now x")
    case False
    then have "filter (recent now) xs = []"
      using Cons.prems by (auto simp: filter_empty_conv recent_def)
    then show ?thesis using False by simp
  qed (use Cons in simp)
qed simp

lemma takeWhile_take_comm: "takeWhile P (take n xs) = take n (takeWhile P xs)"
  by (induction xs arbitrary: n) (auto simp: take_Cons')

lemma takeWhile_twice: "(\<And>x. P x \<Longrightarrow> Q x) \<Longrightarrow> takeWhile P (takeWhile Q xs) = takeWhile P xs"
  by (induction xs) auto

lemma rate_run_events:
  assumes "ar_kind rule = MessageRate" and "sorted_wrt (\<le>) (ts @ [now])"
  shows "rev (kept_events now (''msg:'' @ s @ '':'' @ u) (rate_run rule u s ts)) =
    take 64 (takeWhile (recent now) (rev ts))"
  using assms(2)
proof (induction ts arbitrary: now rule: rev_induct)
  case Nil
  then show ?case by (simp add: kept_events_def rate_run_def last_n_def)
next
  case (snoc t ts)
  define k where "k = ''msg:'' @ s @ '':'' @ u"
  have IH: "rev (kept_events t k (rate_run rule u s ts)) = take 64 (takeWhile (recent t) (rev ts))"
    using snoc unfolding k_def by (simp add: sorted_wrt_append)
  have ev: "get_or [] (map_get (rate_run rule u s (ts @ [t])) k) = kept_events t k (rate_run rule u s ts) @ [t]"
    using assms(1) by (simp add: rate_run_def rule_matches_def Let_def k_def)
  have desc: "sorted_wrt (\<ge>) (t # take 64 (takeWhile (recent t) (rev ts)))"
    using snoc.prems
    by (auto simp: sorted_wrt_append sorted_wrt_rev takeWhile_take_comm
        dest!: in_set_takeD set_takeWhileD intro!: sorted_wrt_take)
  have "rev (kept_events now k (rate_run rule u s (ts @ [t]))) =
      take 64 (filter (recent now) (t # take 64 (takeWhile (recent t) (rev ts))))"
    unfolding kept_events_def [of now] ev rev_last_n rev_filter rev_append IH by simp
  also have "\<dots> = take 64 (takeWhile (recent now) (t # take 64 (takeWhile (recent t) (rev ts))))"
    using filter_takeWhile_recent [OF desc] by simp
  also have "\<dots> = take 64 (takeWhile (recent now) (rev (ts @ [t])))"
  proof -
    have "t \<le> now" using snoc.prems by (simp add: sorted_wrt_append)
    then have "takeWhile (recent now) (takeWhile (recent t) (rev ts)) = takeWhile (recent now) (rev ts)"
      by (intro takeWhile_twice) (simp add: recent_def)
    then show ?thesis
      by (simp add: takeWhile_take_comm take_Cons')
  qed
  finally show ?case unfolding k_def .
qed

text \<open>
  What a message-rate rule enforces: on a user who sent messages at the times ts and sends one
  now, it fires exactly when the number of messages of the last minute, this one included and
  capped at 65, exceeds the configured limit.
\<close>

theorem message_rate_exact:
  assumes "ar_kind rule = MessageRate" and "sorted_wrt (\<le>) (ts @ [now])"
  shows "fst (rule_matches RegExp now rule u content s (rate_run rule u s ts)) =
    exceeds (min 65 (Suc (length (filter (recent now) ts)))) (number_or (Number (ar_pattern rule)) 10)"
proof -
  have "sorted_wrt (\<ge>) (rev ts)"
    using assms(2) by (simp add: sorted_wrt_append sorted_wrt_rev)
  then have "length (takeWhile (recent now) (rev ts)) = length (filter (recent now) ts)"
    using filter_takeWhile_recent [of "rev ts" now] by (metis length_rev rev_filter)
  then have "length (kept_events now (''msg:'' @ s @ '':'' @ u) (rate_run rule u s ts)) =
      min 64 (length (filter (recent now) ts))"
    using arg_cong [OF rate_run_events [OF assms, of s u], of length] by simp
  then show ?thesis
    using assms(1) by (simp add: rule_matches_def Let_def min_def)
qed

definition rate_rule :: "string \<Rightarrow> automod_rule" where
  "rate_rule limit = \<lparr>ar_id = ''r'', ar_serverId = ''S'', ar_enabled = True, ar_position = 0,
     ar_kind = MessageRate, ar_pattern = limit\<rparr>"

lemma Number_digits:
  "Number ''3'' = Dec 3 0" "Number ''100'' = Dec 100 0"
  by (simp_all add: Number_def trim_def trim_start_def is_space_def read_unsigned_def read_decimal_def
      digits_value_def is_digit_def digit_value_def)

theorem message_rate_exact_witness:
  "fst (rule_matches (\<lambda>_. None) 50000 (rate_rule ''3'') ''u'' ''hi'' ''S''
     (rate_run (rate_rule ''3'') ''u'' ''S'' [0, 10, 20]))"
  using message_rate_exact [of "rate_rule ''3''" "[0, 10, 20]" 50000 "\<lambda>_. None" "''u''" "''hi''" "''S''"]
  by (simp add: rate_rule_def Number_digits number_or_def exceeds_def recent_def)

text \<open>
  The counter holds at most 64 earlier events, so a limit of 65 or more messages a minute is
  accepted by the rule and never enforced, however many messages arrive.
\<close>

theorem large_message_limit_never_fires:
  assumes "ar_kind rule = MessageRate" and "Number (ar_pattern rule) = Dec m 0" and "m \<ge> 65"
  shows "\<not> fst (rule_matches RegExp now rule u content s st)"
proof -
  have "length (kept_events now (''msg:'' @ s @ '':'' @ u) st) \<le> 64"
    by (simp add: kept_events_def last_n_def)
  then have "\<not> int (Suc (length (kept_events now (''msg:'' @ s @ '':'' @ u) st))) > m"
    using assms(3) by linarith
  moreover have "number_or (Dec m 0) 10 = Dec m 0"
    using assms(3) by (simp add: number_or_def)
  ultimately show ?thesis
    using assms(1,2) by (simp add: rule_matches_def exceeds_def Let_def)
qed

theorem large_message_limit_never_fires_witness:
  "\<not> fst (rule_matches (\<lambda>_. None) 5 (rate_rule ''100'') ''u'' ''hi'' ''S''
     [(''msg:S:u'', replicate 1000 5)])"
  by (rule large_message_limit_never_fires [of _ 100])
    (simp_all add: rate_rule_def Number_digits)

end
