(* ===== verification/Gateway.thy ===== *)
theory Gateway
  imports Presence Moderation
begin

text \<open>
  The realtime gateway (apps/api/src/gateway/index.ts): connections, IDENTIFY and RESUME, the
  numbered and buffered dispatches, the fan-out of broker events with its permission checks,
  closing and sweeping. Each socket callback, timer and broker event is one step; what the
  handlers await is done within the step. The JWT check and each socket's \<open>bufferedAmount\<close> are
  arguments.
\<close>

section \<open>Frames\<close>

record ready_server =
  rds_id :: ident
  rds_name :: string
  rds_ownerUserId :: ident
  rds_iconAttachmentId :: "ident option"
  rds_defaultRoleId :: "ident option"
  rds_federationEnabled :: bool
  rds_originInstanceId :: "ident option"
  rds_originInstanceHost :: "string option"
  rds_roles :: "ident list"

record ready_payload =
  rdy_userId :: ident
  rdy_servers :: "ready_server list"

datatype dispatch_data = EventData event_data | ReadyData ready_payload

datatype invalid_reason = BufferGap | ErrorReason error_code

datatype frame =
    Hello (hello_interval: millis) (hello_sessionId: ident)
  | Dispatch (dispatch_s: nat) (dispatch_t: string) (dispatch_d: dispatch_data)
  | InvalidSession invalid_reason
  | HeartbeatAck

section \<open>State\<close>

definition BUFFER_MAX :: nat where "BUFFER_MAX = 256"
definition MAX_BUFFERED_BYTES :: int where "MAX_BUFFERED_BYTES = 1048576"
definition ORPHAN_BUFFER_TTL_MS :: millis where "ORPHAN_BUFFER_TTL_MS = 30000"
definition HEARTBEAT_INTERVAL_MS :: millis where "HEARTBEAT_INTERVAL_MS = 30000"
definition HEARTBEAT_TIMEOUT_MS :: millis where "HEARTBEAT_TIMEOUT_MS = 45000"

record gw_client =
  cl_id :: ident
  cl_userId :: "ident option"
  cl_sessionId :: "ident option"
  cl_lastHeartbeatAt :: millis
  cl_seq :: nat
  cl_buffer :: "(nat \<times> frame) list"
  cl_identified :: bool
  cl_closing :: bool
  cl_bufferFloor :: nat
  cl_sent :: "frame list"                 \<comment> \<open>frames given to \<open>ws.send\<close>\<close>
  cl_closes :: "(nat \<times> string) list"     \<comment> \<open>calls of \<open>ws.close\<close>\<close>

record orphaned_session =
  orp_userId :: ident
  orp_seq :: nat
  orp_buffer :: "(nat \<times> frame) list"
  orp_bufferFloor :: nat
  orp_expiresAt :: millis

record gateway =
  gw_clients :: "(ident, gw_client) jsmap"
  gw_userConnections :: "(ident, ident list) jsmap"
  gw_orphans :: "(ident, orphaned_session) jsmap"
  gw_presence :: presence_world

definition gw_db :: "gateway \<Rightarrow> db" where
  "gw_db g = pw_db (gw_presence g)"

section \<open>Sending\<close>

definition ws_close :: "nat \<Rightarrow> string \<Rightarrow> gw_client \<Rightarrow> gw_client" where
  "ws_close code reason c = c\<lparr>cl_closes := cl_closes c @ [(code, reason)]\<rparr>"

definition sendRaw :: "int \<Rightarrow> frame \<Rightarrow> gw_client \<Rightarrow> gw_client" where
  "sendRaw buffered payload c =
     (if cl_closing c then c
      else if buffered > MAX_BUFFERED_BYTES then ws_close 1009 ''slow consumer'' (c\<lparr>cl_closing := True\<rparr>)
      else c\<lparr>cl_sent := cl_sent c @ [payload]\<rparr>)"

definition sendDispatch :: "int \<Rightarrow> string \<Rightarrow> dispatch_data \<Rightarrow> gw_client \<Rightarrow> gw_client" where
  "sendDispatch buffered t data c =
     (let c = c\<lparr>cl_seq := cl_seq c + 1\<rparr>;
          payload = Dispatch (cl_seq c) t data;
          c = c\<lparr>cl_buffer := cl_buffer c @ [(cl_seq c, payload)]\<rparr>;
          c = (if length (cl_buffer c) > BUFFER_MAX then
                 (case cl_buffer c of
                    [] \<Rightarrow> c
                  | dropped # rest \<Rightarrow> c\<lparr>cl_buffer := rest, cl_bufferFloor := fst dropped + 1\<rparr>)
               else if length (cl_buffer c) = 1 then c\<lparr>cl_bufferFloor := cl_seq c\<rparr>
               else c)
      in sendRaw buffered payload c)"

definition registerUserConnection :: "ident \<Rightarrow> ident \<Rightarrow> gateway \<Rightarrow> gateway" where
  "registerUserConnection userId clientId g =
     (let conns = get_or [] (map_get (gw_userConnections g) userId)
      in g\<lparr>gw_userConnections := map_set userId (List.insert clientId conns) (gw_userConnections g)\<rparr>)"

section \<open>Who receives an event\<close>

definition computePresenceAudience :: "db \<Rightarrow> ident \<Rightarrow> ident set" where
  "computePresenceAudience d targetUserId =
     (let sharedServerMembers = filter (\<lambda>m. mem_userId m \<noteq> targetUserId \<and>
            (\<exists>t \<in> set (db_members d). mem_serverId t = mem_serverId m \<and> mem_userId t = targetUserId))
            (db_members d);
          sharedDmMembers = filter (\<lambda>m. dmm_userId m \<noteq> targetUserId \<and>
            (\<exists>t \<in> set (db_dm_members d). dmm_dmChannelId t = dmm_dmChannelId m \<and> dmm_userId t = targetUserId))
            (db_dm_members d)
      in set (map mem_userId sharedServerMembers) \<union> set (map dmm_userId sharedDmMembers))"

definition shouldDeliver :: "db \<Rightarrow> gateway_event \<Rightarrow> ident \<Rightarrow> ident set option \<Rightarrow> bool" where
  "shouldDeliver d event userId presenceAudience =
     (if ge_type event = ''PRESENCE_UPDATE'' then
        (case ge_userId event of
           None \<Rightarrow> False
         | Some target \<Rightarrow>
             if target = userId then True
             else (case presenceAudience of None \<Rightarrow> False | Some audience \<Rightarrow> userId \<in> audience))
      else (case ge_dmChannelId event of
        Some dm \<Rightarrow> \<exists>m \<in> set (db_dm_members d). dmm_dmChannelId m = dm \<and> dmm_userId m = userId
      | None \<Rightarrow>
          if ge_userId event \<noteq> None \<and> ge_userId event \<noteq> Some userId then False
          else if ge_userId event = Some userId then True
          else (case ge_channelId event of
            Some channelId \<Rightarrow>
              (case getChannelPermissions d channelId userId of
                 None \<Rightarrow> False
               | Some result \<Rightarrow>
                   fst result AND Permission VIEW_CHANNEL = Permission VIEW_CHANNEL \<or>
                   fst result AND Permission ADMINISTRATOR = Permission ADMINISTRATOR)
          | None \<Rightarrow>
              (case ge_serverId event of
                 Some serverId \<Rightarrow>
                   if find_member d serverId userId \<noteq> None then True
                   else map_option srv_ownerUserId (find_server d serverId) = Some userId
               | None \<Rightarrow> False))))"

text \<open>
  The arguments common to the steps: the JWT check (user and session id of a token) and the
  bytes each socket has not sent yet.
\<close>

record gw_env =
  env_verifyAccess :: "string \<Rightarrow> tavern_error + (ident \<times> ident)"
  env_buffered :: "ident \<Rightarrow> int"

definition fanout :: "gw_env \<Rightarrow> gateway_event \<Rightarrow> gateway \<Rightarrow> gateway" where
  "fanout env event g =
     (let presenceAudience =
            (if ge_type event = ''PRESENCE_UPDATE''
             then map_option (computePresenceAudience (gw_db g)) (ge_userId event) else None)
      in g\<lparr>gw_clients := map (\<lambda>(k, c).
           (k, case cl_userId c of
                 None \<Rightarrow> c
               | Some userId \<Rightarrow>
                   if \<not> cl_identified c then c
                   else if shouldDeliver (gw_db g) event userId presenceAudience
                   then sendDispatch (env_buffered env (cl_id c)) (ge_type event) (EventData (ge_data event)) c
                   else c)) (gw_clients g)\<rparr>)"

text \<open>The subscriber: fan-out, then a ban closes the sockets of the banned user.\<close>

definition on_event :: "gw_env \<Rightarrow> gateway_event \<Rightarrow> gateway \<Rightarrow> gateway" where
  "on_event env event g =
     (let g = fanout env event g
      in case ge_userId event of
           Some bannedUserId \<Rightarrow>
             if ge_type event = ''GUILD_BAN_ADD'' then
               g\<lparr>gw_clients := map (\<lambda>(k, c).
                 (k, if cl_userId c = Some bannedUserId then ws_close 4403 ''banned'' c else c)) (gw_clients g)\<rparr>
             else g
         | None \<Rightarrow> g)"

section \<open>READY\<close>

definition buildReadyPayload :: "millis \<Rightarrow> db \<Rightarrow> ident \<Rightarrow> ready_payload" where
  "buildReadyPayload now d userId =
     (let memberships = filter (\<lambda>m. mem_userId m = userId) (db_members d);
          bannedFrom = activeBanServerIds now userId d
      in \<lparr>rdy_userId = userId,
          rdy_servers = map (\<lambda>s.
            \<lparr>rds_id = srv_id s, rds_name = srv_name s, rds_ownerUserId = srv_ownerUserId s,
             rds_iconAttachmentId = srv_iconAttachmentId s, rds_defaultRoleId = srv_defaultRoleId s,
             rds_federationEnabled = srv_federationEnabled s, rds_originInstanceId = srv_originInstanceId s,
             rds_originInstanceHost =
               map_option rin_host (Option.bind (srv_originInstanceId s) (find_instance d)),
             rds_roles = map mr_roleId (filter (\<lambda>r. mr_serverId r = srv_id s \<and> mr_userId r = userId)
               (db_member_roles d))\<rparr>)
            (filter (\<lambda>s. srv_id s \<notin> bannedFrom)
              (List.map_filter (\<lambda>m. find_server d (mem_serverId m)) memberships))\<rparr>)"

section \<open>Socket callbacks\<close>

definition gw_open :: "gw_env \<Rightarrow> millis \<Rightarrow> ident \<Rightarrow> gateway \<Rightarrow> gateway" where
  "gw_open env now i g =
     (let client = \<lparr>cl_id = i, cl_userId = None, cl_sessionId = None, cl_lastHeartbeatAt = now,
            cl_seq = 0, cl_buffer = [], cl_identified = False, cl_closing = False, cl_bufferFloor = 0,
            cl_sent = [], cl_closes = []\<rparr>
      in g\<lparr>gw_clients := map_set i
             (sendRaw (env_buffered env i) (Hello HEARTBEAT_INTERVAL_MS i) client) (gw_clients g)\<rparr>)"

definition identify_timer :: "ident \<Rightarrow> gateway \<Rightarrow> gateway" where
  "identify_timer i g =
     (case map_get (gw_clients g) i of
        None \<Rightarrow> g
      | Some c \<Rightarrow>
          if \<not> cl_identified c then
            g\<lparr>gw_clients := map_set i (ws_close 1008 ''IDENTIFY timeout'' c) (gw_clients g)\<rparr>
          else g)"

text \<open>What a message can be, as size check, parsing and the payload schemas sort it out.\<close>

datatype inbound =
    TooLarge | NotJson | Identify string | Resume string ident nat | Heartbeat | SchemaError | OtherOp

definition authenticate :: "gw_env \<Rightarrow> millis \<Rightarrow> db \<Rightarrow> string \<Rightarrow> tavern_error + (ident \<times> ident)" where
  "authenticate env now d token =
     bind_result (env_verifyAccess env token) (\<lambda>(sub, sid).
       case find_session d sid of
         None \<Rightarrow> Inl (unauthorized (Some ''Session is no longer valid''))
       | Some s \<Rightarrow>
           if ses_revokedAt s \<noteq> None \<or> ses_expiresAt s < now
           then Inl (unauthorized (Some ''Session is no longer valid''))
           else Inr (sub, sid))"

definition attach :: "millis \<Rightarrow> ident \<Rightarrow> ident \<Rightarrow> gw_client \<Rightarrow> gateway \<Rightarrow> gw_client \<times> gateway" where
  "attach now sub sid c g =
     (let c = c\<lparr>cl_userId := Some sub, cl_sessionId := Some sid, cl_identified := True\<rparr>;
          g = registerUserConnection sub (cl_id c) g
      in (c, g\<lparr>gw_presence := markConnected now sub (gw_presence g)\<rparr>))"

definition put_client :: "gw_client \<Rightarrow> gateway \<Rightarrow> gateway" where
  "put_client c g = g\<lparr>gw_clients := map_set (cl_id c) c (gw_clients g)\<rparr>"

definition send_ready :: "gw_env \<Rightarrow> millis \<Rightarrow> ident \<Rightarrow> gw_client \<Rightarrow> gateway \<Rightarrow> gateway" where
  "send_ready env now sub c g =
     put_client (sendDispatch (env_buffered env (cl_id c)) ''READY''
       (ReadyData (buildReadyPayload now (gw_db g) sub)) c) g"

definition reject :: "gw_env \<Rightarrow> tavern_error \<Rightarrow> gw_client \<Rightarrow> gateway \<Rightarrow> gateway" where
  "reject env e c g =
     (if err_status e = 401 then
        put_client (ws_close 4401 ''unauthorized''
          (sendRaw (env_buffered env (cl_id c)) (InvalidSession (ErrorReason (err_code e))) c)) g
      else g)"

definition handleIdentify :: "gw_env \<Rightarrow> millis \<Rightarrow> string \<Rightarrow> gw_client \<Rightarrow> gateway \<Rightarrow> gateway" where
  "handleIdentify env now token c g =
     (case authenticate env now (gw_db g) token of
        Inl e \<Rightarrow> reject env e c g
      | Inr (sub, sid) \<Rightarrow>
          (case attach now sub sid c g of (c, g) \<Rightarrow> send_ready env now sub c g))"

definition replay :: "int \<Rightarrow> (nat \<times> frame) list \<Rightarrow> gw_client \<Rightarrow> gw_client" where
  "replay buffered items c = foldl (\<lambda>c item. sendRaw buffered (snd item) c) c items"

definition handleResume ::
    "gw_env \<Rightarrow> millis \<Rightarrow> string \<Rightarrow> ident \<Rightarrow> nat \<Rightarrow> gw_client \<Rightarrow> gateway \<Rightarrow> gateway" where
  "handleResume env now token sessionId lastSeq c g =
     (case authenticate env now (gw_db g) token of
        Inl e \<Rightarrow> reject env e c g
      | Inr (sub, sid) \<Rightarrow>
          (case attach now sub sid c g of (c, g) \<Rightarrow>
             (case map_get (gw_orphans g) sessionId of
                Some orphan \<Rightarrow>
                  if orp_userId orphan = sub \<and> orp_expiresAt orphan > now then
                    let g = g\<lparr>gw_orphans := map_del sessionId (gw_orphans g)\<rparr>
                    in if orp_bufferFloor orphan > lastSeq + 1 then
                         put_client (sendRaw (env_buffered env (cl_id c)) (InvalidSession BufferGap) c) g
                       else
                         let c = c\<lparr>cl_seq := orp_seq orphan, cl_buffer := orp_buffer orphan,
                                   cl_bufferFloor := orp_bufferFloor orphan\<rparr>;
                             replayable = filter (\<lambda>b. fst b > lastSeq) (orp_buffer orphan)
                         in put_client (replay (env_buffered env (cl_id c)) replayable c) g
                  else send_ready env now sub c g
              | None \<Rightarrow> send_ready env now sub c g)))"

definition on_message :: "gw_env \<Rightarrow> millis \<Rightarrow> ident \<Rightarrow> inbound \<Rightarrow> gateway \<Rightarrow> gateway" where
  "on_message env now i m g =
     (case map_get (gw_clients g) i of
        None \<Rightarrow> g
      | Some c \<Rightarrow>
          (case m of
             TooLarge \<Rightarrow> put_client (ws_close 1009 ''message too large'' c) g
           | NotJson \<Rightarrow> put_client (ws_close 1003 ''invalid payload'' c) g
           | Identify token \<Rightarrow> handleIdentify env now token c g
           | Resume token sessionId lastSeq \<Rightarrow> handleResume env now token sessionId lastSeq c g
           | Heartbeat \<Rightarrow>
               put_client (sendRaw (env_buffered env i) HeartbeatAck (c\<lparr>cl_lastHeartbeatAt := now\<rparr>)) g
           | SchemaError \<Rightarrow> g
           | OtherOp \<Rightarrow> g))"

section \<open>Closing\<close>

definition voice_reset :: "voice_row \<Rightarrow> voice_row" where
  "voice_reset r = r\<lparr>voi_channelId := None, voi_joinedAt := None, voi_selfMute := False,
     voi_selfDeaf := False, voi_cameraOn := False, voi_screenSharing := False\<rparr>"

definition cleanupAfterLastConnection :: "ident \<Rightarrow> presence_world \<Rightarrow> presence_world" where
  "cleanupAfterLastConnection userId w =
     (let joined = (\<lambda>v. voi_userId v = userId \<and> voi_channelId v \<noteq> None);
          states = filter joined (db_voice_states (pw_db w))
      in if length states = 0 then w
         else w\<lparr>pw_db := (pw_db w)\<lparr>db_voice_states :=
                  update_where joined voice_reset (db_voice_states (pw_db w))\<rparr>,
                pw_published := pw_published w @ map (\<lambda>s.
                  (event_for ''VOICE_STATE_UPDATE''
                     (VoiceData (voi_serverId s) userId None False False False False None))
                  \<lparr>ge_serverId := Some (voi_serverId s), ge_channelId := voi_channelId s\<rparr>) states\<rparr>)"

definition on_close :: "millis \<Rightarrow> ident \<Rightarrow> gateway \<Rightarrow> gateway" where
  "on_close now i g =
     (case map_get (gw_clients g) i of
        None \<Rightarrow> g
      | Some c \<Rightarrow>
          let g = g\<lparr>gw_clients := map_del i (gw_clients g)\<rparr>;
              g = (case cl_userId c of
                     Some userId \<Rightarrow>
                       if cl_identified c \<and> length (cl_buffer c) > 0 then
                         g\<lparr>gw_orphans := map_set (cl_id c)
                             \<lparr>orp_userId = userId, orp_seq = cl_seq c, orp_buffer = cl_buffer c,
                              orp_bufferFloor = cl_bufferFloor c, orp_expiresAt = now + ORPHAN_BUFFER_TTL_MS\<rparr>
                             (gw_orphans g)\<rparr>
                       else g
                   | None \<Rightarrow> g)
          in (case cl_userId c of
                None \<Rightarrow> g
              | Some userId \<Rightarrow>
                  (case map_get (gw_userConnections g) userId of
                     None \<Rightarrow> g
                   | Some conns \<Rightarrow>
                       let conns = remove1 i conns
                       in if conns = [] then
                            g\<lparr>gw_userConnections := map_del userId (gw_userConnections g),
                              gw_presence := markDisconnected now userId
                                (cleanupAfterLastConnection userId (gw_presence g))\<rparr>
                          else g\<lparr>gw_userConnections := map_set userId conns (gw_userConnections g)\<rparr>)))"

definition sweep :: "millis \<Rightarrow> gateway \<Rightarrow> gateway" where
  "sweep now g =
     g\<lparr>gw_clients := map (\<lambda>(k, c).
         (k, if cl_lastHeartbeatAt c < now - HEARTBEAT_TIMEOUT_MS
             then ws_close 1011 (if cl_identified c then ''heartbeat timeout'' else ''idle pre-identify'') c
             else c)) (gw_clients g),
       gw_orphans := filter (\<lambda>(sid, orphan). \<not> orp_expiresAt orphan < now) (gw_orphans g)\<rparr>"

datatype gw_op =
    Open ident | Message ident inbound | Close ident | Event gateway_event | Sweep | IdentifyTimer ident

definition gw_step :: "gateway \<Rightarrow> gw_env \<times> millis \<times> gw_op \<Rightarrow> gateway" where
  "gw_step g e = (case e of (env, now, p) \<Rightarrow> (case p of
      Open i \<Rightarrow> if map_get (gw_clients g) i = None then gw_open env now i g else g
    | Message i m \<Rightarrow> on_message env now i m g
    | Close i \<Rightarrow> on_close now i g
    | Event ev \<Rightarrow> on_event env ev g
    | Sweep \<Rightarrow> sweep now g
    | IdentifyTimer i \<Rightarrow> identify_timer i g))"

section \<open>The buffers\<close>

definition buffer_ok :: "nat \<Rightarrow> (nat \<times> frame) list \<Rightarrow> nat \<Rightarrow> bool" where
  "buffer_ok seq buffer bufferFloor \<longleftrightarrow>
     map fst buffer = [Suc seq - length buffer..<Suc seq] \<and> length buffer \<le> seq \<and>
     length buffer \<le> BUFFER_MAX \<and> (buffer \<noteq> [] \<longrightarrow> bufferFloor = Suc seq - length buffer) \<and>
     (\<forall>b \<in> set buffer. \<exists>t d. snd b = Dispatch (fst b) t d)"

definition client_ok :: "gw_client \<Rightarrow> bool" where
  "client_ok c \<longleftrightarrow>
     buffer_ok (cl_seq c) (cl_buffer c) (cl_bufferFloor c) \<and>
     (cl_identified c \<longleftrightarrow> cl_userId c \<noteq> None) \<and>
     (\<not> cl_identified c \<longrightarrow> cl_seq c = 0 \<and> (\<forall>s t d. Dispatch s t d \<notin> set (cl_sent c)))"

definition orphan_ok :: "orphaned_session \<Rightarrow> bool" where
  "orphan_ok r \<longleftrightarrow> buffer_ok (orp_seq r) (orp_buffer r) (orp_bufferFloor r) \<and> orp_buffer r \<noteq> []"

definition gw_ok :: "gateway \<Rightarrow> bool" where
  "gw_ok g \<longleftrightarrow>
     (\<forall>(k, c) \<in> set (gw_clients g). cl_id c = k \<and> client_ok c) \<and>
     (\<forall>(k, r) \<in> set (gw_orphans g). orphan_ok r) \<and> map_ok (gw_orphans g) \<and> map_ok (gw_clients g)"

lemma buffer_ok_empty [simp]: "buffer_ok 0 [] fl"
  by (simp add: buffer_ok_def)

lemma sendRaw_simps [simp]:
  "cl_id (sendRaw n f c) = cl_id c" "cl_userId (sendRaw n f c) = cl_userId c"
  "cl_identified (sendRaw n f c) = cl_identified c" "cl_seq (sendRaw n f c) = cl_seq c"
  "cl_buffer (sendRaw n f c) = cl_buffer c" "cl_bufferFloor (sendRaw n f c) = cl_bufferFloor c"
  "cl_sessionId (sendRaw n f c) = cl_sessionId c"
  by (simp_all add: sendRaw_def ws_close_def)

lemma ws_close_simps [simp]:
  "cl_id (ws_close n r c) = cl_id c" "cl_userId (ws_close n r c) = cl_userId c"
  "cl_identified (ws_close n r c) = cl_identified c" "cl_seq (ws_close n r c) = cl_seq c"
  "cl_buffer (ws_close n r c) = cl_buffer c" "cl_bufferFloor (ws_close n r c) = cl_bufferFloor c"
  "cl_sent (ws_close n r c) = cl_sent c" "cl_closing (ws_close n r c) = cl_closing c"
  by (simp_all add: ws_close_def)

lemma sendRaw_sent: "set (cl_sent (sendRaw n f c)) \<subseteq> insert f (set (cl_sent c))"
  by (auto simp: sendRaw_def)

lemma sendDispatch_fields [simp]:
  "cl_id (sendDispatch n t d c) = cl_id c" "cl_userId (sendDispatch n t d c) = cl_userId c"
  "cl_identified (sendDispatch n t d c) = cl_identified c" "cl_seq (sendDispatch n t d c) = Suc (cl_seq c)"
  by (simp_all add: sendDispatch_def Let_def split: list.split)

text \<open>Appending one dispatch, and evicting the oldest when the buffer is full.\<close>

lemma buffer_ok_push:
  assumes "buffer_ok seq buf fl" and "f = Dispatch (Suc seq) t d"
  shows "length buf < BUFFER_MAX \<Longrightarrow>
      buffer_ok (Suc seq) (buf @ [(Suc seq, f)]) (if buf = [] then Suc seq else fl)"
    and "length buf = BUFFER_MAX \<Longrightarrow> buf @ [(Suc seq, f)] = x # rest \<Longrightarrow> buffer_ok (Suc seq) rest (Suc (fst x))"
proof -
  let ?n = "length buf"
  have fsts: "map fst buf = [Suc seq - ?n..<Suc seq]" and le: "?n \<le> seq"
    and fl: "buf \<noteq> [] \<longrightarrow> fl = Suc seq - ?n" and disp: "\<forall>b \<in> set buf. \<exists>t d. snd b = Dispatch (fst b) t d"
    using assms(1) by (auto simp: buffer_ok_def)
  have all: "map fst (buf @ [(Suc seq, f)]) = [Suc seq - ?n..<Suc (Suc seq)]"
    using fsts le by (simp add: upt_Suc_append)
  show "buffer_ok (Suc seq) (buf @ [(Suc seq, f)]) (if buf = [] then Suc seq else fl)" if "?n < BUFFER_MAX"
    using that all le fl disp assms(2) by (auto simp: buffer_ok_def)
  show "buffer_ok (Suc seq) rest (Suc (fst x))" if "?n = BUFFER_MAX" and split: "buf @ [(Suc seq, f)] = x # rest"
  proof -
    have len: "length rest = ?n"
      using arg_cong [OF split, of length] by simp
    have "[Suc seq - ?n..<Suc (Suc seq)] = (Suc seq - ?n) # [Suc (Suc seq - ?n)..<Suc (Suc seq)]"
      by (rule upt_conv_Cons) simp
    then have "map fst (x # rest) = (Suc seq - ?n) # [Suc (Suc seq - ?n)..<Suc (Suc seq)]"
      using all unfolding split by (simp only:)
    then have "fst x = Suc seq - ?n" and "map fst rest = [Suc (Suc seq - ?n)..<Suc (Suc seq)]"
      by simp_all
    moreover have "set rest \<subseteq> insert (Suc seq, f) (set buf)"
      using arg_cong [OF split, of set] by auto
    ultimately show ?thesis
      using le disp assms(2) len that(1) by (auto simp: buffer_ok_def Suc_diff_le)
  qed
qed

lemma sendDispatch_ok:
  assumes "buffer_ok (cl_seq c) (cl_buffer c) (cl_bufferFloor c)"
  shows "let c' = sendDispatch n t d c in buffer_ok (cl_seq c') (cl_buffer c') (cl_bufferFloor c')"
proof -
  let ?f = "Dispatch (Suc (cl_seq c)) t d"
  obtain x rest where split: "cl_buffer c @ [(Suc (cl_seq c), ?f)] = x # rest"
    by (cases "cl_buffer c @ [(Suc (cl_seq c), ?f)]") auto
  have "length (cl_buffer c) \<le> BUFFER_MAX"
    using assms by (simp add: buffer_ok_def)
  then consider "length (cl_buffer c) < BUFFER_MAX" | "length (cl_buffer c) = BUFFER_MAX"
    by linarith
  then show ?thesis
  proof cases
    case 1
    then show ?thesis
      using buffer_ok_push(1) [OF assms refl, of t d] by (auto simp: sendDispatch_def Let_def)
  next
    case 2
    then show ?thesis
      using buffer_ok_push(2) [OF assms refl 2 split] split by (simp add: sendDispatch_def Let_def)
  qed
qed

lemma client_ok_sendDispatch:
  "client_ok c \<Longrightarrow> cl_identified c \<Longrightarrow> client_ok (sendDispatch n t d c)"
  using sendDispatch_ok [of c n t d] by (simp add: client_ok_def Let_def)

lemma client_ok_sendRaw:
  "client_ok c \<Longrightarrow> (\<And>s t d. f \<noteq> Dispatch s t d) \<Longrightarrow> client_ok (sendRaw n f c)"
  using sendRaw_sent [of n f c] unfolding client_ok_def sendRaw_simps by blast

lemma client_ok_close: "client_ok c \<Longrightarrow> client_ok (ws_close n r c)"
  by (simp add: client_ok_def)

lemma replay_fields [simp]:
  "cl_id (replay n items c) = cl_id c" "cl_userId (replay n items c) = cl_userId c"
  "cl_identified (replay n items c) = cl_identified c" "cl_seq (replay n items c) = cl_seq c"
  "cl_buffer (replay n items c) = cl_buffer c" "cl_bufferFloor (replay n items c) = cl_bufferFloor c"
  unfolding replay_def by (induction items arbitrary: c) simp_all

section \<open>Every step keeps the gateway well formed\<close>

lemma set_map_set: "set (map_set k v m) \<subseteq> insert (k, v) (set m)"
  by (induction m) auto

lemma gw_ok_put:
  assumes "gw_ok g" and "client_ok c"
  shows "gw_ok (put_client c g)"
  using assms set_map_set [of "cl_id c" c "gw_clients g"]
  by (auto simp: gw_ok_def put_client_def)

lemma gw_ok_map:
  assumes "gw_ok g" and "\<And>k c. (k, c) \<in> set (gw_clients g) \<Longrightarrow> cl_id (f c) = cl_id c \<and> client_ok (f c)"
  shows "gw_ok (g\<lparr>gw_clients := map (\<lambda>(k, c). (k, f c)) (gw_clients g)\<rparr>)"
  using assms by (auto simp: gw_ok_def map_ok_def comp_def case_prod_beta)

lemma gw_ok_presence [simp]:
  "gw_ok (g\<lparr>gw_presence := w\<rparr>) = gw_ok g" "gw_ok (g\<lparr>gw_userConnections := u\<rparr>) = gw_ok g"
  by (simp_all add: gw_ok_def)

lemma gw_ok_client: "gw_ok g \<Longrightarrow> map_get (gw_clients g) i = Some c \<Longrightarrow> cl_id c = i \<and> client_ok c"
  by (auto simp: gw_ok_def dest: map_of_SomeD)

lemma attach_ok:
  assumes "attach now sub sid c g = (c', g')" and "client_ok c" and "gw_ok g"
  shows "client_ok c' \<and> cl_identified c' \<and> cl_id c' = cl_id c \<and> gw_ok g' \<and> gw_orphans g' = gw_orphans g"
  using assms by (auto simp: attach_def registerUserConnection_def Let_def client_ok_def)

lemma send_ready_ok: "gw_ok g \<Longrightarrow> client_ok c \<Longrightarrow> cl_identified c \<Longrightarrow> gw_ok (send_ready env now sub c g)"
  by (simp add: send_ready_def gw_ok_put client_ok_sendDispatch)

lemma reject_ok: "gw_ok g \<Longrightarrow> client_ok c \<Longrightarrow> gw_ok (reject env e c g)"
  by (simp add: reject_def gw_ok_put client_ok_close client_ok_sendRaw)

lemma handleIdentify_ok: "gw_ok g \<Longrightarrow> client_ok c \<Longrightarrow> gw_ok (handleIdentify env now token c g)"
  by (auto simp: handleIdentify_def reject_ok split: sum.split prod.split dest!: attach_ok intro!: send_ready_ok)

lemma gw_ok_orphans_filter: "gw_ok g \<Longrightarrow> gw_ok (g\<lparr>gw_orphans := filter P (gw_orphans g)\<rparr>)"
  by (auto simp: gw_ok_def map_ok_filter)

lemma gw_ok_orphans_del: "gw_ok g \<Longrightarrow> gw_ok (g\<lparr>gw_orphans := map_del k (gw_orphans g)\<rparr>)"
  unfolding AList.delete_eq by (rule gw_ok_orphans_filter)

lemma handleResume_ok:
  assumes g: "gw_ok g" and c: "client_ok c"
  shows "gw_ok (handleResume env now token sessionId lastSeq c g)"
proof (cases "authenticate env now (gw_db g) token")
  case (Inr ss)
  obtain sub sid where ss: "ss = (sub, sid)" by force
  obtain c' g' where a: "attach now sub sid c g = (c', g')" by force
  have ok: "client_ok c'" "cl_identified c'" "gw_ok g'"
    using attach_ok [OF a c g] by blast+
  have adopt: "client_ok (replay n items (c'\<lparr>cl_seq := orp_seq r, cl_buffer := orp_buffer r,
      cl_bufferFloor := orp_bufferFloor r\<rparr>))" if "map_get (gw_orphans g') sessionId = Some r" for n items r
    using that ok by (auto simp: client_ok_def gw_ok_def orphan_ok_def dest!: map_of_SomeD)
  show ?thesis
    using ok adopt
    by (auto simp: handleResume_def Inr ss a Let_def client_ok_sendRaw
        intro!: send_ready_ok gw_ok_put gw_ok_orphans_del split: option.split)
qed (simp add: handleResume_def reject_ok assms)

lemma on_message_ok:
  assumes "gw_ok g"
  shows "gw_ok (on_message env now i m g)"
proof (cases "map_get (gw_clients g) i")
  case (Some c)
  then have c: "client_ok c"
    using gw_ok_client [OF assms] by blast
  then have "client_ok (c\<lparr>cl_lastHeartbeatAt := now\<rparr>)"
    by (simp add: client_ok_def)
  then show ?thesis
    using c assms
    by (auto simp: on_message_def Some gw_ok_put client_ok_close client_ok_sendRaw handleIdentify_ok
        handleResume_ok split: inbound.split)
qed (simp add: on_message_def assms)

lemma fanout_ok: "gw_ok g \<Longrightarrow> gw_ok (fanout env event g)"
  unfolding fanout_def Let_def
  by (rule gw_ok_map) (auto simp: gw_ok_def client_ok_sendDispatch split: option.split)

lemma on_event_ok: "gw_ok g \<Longrightarrow> gw_ok (on_event env event g)"
proof -
  assume "gw_ok g"
  then have f: "gw_ok (fanout env event g)"
    by (rule fanout_ok)
  moreover have "gw_ok ((fanout env event g)\<lparr>gw_clients := map (\<lambda>(k, c).
      (k, if cl_userId c = Some u then ws_close 4403 ''banned'' c else c)) (gw_clients (fanout env event g))\<rparr>)" for u
    by (rule gw_ok_map [OF f]) (use f in \<open>auto simp: gw_ok_def client_ok_close\<close>)
  ultimately show ?thesis
    by (simp add: on_event_def Let_def split: option.split)
qed

lemma gw_ok_orphans_set: "gw_ok g \<Longrightarrow> orphan_ok r \<Longrightarrow> gw_ok (g\<lparr>gw_orphans := map_set k r (gw_orphans g)\<rparr>)"
  using set_map_set [of k r "gw_orphans g"] by (auto simp: gw_ok_def)

lemma gw_ok_clients_del:
  assumes "gw_ok g"
  shows "gw_ok (g\<lparr>gw_clients := map_del i (gw_clients g)\<rparr>)"
  using assms unfolding AList.delete_eq by (auto simp: gw_ok_def map_ok_filter)

lemma on_close_ok:
  assumes "gw_ok g"
  shows "gw_ok (on_close now i g)"
proof (cases "map_get (gw_clients g) i")
  case (Some c)
  have c: "client_ok c"
    using gw_ok_client [OF assms Some] by blast
  let ?g = "g\<lparr>gw_clients := map_del i (gw_clients g)\<rparr>"
  let ?r = "\<lambda>u. \<lparr>orp_userId = u, orp_seq = cl_seq c, orp_buffer = cl_buffer c,
      orp_bufferFloor = cl_bufferFloor c, orp_expiresAt = now + ORPHAN_BUFFER_TTL_MS\<rparr>"
  have "gw_ok ?g"
    by (rule gw_ok_clients_del [OF assms])
  moreover have "cl_buffer c \<noteq> [] \<Longrightarrow> gw_ok (?g\<lparr>gw_orphans := map_set (cl_id c) (?r u) (gw_orphans ?g)\<rparr>)" for u
    using c by (intro gw_ok_orphans_set calculation) (simp add: orphan_ok_def client_ok_def)
  ultimately show ?thesis
    by (simp add: on_close_def Some Let_def split: option.split)
qed (simp add: on_close_def assms)

lemma sweep_ok: "gw_ok g \<Longrightarrow> gw_ok (sweep now g)"
proof -
  assume g: "gw_ok g"
  have "gw_ok (g\<lparr>gw_clients := map (\<lambda>(k, c).
      (k, if cl_lastHeartbeatAt c < now - HEARTBEAT_TIMEOUT_MS
          then ws_close 1011 (if cl_identified c then ''heartbeat timeout'' else ''idle pre-identify'') c
          else c)) (gw_clients g)\<rparr>)"
    by (rule gw_ok_map [OF g]) (use g in \<open>auto simp: gw_ok_def client_ok_close\<close>)
  from gw_ok_orphans_filter [OF this] show ?thesis
    by (simp add: sweep_def)
qed

lemma gw_step_ok: "gw_ok g \<Longrightarrow> gw_ok (gw_step g e)"
proof -
  assume g: "gw_ok g"
  have "gw_ok (gw_open env now i g)" for env now i
  proof -
    let ?c = "\<lparr>cl_id = i, cl_userId = None, cl_sessionId = None, cl_lastHeartbeatAt = now,
            cl_seq = 0, cl_buffer = [], cl_identified = False, cl_closing = False, cl_bufferFloor = 0,
            cl_sent = [], cl_closes = []\<rparr>"
    have "client_ok ?c" by (simp add: client_ok_def)
    then show ?thesis
      using gw_ok_put [OF g client_ok_sendRaw [of ?c]] by (simp add: gw_open_def put_client_def)
  qed
  moreover have "gw_ok (identify_timer i g)" for i
  proof (cases "map_get (gw_clients g) i")
    case (Some c)
    then have "cl_id c = i" "client_ok c"
      using gw_ok_client [OF g Some] by blast+
    then show ?thesis
      using gw_ok_put [OF g client_ok_close [of c]] g Some by (simp add: identify_timer_def put_client_def)
  qed (simp add: identify_timer_def g)
  ultimately show ?thesis
    using g by (simp add: gw_step_def on_message_ok on_close_ok on_event_ok sweep_ok
        split: prod.split gw_op.split)
qed

interpretation gateway_run: stepping gw_step gw_ok
  by unfold_locales (rule gw_step_ok)

definition start_gateway :: "presence_world \<Rightarrow> gateway" where
  "start_gateway w = \<lparr>gw_clients = [], gw_userConnections = [], gw_orphans = [], gw_presence = w\<rparr>"

lemma start_gateway_ok [simp]: "gw_ok (start_gateway w)"
  by (simp add: gw_ok_def start_gateway_def)


text \<open>
  A socket that has not authenticated is never sent a dispatch, whatever happens.
\<close>

theorem no_dispatch_before_identify:
  "list_all (\<lambda>(k, c). cl_identified c \<or> (\<forall>s t d. Dispatch s t d \<notin> set (cl_sent c)))
     (gw_clients (foldl gw_step (start_gateway w) ops))"
  using gateway_run.inv_run [OF start_gateway_ok, of w ops]
  by (auto simp: gw_ok_def client_ok_def list_all_iff)

section \<open>Resuming\<close>

lemma sendRaw_sends:
  "\<not> cl_closing c \<Longrightarrow> n \<le> MAX_BUFFERED_BYTES \<Longrightarrow> sendRaw n f c = c\<lparr>cl_sent := cl_sent c @ [f]\<rparr>"
  by (simp add: sendRaw_def)

lemma replay_sends:
  "\<not> cl_closing c \<Longrightarrow> n \<le> MAX_BUFFERED_BYTES \<Longrightarrow> replay n items c = c\<lparr>cl_sent := cl_sent c @ map snd items\<rparr>"
  unfolding replay_def by (induction items arbitrary: c) (simp_all add: sendRaw_sends)

lemma filter_buffer:
  assumes "buffer_ok seq buf fl" and "buf \<noteq> []" and "fl \<le> lastSeq + 1"
  shows "map fst (filter (\<lambda>b. fst b > lastSeq) buf) = [Suc lastSeq..<Suc seq]"
proof -
  have "map fst (filter (\<lambda>b. fst b > lastSeq) buf) = filter (\<lambda>s. s > lastSeq) (map fst buf)"
    by (simp add: filter_map comp_def)
  also have "\<dots> = filter (\<lambda>s. s > lastSeq) [fl..<Suc seq]"
    using assms(1,2) by (simp add: buffer_ok_def)
  also have "\<dots> = [Suc lastSeq..<Suc seq]"
  proof (cases "Suc lastSeq \<le> Suc seq")
    case True
    then have "[fl..<Suc seq] = [fl..<Suc lastSeq] @ [Suc lastSeq..<Suc seq]"
      using upt_add_eq_append [of fl "Suc lastSeq" "seq - lastSeq"] assms(3) by simp
    then show ?thesis
      by (simp add: filter_empty_conv filter_id_conv del: upt_Suc)
  next
    case False
    then show ?thesis by (auto simp: filter_empty_conv simp del: upt_Suc)
  qed
  finally show ?thesis .
qed

text \<open>What the new socket is sent by a RESUME.\<close>

definition sent_by :: "gateway \<Rightarrow> gateway \<Rightarrow> ident \<Rightarrow> frame list" where
  "sent_by g g' i =
     (case (map_get (gw_clients g) i, map_get (gw_clients g') i) of
        (Some c, Some c') \<Rightarrow> drop (length (cl_sent c)) (cl_sent c')
      | _ \<Rightarrow> [])"

text \<open>
  C5. RESUME on a session parked by the same user, still within its time: the new socket is sent
  exactly the buffered dispatches after the last number the client saw, with no number missing up to
  the parked session's current one; when the oldest buffered dispatch is past the next number the
  client needs, it is sent a BUFFER\_GAP and nothing else. The parked session is consumed.
\<close>

theorem resume_replays_exactly:
  assumes "gw_ok g" and "map_get (gw_clients g) i = Some c" and "\<not> cl_closing c"
    and "env_buffered env i \<le> MAX_BUFFERED_BYTES"
    and "authenticate env now (gw_db g) token = Inr (sub, sid)"
    and "map_get (gw_orphans g) sessionId = Some r" and "orp_userId r = sub" and "now < orp_expiresAt r"
    and "g' = on_message env now i (Resume token sessionId lastSeq) g"
  shows "(orp_bufferFloor r > lastSeq + 1 \<longrightarrow> sent_by g g' i = [InvalidSession BufferGap]) \<and>
    (orp_bufferFloor r \<le> lastSeq + 1 \<longrightarrow>
       map dispatch_s (sent_by g g' i) = [Suc lastSeq..<Suc (orp_seq r)] \<and>
       sent_by g g' i = map snd (filter (\<lambda>b. fst b > lastSeq) (orp_buffer r))) \<and>
    map_get (gw_orphans g') sessionId = None"
proof -
  obtain c1 g1 where a: "attach now sub sid c g = (c1, g1)" by force
  then have c1: "cl_id c1 = i" "cl_closing c1 = cl_closing c" "cl_sent c1 = cl_sent c"
    "gw_orphans g1 = gw_orphans g"
    using gw_ok_client [OF assms(1,2)] by (auto simp: attach_def registerUserConnection_def Let_def)
  have r: "buffer_ok (orp_seq r) (orp_buffer r) (orp_bufferFloor r)" "orp_buffer r \<noteq> []"
    using assms(1,6) by (auto simp: gw_ok_def orphan_ok_def dest!: map_of_SomeD)
  have disp: "\<forall>b \<in> set (orp_buffer r). dispatch_s (snd b) = fst b"
    using r(1) by (auto simp: buffer_ok_def)
  then have seqs: "map (dispatch_s \<circ> snd) (filter (\<lambda>b. fst b > lastSeq) (orp_buffer r)) =
      map fst (filter (\<lambda>b. fst b > lastSeq) (orp_buffer r))"
    by auto
  show ?thesis
    using assms a c1 filter_buffer [OF r, of lastSeq, folded seqs]
    by (auto simp: on_message_def handleResume_def Let_def sent_by_def put_client_def sendRaw_sends
        replay_sends)
qed

definition fresh_client :: "ident \<Rightarrow> gw_client" where
  "fresh_client i = \<lparr>cl_id = i, cl_userId = None, cl_sessionId = None, cl_lastHeartbeatAt = 0,
     cl_seq = 0, cl_buffer = [], cl_identified = False, cl_closing = False, cl_bufferFloor = 0,
     cl_sent = [Hello 30000 i], cl_closes = []\<rparr>"

definition session_db :: db where
  "session_db = presence_db\<lparr>db_sessions :=
     [\<lparr>ses_id = ''s1'', ses_userId = ''ann'', ses_expiresAt = 1000, ses_revokedAt = None\<rparr>]\<rparr>"

definition open_env :: gw_env where
  "open_env = \<lparr>env_verifyAccess = (\<lambda>token. if token = ''tok'' then Inr (''ann'', ''s1'')
       else Inl (unauthorized None)), env_buffered = (\<lambda>_. 0)\<rparr>"

definition parked_gateway :: gateway where
  "parked_gateway = (start_gateway (start_world session_db))
     \<lparr>gw_clients := [(''n'', fresh_client ''n'')],
      gw_orphans := [(''o'', \<lparr>orp_userId = ''ann'', orp_seq = 5,
         orp_buffer = [(4, Dispatch 4 ''MESSAGE_CREATE'' (EventData (OtherData ''a''))),
                       (5, Dispatch 5 ''MESSAGE_CREATE'' (EventData (OtherData ''b'')))],
         orp_bufferFloor = 4, orp_expiresAt = 900\<rparr>)]\<rparr>"

lemma parked_ok: "gw_ok parked_gateway"
  by (simp add: gw_ok_def parked_gateway_def fresh_client_def client_ok_def orphan_ok_def buffer_ok_def
      start_gateway_def map_ok_def BUFFER_MAX_def upt_rec)

lemma parked_auth: "now \<le> 1000 \<Longrightarrow> authenticate open_env now (gw_db parked_gateway) ''tok'' = Inr (''ann'', ''s1'')"
  by (simp add: authenticate_def open_env_def gw_db_def parked_gateway_def start_gateway_def
      start_world_def session_db_def presence_db_def find_session_def empty_db_def)

theorem resume_replays_exactly_witness:
  "\<exists>g'. g' = on_message open_env 800 ''n'' (Resume ''tok'' ''o'' 4) parked_gateway \<and>
     map dispatch_s (sent_by parked_gateway g' ''n'') = [5]"
proof -
  let ?g' = "on_message open_env 800 ''n'' (Resume ''tok'' ''o'' 4) parked_gateway"
  have "map dispatch_s (sent_by parked_gateway ?g' ''n'') = [Suc 4..<Suc 5]"
    using resume_replays_exactly [OF parked_ok, of "''n''" "fresh_client ''n''" open_env 800 "''tok''"
        "''ann''" "''s1''" "''o''" _ ?g' 4] parked_auth [of 800]
    by (simp add: parked_gateway_def fresh_client_def open_env_def MAX_BUFFERED_BYTES_def)
  then show ?thesis by (auto simp: upt_rec)
qed

section \<open>Fan-out\<close>

lemma map_get_map_clients:
  "map_get (map (\<lambda>(k, c). (k, f c)) m) i = map_option f (map_get m i)"
  by (induction m) auto

definition delivers :: "gateway \<Rightarrow> gateway_event \<Rightarrow> gw_client \<Rightarrow> bool" where
  "delivers g event c \<longleftrightarrow> cl_identified c \<and>
     (case cl_userId c of None \<Rightarrow> False
      | Some u \<Rightarrow> shouldDeliver (gw_db g) event u
          (if ge_type event = ''PRESENCE_UPDATE''
           then map_option (computePresenceAudience (gw_db g)) (ge_userId event) else None))"

lemma fanout_client:
  "map_get (gw_clients (fanout env event g)) i =
     map_option (\<lambda>c. if delivers g event c
       then sendDispatch (env_buffered env (cl_id c)) (ge_type event) (EventData (ge_data event)) c else c)
       (map_get (gw_clients g) i)"
  unfolding fanout_def Let_def delivers_def
  by (auto simp: map_get_map_clients split: option.split intro!: option.map_cong0)

text \<open>The reference: who may learn of an event.\<close>

definition shares_space :: "db \<Rightarrow> ident \<Rightarrow> ident \<Rightarrow> bool" where
  "shares_space d u v \<longleftrightarrow>
     (\<exists>m \<in> set (db_members d). \<exists>t \<in> set (db_members d).
        mem_serverId m = mem_serverId t \<and> mem_userId m = u \<and> mem_userId t = v) \<or>
     (\<exists>m \<in> set (db_dm_members d). \<exists>t \<in> set (db_dm_members d).
        dmm_dmChannelId m = dmm_dmChannelId t \<and> dmm_userId m = u \<and> dmm_userId t = v)"

lemma audience_iff: "u \<in> computePresenceAudience d v \<longleftrightarrow> v \<noteq> u \<and> shares_space d u v"
  unfolding computePresenceAudience_def shares_space_def Let_def by (fastforce simp: image_iff)

definition may_receive :: "db \<Rightarrow> gateway_event \<Rightarrow> ident \<Rightarrow> bool" where
  "may_receive d event u \<longleftrightarrow>
     (if ge_type event = ''PRESENCE_UPDATE'' then
        ge_userId event = Some u \<or>
        (\<exists>target. ge_userId event = Some target \<and> target \<noteq> u \<and> shares_space d u target)
      else if ge_dmChannelId event \<noteq> None then
        (\<exists>m \<in> set (db_dm_members d). Some (dmm_dmChannelId m) = ge_dmChannelId event \<and> dmm_userId m = u)
      else if ge_userId event \<noteq> None then ge_userId event = Some u
      else if ge_channelId event \<noteq> None then channel_visible d u (the (ge_channelId event))
      else \<exists>s. ge_serverId event = Some s \<and>
        (find_member d s u \<noteq> None \<or> map_option srv_ownerUserId (find_server d s) = Some u))"

lemma shouldDeliver_may_receive:
  "shouldDeliver d event u
     (if ge_type event = ''PRESENCE_UPDATE''
      then map_option (computePresenceAudience d) (ge_userId event) else None) = may_receive d event u"
proof (cases "ge_type event = ''PRESENCE_UPDATE''")
  case True
  then show ?thesis
    by (auto simp: shouldDeliver_def may_receive_def audience_iff split: option.split)
next
  case False
  then show ?thesis
    by (auto simp: shouldDeliver_def may_receive_def channel_visible_def viewable_def split: option.split)
qed

text \<open>
  C3. Confidentiality of the fan-out: an event advances the sequence of exactly the sockets that are
  authenticated as a user who may receive it, and leaves every other socket as it was. A presence
  change goes to the user and to those sharing a server or a direct-message channel, a direct message
  to the members of its channel, a user event to that user, a channel event to those whom the
  permission resolution shows the channel, and a server event to its members and owner.
\<close>

theorem fanout_confidential:
  "map_get (gw_clients (fanout env event g)) i =
     map_option (\<lambda>c. if cl_identified c \<and> (\<exists>u. cl_userId c = Some u \<and> may_receive (gw_db g) event u)
        then sendDispatch (env_buffered env (cl_id c)) (ge_type event) (EventData (ge_data event)) c else c)
       (map_get (gw_clients g) i)"
  unfolding fanout_client delivers_def shouldDeliver_may_receive
  by (auto intro!: option.map_cong0 split: option.split)

text \<open>
  A ban severs the sockets of the banned user: each of them is asked to close with code 4403, and
  before that (on an open socket that keeps up) the ban event is its last frame.
\<close>

theorem ban_closes_sockets:
  assumes "map_get (gw_clients g) i = Some c" and "cl_userId c = Some u" and "cl_identified c"
    and "\<not> cl_closing c" and "env_buffered env (cl_id c) \<le> MAX_BUFFERED_BYTES"
  shows "\<exists>c'. map_get (gw_clients (on_event env (ban_event ''GUILD_BAN_ADD'' serverId u) g)) i = Some c' \<and>
    cl_closes c' = cl_closes c @ [(4403, ''banned'')] \<and>
    cl_sent c' = cl_sent c @ [Dispatch (Suc (cl_seq c)) ''GUILD_BAN_ADD'' (EventData (MemberData serverId u))]"
proof -
  let ?e = "ban_event ''GUILD_BAN_ADD'' serverId u"
  have e: "ge_userId ?e = Some u" "ge_type ?e = ''GUILD_BAN_ADD''" "ge_data ?e = MemberData serverId u"
    "ge_dmChannelId ?e = None"
    by (simp_all add: ban_event_def event_for_def)
  have "may_receive (gw_db g) ?e u"
    by (simp add: may_receive_def e)
  then have "shouldDeliver (gw_db g) ?e u None"
    using shouldDeliver_may_receive [of "gw_db g" ?e u] by (simp add: e)
  then have "map_get (gw_clients (fanout env ?e g)) i =
      Some (sendDispatch (env_buffered env (cl_id c)) ''GUILD_BAN_ADD'' (EventData (MemberData serverId u)) c)"
    using assms by (simp add: fanout_client delivers_def e)
  then show ?thesis
    using assms
    by (auto simp: on_event_def e Let_def map_get_map_clients sendDispatch_def sendRaw_sends ws_close_def
        split: list.split)
qed

definition ann_online :: gw_client where
  "ann_online = (fresh_client ''n'')\<lparr>cl_userId := Some ''ann'', cl_identified := True\<rparr>"

theorem ban_closes_sockets_witness:
  "\<exists>c'. map_get (gw_clients (on_event open_env (ban_event ''GUILD_BAN_ADD'' ''S'' ''ann'')
      (parked_gateway\<lparr>gw_clients := [(''n'', ann_online)]\<rparr>))) ''n'' = Some c' \<and>
    cl_closes c' = [(4403, ''banned'')]"
proof -
  have "map_get (gw_clients (parked_gateway\<lparr>gw_clients := [(''n'', ann_online)]\<rparr>)) ''n'' = Some ann_online"
    "cl_userId ann_online = Some ''ann''" "cl_identified ann_online" "\<not> cl_closing ann_online"
    "env_buffered open_env (cl_id ann_online) \<le> MAX_BUFFERED_BYTES" "cl_closes ann_online = []"
    by (simp_all add: ann_online_def fresh_client_def open_env_def MAX_BUFFERED_BYTES_def)
  with ban_closes_sockets [OF this(1-5), of "''S''"] show ?thesis by auto
qed

section \<open>What is lost\<close>

lemma on_event_frame [simp]:
  "gw_orphans (on_event env e g) = gw_orphans g" "gw_presence (on_event env e g) = gw_presence g"
  "gw_userConnections (on_event env e g) = gw_userConnections g"
  by (simp_all add: on_event_def fanout_def Let_def split: option.split)

lemma on_events_frame:
  "gw_orphans (foldl (\<lambda>g e. on_event env e g) g es) = gw_orphans g"
  "gw_db (foldl (\<lambda>g e. on_event env e g) g es) = gw_db g"
  by (induction es arbitrary: g) (simp_all add: gw_db_def)

lemma on_events_ok: "gw_ok g \<Longrightarrow> gw_ok (foldl (\<lambda>g e. on_event env e g) g es)"
  by (induction es arbitrary: g) (simp_all add: on_event_ok)

lemma on_events_unidentified:
  assumes "map_get (gw_clients g) i = Some c" and "\<not> cl_identified c" and "cl_userId c = None"
  shows "map_get (gw_clients (foldl (\<lambda>g e. on_event env e g) g es)) i = Some c"
  using assms(1)
proof (induction es arbitrary: g)
  case (Cons e es)
  have "map_get (gw_clients (on_event env e g)) i = Some c"
    using Cons.prems assms(2,3)
    by (auto simp: on_event_def Let_def fanout_client delivers_def map_get_map_clients split: option.split)
  from Cons.IH [OF this] show ?case by simp
qed simp

text \<open>
  C9. Events that arrive while a session is parked are lost to a client that resumes it: whatever
  events were fanned out between the close of the old socket and the RESUME, a client that had seen
  every dispatch sent before the close is sent nothing at all, neither a replay of those events, nor
  a fresh READY, nor a BUFFER\_GAP.
\<close>

theorem events_while_parked_are_lost:
  assumes "gw_ok g" and "map_get (gw_clients g) i = Some c" and "\<not> cl_identified c" and "\<not> cl_closing c"
    and "env_buffered env i \<le> MAX_BUFFERED_BYTES"
    and "authenticate env now (gw_db g) token = Inr (sub, sid)"
    and "map_get (gw_orphans g) sessionId = Some r" and "orp_userId r = sub" and "now < orp_expiresAt r"
    and "g2 = foldl (\<lambda>g e. on_event env e g) g es"
    and "g' = on_message env now i (Resume token sessionId (orp_seq r)) g2"
  shows "sent_by g2 g' i = []"
proof -
  have c: "client_ok c" using gw_ok_client [OF assms(1,2)] by blast
  then have u: "cl_userId c = None" using assms(3) by (simp add: client_ok_def)
  have g2: "gw_ok g2" "map_get (gw_clients g2) i = Some c" "gw_db g2 = gw_db g" "gw_orphans g2 = gw_orphans g"
    unfolding assms(10)
    using on_events_ok [OF assms(1)] on_events_unidentified [OF assms(2,3) u] on_events_frame by blast+
  obtain c1 g1 where a: "attach now sub sid c g2 = (c1, g1)" by force
  then have c1: "cl_id c1 = i" "cl_closing c1 = cl_closing c" "cl_sent c1 = cl_sent c" "gw_orphans g1 = gw_orphans g2"
    using gw_ok_client [OF g2(1,2)] by (auto simp: attach_def registerUserConnection_def Let_def)
  have r: "buffer_ok (orp_seq r) (orp_buffer r) (orp_bufferFloor r)" "orp_buffer r \<noteq> []"
    using assms(1,7) by (auto simp: gw_ok_def orphan_ok_def dest!: map_of_SomeD)
  then have fl: "orp_bufferFloor r \<le> orp_seq r"
    by (cases "orp_buffer r") (auto simp: buffer_ok_def)
  then have "map fst (filter (\<lambda>b. fst b > orp_seq r) (orp_buffer r)) = []"
    using filter_buffer [OF r, of "orp_seq r"] by simp
  then have "filter (\<lambda>b. fst b > orp_seq r) (orp_buffer r) = []"
    by simp
  then show ?thesis
    using assms g2 a c1 fl
    by (auto simp: on_message_def handleResume_def Let_def sent_by_def put_client_def replay_sends)
qed

theorem events_while_parked_are_lost_witness:
  "\<exists>g2 g'. g2 = on_event open_env ((event_for ''MENTION_CREATE'' (OtherData ''!''))\<lparr>ge_userId := Some ''ann''\<rparr>)
        parked_gateway \<and>
     g' = on_message open_env 800 ''n'' (Resume ''tok'' ''o'' 5) g2 \<and> sent_by g2 g' ''n'' = []"
proof -
  let ?r = "\<lparr>orp_userId = ''ann'', orp_seq = 5,
         orp_buffer = [(4, Dispatch 4 ''MESSAGE_CREATE'' (EventData (OtherData ''a''))),
                       (5, Dispatch 5 ''MESSAGE_CREATE'' (EventData (OtherData ''b'')))],
         orp_bufferFloor = 4, orp_expiresAt = 900\<rparr>"
  let ?e = "(event_for ''MENTION_CREATE'' (OtherData ''!''))\<lparr>ge_userId := Some ''ann''\<rparr>"
  let ?g2 = "on_event open_env ?e parked_gateway"
  let ?g' = "on_message open_env 800 ''n'' (Resume ''tok'' ''o'' (orp_seq ?r)) ?g2"
  have "sent_by ?g2 ?g' ''n'' = []"
    by (rule events_while_parked_are_lost [OF parked_ok, of "''n''" "fresh_client ''n''" open_env 800 "''tok''"
          "''ann''" "''s1''" "''o''" ?r ?g2 "[?e]" ?g'])
      (simp_all add: parked_auth, simp_all add: parked_gateway_def fresh_client_def open_env_def MAX_BUFFERED_BYTES_def)
  then show ?thesis by auto
qed

lemma opens_markConnected [simp]:
  "pw_openSockets (markConnected now u w) =
     map_set u (get_or 0 (map_get (pw_openSockets w) u) + 1) (pw_openSockets w)"
  by (simp add: markConnected_def Let_def split: option.split)

lemma opens_markDisconnected:
  "map_get (pw_openSockets (markDisconnected now u w)) u =
     (let n = max 0 (get_or 0 (map_get (pw_openSockets w) u) - 1) in if n = 0 then None else Some n)"
  by (simp add: markDisconnected_def Let_def)

lemma opens_cleanup [simp]: "pw_openSockets (cleanupAfterLastConnection u w) = pw_openSockets w"
  by (simp add: cleanupAfterLastConnection_def Let_def)

lemma db_sessions_frame [simp]:
  "db_sessions (pw_db (persistAndBroadcast now u p w)) = db_sessions (pw_db w)"
  "db_sessions (pw_db (markConnected now u w)) = db_sessions (pw_db w)"
  by (simp_all add: persistAndBroadcast_def update_user_def markConnected_def Let_def split: option.split)

lemma authenticate_cong:
  "db_sessions d' = db_sessions d \<Longrightarrow> authenticate env now d' token = authenticate env now d token"
  by (simp add: authenticate_def find_session_def)

lemma identify_effect:
  assumes "map_get (gw_clients g) i = Some c" and "cl_id c = i"
    and "authenticate env now (gw_db g) token = Inr (u, sid)"
  shows "let g' = on_message env now i (Identify token) g in
      gw_userConnections g' =
        map_set u (List.insert i (get_or [] (map_get (gw_userConnections g) u))) (gw_userConnections g) \<and>
      gw_presence g' = markConnected now u (gw_presence g) \<and>
      (\<exists>c'. gw_clients g' = map_set i c' (gw_clients g) \<and> cl_userId c' = Some u)"
  using assms
  by (simp add: on_message_def handleIdentify_def attach_def registerUserConnection_def Let_def
      send_ready_def put_client_def)
    (rule exI, rule conjI, rule refl, simp)

text \<open>
  Presence leaks a socket: when a user authenticates on two sockets and both close, the gateway
  has forgotten the user but the presence service still counts one open socket, because it is told of
  every connection and only of the last disconnection; the user stays online.
\<close>

theorem two_sockets_leave_user_online:
  assumes "i \<noteq> j" and "map_get (gw_clients g) i = Some ci" and "map_get (gw_clients g) j = Some cj"
    and "gw_ok g" and "map_get (gw_userConnections g) u = None"
    and "map_get (pw_openSockets (gw_presence g)) u = None"
    and "authenticate env now (gw_db g) token = Inr (u, sid)"
    and "g' = foldl gw_step g [(env, now, Message i (Identify token)), (env, now, Message j (Identify token)),
           (env, now, Close i), (env, now, Close j)]"
  shows "map_get (gw_userConnections g') u = None \<and> map_get (gw_clients g') i = None \<and>
    map_get (gw_clients g') j = None \<and> map_get (pw_openSockets (gw_presence g')) u = Some 1 \<and>
    compute u dnd (gw_presence g') \<noteq> Offline"
proof -
  have ids: "cl_id ci = i" "cl_id cj = j"
    using gw_ok_client [OF assms(4)] assms(2,3) by blast+
  let ?g1 = "on_message env now i (Identify token) g"
  obtain ci' where g1: "gw_clients ?g1 = map_set i ci' (gw_clients g)" "cl_userId ci' = Some u"
      "gw_userConnections ?g1 = map_set u [i] (gw_userConnections g)"
      "gw_presence ?g1 = markConnected now u (gw_presence g)"
    using identify_effect [OF assms(2) ids(1) assms(7)] assms(5) by (auto simp: Let_def List.insert_def)
  have auth: "authenticate env now (gw_db ?g1) token = Inr (u, sid)"
    using assms(7) authenticate_cong [of "gw_db ?g1" "gw_db g"] by (simp add: g1(4) gw_db_def)
  have cj1: "map_get (gw_clients ?g1) j = Some cj"
    using assms(1,3) by (simp add: g1(1))
  let ?g2 = "on_message env now j (Identify token) ?g1"
  obtain cj' where g2: "gw_clients ?g2 = map_set j cj' (gw_clients ?g1)" "cl_userId cj' = Some u"
      "gw_userConnections ?g2 = map_set u [j, i] (gw_userConnections ?g1)"
      "gw_presence ?g2 = markConnected now u (gw_presence ?g1)"
    using identify_effect [OF cj1 ids(2) auth] assms(1) by (auto simp: Let_def List.insert_def g1(3))
  have g2': "map_get (gw_clients ?g2) i = Some ci'" "map_get (gw_clients ?g2) j = Some cj'"
    "map_get (gw_userConnections ?g2) u = Some [j, i]" "map_get (pw_openSockets (gw_presence ?g2)) u = Some 2"
    using assms(1,6) by (simp_all add: g1 g2)
  let ?g3 = "on_close now i ?g2"
  have g3: "map_get (gw_clients ?g3) i = None" "map_get (gw_clients ?g3) j = Some cj'"
    "map_get (gw_userConnections ?g3) u = Some [j]" "map_get (pw_openSockets (gw_presence ?g3)) u = Some 2"
    using g2' g1(2) assms(1) by (simp_all add: on_close_def Let_def)
  have "map_get (gw_clients (on_close now j ?g3)) i = None"
    "map_get (gw_clients (on_close now j ?g3)) j = None"
    "map_get (gw_userConnections (on_close now j ?g3)) u = None"
    "map_get (pw_openSockets (gw_presence (on_close now j ?g3))) u = Some 1"
    using g3 g2(2) by (simp_all add: on_close_def Let_def opens_markDisconnected)
  then show ?thesis
    unfolding assms(8) by (auto simp: gw_step_def compute_def)
qed

definition two_sockets :: gateway where
  "two_sockets = (start_gateway (start_world session_db))
     \<lparr>gw_clients := [(''n'', fresh_client ''n''), (''m'', fresh_client ''m'')]\<rparr>"

theorem two_sockets_leave_user_online_witness:
  "map_get (pw_openSockets (gw_presence (foldl gw_step two_sockets
     [(open_env, 800, Message ''n'' (Identify ''tok'')), (open_env, 800, Message ''m'' (Identify ''tok'')),
      (open_env, 800, Close ''n''), (open_env, 800, Close ''m'')]))) ''ann'' = Some 1"
proof -
  have "gw_ok two_sockets"
    by (simp add: gw_ok_def two_sockets_def fresh_client_def client_ok_def start_gateway_def map_ok_def)
  moreover have "authenticate open_env 800 (gw_db two_sockets) ''tok'' = Inr (''ann'', ''s1'')"
    using parked_auth [of 800] authenticate_cong [of "gw_db two_sockets" "gw_db parked_gateway"]
    by (simp add: gw_db_def two_sockets_def parked_gateway_def start_gateway_def)
  ultimately show ?thesis
    using two_sockets_leave_user_online [of "''n''" "''m''" two_sockets "fresh_client ''n''" "fresh_client ''m''"
        "''ann''" open_env 800 "''tok''" "''s1''" _ False]
    by (simp add: two_sockets_def start_gateway_def start_world_def)
qed

end
