(* ===== verification/GatewayClient.thy ===== *)
theory GatewayClient
  imports Prelude
begin

text \<open>
  The web client's side of the gateway (apps/web/src/lib/gateway-client.ts): connecting,
  reconnecting with jittered back-off, HELLO, RESUME and IDENTIFY, heartbeats. Browser callbacks
  (socket messages and closes, the reconnect timer) are steps that carry the socket they come from;
  the access token, whether the socket is open, and the draw of \<open>Math.random\<close> (the numerator of
  its 53-bit fraction) are arguments.
\<close>

section \<open>State\<close>

datatype gc_status = GcIdle | Connecting | Ready | Reconnecting | GcClosed

datatype out_frame =
    SendIdentify string
  | SendResume string ident int
  | SendHeartbeat int

record gateway_client =
  gc_socket :: "nat option"
  gc_heartbeat :: "millis option"       \<comment> \<open>period of the running interval\<close>
  gc_timer :: "millis option"           \<comment> \<open>delay of the pending reconnect\<close>
  gc_backoffMs :: int
  gc_lastSeq :: int
  gc_currentSessionId :: "ident option"
  gc_resumeSessionId :: "ident option"
  gc_status :: gc_status
  gc_sockets :: nat                     \<comment> \<open>sockets created so far\<close>
  gc_live :: "nat list"                 \<comment> \<open>sockets not closed yet\<close>
  gc_out :: "(nat \<times> out_frame) list"
  gc_statuses :: "gc_status list"
  gc_dispatched :: "(string \<times> string) list"

definition new_client :: gateway_client where
  "new_client = \<lparr>gc_socket = None, gc_heartbeat = None, gc_timer = None, gc_backoffMs = 1000,
     gc_lastSeq = 0, gc_currentSessionId = None, gc_resumeSessionId = None, gc_status = GcIdle,
     gc_sockets = 0, gc_live = [], gc_out = [], gc_statuses = [], gc_dispatched = []\<rparr>"

record gc_env =
  gce_token :: "string option"          \<comment> \<open>\<open>tokenStore.accessToken\<close>\<close>
  gce_open :: bool                      \<comment> \<open>\<open>readyState\<close> is \<open>OPEN\<close> and \<open>send\<close> does not throw\<close>
  gce_random :: nat

definition setStatus :: "gc_status \<Rightarrow> gateway_client \<Rightarrow> gateway_client" where
  "setStatus s c = c\<lparr>gc_status := s, gc_statuses := gc_statuses c @ [s]\<rparr>"

section \<open>Sockets\<close>

definition connect :: "gateway_client \<Rightarrow> gateway_client" where
  "connect c =
     (if gc_socket c \<noteq> None \<or> gc_status c = Connecting \<or> gc_status c = Reconnecting then c
      else
        let c = setStatus Connecting c;
            c = c\<lparr>gc_timer := None\<rparr>;
            socket = gc_sockets c
        in c\<lparr>gc_sockets := socket + 1, gc_socket := Some socket, gc_live := gc_live c @ [socket]\<rparr>)"

definition cleanupSocket :: "gateway_client \<Rightarrow> gateway_client" where
  "cleanupSocket c =
     (let c = c\<lparr>gc_heartbeat := None\<rparr>;
          c = (case gc_socket c of None \<Rightarrow> c | Some s \<Rightarrow> c\<lparr>gc_live := removeAll s (gc_live c)\<rparr>)
      in c\<lparr>gc_socket := None\<rparr>)"

definition close_client :: "gateway_client \<Rightarrow> gateway_client" where
  "close_client c =
     (let c = setStatus GcClosed c;
          c = c\<lparr>gc_currentSessionId := None, gc_resumeSessionId := None, gc_lastSeq := 0, gc_timer := None\<rparr>
      in cleanupSocket c)"

text \<open>\<open>base + base * 0.2 * (2r - 1)\<close> for the draw r = n / 2\^53, rounded down.\<close>

definition jittered :: "int \<Rightarrow> nat \<Rightarrow> int" where
  "jittered base n = (5 * base * 2 ^ 53 + base * (2 * int n - 2 ^ 53)) div (5 * 2 ^ 53)"

definition scheduleReconnect :: "gc_env \<Rightarrow> gateway_client \<Rightarrow> gateway_client" where
  "scheduleReconnect env c =
     (if gc_status c = GcClosed then c
      else
        let c = setStatus Reconnecting (c\<lparr>gc_timer := None\<rparr>);
            base = min (gc_backoffMs c) 30000;
            delay = max 250 (jittered base (gce_random env))
        in c\<lparr>gc_backoffMs := min (gc_backoffMs c * 2) 30000, gc_timer := Some delay\<rparr>)"

definition reconnect_timer :: "gateway_client \<Rightarrow> gateway_client" where
  "reconnect_timer c =
     (let c = c\<lparr>gc_timer := None\<rparr>;
          c = (if gc_status c = Reconnecting then setStatus GcIdle c else c)
      in connect c)"

text \<open>The close listener does not look at which socket closed.\<close>

definition on_socket_close :: "gc_env \<Rightarrow> nat \<Rightarrow> gateway_client \<Rightarrow> gateway_client" where
  "on_socket_close env socket c =
     scheduleReconnect env (cleanupSocket (c\<lparr>gc_live := removeAll socket (gc_live c)\<rparr>))"

section \<open>Frames\<close>

definition send_frame :: "gc_env \<Rightarrow> out_frame \<Rightarrow> gateway_client \<Rightarrow> gateway_client" where
  "send_frame env f c =
     (case gc_socket c of
        None \<Rightarrow> c
      | Some s \<Rightarrow> if gce_open env then c\<lparr>gc_out := gc_out c @ [(s, f)]\<rparr> else c)"

definition identify :: "gc_env \<Rightarrow> gateway_client \<Rightarrow> gateway_client" where
  "identify env c =
     (if gc_socket c = None then c
      else case gce_token env of
             None \<Rightarrow> close_client c
           | Some token \<Rightarrow> if token = '''' then close_client c else send_frame env (SendIdentify token) c)"

definition resume :: "gc_env \<Rightarrow> ident \<Rightarrow> int \<Rightarrow> gateway_client \<Rightarrow> gateway_client" where
  "resume env sessionId lastSeq c =
     (if gc_socket c = None then c
      else case gce_token env of
             None \<Rightarrow> close_client c
           | Some token \<Rightarrow> if token = '''' then close_client c else send_frame env (SendResume token sessionId lastSeq) c)"

text \<open>An interval that is not a finite number is \<^const>\<open>None\<close>.\<close>

definition startHeartbeat :: "millis option \<Rightarrow> gateway_client \<Rightarrow> gateway_client" where
  "startHeartbeat intervalMs c =
     (case intervalMs of
        None \<Rightarrow> c\<lparr>gc_heartbeat := Some 30000\<rparr>
      | Some i \<Rightarrow> if i < 100 \<or> i > 30000 then c\<lparr>gc_heartbeat := Some 30000\<rparr>
                  else c\<lparr>gc_heartbeat := Some i\<rparr>)"

definition beat :: "gc_env \<Rightarrow> gateway_client \<Rightarrow> gateway_client" where
  "beat env c = send_frame env (SendHeartbeat (gc_lastSeq c)) c"

datatype in_payload =
    PHello ident "millis option"
  | PHeartbeatAck
  | PInvalidSession
  | PDispatch "string option" string
  | PUnknown

definition handlePayload :: "gc_env \<Rightarrow> int option \<Rightarrow> in_payload \<Rightarrow> gateway_client \<Rightarrow> gateway_client" where
  "handlePayload env s p c =
     (let c = (case s of None \<Rightarrow> c | Some n \<Rightarrow> c\<lparr>gc_lastSeq := n\<rparr>)
      in case p of
           PHello sessionId intervalMs \<Rightarrow>
             (let c = startHeartbeat intervalMs c;
                  c = c\<lparr>gc_currentSessionId := Some sessionId\<rparr>;
                  c = (case gc_resumeSessionId c of
                         Some r \<Rightarrow>
                           if r \<noteq> '''' \<and> gc_lastSeq c > 0 then
                             setStatus Ready ((resume env r (gc_lastSeq c) c)\<lparr>gc_backoffMs := 1000\<rparr>)
                           else identify env c
                       | None \<Rightarrow> identify env c)
              in c\<lparr>gc_resumeSessionId := Some sessionId\<rparr>)
         | PHeartbeatAck \<Rightarrow> c
         | PInvalidSession \<Rightarrow>
             identify env (c\<lparr>gc_resumeSessionId := gc_currentSessionId c, gc_lastSeq := 0\<rparr>)
         | PDispatch t d \<Rightarrow>
             (case t of
                None \<Rightarrow> c
              | Some t \<Rightarrow>
                  if t = '''' then c else
                  let c = (if t = ''READY'' then setStatus Ready (c\<lparr>gc_backoffMs := 1000\<rparr>) else c)
                  in c\<lparr>gc_dispatched := gc_dispatched c @ [(t, d)]\<rparr>)
         | PUnknown \<Rightarrow> c)"

section \<open>Runs\<close>

datatype gc_event =
    CallConnect | CallClose | OnMessage nat "int option" in_payload | OnClose nat | OnTimer | OnBeat

inductive gc_step :: "gateway_client \<Rightarrow> gc_env \<times> gc_event \<Rightarrow> gateway_client \<Rightarrow> bool" where
  StepConnect: "gc_step c (env, CallConnect) (connect c)"
| StepClose: "gc_step c (env, CallClose) (close_client c)"
| StepMessage: "socket < gc_sockets c \<Longrightarrow> gc_step c (env, OnMessage socket s p) (handlePayload env s p c)"
| StepSocketClose: "socket < gc_sockets c \<Longrightarrow> gc_step c (env, OnClose socket) (on_socket_close env socket c)"
| StepTimer: "gc_timer c = Some d \<Longrightarrow> gc_step c (env, OnTimer) (reconnect_timer c)"
| StepBeat: "gc_heartbeat c = Some i \<Longrightarrow> gc_step c (env, OnBeat) (beat env c)"

inductive_cases gc_stepE: "gc_step c (env, e) c'"

code_pred gc_step .

inductive reachable :: "gateway_client \<Rightarrow> bool" where
  Start: "reachable new_client"
| Step: "reachable c \<Longrightarrow> gce_random env < 2 ^ 53 \<Longrightarrow> gc_step c (env, e) c' \<Longrightarrow> reachable c'"

definition gc_inv :: "gateway_client \<Rightarrow> bool" where
  "gc_inv c \<longleftrightarrow>
     1000 \<le> gc_backoffMs c \<and> gc_backoffMs c \<le> 30000 \<and>
     (case gc_timer c of None \<Rightarrow> True | Some d \<Rightarrow> 800 \<le> d \<and> d \<le> 36000) \<and>
     (case gc_heartbeat c of None \<Rightarrow> True | Some i \<Rightarrow> 100 \<le> i \<and> i \<le> 30000) \<and>
     (gc_socket c = None \<or> gc_timer c = None) \<and>
     set (gc_live c) \<subseteq> set_option (gc_socket c) \<and> length (gc_live c) \<le> 1"

lemma jittered_bounds:
  assumes "1000 \<le> base" and "base \<le> 30000" and "n < 2 ^ 53"
  shows "800 \<le> jittered base n \<and> jittered base n \<le> 36000"
proof -
  define P :: int where "P = 2 ^ 53"
  let ?x = "5 * base * P + base * (2 * int n - P)"
  have P: "0 < P" "int n < P" "0 \<le> int n"
    using assms(3) by (simp_all add: P_def)
  have "base * (- P) \<le> base * (2 * int n - P)" "base * (2 * int n - P) \<le> base * P"
    using P assms(1) by (intro mult_left_mono; simp)+
  moreover have "1000 * P \<le> base * P" "base * P \<le> 30000 * P"
    using P assms by (simp_all add: mult_right_mono)
  ultimately have lo: "800 * (5 * P) \<le> ?x" and hi: "?x \<le> 36000 * (5 * P)"
    by (simp_all add: algebra_simps)
  have "800 \<le> ?x div (5 * P)"
    using zdiv_mono1 [OF lo, of "5 * P"] P by simp
  moreover have "?x div (5 * P) \<le> 36000"
    using zdiv_mono1 [OF hi, of "5 * P"] P by simp
  ultimately show ?thesis
    by (simp add: jittered_def P_def)
qed

lemma inv_fields [simp]:
  "gc_backoffMs (setStatus s c) = gc_backoffMs c" "gc_timer (setStatus s c) = gc_timer c"
  "gc_heartbeat (setStatus s c) = gc_heartbeat c" "gc_socket (setStatus s c) = gc_socket c"
  "gc_live (setStatus s c) = gc_live c" "gc_status (setStatus s c) = s"
  "gc_sockets (setStatus s c) = gc_sockets c" "gc_lastSeq (setStatus s c) = gc_lastSeq c"
  "gc_resumeSessionId (setStatus s c) = gc_resumeSessionId c"
  by (simp_all add: setStatus_def)

lemma gc_inv_status [simp]: "gc_inv (setStatus s c) = gc_inv c"
  by (simp add: gc_inv_def)

lemma gc_inv_frame [simp]:
  "gc_inv (c\<lparr>gc_lastSeq := n\<rparr>) = gc_inv c" "gc_inv (c\<lparr>gc_currentSessionId := i\<rparr>) = gc_inv c"
  "gc_inv (c\<lparr>gc_resumeSessionId := i\<rparr>) = gc_inv c" "gc_inv (c\<lparr>gc_dispatched := d\<rparr>) = gc_inv c"
  "gc_inv (c\<lparr>gc_out := f\<rparr>) = gc_inv c" "gc_inv (c\<lparr>gc_sockets := k\<rparr>) = gc_inv c"
  by (simp_all add: gc_inv_def)

lemma gc_inv_backoff: "gc_inv c \<Longrightarrow> gc_inv (c\<lparr>gc_backoffMs := 1000\<rparr>)"
  by (simp add: gc_inv_def)

lemma gc_inv_timer: "gc_inv c \<Longrightarrow> gc_inv (c\<lparr>gc_timer := None\<rparr>)"
  by (simp add: gc_inv_def)

lemma connect_inv: "gc_inv c \<Longrightarrow> gc_inv (connect c)"
  by (auto simp: connect_def gc_inv_def Let_def)

lemma live_singleton:
  "set xs \<subseteq> {s} \<Longrightarrow> length xs \<le> 1 \<Longrightarrow> removeAll s xs = []"
  by (cases xs) auto

lemma cleanup_inv: "gc_inv c \<Longrightarrow> gc_inv (cleanupSocket c) \<and> gc_socket (cleanupSocket c) = None"
  by (auto simp: cleanupSocket_def gc_inv_def Let_def live_singleton split: option.splits)

lemma close_inv: "gc_inv c \<Longrightarrow> gc_inv (close_client c)"
  by (auto simp: close_client_def Let_def intro!: conjunct1 [OF cleanup_inv] gc_inv_timer)

lemma schedule_inv:
  assumes "gc_inv c" and "gc_socket c = None" and "gce_random env < 2 ^ 53"
  shows "gc_inv (scheduleReconnect env c)"
proof -
  have "800 \<le> jittered (min (gc_backoffMs c) 30000) (gce_random env) \<and>
      jittered (min (gc_backoffMs c) 30000) (gce_random env) \<le> 36000"
    using assms by (intro jittered_bounds) (auto simp: gc_inv_def)
  then show ?thesis
    using assms(1,2) by (auto simp: scheduleReconnect_def gc_inv_def Let_def)
qed

lemma send_frame_inv: "gc_inv c \<Longrightarrow> gc_inv (send_frame env f c)"
  by (auto simp: send_frame_def split: option.split)

lemma identify_inv: "gc_inv c \<Longrightarrow> gc_inv (identify env c)"
  by (auto simp: identify_def intro: close_inv send_frame_inv split: option.split)

lemma resume_inv: "gc_inv c \<Longrightarrow> gc_inv (resume env i n c)"
  by (auto simp: resume_def intro: close_inv send_frame_inv split: option.split)

lemma heartbeat_inv: "gc_inv c \<Longrightarrow> gc_inv (startHeartbeat i c)"
  by (auto simp: startHeartbeat_def gc_inv_def split: option.split)

lemma handlePayload_inv: "gc_inv c \<Longrightarrow> gc_inv (handlePayload env s p c)"
  by (auto simp: handlePayload_def Let_def intro!: identify_inv gc_inv_backoff resume_inv heartbeat_inv
      split: in_payload.split option.split)

lemma on_socket_close_inv:
  assumes "gc_inv c" and "gce_random env < 2 ^ 53"
  shows "gc_inv (on_socket_close env socket c)"
proof -
  have "gc_inv (c\<lparr>gc_live := removeAll socket (gc_live c)\<rparr>)"
    using assms(1) le_trans [OF length_filter_le [of "\<lambda>s. socket \<noteq> s" "gc_live c"], of 1]
    by (auto simp: gc_inv_def removeAll_filter_not_eq)
  from cleanup_inv [OF this] show ?thesis
    unfolding on_socket_close_def by (intro schedule_inv assms(2)) simp_all
qed

lemma reconnect_timer_inv: "gc_inv c \<Longrightarrow> gc_inv (reconnect_timer c)"
  by (simp add: reconnect_timer_def Let_def connect_inv gc_inv_timer)

lemma gc_step_inv:
  assumes "gc_inv c" and "gce_random env < 2 ^ 53" and "gc_step c (env, e) c'"
  shows "gc_inv c'"
  using assms(3)
  by (rule gc_stepE)
    (auto simp: beat_def intro: assms(1) connect_inv close_inv handlePayload_inv send_frame_inv
      on_socket_close_inv [OF _ assms(2)] reconnect_timer_inv)

lemma reachable_inv: "reachable c \<Longrightarrow> gc_inv c"
proof (induction rule: reachable.induct)
  case Start
  then show ?case by (simp add: gc_inv_def new_client_def)
next
  case (Step c env e c')
  then show ?case using gc_step_inv by blast
qed

text \<open>
  C39. In every reachable state of the client: at most one socket is open, and it is the current one;
  no reconnect is pending while there is a socket; the back-off is between 1 and 30 seconds, a pending
  reconnect is due within 0.8 to 36 seconds, and the heartbeat period is between 100 ms and 30 s
  whatever the server sent.
\<close>

theorem client_stays_bounded:
  assumes "reachable c"
  shows "length (gc_live c) \<le> 1 \<and> set (gc_live c) \<subseteq> set_option (gc_socket c) \<and>
    (gc_socket c = None \<or> gc_timer c = None) \<and>
    1000 \<le> gc_backoffMs c \<and> gc_backoffMs c \<le> 30000 \<and>
    (case gc_timer c of None \<Rightarrow> True | Some d \<Rightarrow> 800 \<le> d \<and> d \<le> 36000) \<and>
    (case gc_heartbeat c of None \<Rightarrow> True | Some i \<Rightarrow> 100 \<le> i \<and> i \<le> 30000)"
  using reachable_inv [OF assms] by (simp add: gc_inv_def)

definition online_env :: gc_env where
  "online_env = \<lparr>gce_token = Some ''tok'', gce_open = True, gce_random = 0\<rparr>"

lemmas client_eval =
  connect_def on_socket_close_def cleanupSocket_def scheduleReconnect_def handlePayload_def
  startHeartbeat_def identify_def resume_def send_frame_def close_client_def setStatus_def jittered_def
  new_client_def online_env_def Let_def

definition dropped_client :: gateway_client where
  "dropped_client = on_socket_close online_env 0 (connect new_client)"

lemma dropped_reachable: "reachable dropped_client"
  unfolding dropped_client_def
proof (rule reachable.Step [where env = online_env and e = "OnClose 0"])
  show "reachable (connect new_client)"
    by (rule reachable.Step [where env = online_env and e = CallConnect])
      (auto simp: online_env_def intro: reachable.Start gc_step.StepConnect)
  show "gce_random online_env < 2 ^ 53"
    by (simp add: online_env_def)
  show "gc_step (connect new_client) (online_env, OnClose 0) (on_socket_close online_env 0 (connect new_client))"
    by (rule gc_step.StepSocketClose) (simp add: client_eval)
qed

theorem client_stays_bounded_witness:
  "gc_timer dropped_client = Some 800 \<and> gc_live dropped_client = [] \<and> gc_backoffMs dropped_client \<le> 30000"
  using client_stays_bounded [OF dropped_reachable]
  by (simp add: dropped_client_def client_eval)

text \<open>
  Signed out during a reconnect: when HELLO arrives on a client that holds a resume id and a
  sequence number but has no access token any more, the client closes itself and then reports itself
  ready with no socket; when the browser then delivers the close of that socket it schedules a
  reconnect, which a closed client never does.
\<close>

theorem signed_out_resume_reconnects:
  assumes "gc_resumeSessionId c = Some r" and "r \<noteq> ''''" and "gc_lastSeq c > 0" and "gce_token env = None"
    and "gc_socket c = Some k"
    and "c1 = handlePayload env None (PHello sessionId intervalMs) c"
    and "c2 = on_socket_close env2 k c1"
  shows "gc_status c1 = Ready \<and> gc_socket c1 = None \<and> gc_status c2 = Reconnecting \<and> gc_timer c2 \<noteq> None"
proof -
  have hb: "gc_resumeSessionId (startHeartbeat i c) = Some r" "gc_lastSeq (startHeartbeat i c) > 0"
    "gc_socket (startHeartbeat i c) = Some k" for i
    using assms(1,3,5) by (simp_all add: startHeartbeat_def split: option.split)
  have c1: "gc_status c1 = Ready \<and> gc_socket c1 = None"
    using hb assms(2,4) by (simp add: assms(6) handlePayload_def resume_def close_client_def cleanupSocket_def Let_def)
  then show ?thesis
    by (simp add: assms(7) on_socket_close_def cleanupSocket_def scheduleReconnect_def Let_def)
qed

theorem signed_out_resume_reconnects_witness:
  "gc_status (handlePayload (online_env\<lparr>gce_token := None\<rparr>) None (PHello ''b'' (Some 30000))
     ((connect new_client)\<lparr>gc_resumeSessionId := Some ''a'', gc_lastSeq := 7\<rparr>)) = Ready"
proof -
  let ?c = "(connect new_client)\<lparr>gc_resumeSessionId := Some ''a'', gc_lastSeq := 7\<rparr>"
  have "gc_resumeSessionId ?c = Some ''a''" "''a'' \<noteq> ''''" "gc_lastSeq ?c > 0" "gce_token (online_env\<lparr>gce_token := None\<rparr>) = None"
    "gc_socket ?c = Some 0"
    by (simp_all add: connect_def new_client_def Let_def)
  from signed_out_resume_reconnects [OF this refl refl] show ?thesis by blast
qed

text \<open>
  A late close kills the next connection: closing the client and connecting again before the
  browser delivers the close of the old socket makes that event close the new socket and schedule
  another reconnect.
\<close>

theorem late_close_kills_new_socket:
  assumes "gc_socket c = Some k" and "gc_inv c"
    and "c1 = connect (close_client c)" and "c2 = on_socket_close env k c1"
  shows "gc_socket c1 = Some (gc_sockets c) \<and> gc_socket c2 = None \<and> gc_live c2 = [] \<and>
    gc_status c2 = Reconnecting"
proof -
  have live: "removeAll k (gc_live c) = []"
    using assms(1,2) by (auto simp: gc_inv_def live_singleton)
  have "gc_socket (close_client c) = None" "gc_live (close_client c) = []" "gc_status (close_client c) = GcClosed"
    "gc_sockets (close_client c) = gc_sockets c"
    using assms(1) live by (simp_all add: close_client_def cleanupSocket_def Let_def)
  then have c1: "gc_socket c1 = Some (gc_sockets c)" "gc_live c1 = [gc_sockets c]" "gc_status c1 = Connecting"
    by (simp_all add: assms(3) connect_def Let_def)
  then show ?thesis
    by (auto simp: assms(4) on_socket_close_def cleanupSocket_def scheduleReconnect_def Let_def)
qed

theorem late_close_kills_new_socket_witness:
  "gc_live (on_socket_close online_env 0 (connect (close_client (connect new_client)))) = []"
proof -
  have "gc_socket (connect new_client) = Some 0" "gc_inv (connect new_client)"
    by (simp_all add: connect_def new_client_def gc_inv_def Let_def)
  from late_close_kills_new_socket [OF this refl refl] show ?thesis by blast
qed

end
