(* ===== verification/ClientStore.thy ===== *)
theory ClientStore
  imports Permissions Database
begin

text \<open>
  The web client's store (apps/web/src/lib/store.ts): every reducer as a function of the state it
  changes. Objects used as dictionaries are maps in insertion order (the keys are ULIDs, never
  integer-like). \<open>localeCompare\<close> is the argument \<open>cmp\<close>; the asynchronous loads are split at their
  \<open>await\<close> into a start and a completion.
\<close>

section \<open>Data\<close>

record reaction =
  rx_emoji :: string
  rx_count :: int
  rx_me :: bool

record chat_message =
  cm_id :: ident
  cm_channelId :: "ident option"
  cm_dmChannelId :: "ident option"
  cm_threadId :: "ident option"
  cm_content :: string
  cm_reactions :: "reaction list"

record voice_state =
  vs_serverId :: ident
  vs_userId :: ident
  vs_channelId :: "ident option"
  vs_selfMute :: bool
  vs_selfDeaf :: bool
  vs_cameraOn :: bool
  vs_screenSharing :: bool
  vs_joinedAt :: "millis option"
  vs_stagePosition :: "int option"
  vs_handRaisedAt :: "millis option"

record store_channel =
  sc_id :: ident
  sc_serverId :: ident
  sc_position :: int
  sc_name :: string
  sc_voiceStates :: "voice_state list option"

record store_server =
  ss_id :: ident
  ss_name :: string

record store_member =
  sm_userId :: ident
  sm_presence :: presence
  sm_nickname :: "string option"

record dm_channel =
  dc_id :: ident
  dc_name :: string

record current_voice =
  cv_serverId :: ident
  cv_channelId :: ident
  cv_channelName :: string

type_synonym profile = "(string, string) jsmap"

datatype loaded_profile =
    ProfileLoading millis
  | ProfileLoaded profile millis
  | ProfileError millis string
  | ProfileUnavailable millis

datatype load_state = Loading | Loaded | LoadError

record loaded_roles =
  lr_state :: load_state
  lr_roles :: "string list"
  lr_fetchedAt :: millis

record realtime_state =
  rt_serversById :: "(ident, store_server) jsmap"
  rt_channelsByServer :: "(ident, store_channel list) jsmap"
  rt_membersByServer :: "(ident, store_member list) jsmap"
  rt_membersLoadByServer :: "(ident, load_state) jsmap"
  rt_messagesByChannel :: "(ident, chat_message list) jsmap"
  rt_messagesByThread :: "(ident, chat_message list) jsmap"
  rt_typingByChannel :: "(ident, (ident, millis) jsmap) jsmap"
  rt_voiceStatesByChannel :: "(ident, (ident, voice_state) jsmap) jsmap"
  rt_currentVoice :: "current_voice option"
  rt_isAppFocused :: bool
  rt_activeChannelId :: "ident option"
  rt_activeDmChannelId :: "ident option"
  rt_presenceByUserId :: "(ident, presence) jsmap"
  rt_customStatusByUserId :: "(ident, string option \<times> millis option) jsmap"
  rt_dmChannelsById :: "(ident, dm_channel) jsmap"
  rt_dmFederationRefused :: "(ident, bool) jsmap"
  rt_messagesByDmChannel :: "(ident, chat_message list) jsmap"
  rt_profilesByUserId :: "(ident, loaded_profile) jsmap"
  rt_rolesByServerId :: "(ident, loaded_roles) jsmap"
  rt_composerDraft :: "(ident, string) jsmap"
  rt_pendingMention :: "(ident, string option) jsmap"
  rt_myPermissions :: "(ident, string) jsmap"
  rt_nicknameOverrides :: "(ident, (ident, string option) jsmap) jsmap"
  rt_linkPreviews :: "(ident, string list) jsmap"
  rt_ready :: bool
  rt_draftTimers :: "(ident, millis \<times> string) jsmap"   \<comment> \<open>\<open>draftSyncTimers\<close>: due time and content\<close>
  rt_membersInFlight :: "(ident, nat) jsmap"             \<comment> \<open>\<open>membersInFlight\<close>: number of the promise\<close>
  rt_promises :: nat

definition initial_store :: "bool \<Rightarrow> realtime_state" where
  "initial_store focused = \<lparr>rt_serversById = [], rt_channelsByServer = [], rt_membersByServer = [],
     rt_membersLoadByServer = [], rt_messagesByChannel = [], rt_messagesByThread = [],
     rt_typingByChannel = [], rt_voiceStatesByChannel = [], rt_currentVoice = None,
     rt_isAppFocused = focused, rt_activeChannelId = None, rt_activeDmChannelId = None,
     rt_presenceByUserId = [], rt_customStatusByUserId = [], rt_dmChannelsById = [],
     rt_dmFederationRefused = [], rt_messagesByDmChannel = [], rt_profilesByUserId = [],
     rt_rolesByServerId = [], rt_composerDraft = [], rt_pendingMention = [], rt_myPermissions = [],
     rt_nicknameOverrides = [], rt_linkPreviews = [], rt_ready = False, rt_draftTimers = [],
     rt_membersInFlight = [], rt_promises = 0\<rparr>"

section \<open>Messages\<close>

definition by_id :: "string comparator \<Rightarrow> chat_message comparator" where
  "by_id cmp = key cm_id cmp"

definition sort_messages :: "string comparator \<Rightarrow> chat_message list \<Rightarrow> chat_message list" where
  "sort_messages cmp ms = Sorting_Algorithms.sort (by_id cmp) ms"

fun find_index :: "('a \<Rightarrow> bool) \<Rightarrow> 'a list \<Rightarrow> nat option" where
  "find_index P [] = None"
| "find_index P (x # xs) = (if P x then Some 0 else map_option Suc (find_index P xs))"

definition upsert_in :: "string comparator \<Rightarrow> chat_message \<Rightarrow> chat_message list \<Rightarrow> chat_message list" where
  "upsert_in cmp message ms =
     (case find_index (\<lambda>m. cm_id m = cm_id message) ms of
        Some idx \<Rightarrow> ms[idx := message]
      | None \<Rightarrow> sort_messages cmp (ms @ [message]))"

definition is_null_or_empty :: "ident option \<Rightarrow> bool" where  \<comment> \<open>\<open>!key\<close>\<close>
  "is_null_or_empty k \<longleftrightarrow> k = None \<or> k = Some []"

lemma is_null_simps [simp]: "is_null_or_empty None" "is_null_or_empty (Some k) = (k = [])"
  by (simp_all add: is_null_or_empty_def)

definition setMessages :: "string comparator \<Rightarrow> ident \<Rightarrow> chat_message list \<Rightarrow> realtime_state \<Rightarrow> realtime_state" where
  "setMessages cmp channelId messages s =
     s\<lparr>rt_messagesByChannel := map_set channelId
         (sort_messages cmp (filter (\<lambda>m. is_null_or_empty (cm_threadId m)) messages)) (rt_messagesByChannel s)\<rparr>"

definition upsertMessage :: "string comparator \<Rightarrow> chat_message \<Rightarrow> realtime_state \<Rightarrow> realtime_state" where
  "upsertMessage cmp message s =
     (if is_null_or_empty (cm_channelId message) \<or> \<not> is_null_or_empty (cm_threadId message) then s
      else
        let k = the (cm_channelId message);
            ms = get_or [] (map_get (rt_messagesByChannel s) k)
        in s\<lparr>rt_messagesByChannel := map_set k (upsert_in cmp message ms) (rt_messagesByChannel s)\<rparr>)"

definition removeMessage :: "ident \<Rightarrow> ident \<Rightarrow> realtime_state \<Rightarrow> realtime_state" where
  "removeMessage channelId i s =
     (let ms = get_or [] (map_get (rt_messagesByChannel s) channelId)
      in s\<lparr>rt_messagesByChannel := map_set channelId (filter (\<lambda>m. cm_id m \<noteq> i) ms) (rt_messagesByChannel s)\<rparr>)"

definition setThreadMessages :: "string comparator \<Rightarrow> ident \<Rightarrow> chat_message list \<Rightarrow> realtime_state \<Rightarrow> realtime_state" where
  "setThreadMessages cmp threadId messages s =
     s\<lparr>rt_messagesByThread := map_set threadId (sort_messages cmp messages) (rt_messagesByThread s)\<rparr>"

definition upsertThreadMessage :: "string comparator \<Rightarrow> chat_message \<Rightarrow> realtime_state \<Rightarrow> realtime_state" where
  "upsertThreadMessage cmp message s =
     (if is_null_or_empty (cm_threadId message) then s
      else
        let k = the (cm_threadId message);
            ms = get_or [] (map_get (rt_messagesByThread s) k)
        in s\<lparr>rt_messagesByThread := map_set k (upsert_in cmp message ms) (rt_messagesByThread s)\<rparr>)"

definition removeThreadMessage :: "ident \<Rightarrow> realtime_state \<Rightarrow> realtime_state" where
  "removeThreadMessage i s =
     (let changed = list_ex (\<lambda>(t, ms). length (filter (\<lambda>m. cm_id m \<noteq> i) ms) \<noteq> length ms) (rt_messagesByThread s);
          new = map (\<lambda>(t, ms). (t, filter (\<lambda>m. cm_id m \<noteq> i) ms)) (rt_messagesByThread s)
      in if changed then s\<lparr>rt_messagesByThread := new\<rparr> else s)"

definition setDmMessages :: "string comparator \<Rightarrow> ident \<Rightarrow> chat_message list \<Rightarrow> realtime_state \<Rightarrow> realtime_state" where
  "setDmMessages cmp dmChannelId messages s =
     s\<lparr>rt_messagesByDmChannel := map_set dmChannelId (sort_messages cmp messages) (rt_messagesByDmChannel s)\<rparr>"

definition upsertDmMessage :: "string comparator \<Rightarrow> chat_message \<Rightarrow> realtime_state \<Rightarrow> realtime_state" where
  "upsertDmMessage cmp message s =
     (if is_null_or_empty (cm_dmChannelId message) then s
      else
        let k = the (cm_dmChannelId message);
            ms = get_or [] (map_get (rt_messagesByDmChannel s) k)
        in s\<lparr>rt_messagesByDmChannel := map_set k (upsert_in cmp message ms) (rt_messagesByDmChannel s)\<rparr>)"

definition removeDmMessage :: "ident \<Rightarrow> ident \<Rightarrow> realtime_state \<Rightarrow> realtime_state" where
  "removeDmMessage dmChannelId i s =
     (let ms = get_or [] (map_get (rt_messagesByDmChannel s) dmChannelId)
      in s\<lparr>rt_messagesByDmChannel := map_set dmChannelId (filter (\<lambda>m. cm_id m \<noteq> i) ms) (rt_messagesByDmChannel s)\<rparr>)"

section \<open>Reactions\<close>

datatype reaction_op = ReactionAdd | ReactionRemove

definition patch_reactions :: "reaction_op \<Rightarrow> string \<Rightarrow> bool \<Rightarrow> reaction list \<Rightarrow> reaction list" where
  "patch_reactions op emoji isViewer rs =
     (case op of
        ReactionAdd \<Rightarrow>
          (case find_index (\<lambda>r. rx_emoji r = emoji) rs of
             None \<Rightarrow> rs @ [\<lparr>rx_emoji = emoji, rx_count = 1, rx_me = isViewer\<rparr>]
           | Some idx \<Rightarrow>
               let existing = rs ! idx
               in if isViewer \<and> rx_me existing then rs
                  else rs[idx := \<lparr>rx_emoji = rx_emoji existing, rx_count = rx_count existing + 1,
                                  rx_me = (rx_me existing \<or> isViewer)\<rparr>])
      | ReactionRemove \<Rightarrow>
          (case find_index (\<lambda>r. rx_emoji r = emoji) rs of
             None \<Rightarrow> rs
           | Some idx \<Rightarrow>
               let existing = rs ! idx;
                   nextCount = max 0 (rx_count existing - 1);
                   nextMe = (if isViewer then False else rx_me existing)
               in if nextCount = 0 then take idx rs @ drop (Suc idx) rs
                  else rs[idx := \<lparr>rx_emoji = rx_emoji existing, rx_count = nextCount, rx_me = nextMe\<rparr>]))"

definition patch_message :: "reaction_op \<Rightarrow> string \<Rightarrow> bool \<Rightarrow> chat_message \<Rightarrow> chat_message" where
  "patch_message op emoji isViewer msg =
     msg\<lparr>cm_reactions := patch_reactions op emoji isViewer (cm_reactions msg)\<rparr>"

text \<open>The first list that holds the message is patched, the loop then stops.\<close>

fun patch_first :: "(chat_message \<Rightarrow> chat_message) \<Rightarrow> ident \<Rightarrow> (ident, chat_message list) jsmap \<Rightarrow>
    (ident, chat_message list) jsmap" where
  "patch_first f messageId [] = []"
| "patch_first f messageId ((k, ms) # rest) =
     (case find_index (\<lambda>m. cm_id m = messageId) ms of
        None \<Rightarrow> (k, ms) # patch_first f messageId rest
      | Some idx \<Rightarrow> (k, ms[idx := f (ms ! idx)]) # rest)"

definition applyReaction ::
    "reaction_op \<Rightarrow> ident \<Rightarrow> ident \<Rightarrow> string \<Rightarrow> ident option \<Rightarrow> realtime_state \<Rightarrow> realtime_state" where
  "applyReaction op messageId userId emoji viewerId s =
     (let isViewer = (viewerId = Some userId);
          f = patch_first (patch_message op emoji isViewer) messageId
      in s\<lparr>rt_messagesByChannel := f (rt_messagesByChannel s),
           rt_messagesByThread := f (rt_messagesByThread s),
           rt_messagesByDmChannel := f (rt_messagesByDmChannel s)\<rparr>)"

section \<open>Servers, channels and voice\<close>

definition upsertServer :: "store_server \<Rightarrow> realtime_state \<Rightarrow> realtime_state" where
  "upsertServer server s = s\<lparr>rt_serversById := map_set (ss_id server) server (rt_serversById s)\<rparr>"

definition removeServer :: "ident \<Rightarrow> realtime_state \<Rightarrow> realtime_state" where
  "removeServer serverId s =
     s\<lparr>rt_serversById := map_del serverId (rt_serversById s),
       rt_channelsByServer := map_del serverId (rt_channelsByServer s),
       rt_membersByServer := map_del serverId (rt_membersByServer s),
       rt_membersLoadByServer := map_del serverId (rt_membersLoadByServer s)\<rparr>"

text \<open>\<open>Array.from(new Map(...).values())\<close>: the place of the first, the value of the last.\<close>

definition uniqById :: "('a \<Rightarrow> ident) \<Rightarrow> 'a list \<Rightarrow> 'a list" where
  "uniqById ident_of xs = map snd (fold (\<lambda>x seen. map_set (ident_of x) x seen) xs [])"

definition by_position :: "store_channel comparator" where
  "by_position = key sc_position default"

definition upsertChannel :: "store_channel \<Rightarrow> realtime_state \<Rightarrow> realtime_state" where
  "upsertChannel channel s =
     (let ms = get_or [] (map_get (rt_channelsByServer s) (sc_serverId channel));
          new = Sorting_Algorithms.sort by_position (uniqById sc_id (channel # ms))
      in s\<lparr>rt_channelsByServer := map_set (sc_serverId channel) new (rt_channelsByServer s)\<rparr>)"

definition voiceStateMapsEqual ::
    "(ident, voice_state) jsmap option \<Rightarrow> (ident, voice_state) jsmap \<Rightarrow> bool" where
  "voiceStateMapsEqual a b \<longleftrightarrow>
     length (get_or [] a) = length b \<and>
     list_all (\<lambda>(k, _). case (map_get (get_or [] a) k, map_get b k) of
                          (Some l, Some r) \<Rightarrow> l = r
                        | _ \<Rightarrow> False) b"

definition channel_voice_map :: "store_channel \<Rightarrow> voice_state list \<Rightarrow> (ident, voice_state) jsmap" where
  "channel_voice_map channel states =
     fold (\<lambda>st m. if vs_channelId st = Some (sc_id channel) then map_set (vs_userId st) st m else m) states []"

definition upsertChannels :: "ident \<Rightarrow> store_channel list \<Rightarrow> realtime_state \<Rightarrow> realtime_state" where
  "upsertChannels serverId channels s =
     (let voice = fold (\<lambda>channel voice.
            (case sc_voiceStates channel of
               None \<Rightarrow> voice
             | Some states \<Rightarrow>
                 let nextByUser = channel_voice_map channel states
                 in if voiceStateMapsEqual (map_get voice (sc_id channel)) nextByUser then voice
                    else map_set (sc_id channel) nextByUser voice)) channels (rt_voiceStatesByChannel s)
      in s\<lparr>rt_channelsByServer :=
             map_set serverId (Sorting_Algorithms.sort by_position channels) (rt_channelsByServer s),
           rt_voiceStatesByChannel := voice\<rparr>)"

definition removeChannel :: "ident \<Rightarrow> ident option \<Rightarrow> realtime_state \<Rightarrow> realtime_state" where
  "removeChannel channelId serverId s =
     (let candidates = (if is_null_or_empty serverId then rt_channelsByServer s
            else [(the serverId, get_or [] (map_get (rt_channelsByServer s) (the serverId)))]);
          new = fold (\<lambda>(sid, ms) m. map_set sid (filter (\<lambda>c. sc_id c \<noteq> channelId) ms) m)
                  candidates (rt_channelsByServer s)
      in s\<lparr>rt_channelsByServer := new\<rparr>)"

definition applyVoiceState :: "voice_state \<Rightarrow> realtime_state \<Rightarrow> realtime_state" where
  "applyVoiceState state s =
     (let evicted = map (\<lambda>(chId, byUser). (chId, map_del (vs_userId state) byUser)) (rt_voiceStatesByChannel s)
      in case vs_channelId state of
           None \<Rightarrow> s\<lparr>rt_voiceStatesByChannel := evicted\<rparr>
         | Some channelId \<Rightarrow>
             let byUser = get_or [] (map_get evicted channelId)
             in s\<lparr>rt_voiceStatesByChannel :=
                    map_set channelId (map_set (vs_userId state) state byUser) evicted\<rparr>)"

section \<open>Simple slices\<close>

definition setReady :: "bool \<Rightarrow> realtime_state \<Rightarrow> realtime_state" where
  "setReady r s = s\<lparr>rt_ready := r\<rparr>"

definition setCurrentVoice :: "current_voice option \<Rightarrow> realtime_state \<Rightarrow> realtime_state" where
  "setCurrentVoice voice s = s\<lparr>rt_currentVoice := voice\<rparr>"

definition setAppFocused :: "bool \<Rightarrow> realtime_state \<Rightarrow> realtime_state" where
  "setAppFocused focused s = s\<lparr>rt_isAppFocused := focused\<rparr>"

definition setActiveChannelId :: "ident option \<Rightarrow> realtime_state \<Rightarrow> realtime_state" where
  "setActiveChannelId c s = s\<lparr>rt_activeChannelId := c\<rparr>"

definition setActiveDmChannelId :: "ident option \<Rightarrow> realtime_state \<Rightarrow> realtime_state" where
  "setActiveDmChannelId c s = s\<lparr>rt_activeDmChannelId := c\<rparr>"

definition merge_entries :: "('k, 'v) jsmap \<Rightarrow> ('k, 'v) jsmap \<Rightarrow> ('k, 'v) jsmap" where  \<comment> \<open>\<open>{...m, ...entries}\<close>\<close>
  "merge_entries m entries = fold (\<lambda>(k, v). map_set k v) entries m"

definition setPresence :: "ident \<Rightarrow> presence \<Rightarrow> realtime_state \<Rightarrow> realtime_state" where
  "setPresence userId p s = s\<lparr>rt_presenceByUserId := map_set userId p (rt_presenceByUserId s)\<rparr>"

definition setPresences :: "(ident, presence) jsmap \<Rightarrow> realtime_state \<Rightarrow> realtime_state" where
  "setPresences entries s = s\<lparr>rt_presenceByUserId := merge_entries (rt_presenceByUserId s) entries\<rparr>"

definition store_setCustomStatus :: "ident \<Rightarrow> string option \<Rightarrow> millis option \<Rightarrow> realtime_state \<Rightarrow> realtime_state" where
  "store_setCustomStatus userId status expiresAt s =
     s\<lparr>rt_customStatusByUserId := map_set userId (status, expiresAt) (rt_customStatusByUserId s)\<rparr>"

definition upsertDmChannel :: "dm_channel \<Rightarrow> realtime_state \<Rightarrow> realtime_state" where
  "upsertDmChannel channel s = s\<lparr>rt_dmChannelsById := map_set (dc_id channel) channel (rt_dmChannelsById s)\<rparr>"

definition removeDmChannel :: "ident \<Rightarrow> realtime_state \<Rightarrow> realtime_state" where
  "removeDmChannel channelId s =
     s\<lparr>rt_dmChannelsById := map_del channelId (rt_dmChannelsById s),
       rt_messagesByDmChannel := map_del channelId (rt_messagesByDmChannel s),
       rt_dmFederationRefused := map_del channelId (rt_dmFederationRefused s)\<rparr>"

definition setDmFederationRefused :: "ident \<Rightarrow> realtime_state \<Rightarrow> realtime_state" where
  "setDmFederationRefused dmChannelId s =
     s\<lparr>rt_dmFederationRefused := map_set dmChannelId True (rt_dmFederationRefused s)\<rparr>"

definition noteTyping :: "ident \<Rightarrow> ident \<Rightarrow> millis \<Rightarrow> realtime_state \<Rightarrow> realtime_state" where
  "noteTyping channelId userId ts s =
     s\<lparr>rt_typingByChannel := map_set channelId
         (map_set userId ts (get_or [] (map_get (rt_typingByChannel s) channelId))) (rt_typingByChannel s)\<rparr>"

definition expireTyping :: "ident \<Rightarrow> millis \<Rightarrow> realtime_state \<Rightarrow> realtime_state" where
  "expireTyping channelId before s =
     s\<lparr>rt_typingByChannel := map_set channelId
         (filter (\<lambda>(uid, ts). ts \<ge> before) (get_or [] (map_get (rt_typingByChannel s) channelId)))
         (rt_typingByChannel s)\<rparr>"

definition queueMention :: "ident \<Rightarrow> string \<Rightarrow> realtime_state \<Rightarrow> realtime_state" where
  "queueMention channelId displayName s =
     s\<lparr>rt_pendingMention := map_set channelId (Some displayName) (rt_pendingMention s)\<rparr>"

definition clearPendingMention :: "ident \<Rightarrow> realtime_state \<Rightarrow> realtime_state" where
  "clearPendingMention channelId s = s\<lparr>rt_pendingMention := map_set channelId None (rt_pendingMention s)\<rparr>"

definition setLinkPreviews :: "ident \<Rightarrow> string list \<Rightarrow> realtime_state \<Rightarrow> realtime_state" where
  "setLinkPreviews messageId previews s = s\<lparr>rt_linkPreviews := map_set messageId previews (rt_linkPreviews s)\<rparr>"

definition setMemberNickname :: "ident \<Rightarrow> ident \<Rightarrow> string option \<Rightarrow> realtime_state \<Rightarrow> realtime_state" where
  "setMemberNickname serverId userId nickname s =
     s\<lparr>rt_nicknameOverrides := map_set serverId
         (map_set userId nickname (get_or [] (map_get (rt_nicknameOverrides s) serverId)))
         (rt_nicknameOverrides s)\<rparr>"

definition removeMember :: "ident \<Rightarrow> ident \<Rightarrow> realtime_state \<Rightarrow> realtime_state" where
  "removeMember serverId userId s =
     (case map_get (rt_membersByServer s) serverId of
        None \<Rightarrow> s
      | Some ms \<Rightarrow>
          (case find_index (\<lambda>m. sm_userId m = userId) ms of
             None \<Rightarrow> s
           | Some idx \<Rightarrow>
               s\<lparr>rt_membersByServer := map_set serverId (take idx ms @ drop (Suc idx) ms) (rt_membersByServer s)\<rparr>))"

section \<open>Drafts\<close>

definition DRAFT_SYNC_DEBOUNCE_MS :: millis where "DRAFT_SYNC_DEBOUNCE_MS = 1200"

datatype draft_call = DeleteDraft ident | PutDraft ident string

definition scheduleDraftSync :: "millis \<Rightarrow> ident \<Rightarrow> string \<Rightarrow> realtime_state \<Rightarrow> realtime_state" where
  "scheduleDraftSync now channelId content s =
     s\<lparr>rt_draftTimers := map_set channelId (now + DRAFT_SYNC_DEBOUNCE_MS, content) (rt_draftTimers s)\<rparr>"

definition draft_timer :: "ident \<Rightarrow> realtime_state \<Rightarrow> draft_call option \<times> realtime_state" where
  "draft_timer channelId s =
     (case map_get (rt_draftTimers s) channelId of
        None \<Rightarrow> (None, s)
      | Some (due, content) \<Rightarrow>
          (Some (if length content = 0 then DeleteDraft channelId else PutDraft channelId content),
           s\<lparr>rt_draftTimers := map_del channelId (rt_draftTimers s)\<rparr>))"

definition setComposerDraft :: "millis \<Rightarrow> ident \<Rightarrow> string \<Rightarrow> realtime_state \<Rightarrow> realtime_state" where
  "setComposerDraft now channelId draft s =
     (let s = scheduleDraftSync now channelId draft s
      in s\<lparr>rt_composerDraft := map_set channelId draft (rt_composerDraft s)\<rparr>)"

definition clearComposerDraft :: "millis \<Rightarrow> ident \<Rightarrow> realtime_state \<Rightarrow> realtime_state" where
  "clearComposerDraft now channelId s =
     scheduleDraftSync now channelId '''' (s\<lparr>rt_composerDraft := map_del channelId (rt_composerDraft s)\<rparr>)"

text \<open>The reply of a load: \<^const>\<open>None\<close> when the request fails.\<close>

definition loadDrafts :: "(ident \<times> string) list option \<Rightarrow> realtime_state \<Rightarrow> realtime_state" where
  "loadDrafts rows s =
     (case rows of
        None \<Rightarrow> s
      | Some rows \<Rightarrow>
          s\<lparr>rt_composerDraft := fold (\<lambda>(c, content) m. if content \<noteq> [] then map_set c content m else m) rows []\<rparr>)"

section \<open>Loads\<close>

definition PROFILE_TTL_MS :: millis where "PROFILE_TTL_MS = 5 * 60 * 1000"
definition ROLES_TTL_MS :: millis where "ROLES_TTL_MS = 5 * 60 * 1000"

definition setProfile :: "millis \<Rightarrow> ident \<Rightarrow> profile \<Rightarrow> realtime_state \<Rightarrow> realtime_state" where
  "setProfile now userId p s = s\<lparr>rt_profilesByUserId := map_set userId (ProfileLoaded p now) (rt_profilesByUserId s)\<rparr>"

definition mergeProfileOverlay :: "ident \<Rightarrow> profile \<Rightarrow> realtime_state \<Rightarrow> realtime_state" where
  "mergeProfileOverlay userId overlay s =
     (case map_get (rt_profilesByUserId s) userId of
        Some (ProfileLoaded p t) \<Rightarrow>
          s\<lparr>rt_profilesByUserId := map_set userId (ProfileLoaded (merge_entries p overlay) t) (rt_profilesByUserId s)\<rparr>
      | _ \<Rightarrow> s)"

definition loadProfile_start :: "millis \<Rightarrow> bool \<Rightarrow> ident \<Rightarrow> realtime_state \<Rightarrow> bool \<times> realtime_state" where
  "loadProfile_start now force userId s =
     (let cached = map_get (rt_profilesByUserId s) userId
      in if \<not> force \<and> (case cached of Some (ProfileLoaded p t) \<Rightarrow> now - t < PROFILE_TTL_MS | _ \<Rightarrow> False) then (False, s)
         else if \<not> force \<and> (case cached of Some (ProfileLoading t) \<Rightarrow> True | _ \<Rightarrow> False) then (False, s)
         else (True, s\<lparr>rt_profilesByUserId := map_set userId (ProfileLoading now) (rt_profilesByUserId s)\<rparr>))"

datatype profile_reply = GotProfile profile | ApiFailure int string | OtherFailure

definition loadProfile_done :: "millis \<Rightarrow> ident \<Rightarrow> profile_reply \<Rightarrow> realtime_state \<Rightarrow> realtime_state" where
  "loadProfile_done now userId reply s =
     (let entry = (case reply of
            GotProfile p \<Rightarrow> ProfileLoaded p now
          | ApiFailure status message \<Rightarrow>
              if status = 404 then ProfileUnavailable now else ProfileError now message
          | OtherFailure \<Rightarrow> ProfileError now ''Could not load profile.'')
      in s\<lparr>rt_profilesByUserId := map_set userId entry (rt_profilesByUserId s)\<rparr>)"

definition cached_roles :: "ident \<Rightarrow> realtime_state \<Rightarrow> string list" where
  "cached_roles serverId s = get_or [] (map_option lr_roles (map_get (rt_rolesByServerId s) serverId))"

definition loadRoles_start :: "millis \<Rightarrow> bool \<Rightarrow> ident \<Rightarrow> realtime_state \<Rightarrow> bool \<times> realtime_state" where
  "loadRoles_start now force serverId s =
     (let cached = map_get (rt_rolesByServerId s) serverId
      in if \<not> force \<and> (case cached of Some c \<Rightarrow> lr_state c = Loaded \<and> now - lr_fetchedAt c < ROLES_TTL_MS | None \<Rightarrow> False)
         then (False, s)
         else if \<not> force \<and> (case cached of Some c \<Rightarrow> lr_state c = Loading | None \<Rightarrow> False) then (False, s)
         else (True, s\<lparr>rt_rolesByServerId := map_set serverId
                 \<lparr>lr_state = Loading, lr_roles = cached_roles serverId s, lr_fetchedAt = now\<rparr>
                 (rt_rolesByServerId s)\<rparr>))"

text \<open>\<open>stale\<close> is the role list cached when the load began.\<close>

definition loadRoles_done :: "millis \<Rightarrow> ident \<Rightarrow> string list \<Rightarrow> string list option \<Rightarrow> realtime_state \<Rightarrow> realtime_state" where
  "loadRoles_done now serverId stale reply s =
     s\<lparr>rt_rolesByServerId := map_set serverId
         (case reply of
            Some roles \<Rightarrow> \<lparr>lr_state = Loaded, lr_roles = roles, lr_fetchedAt = now\<rparr>
          | None \<Rightarrow> \<lparr>lr_state = LoadError, lr_roles = stale, lr_fetchedAt = now\<rparr>) (rt_rolesByServerId s)\<rparr>"

text \<open>
  \<open>ensureMembers\<close>: nothing to do, join the promise in flight, or start promise \<open>n\<close> (after the
  one in flight, if there is one).
\<close>

datatype members_action = MembersCached | MembersJoin nat | MembersFetch nat "nat option"

definition ensureMembers_start :: "bool \<Rightarrow> ident \<Rightarrow> realtime_state \<Rightarrow> members_action \<times> realtime_state" where
  "ensureMembers_start force serverId s =
     (if \<not> force \<and> map_get (rt_membersLoadByServer s) serverId = Some Loaded then (MembersCached, s)
      else case map_get (rt_membersInFlight s) serverId of
        Some p \<Rightarrow>
          if \<not> force then (MembersJoin p, s)
          else (MembersFetch (rt_promises s) (Some p),
                s\<lparr>rt_membersLoadByServer := map_set serverId Loading (rt_membersLoadByServer s),
                  rt_membersInFlight := map_set serverId (rt_promises s) (rt_membersInFlight s),
                  rt_promises := rt_promises s + 1\<rparr>)
      | None \<Rightarrow>
          (MembersFetch (rt_promises s) None,
           s\<lparr>rt_membersLoadByServer := map_set serverId Loading (rt_membersLoadByServer s),
             rt_membersInFlight := map_set serverId (rt_promises s) (rt_membersInFlight s),
             rt_promises := rt_promises s + 1\<rparr>))"

definition ensureMembers_reply :: "ident \<Rightarrow> store_member list option \<Rightarrow> realtime_state \<Rightarrow> realtime_state" where
  "ensureMembers_reply serverId reply s =
     (case reply of
        Some ms \<Rightarrow>
          let entries = fold (\<lambda>m. map_set (sm_userId m) (sm_presence m)) ms []
          in s\<lparr>rt_membersByServer := map_set serverId ms (rt_membersByServer s),
               rt_membersLoadByServer := map_set serverId Loaded (rt_membersLoadByServer s),
               rt_presenceByUserId := merge_entries (rt_presenceByUserId s) entries\<rparr>
      | None \<Rightarrow> s\<lparr>rt_membersLoadByServer := map_set serverId LoadError (rt_membersLoadByServer s)\<rparr>)"

definition ensureMembers_settled :: "ident \<Rightarrow> nat \<Rightarrow> realtime_state \<Rightarrow> realtime_state" where
  "ensureMembers_settled serverId promise s =
     (if map_get (rt_membersInFlight s) serverId = Some promise
      then s\<lparr>rt_membersInFlight := map_del serverId (rt_membersInFlight s)\<rparr> else s)"

definition loadMyServerPermissions_start :: "bool \<Rightarrow> ident \<Rightarrow> realtime_state \<Rightarrow> bool" where
  "loadMyServerPermissions_start force serverId s \<longleftrightarrow>
     \<not> (\<not> force \<and> map_get (rt_myPermissions s) serverId \<noteq> None)"

definition loadMyServerPermissions_done :: "ident \<Rightarrow> string option \<Rightarrow> realtime_state \<Rightarrow> realtime_state" where
  "loadMyServerPermissions_done serverId reply s =
     s\<lparr>rt_myPermissions := map_set serverId (get_or ''0'' reply) (rt_myPermissions s)\<rparr>"

section \<open>Selectors\<close>

definition useVoiceStatesForChannel :: "ident option \<Rightarrow> realtime_state \<Rightarrow> (ident, voice_state) jsmap" where
  "useVoiceStatesForChannel channelId s =
     (if is_null_or_empty channelId then [] else get_or [] (map_get (rt_voiceStatesByChannel s) (the channelId)))"

text \<open>A permission string that does not parse makes the selector throw: \<^const>\<open>None\<close>.\<close>

definition useCanIn :: "ident option \<Rightarrow> int \<Rightarrow> realtime_state \<Rightarrow> bool option" where
  "useCanIn serverId flag s =
     (if is_null_or_empty serverId then Some False
      else case map_get (rt_myPermissions s) (the serverId) of
             None \<Rightarrow> Some False
           | Some cached \<Rightarrow>
               (case parsePermissions (PText cached) of
                  None \<Rightarrow> None
                | Some perms \<Rightarrow>
                    Some (if perms AND Permission ADMINISTRATOR = Permission ADMINISTRATOR then True
                          else perms AND flag = flag)))"

definition useAnyScreenSharing :: "ident option \<Rightarrow> realtime_state \<Rightarrow> bool" where
  "useAnyScreenSharing channelId s =
     (if is_null_or_empty channelId then False
      else case map_get (rt_voiceStatesByChannel s) (the channelId) of
             None \<Rightarrow> False
           | Some byUser \<Rightarrow> list_ex (\<lambda>(k, st). vs_screenSharing st) byUser)"

section \<open>Message lists\<close>

definition list_ok :: "string comparator \<Rightarrow> chat_message list \<Rightarrow> bool" where
  "list_ok cmp ms \<longleftrightarrow> Sorting_Algorithms.sorted (by_id cmp) ms \<and> distinct (map cm_id ms)"

lemma find_index_Some:
  "find_index P xs = Some i \<Longrightarrow> i < length xs \<and> P (xs ! i)"
  by (induction xs arbitrary: i) (auto split: if_splits)

lemma find_index_None: "find_index P xs = None \<longleftrightarrow> (\<forall>x \<in> set xs. \<not> P x)"
  by (induction xs) auto

lemma sorted_by_id_cong:
  "map cm_id xs = map cm_id ys \<Longrightarrow>
   Sorting_Algorithms.sorted (by_id cmp) xs = Sorting_Algorithms.sorted (by_id cmp) ys"
proof (induction xs arbitrary: ys rule: induct_list012)
  case 1
  then show ?case by simp
next
  case (2 x)
  then show ?case by (cases ys) auto
next
  case (3 x y zs)
  then obtain x' y' zs' where "ys = x' # y' # zs'" "cm_id x' = cm_id x" "cm_id y' = cm_id y" "map cm_id zs' = map cm_id zs"
    by (cases ys; cases "tl ys") auto
  then show ?case using "3.IH"(2) [of "y' # zs'"] by (simp add: by_id_def)
qed

lemma list_ok_ids: "map cm_id xs = map cm_id ys \<Longrightarrow> list_ok cmp xs = list_ok cmp ys"
  by (simp add: list_ok_def sorted_by_id_cong [of xs ys])

lemma set_sort_messages [simp]: "set (sort_messages cmp ms) = set ms"
  unfolding sort_messages_def by (metis mset_sort set_mset_mset)

lemma list_ok_sort: "distinct (map cm_id ms) \<Longrightarrow> list_ok cmp (sort_messages cmp ms)"
proof -
  assume d: "distinct (map cm_id ms)"
  have "mset (map cm_id (sort_messages cmp ms)) = image_mset cm_id (mset (sort_messages cmp ms))"
    by simp
  also have "\<dots> = mset (map cm_id ms)"
    by (simp add: sort_messages_def)
  finally have "distinct (map cm_id (sort_messages cmp ms))"
    using d mset_eq_imp_distinct_iff by blast
  then show ?thesis
    by (simp add: list_ok_def sort_messages_def)
qed

lemma sorted_filter_by_id:
  "Sorting_Algorithms.sorted cmp xs \<Longrightarrow> Sorting_Algorithms.sorted cmp (filter P xs)"
proof (induction xs)
  case (Cons x xs)
  have xs: "Sorting_Algorithms.sorted cmp (filter P xs)"
    using Cons.IH sorted_Cons_imp_sorted [OF Cons.prems] by simp
  have "compare cmp x y \<noteq> Greater" if "y \<in> set (filter P xs)" for y
  proof -
    have "Sorting_Algorithms.sorted cmp ([x] @ xs)" using Cons.prems by simp
    then show ?thesis using that unfolding sorted_append_iff by auto
  qed
  then have "Sorting_Algorithms.sorted cmp ([x] @ filter P xs)"
    unfolding sorted_append_iff using xs by simp
  then show ?case using xs by simp
qed simp

lemma list_ok_filter: "list_ok cmp ms \<Longrightarrow> list_ok cmp (filter P ms)"
  by (simp add: list_ok_def sorted_filter_by_id distinct_map_filter)

lemma list_ok_Nil [simp]: "list_ok cmp []"
  by (simp add: list_ok_def)

lemma upsert_in_ok:
  assumes "list_ok cmp ms"
  shows "list_ok cmp (upsert_in cmp m ms) \<and> m \<in> set (upsert_in cmp m ms) \<and>
    (\<forall>x. cm_id x \<noteq> cm_id m \<longrightarrow> (x \<in> set (upsert_in cmp m ms) \<longleftrightarrow> x \<in> set ms))"
proof (cases "find_index (\<lambda>x. cm_id x = cm_id m) ms")
  case None
  then have "\<forall>x \<in> set ms. cm_id x \<noteq> cm_id m"
    by (simp add: find_index_None)
  then have "distinct (map cm_id (ms @ [m]))"
    using assms by (auto simp: list_ok_def)
  then show ?thesis
    using None list_ok_sort [of "ms @ [m]" cmp] by (auto simp: upsert_in_def)
next
  case (Some i)
  then have i: "i < length ms" "cm_id (ms ! i) = cm_id m"
    using find_index_Some by blast+
  have ids: "map cm_id (ms[i := m]) = map cm_id ms"
    using i by (simp add: map_update) (metis i list_update_id length_map nth_map)
  have d: "distinct ms"
    using assms distinct_map by (auto simp: list_ok_def)
  have "x \<in> set (ms[i := m]) \<longleftrightarrow> x \<in> set ms" if "cm_id x \<noteq> cm_id m" for x
    using that i d by (auto simp: set_update_distinct)
  then show ?thesis
    using Some i list_ok_ids [OF ids, of cmp] assms by (auto simp: upsert_in_def set_update_memI)
qed

text \<open>
  The three message slices of the store share this contract: a map of lists, a loader that sorts
  what it is given, and an upsert into the list its message belongs to.
\<close>

locale message_slice =
  fixes lists :: "'s \<Rightarrow> (ident, chat_message list) jsmap"
    and slot :: "chat_message \<Rightarrow> ident option"
    and upsert :: "chat_message \<Rightarrow> 's \<Rightarrow> 's"
    and load :: "ident \<Rightarrow> chat_message list \<Rightarrow> 's \<Rightarrow> 's"
    and keep :: "chat_message \<Rightarrow> bool"
    and cmp :: "string comparator"
  assumes lists_upsert: "slot m = Some k \<Longrightarrow>
      lists (upsert m s) = map_set k (upsert_in cmp m (get_or [] (map_get (lists s) k))) (lists s)"
    and lists_upsert_none: "slot m = None \<Longrightarrow> lists (upsert m s) = lists s"
    and lists_load: "lists (load k ms s) = map_set k (sort_messages cmp (filter keep ms)) (lists s)"
begin

definition slice_ok :: "'s \<Rightarrow> bool" where
  "slice_ok s \<longleftrightarrow> (\<forall>k ms. map_get (lists s) k = Some ms \<longrightarrow> list_ok cmp ms)"

lemma upsert_ok: "slice_ok s \<Longrightarrow> slice_ok (upsert m s)"
proof (cases "slot m")
  case (Some k)
  assume s: "slice_ok s"
  then have "list_ok cmp (get_or [] (map_get (lists s) k))"
    by (cases "map_get (lists s) k") (auto simp: slice_ok_def)
  then show ?thesis
    using s upsert_in_ok by (auto simp: slice_ok_def lists_upsert [OF Some])
qed (simp add: slice_ok_def lists_upsert_none)

lemma load_ok: "slice_ok s \<Longrightarrow> distinct (map cm_id ms) \<Longrightarrow> slice_ok (load k ms s)"
  by (auto simp: slice_ok_def lists_load list_ok_sort distinct_map_filter)

lemma upsert_stores:
  assumes "slice_ok s" and "slot m = Some k"
  shows "m \<in> set (get_or [] (map_get (lists (upsert m s)) k))"
proof -
  have "list_ok cmp (get_or [] (map_get (lists s) k))"
    using assms(1) by (cases "map_get (lists s) k") (auto simp: slice_ok_def)
  then show ?thesis
    using upsert_in_ok by (simp add: lists_upsert [OF assms(2)])
qed

end

definition channel_slot :: "chat_message \<Rightarrow> ident option" where
  "channel_slot m = (if is_null_or_empty (cm_channelId m) \<or> \<not> is_null_or_empty (cm_threadId m)
     then None else cm_channelId m)"

definition thread_slot :: "chat_message \<Rightarrow> ident option" where
  "thread_slot m = (if is_null_or_empty (cm_threadId m) then None else cm_threadId m)"

definition dm_slot :: "chat_message \<Rightarrow> ident option" where
  "dm_slot m = (if is_null_or_empty (cm_dmChannelId m) then None else cm_dmChannelId m)"

interpretation channels: message_slice rt_messagesByChannel channel_slot "upsertMessage cmp" "setMessages cmp"
    "\<lambda>m. is_null_or_empty (cm_threadId m)" cmp for cmp
  by unfold_locales
    (auto simp: channel_slot_def upsertMessage_def setMessages_def Let_def split: if_splits)

interpretation threads: message_slice rt_messagesByThread thread_slot "upsertThreadMessage cmp" "setThreadMessages cmp"
    "\<lambda>m. True" cmp for cmp
  by unfold_locales
    (auto simp: thread_slot_def upsertThreadMessage_def setThreadMessages_def Let_def split: if_splits)

interpretation dms: message_slice rt_messagesByDmChannel dm_slot "upsertDmMessage cmp" "setDmMessages cmp"
    "\<lambda>m. True" cmp for cmp
  by unfold_locales
    (auto simp: dm_slot_def upsertDmMessage_def setDmMessages_def Let_def split: if_splits)

section \<open>Runs over the message slices\<close>

datatype msg_op =
    LoadChannel ident "chat_message list" | Upsert chat_message | Remove ident ident
  | LoadThread ident "chat_message list" | UpsertThread chat_message | RemoveThread ident
  | LoadDm ident "chat_message list" | UpsertDm chat_message | RemoveDm ident ident
  | React reaction_op ident ident string "ident option"

definition msg_step :: "string comparator \<Rightarrow> realtime_state \<Rightarrow> msg_op \<Rightarrow> realtime_state" where
  "msg_step cmp s e = (case e of
      LoadChannel c ms \<Rightarrow> setMessages cmp c ms s
    | Upsert m \<Rightarrow> upsertMessage cmp m s
    | Remove c i \<Rightarrow> removeMessage c i s
    | LoadThread t ms \<Rightarrow> setThreadMessages cmp t ms s
    | UpsertThread m \<Rightarrow> upsertThreadMessage cmp m s
    | RemoveThread i \<Rightarrow> removeThreadMessage i s
    | LoadDm c ms \<Rightarrow> setDmMessages cmp c ms s
    | UpsertDm m \<Rightarrow> upsertDmMessage cmp m s
    | RemoveDm c i \<Rightarrow> removeDmMessage c i s
    | React r m u emoji viewer \<Rightarrow> applyReaction r m u emoji viewer s)"

definition no_duplicates :: "msg_op \<Rightarrow> bool" where
  "no_duplicates e = (case e of
      LoadChannel c ms \<Rightarrow> distinct (map cm_id ms)
    | LoadThread t ms \<Rightarrow> distinct (map cm_id ms)
    | LoadDm c ms \<Rightarrow> distinct (map cm_id ms)
    | _ \<Rightarrow> True)"

definition store_ok :: "string comparator \<Rightarrow> realtime_state \<Rightarrow> bool" where
  "store_ok cmp s \<longleftrightarrow> channels.slice_ok cmp s \<and> threads.slice_ok cmp s \<and> dms.slice_ok cmp s"

lemmas slice_ok_defs = channels.slice_ok_def threads.slice_ok_def dms.slice_ok_def

lemma slice_frames:
  "rt_messagesByThread (upsertMessage cmp m s) = rt_messagesByThread s"
  "rt_messagesByDmChannel (upsertMessage cmp m s) = rt_messagesByDmChannel s"
  "rt_messagesByChannel (upsertThreadMessage cmp m s) = rt_messagesByChannel s"
  "rt_messagesByDmChannel (upsertThreadMessage cmp m s) = rt_messagesByDmChannel s"
  "rt_messagesByChannel (upsertDmMessage cmp m s) = rt_messagesByChannel s"
  "rt_messagesByThread (upsertDmMessage cmp m s) = rt_messagesByThread s"
  by (simp_all add: upsertMessage_def upsertThreadMessage_def upsertDmMessage_def Let_def)

lemma patch_first_ok:
  assumes "\<And>m. cm_id (f m) = cm_id m" and "map_get (patch_first f i ml) k = Some ms"
  shows "\<exists>ms'. map_get ml k = Some ms' \<and> map cm_id ms = map cm_id ms'"
  using assms(2)
proof (induction ml)
  case (Cons p ml)
  obtain k' l where p: "p = (k', l)" by force
  have ids: "map cm_id (l[idx := f (l ! idx)]) = map cm_id l" if "idx < length l" for idx
    using that assms(1) by (simp add: map_update) (metis length_map list_update_id nth_map)
  show ?case
    using Cons p ids by (auto split: if_splits option.splits dest: find_index_Some)
qed simp

lemma applyReaction_ok: "store_ok cmp s \<Longrightarrow> store_ok cmp (applyReaction r m u emoji viewer s)"
proof -
  assume s: "store_ok cmp s"
  have id: "cm_id (patch_message r emoji b x) = cm_id x" for b x
    by (simp add: patch_message_def)
  have P: "\<forall>k ms. map_get (patch_first (patch_message r emoji b) m ml) k = Some ms \<longrightarrow> list_ok cmp ms"
    if "\<forall>k ms. map_get ml k = Some ms \<longrightarrow> list_ok cmp ms" for b ml
    using that patch_first_ok [where f = "patch_message r emoji b", OF id] list_ok_ids by blast
  have c: "\<forall>k ms. map_get (rt_messagesByChannel s) k = Some ms \<longrightarrow> list_ok cmp ms"
    and t: "\<forall>k ms. map_get (rt_messagesByThread s) k = Some ms \<longrightarrow> list_ok cmp ms"
    and d: "\<forall>k ms. map_get (rt_messagesByDmChannel s) k = Some ms \<longrightarrow> list_ok cmp ms"
    using s unfolding store_ok_def slice_ok_defs by blast+
  show ?thesis
    unfolding store_ok_def slice_ok_defs applyReaction_def Let_def
    using P [OF c] P [OF t] P [OF d] by simp
qed

lemma map_get_filtered:
  "map_get (map (\<lambda>(t, ms). (t, filter P ms)) m) k = map_option (filter P) (map_get m k)"
  by (induction m) auto

lemma remove_ok:
  assumes "store_ok cmp s"
  shows "store_ok cmp (removeMessage c i s)" "store_ok cmp (removeDmMessage c i s)"
    "store_ok cmp (removeThreadMessage i s)"
proof -
  have "list_ok cmp (filter P (get_or [] (map_get m k)))"
    if "\<forall>k ms. map_get m k = Some ms \<longrightarrow> list_ok cmp ms" for P m k
    using that by (cases "map_get m k") (auto simp: list_ok_filter)
  then show "store_ok cmp (removeMessage c i s)" "store_ok cmp (removeDmMessage c i s)"
    using assms by (auto simp: store_ok_def slice_ok_defs removeMessage_def removeDmMessage_def Let_def)
  show "store_ok cmp (removeThreadMessage i s)"
    using assms
    by (auto simp: store_ok_def slice_ok_defs removeThreadMessage_def Let_def map_get_filtered list_ok_filter)
qed

lemma msg_step_ok:
  assumes "store_ok cmp s" and "no_duplicates e"
  shows "store_ok cmp (msg_step cmp s e)"
proof (cases e)
  case (LoadChannel c ms)
  have "channels.slice_ok cmp (setMessages cmp c ms s)"
    using assms LoadChannel by (intro channels.load_ok) (auto simp: store_ok_def no_duplicates_def)
  then show ?thesis
    using assms LoadChannel by (simp add: msg_step_def store_ok_def slice_ok_defs setMessages_def)
next
  case (LoadThread t ms)
  have "threads.slice_ok cmp (setThreadMessages cmp t ms s)"
    using assms LoadThread by (intro threads.load_ok) (auto simp: store_ok_def no_duplicates_def)
  then show ?thesis
    using assms LoadThread by (simp add: msg_step_def store_ok_def slice_ok_defs setThreadMessages_def)
next
  case (LoadDm c ms)
  have "dms.slice_ok cmp (setDmMessages cmp c ms s)"
    using assms LoadDm by (intro dms.load_ok) (auto simp: store_ok_def no_duplicates_def)
  then show ?thesis
    using assms LoadDm by (simp add: msg_step_def store_ok_def slice_ok_defs setDmMessages_def)
next
  case (Upsert m)
  then show ?thesis
    using assms channels.upsert_ok [of cmp s m]
    by (simp add: msg_step_def store_ok_def threads.slice_ok_def dms.slice_ok_def slice_frames)
next
  case (UpsertThread m)
  then show ?thesis
    using assms threads.upsert_ok [of cmp s m]
    by (simp add: msg_step_def store_ok_def channels.slice_ok_def dms.slice_ok_def slice_frames)
next
  case (UpsertDm m)
  then show ?thesis
    using assms dms.upsert_ok [of cmp s m]
    by (simp add: msg_step_def store_ok_def channels.slice_ok_def threads.slice_ok_def slice_frames)
qed (use assms in \<open>simp_all add: msg_step_def remove_ok applyReaction_ok\<close>)

lemma msg_run_ok:
  "store_ok cmp s \<Longrightarrow> list_all no_duplicates ops \<Longrightarrow> store_ok cmp (foldl (msg_step cmp) s ops)"
  by (induction ops arbitrary: s) (auto simp: msg_step_ok)

lemma initial_ok: "store_ok cmp (initial_store b)"
  by (simp add: store_ok_def slice_ok_defs initial_store_def)


definition sample_message :: "ident \<Rightarrow> chat_message" where
  "sample_message i = \<lparr>cm_id = i, cm_channelId = Some ''hall'', cm_dmChannelId = None, cm_threadId = None,
     cm_content = ''hi'', cm_reactions = []\<rparr>"

definition length_order :: "string comparator" where
  "length_order = key length default"


section \<open>Voice\<close>

lemma map_get_evicted:
  "map_get (map (\<lambda>(c, m). (c, map_del u m)) vs) k = map_option (map_del u) (map_get vs k)"
  by (induction vs) auto

text \<open>
  After a voice state update the user is in exactly one room, the one the update names with that
  very state, or in none when it names none; the other users stay where they were.
\<close>

theorem applyVoiceState_exclusive:
  "map_get (get_or [] (map_get (rt_voiceStatesByChannel (applyVoiceState st s)) c)) u =
     (if u = vs_userId st then (if vs_channelId st = Some c then Some st else None)
      else map_get (get_or [] (map_get (rt_voiceStatesByChannel s) c)) u)"
  by (cases "map_get (rt_voiceStatesByChannel s) c"; cases "vs_channelId st")
    (auto simp: applyVoiceState_def Let_def map_get_evicted)

section \<open>Channels\<close>

lemma uniq_fold_listed:
  "k \<notin> f ` set ms \<Longrightarrow> distinct (map f ms) \<Longrightarrow> f ` set ms \<inter> fst ` set r = {} \<Longrightarrow>
   fold (\<lambda>x seen. map_set (f x) x seen) ms ((k, v) # r) = (k, v) # r @ map (\<lambda>x. (f x, x)) ms"
proof (induction ms arbitrary: r)
  case (Cons a ms)
  have "f a \<notin> fst ` set r" using Cons.prems by auto
  then have "map_set (f a) a r = r @ [(f a, a)]"
    by (induction r) auto
  then show ?case
    using Cons.prems by (simp add: Cons.IH)
qed simp

text \<open>
  The map is built from the new channel first, then from the list: the new channel keeps its place
  only when its id is not listed, otherwise the value listed later wins.
\<close>

lemma uniq_fold_head:
  "distinct (map f ms) \<Longrightarrow> f ` set ms \<inter> fst ` set r = {} \<Longrightarrow>
   fold (\<lambda>x seen. map_set (f x) x seen) ms ((k, v) # r) =
     (k, get_or v (List.find (\<lambda>x. f x = k) ms)) # r @ map (\<lambda>x. (f x, x)) (filter (\<lambda>x. f x \<noteq> k) ms)"
proof (induction ms arbitrary: r v)
  case (Cons a ms)
  show ?case
  proof (cases "f a = k")
    case True
    then have "k \<notin> f ` set ms" using Cons.prems by auto
    moreover from this have "filter (\<lambda>x. f x \<noteq> k) ms = ms" by (auto simp: filter_id_conv)
    ultimately show ?thesis
      using True Cons.prems by (simp add: uniq_fold_listed)
  next
    case False
    have "f a \<notin> fst ` set r" using Cons.prems by auto
    then have "map_set (f a) a r = r @ [(f a, a)]"
      by (induction r) auto
    then show ?thesis
      using False Cons.prems by (simp add: Cons.IH)
  qed
qed simp

lemma uniqById_head:
  assumes "distinct (map f ms)"
  shows "uniqById f (x # ms) = get_or x (List.find (\<lambda>y. f y = f x) ms) # filter (\<lambda>y. f y \<noteq> f x) ms"
  using uniq_fold_head [of f ms "[]" "f x" x] assms by (simp add: uniqById_def comp_def)

text \<open>
  A channel update for a channel that is already listed changes nothing: the store keeps the
  entry it had (name, position and all), only a channel with a new id is added.
\<close>

theorem upsertChannel_keeps_listed:
  assumes "distinct (map sc_id (get_or [] (map_get (rt_channelsByServer s) (sc_serverId c))))"
  shows "set (get_or [] (map_get (rt_channelsByServer (upsertChannel c s)) (sc_serverId c))) =
    (let old = set (get_or [] (map_get (rt_channelsByServer s) (sc_serverId c)))
     in if sc_id c \<in> sc_id ` old then old else insert c old)"
proof -
  define ms where "ms = get_or [] (map_get (rt_channelsByServer s) (sc_serverId c))"
  have d: "distinct (map sc_id ms)" using assms by (simp add: ms_def)
  have "set (uniqById sc_id (c # ms)) = (if sc_id c \<in> sc_id ` set ms then set ms else insert c (set ms))"
  proof (cases "List.find (\<lambda>y. sc_id y = sc_id c) ms")
    case None
    then have "\<forall>y \<in> set ms. sc_id y \<noteq> sc_id c" by (auto simp: find_None_iff)
    then show ?thesis using None by (auto simp: uniqById_head [OF d])
  next
    case (Some y)
    then have y: "y \<in> set ms" "sc_id y = sc_id c" by (auto simp: find_Some_iff)
    then have "\<forall>z \<in> set ms. sc_id z = sc_id c \<longrightarrow> z = y"
      using d by (metis distinct_map inj_on_def)
    then have "insert y {z \<in> set ms. sc_id z \<noteq> sc_id c} = set ms"
      using y by blast
    moreover have "sc_id c \<in> sc_id ` set ms"
      using y by (metis imageI)
    ultimately show ?thesis
      using Some by (simp add: uniqById_head [OF d])
  qed
  moreover have "set (Sorting_Algorithms.sort by_position xs) = set xs" for xs
    by (metis mset_sort set_mset_mset)
  ultimately show ?thesis
    by (simp add: upsertChannel_def Let_def ms_def)
qed

definition sample_channel :: "string \<Rightarrow> store_channel" where
  "sample_channel n = \<lparr>sc_id = ''c1'', sc_serverId = ''s1'', sc_position = 0, sc_name = n, sc_voiceStates = None\<rparr>"

theorem upsertChannel_keeps_listed_witness:
  "set (get_or [] (map_get (rt_channelsByServer (upsertChannel (sample_channel ''renamed'')
      ((initial_store True)\<lparr>rt_channelsByServer := [(''s1'', [sample_channel ''general''])]\<rparr>))) ''s1'')) =
   {sample_channel ''general''}"
  using upsertChannel_keeps_listed [of
      "(initial_store True)\<lparr>rt_channelsByServer := [(''s1'', [sample_channel ''general''])]\<rparr>"
      "sample_channel ''renamed''"]
  by (simp add: sample_channel_def)

end
