(* ===== verification/UploadGovernor.thy ===== *)
theory UploadGovernor
  imports JsText Database
begin

text \<open>
  Uploads while voice rooms are busy (apps/api/src/services/upload-governor.ts): one-time tickets,
  the slots that bound how many throttled uploads run, the exact-size guard and the token bucket.
  Random tokens, arrival times of chunks and how late a timer wakes are arguments. The bucket's
  fractional byte count is kept exactly, in thousandths of a byte.
\<close>

section \<open>Configuration and tickets\<close>

record governor_config =
  gov_enabled :: bool
  gov_publicBaseUrl :: string
  gov_bytesPerSecond :: int
  gov_burstBytes :: nat
  gov_maxConcurrent :: nat
  gov_ticketExpirySeconds :: int

record governed_ticket =
  gt_bucket :: string
  gt_key :: string
  gt_mimeType :: string
  gt_sizeBytes :: nat
  gt_expiresAt :: millis

record upload_strategy =
  us_method :: string
  us_url :: string
  us_expiresAt :: millis
  us_maxBytesPerSecond :: int

type_synonym ticket_map = "(string, governed_ticket) jsmap"

definition shouldThrottleUpload :: "governor_config \<Rightarrow> db \<Rightarrow> bool" where
  "shouldThrottleUpload cfg d =
     (if \<not> gov_enabled cfg then False
      else list_ex (\<lambda>v. voi_channelId v \<noteq> None \<and>
             length (filter (\<lambda>w. voi_channelId w = voi_channelId v) (db_voice_states d)) \<ge> 2) (db_voice_states d))"

definition purgeExpiredTickets :: "millis \<Rightarrow> ticket_map \<Rightarrow> ticket_map" where
  "purgeExpiredTickets now tickets = filter (\<lambda>(token, t). \<not> gt_expiresAt t < now) tickets"

definition createGovernedTicket ::
    "governor_config \<Rightarrow> millis \<Rightarrow> string \<Rightarrow> string \<Rightarrow> string \<Rightarrow> string \<Rightarrow> nat \<Rightarrow> ticket_map \<Rightarrow> upload_strategy \<times> ticket_map" where
  "createGovernedTicket cfg now token bucket objectKey mimeType sizeBytes tickets =
     (let expiresAt = now + gov_ticketExpirySeconds cfg * 1000;
          tickets = map_set token \<lparr>gt_bucket = bucket, gt_key = objectKey, gt_mimeType = mimeType,
                      gt_sizeBytes = sizeBytes, gt_expiresAt = expiresAt\<rparr> tickets
      in (\<lparr>us_method = ''PUT'',
           us_url = gov_publicBaseUrl cfg @ ''/api/_governed-uploads/'' @ token,
           us_expiresAt = expiresAt, us_maxBytesPerSecond = gov_bytesPerSecond cfg\<rparr>,
          purgeExpiredTickets now tickets))"

text \<open>An \<open>UploadRejectedError\<close> is its message.\<close>

definition consumeTicket :: "millis \<Rightarrow> string \<Rightarrow> ticket_map \<Rightarrow> (string + governed_ticket) \<times> ticket_map" where
  "consumeTicket now token tickets =
     (case map_get tickets token of
        None \<Rightarrow> (Inl ''Unknown upload token'', tickets)
      | Some ticket \<Rightarrow>
          if gt_expiresAt ticket < now then (Inl ''Upload token expired'', map_del token tickets)
          else (Inr ticket, map_del token tickets))"

section \<open>Slots\<close>

text \<open>
  \<open>acquireSlot\<close> waits in a loop: a caller that finds no slot joins the waiters, a release wakes the
  first of them, and the woken one looks again when its turn comes (a newcomer may have been faster).
\<close>

record slots =
  sl_active :: nat
  sl_waiters :: "nat list"
  sl_woken :: "nat list"     \<comment> \<open>resolved, continuation still queued\<close>
  sl_held :: "nat list"      \<comment> \<open>callers whose \<open>released\<close> flag is false\<close>

definition no_slots :: slots where
  "no_slots = \<lparr>sl_active = 0, sl_waiters = [], sl_woken = [], sl_held = []\<rparr>"

definition acquireSlot :: "nat \<Rightarrow> nat \<Rightarrow> slots \<Rightarrow> slots" where
  "acquireSlot maxConcurrent i s =
     (if sl_active s \<ge> maxConcurrent then s\<lparr>sl_waiters := sl_waiters s @ [i]\<rparr>
      else s\<lparr>sl_active := sl_active s + 1, sl_held := sl_held s @ [i]\<rparr>)"

definition releaseSlot :: "nat \<Rightarrow> slots \<Rightarrow> slots" where
  "releaseSlot i s =
     (if i \<notin> set (sl_held s) then s
      else
        let s = s\<lparr>sl_held := remove1 i (sl_held s), sl_active := sl_active s - 1\<rparr>
        in case sl_waiters s of
             [] \<Rightarrow> s
           | w # ws \<Rightarrow> s\<lparr>sl_waiters := ws, sl_woken := sl_woken s @ [w]\<rparr>)"

definition slot_callers :: "slots \<Rightarrow> nat set" where
  "slot_callers s = set (sl_waiters s) \<union> set (sl_woken s) \<union> set (sl_held s)"

datatype slot_event = SlotAcquire nat | SlotResume nat | SlotRelease nat

inductive slot_step :: "nat \<Rightarrow> slots \<Rightarrow> slot_event \<Rightarrow> slots \<Rightarrow> bool" where
  Acquires: "i \<notin> slot_callers s \<Longrightarrow> slot_step m s (SlotAcquire i) (acquireSlot m i s)"
| Resumes: "i \<in> set (sl_woken s) \<Longrightarrow>
    slot_step m s (SlotResume i) (acquireSlot m i (s\<lparr>sl_woken := remove1 i (sl_woken s)\<rparr>))"
| Releases: "slot_step m s (SlotRelease i) (releaseSlot i s)"

inductive_cases slot_stepE: "slot_step m s e s'"

inductive slots_reachable :: "nat \<Rightarrow> slots \<Rightarrow> bool" for m where
  NoSlots: "slots_reachable m no_slots"
| SlotStep: "slots_reachable m s \<Longrightarrow> slot_step m s e s' \<Longrightarrow> slots_reachable m s'"

definition slots_ok :: "nat \<Rightarrow> slots \<Rightarrow> bool" where
  "slots_ok m s \<longleftrightarrow>
     sl_active s = length (sl_held s) \<and> sl_active s \<le> m \<and>
     (sl_waiters s \<noteq> [] \<longrightarrow> m \<le> sl_active s + length (sl_woken s)) \<and>
     distinct (sl_waiters s @ sl_woken s @ sl_held s)"

lemma acquire_ok:
  assumes "sl_active s = length (sl_held s)" and "sl_active s \<le> m"
    and "sl_waiters s \<noteq> [] \<longrightarrow> m \<le> Suc (sl_active s + length (sl_woken s))"
    and "distinct (i # sl_waiters s @ sl_woken s @ sl_held s)"
    and "sl_active s < m \<Longrightarrow> sl_waiters s \<noteq> [] \<Longrightarrow> m \<le> Suc (sl_active s) + length (sl_woken s)"
  shows "slots_ok m (acquireSlot m i s)"
  using assms by (auto simp: slots_ok_def acquireSlot_def)

lemma release_ok: "slots_ok m s \<Longrightarrow> slots_ok m (releaseSlot i s)"
  by (cases "sl_waiters s")
    (auto simp: slots_ok_def releaseSlot_def Let_def length_remove1 notin_set_remove1 in_set_conv_nth
      dest: length_pos_if_in_set)

lemma slot_step_ok:
  assumes "slot_step m s e s'" and "slots_ok m s"
  shows "slots_ok m s'"
  using assms(1)
proof (rule slot_stepE)
  fix i
  assume "s' = acquireSlot m i s" "i \<notin> slot_callers s"
  then show ?thesis
    using assms(2) acquire_ok [of s m i] by (auto simp: slots_ok_def slot_callers_def)
next
  fix i
  let ?s = "s\<lparr>sl_woken := remove1 i (sl_woken s)\<rparr>"
  assume e: "s' = acquireSlot m i ?s" and i: "i \<in> set (sl_woken s)"
  have "length (sl_woken s) = Suc (length (remove1 i (sl_woken s)))"
    using i by (simp add: length_remove1) (metis length_pos_if_in_set Suc_pred)
  moreover have "i \<notin> set (remove1 i (sl_woken s))" "i \<notin> set (sl_waiters s)" "i \<notin> set (sl_held s)"
    using i assms(2) by (auto simp: slots_ok_def)
  moreover have "set (remove1 i (sl_woken s)) \<subseteq> set (sl_woken s)"
    by (rule set_remove1_subset)
  ultimately show ?thesis
    unfolding e using assms(2) by (intro acquire_ok) (auto simp: slots_ok_def)
next
  fix i
  assume "s' = releaseSlot i s"
  then show ?thesis using release_ok [OF assms(2)] by simp
qed

lemma reachable_slots_ok: "slots_reachable m s \<Longrightarrow> slots_ok m s"
proof (induction rule: slots_reachable.induct)
  case NoSlots
  show ?case by (simp add: slots_ok_def no_slots_def)
next
  case (SlotStep s e s')
  then show ?case using slot_step_ok by blast
qed

text \<open>
  The slots: whatever the order of uploads starting, waking and finishing, never more than the
  configured number run at once, the counter is the number that run, and no wake-up is lost: while an
  upload waits, every slot is taken or another upload is on its way to take it. So when nothing is
  about to run, the uploads that wait are behind the full number of running ones.
\<close>

theorem slots_bounded_and_fair:
  assumes "slots_reachable m s"
  shows "length (sl_held s) \<le> m \<and> sl_active s = length (sl_held s) \<and>
    (sl_waiters s \<noteq> [] \<longrightarrow> m \<le> length (sl_held s) + length (sl_woken s)) \<and>
    (sl_waiters s \<noteq> [] \<and> sl_woken s = [] \<longrightarrow> length (sl_held s) = m)"
  using reachable_slots_ok [OF assms] by (auto simp: slots_ok_def)

theorem slots_bounded_and_fair_witness:
  "let s = releaseSlot 1 (acquireSlot 1 2 (acquireSlot 1 1 no_slots))
   in sl_woken s = [2] \<and> length (sl_held s) \<le> 1 \<and> sl_active s = length (sl_held s)"
proof -
  have 1: "slots_reachable 1 (acquireSlot 1 1 no_slots)"
    by (rule slots_reachable.SlotStep [OF slots_reachable.NoSlots slot_step.Acquires])
      (simp add: slot_callers_def no_slots_def)
  have 2: "slots_reachable 1 (acquireSlot 1 2 (acquireSlot 1 1 no_slots))"
    by (rule slots_reachable.SlotStep [OF 1 slot_step.Acquires])
      (simp add: slot_callers_def no_slots_def acquireSlot_def)
  have 3: "slots_reachable 1 (releaseSlot 1 (acquireSlot 1 2 (acquireSlot 1 1 no_slots)))"
    by (rule slots_reachable.SlotStep [OF 2 slot_step.Releases])
  show ?thesis
    using slots_bounded_and_fair [OF 3]
    by (simp add: Let_def releaseSlot_def acquireSlot_def no_slots_def)
qed

section \<open>The token bucket\<close>

record throttle =
  th_tokens :: int        \<comment> \<open>thousandths of a byte\<close>
  th_lastRefill :: millis
  th_now :: millis
  th_sleeps :: nat        \<comment> \<open>sleeps so far\<close>

definition createThrottleStream :: "governor_config \<Rightarrow> millis \<Rightarrow> throttle" where
  "createThrottleStream cfg now =
     \<lparr>th_tokens = 1000 * int (gov_burstBytes cfg), th_lastRefill = now, th_now = now, th_sleeps = 0\<rparr>"

definition refill :: "governor_config \<Rightarrow> throttle \<Rightarrow> throttle" where
  "refill cfg th =
     (let elapsed = th_now th - th_lastRefill th
      in if elapsed \<le> 0 then th
         else th\<lparr>th_tokens := min (1000 * int (gov_burstBytes cfg)) (th_tokens th + elapsed * gov_bytesPerSecond cfg),
                 th_lastRefill := th_now th\<rparr>)"

definition wait_for :: "governor_config \<Rightarrow> int \<Rightarrow> millis" where
  "wait_for cfg missing = max 1 (- ((- missing) div gov_bytesPerSecond cfg))"

text \<open>Timer \<open>n\<close> wakes \<open>late n\<close> milliseconds after its time.\<close>

partial_function (option) takeTokens ::
    "governor_config \<Rightarrow> (nat \<Rightarrow> nat) \<Rightarrow> nat \<Rightarrow> throttle \<Rightarrow> throttle option" where
  "takeTokens cfg late bytes th =
     (let th = refill cfg th
      in if th_tokens th \<ge> 1000 * int bytes then Some (th\<lparr>th_tokens := th_tokens th - 1000 * int bytes\<rparr>)
         else takeTokens cfg late bytes
                (th\<lparr>th_now := th_now th + wait_for cfg (1000 * int bytes - th_tokens th) + int (late (th_sleeps th)),
                    th_sleeps := th_sleeps th + 1\<rparr>))"

partial_function (option) throttle_chunk ::
    "governor_config \<Rightarrow> (nat \<Rightarrow> nat) \<Rightarrow> 'a list \<Rightarrow> throttle \<Rightarrow> (throttle \<times> (millis \<times> 'a list) list) option" where
  "throttle_chunk cfg late chunk th =
     (if chunk = [] then Some (th, [])
      else
        let piece = take (gov_burstBytes cfg) chunk
        in Option.bind (takeTokens cfg late (length piece) th) (\<lambda>th.
           Option.bind (throttle_chunk cfg late (drop (gov_burstBytes cfg) chunk) th) (\<lambda>(th', out).
             Some (th', (th_now th, piece) # out))))"

text \<open>Each chunk comes with the time that passes before it arrives.\<close>

fun throttle_stream ::
    "governor_config \<Rightarrow> (nat \<Rightarrow> nat) \<Rightarrow> (nat \<times> 'a list) list \<Rightarrow> throttle \<Rightarrow> (throttle \<times> (millis \<times> 'a list) list) option" where
  "throttle_stream cfg late [] th = Some (th, [])"
| "throttle_stream cfg late ((gap, chunk) # rest) th =
     Option.bind (throttle_chunk cfg late chunk (th\<lparr>th_now := th_now th + int gap\<rparr>)) (\<lambda>(th, out).
     Option.bind (throttle_stream cfg late rest th) (\<lambda>(th, out'). Some (th, out @ out')))"

definition throttle_ok :: "governor_config \<Rightarrow> throttle \<Rightarrow> bool" where
  "throttle_ok cfg th \<longleftrightarrow>
     0 \<le> th_tokens th \<and> th_tokens th \<le> 1000 * int (gov_burstBytes cfg) \<and> th_lastRefill th \<le> th_now th"

text \<open>What a step of the stream may have sent, in thousandths of a byte.\<close>

definition paid :: "governor_config \<Rightarrow> throttle \<Rightarrow> nat \<Rightarrow> throttle \<Rightarrow> bool" where
  "paid cfg th bytes th' \<longleftrightarrow>
     throttle_ok cfg th' \<and> th_now th \<le> th_now th' \<and>
     1000 * int bytes + th_tokens th' - th_tokens th \<le>
       gov_bytesPerSecond cfg * (th_lastRefill th' - th_lastRefill th)"

lemma paid_trans: "paid cfg a m b \<Longrightarrow> paid cfg b n c \<Longrightarrow> paid cfg a (m + n) c"
  by (simp add: paid_def algebra_simps)

lemma refill_ok:
  assumes "throttle_ok cfg th" and "0 < gov_bytesPerSecond cfg"
  shows "paid cfg th 0 (refill cfg th) \<and> th_lastRefill (refill cfg th) = th_now th \<and>
    th_now (refill cfg th) = th_now th \<and>
    th_tokens (refill cfg th) = min (1000 * int (gov_burstBytes cfg))
      (th_tokens th + (th_now th - th_lastRefill th) * gov_bytesPerSecond cfg)"
proof (cases "th_now th - th_lastRefill th \<le> 0")
  case True
  then show ?thesis
    using assms by (auto simp: refill_def paid_def throttle_ok_def)
next
  case False
  define x where "x = (th_now th - th_lastRefill th) * gov_bytesPerSecond cfg"
  have "0 \<le> x"
    unfolding x_def using False assms(2) by (intro mult_nonneg_nonneg) auto
  moreover have "gov_bytesPerSecond cfg * (th_now th - th_lastRefill th) = x"
    by (simp add: x_def)
  ultimately show ?thesis
    using False assms by (auto simp: refill_def paid_def throttle_ok_def Let_def x_def [symmetric])
qed

lemma wait_for_enough:
  assumes "0 < gov_bytesPerSecond cfg"
  shows "missing \<le> wait_for cfg missing * gov_bytesPerSecond cfg \<and> 0 < wait_for cfg missing"
proof -
  let ?b = "gov_bytesPerSecond cfg"
  have "(- missing) div ?b * ?b \<le> - missing"
    using assms by (metis div_mult_mod_eq le_add_same_cancel1 pos_mod_sign)
  then have "missing \<le> - ((- missing) div ?b) * ?b"
    by simp
  also have "\<dots> \<le> wait_for cfg missing * ?b"
    using assms by (intro mult_right_mono) (auto simp: wait_for_def)
  finally show ?thesis by (simp add: wait_for_def)
qed

lemma takeTokens_returns:
  assumes "throttle_ok cfg th" and "0 < gov_bytesPerSecond cfg" and "bytes \<le> gov_burstBytes cfg"
  shows "\<exists>th'. takeTokens cfg late bytes th = Some th' \<and> paid cfg th bytes th'"
proof -
  let ?r = "refill cfg th"
  have r: "paid cfg th 0 ?r" "throttle_ok cfg ?r"
    using refill_ok [OF assms(1,2)] by (auto simp: paid_def)
  show ?thesis
  proof (cases "th_tokens ?r \<ge> 1000 * int bytes")
    case True
    then show ?thesis
      using r by (subst takeTokens.simps) (auto simp: Let_def paid_def throttle_ok_def)
  next
    case False
    let ?w = "wait_for cfg (1000 * int bytes - th_tokens ?r)"
    let ?s = "?r\<lparr>th_now := th_now ?r + ?w + int (late (th_sleeps ?r)), th_sleeps := th_sleeps ?r + 1\<rparr>"
    let ?q = "refill cfg ?s"
    have w: "1000 * int bytes - th_tokens ?r \<le> ?w * gov_bytesPerSecond cfg" "0 < ?w"
      using wait_for_enough [OF assms(2)] by blast+
    have s: "throttle_ok cfg ?s"
      using r(2) w(2) by (simp add: throttle_ok_def)
    have q: "paid cfg ?s 0 ?q" "th_tokens ?q = min (1000 * int (gov_burstBytes cfg))
        (th_tokens ?r + (?w + int (late (th_sleeps ?r)) + (th_now ?r - th_lastRefill ?r)) * gov_bytesPerSecond cfg)"
      using refill_ok [OF s assms(2)] by (simp_all add: algebra_simps)
    have "?w * gov_bytesPerSecond cfg \<le>
        (?w + int (late (th_sleeps ?r)) + (th_now ?r - th_lastRefill ?r)) * gov_bytesPerSecond cfg"
      using assms(2) r(2) by (intro mult_right_mono) (auto simp: throttle_ok_def)
    then have enough: "1000 * int bytes \<le> th_tokens ?q"
      using w(1) assms(3) q(2) by linarith
    have "paid cfg th 0 ?s"
      using r w(2) s by (auto simp: paid_def)
    then have "paid cfg th 0 ?q"
      using paid_trans [OF _ q(1)] by fastforce
    moreover have "takeTokens cfg late bytes th = Some (?q\<lparr>th_tokens := th_tokens ?q - 1000 * int bytes\<rparr>)"
      using False enough
      by (subst takeTokens.simps, simp add: Let_def, subst takeTokens.simps, simp add: Let_def)
    ultimately show ?thesis
      using enough by (auto simp: paid_def throttle_ok_def)
  qed
qed


lemma throttle_chunk_returns:
  assumes "throttle_ok cfg th" and "0 < gov_bytesPerSecond cfg" and "0 < gov_burstBytes cfg"
  shows "\<exists>th' out. throttle_chunk cfg late chunk th = Some (th', out) \<and> paid cfg th (length chunk) th' \<and>
    concat (map snd out) = chunk \<and> list_all (\<lambda>(t, piece). length piece \<le> gov_burstBytes cfg \<and> t \<le> th_now th') out"
  using assms(1)
proof (induction "length chunk" arbitrary: chunk th rule: less_induct)
  case less
  show ?case
  proof (cases "chunk = []")
    case True
    then show ?thesis
      using less.prems by (subst throttle_chunk.simps) (simp add: paid_def)
  next
    case False
    let ?piece = "take (gov_burstBytes cfg) chunk" and ?rest = "drop (gov_burstBytes cfg) chunk"
    obtain t1 where t1: "takeTokens cfg late (length ?piece) th = Some t1" "paid cfg th (length ?piece) t1"
      using takeTokens_returns [OF less.prems assms(2), of "length ?piece"] by auto
    have "length ?rest < length chunk"
      using False assms(3) by simp
    moreover have "throttle_ok cfg t1"
      using t1(2) by (simp add: paid_def)
    ultimately obtain t2 out where t2: "throttle_chunk cfg late ?rest t1 = Some (t2, out)"
        "paid cfg t1 (length ?rest) t2" "concat (map snd out) = ?rest"
        "list_all (\<lambda>(t, piece). length piece \<le> gov_burstBytes cfg \<and> t \<le> th_now t2) out"
      using less.hyps by blast
    have "length ?piece + length ?rest = length chunk"
      by simp
    then have "paid cfg th (length chunk) t2"
      using paid_trans [OF t1(2) t2(2)] by metis
    moreover have "throttle_chunk cfg late chunk th = Some (t2, (th_now t1, ?piece) # out)"
      using False t1(1) t2(1) by (subst throttle_chunk.simps) (simp add: Let_def)
    moreover have "th_now t1 \<le> th_now t2"
      using t2(2) by (simp add: paid_def)
    ultimately show ?thesis
      using t2(3,4) by auto
  qed
qed

lemma throttle_stream_returns:
  assumes "throttle_ok cfg th" and "0 < gov_bytesPerSecond cfg" and "0 < gov_burstBytes cfg"
  shows "\<exists>th' out. throttle_stream cfg late chunks th = Some (th', out) \<and>
    paid cfg th (length (concat (map snd chunks))) th' \<and> concat (map snd out) = concat (map snd chunks) \<and>
    list_all (\<lambda>(t, piece). length piece \<le> gov_burstBytes cfg) out"
  using assms(1)
proof (induction chunks arbitrary: th)
  case Nil
  then show ?case by (simp add: paid_def)
next
  case (Cons a chunks)
  obtain gap chunk where a: "a = (gap, chunk)" by force
  let ?th = "th\<lparr>th_now := th_now th + int gap\<rparr>"
  have ok: "throttle_ok cfg ?th"
    using Cons.prems by (simp add: throttle_ok_def)
  obtain t1 out where t1: "throttle_chunk cfg late chunk ?th = Some (t1, out)" "paid cfg ?th (length chunk) t1"
      "concat (map snd out) = chunk" "list_all (\<lambda>(t, piece). length piece \<le> gov_burstBytes cfg) out"
    using throttle_chunk_returns [OF ok assms(2,3), of late chunk] by (auto simp: list_all_iff case_prod_beta)
  have "throttle_ok cfg t1"
    using t1(2) by (simp add: paid_def)
  from Cons.IH [OF this] obtain t2 out' where t2: "throttle_stream cfg late chunks t1 = Some (t2, out')"
      "paid cfg t1 (length (concat (map snd chunks))) t2" "concat (map snd out') = concat (map snd chunks)"
      "list_all (\<lambda>(t, piece). length piece \<le> gov_burstBytes cfg) out'"
    by blast
  have "paid cfg th (length chunk + length (concat (map snd chunks))) t2"
    using paid_trans [OF t1(2) t2(2)] by (auto simp: paid_def)
  then show ?case
    using t1(1,3,4) t2(1,3,4) by (simp add: a)
qed

text \<open>
  C18. The throttle: with a positive rate and burst the stream always comes to its end, passes the
  bytes on unchanged and in order in pieces no larger than the burst, and from its creation until the
  end it sends at most the burst plus the rate times the time that has passed.
\<close>

theorem throttle_stream_rate:
  assumes "0 < gov_bytesPerSecond cfg" and "0 < gov_burstBytes cfg"
  shows "\<exists>th' out. throttle_stream cfg late chunks (createThrottleStream cfg start) = Some (th', out) \<and>
    concat (map snd out) = concat (map snd chunks) \<and>
    list_all (\<lambda>(t, piece). length piece \<le> gov_burstBytes cfg) out \<and>
    1000 * int (length (concat (map snd out))) \<le>
      1000 * int (gov_burstBytes cfg) + gov_bytesPerSecond cfg * (th_now th' - start)"
proof -
  have "throttle_ok cfg (createThrottleStream cfg start)"
    by (simp add: throttle_ok_def createThrottleStream_def)
  from throttle_stream_returns [OF this assms, of late chunks] obtain th' out where
    r: "throttle_stream cfg late chunks (createThrottleStream cfg start) = Some (th', out)"
    and p: "paid cfg (createThrottleStream cfg start) (length (concat (map snd chunks))) th'"
    and o: "concat (map snd out) = concat (map snd chunks)"
      "list_all (\<lambda>(t, piece). length piece \<le> gov_burstBytes cfg) out"
    by blast
  have "gov_bytesPerSecond cfg * (th_lastRefill th' - start) \<le> gov_bytesPerSecond cfg * (th_now th' - start)"
    using p assms(1) by (intro mult_left_mono) (auto simp: paid_def throttle_ok_def)
  then have "1000 * int (length (concat (map snd chunks))) \<le>
      1000 * int (gov_burstBytes cfg) + gov_bytesPerSecond cfg * (th_now th' - start)"
    using p by (simp add: paid_def throttle_ok_def createThrottleStream_def)
  then show ?thesis
    using r o by auto
qed

definition sample_governor :: governor_config where
  "sample_governor = \<lparr>gov_enabled = True, gov_publicBaseUrl = ''https://t.example'', gov_bytesPerSecond = 2,
     gov_burstBytes = 3, gov_maxConcurrent = 1, gov_ticketExpirySeconds = 600\<rparr>"

theorem throttle_stream_rate_witness:
  "\<exists>th' out. throttle_stream sample_governor (\<lambda>n. 0) [(0, ''tavern''), (10, ''chat'')]
      (createThrottleStream sample_governor 0) = Some (th', out) \<and> concat (map snd out) = ''tavernchat'' \<and>
    1000 * int (length (concat (map snd out))) \<le> 3000 + 2 * th_now th'"
proof -
  have "0 < gov_bytesPerSecond sample_governor" "0 < gov_burstBytes sample_governor"
    by (simp_all add: sample_governor_def)
  from throttle_stream_rate [OF this, of "\<lambda>n. 0" "[(0, ''tavern''), (10, ''chat'')]" 0] show ?thesis
    by (auto simp: sample_governor_def)
qed

section \<open>Governed uploads\<close>

text \<open>
  A body is its chunks and how it ends: complete, or with the error of the connection. A stream that
  fails hands its reader the chunks so far and the error.
\<close>

type_synonym 'a stream_end = "'a list list \<times> (string + unit)"

fun createExactSizeGuard :: "nat \<Rightarrow> nat \<Rightarrow> (nat \<times> 'a list) list \<Rightarrow> string + unit \<Rightarrow>
    (nat \<times> 'a list) list \<times> (string + unit)" where
  "createExactSizeGuard expectedBytes bytesRead [] ending =
     ([], case ending of
            Inl e \<Rightarrow> Inl e
          | Inr u \<Rightarrow>
              if bytesRead \<noteq> expectedBytes
              then Inl (''Upload ended at '' @ show_nat bytesRead @ '' bytes; expected '' @ show_nat expectedBytes)
              else Inr ())"
| "createExactSizeGuard expectedBytes bytesRead ((gap, chunk) # rest) ending =
     (let bytesRead = bytesRead + length chunk
      in if bytesRead > expectedBytes
         then ([], Inl (''Upload exceeds declared size ('' @ show_nat expectedBytes @ '' bytes)''))
         else let (passed, result) = createExactSizeGuard expectedBytes bytesRead rest ending
              in ((gap, chunk) # passed, result))"

definition buildUploadStream :: "governor_config \<Rightarrow> (nat \<Rightarrow> nat) \<Rightarrow> millis \<Rightarrow> bool \<Rightarrow> nat option \<Rightarrow>
    (nat \<times> 'a list) list \<times> (string + unit) \<Rightarrow> 'a stream_end option" where
  "buildUploadStream cfg late now throttled exactBytes source =
     (let (current, ending) =
            (case exactBytes of
               None \<Rightarrow> source
             | Some n \<Rightarrow> createExactSizeGuard n 0 (fst source) (snd source))
      in if throttled
         then map_option (\<lambda>(th, out). (map snd out, ending))
                (throttle_stream cfg late current (createThrottleStream cfg now))
         else Some (map snd current, ending))"

definition processUpload :: "governor_config \<Rightarrow> db \<Rightarrow> (nat \<Rightarrow> nat) \<Rightarrow> millis \<Rightarrow>
    (nat \<times> 'a list) list \<times> (string + unit) \<Rightarrow> ('a stream_end \<Rightarrow> string + 't) \<Rightarrow> bool \<Rightarrow> nat option \<Rightarrow>
    (string + 't) option" where
  "processUpload cfg d late now body handler forceThrottle exactBytes =
     (let throttled = forceThrottle \<or> shouldThrottleUpload cfg d
      in if \<not> throttled \<and> exactBytes = None then Some (handler (map snd (fst body), snd body))
         else map_option handler (buildUploadStream cfg late now throttled exactBytes body))"

text \<open>The storage backend is the argument \<open>put\<close>: bucket, key, stream, type and size.\<close>

definition acceptGovernedUpload :: "governor_config \<Rightarrow> db \<Rightarrow> (nat \<Rightarrow> nat) \<Rightarrow> millis \<Rightarrow> string \<Rightarrow>
    (nat \<times> 'a list) list \<times> (string + unit) \<Rightarrow>
    (string \<Rightarrow> string \<Rightarrow> 'a stream_end \<Rightarrow> string \<Rightarrow> nat \<Rightarrow> string + unit) \<Rightarrow> ticket_map \<Rightarrow>
    (string + (string \<times> string)) option \<times> ticket_map" where
  "acceptGovernedUpload cfg d late now token body put tickets =
     (case consumeTicket now token tickets of
        (Inl e, tickets) \<Rightarrow> (Some (Inl e), tickets)
      | (Inr ticket, tickets) \<Rightarrow>
          (map_option (\<lambda>r. bind_result r (\<lambda>u. Inr (gt_bucket ticket, gt_key ticket)))
             (processUpload cfg d late now body
                (\<lambda>stream. put (gt_bucket ticket) (gt_key ticket) stream (gt_mimeType ticket) (gt_sizeBytes ticket))
                True (Some (gt_sizeBytes ticket))),
           tickets))"

lemma size_guard_exact:
  assumes "createExactSizeGuard n r chunks ending = (passed, result)"
  shows "(result = Inr () \<longleftrightarrow> ending = Inr () \<and> r + length (concat (map snd chunks)) = n) \<and>
    (result = Inr () \<longrightarrow> passed = chunks)"
  using assms
proof (induction chunks arbitrary: r passed result)
  case Nil
  then show ?case by (auto split: sum.splits if_splits)
next
  case (Cons a chunks)
  obtain gap chunk where a: "a = (gap, chunk)" by force
  show ?case
  proof (cases "r + length chunk > n")
    case True
    then show ?thesis using Cons.prems by (auto simp: a)
  next
    case False
    obtain p q where pq: "createExactSizeGuard n (r + length chunk) chunks ending = (p, q)" by force
    then show ?thesis
      using False Cons.prems Cons.IH [OF pq] by (auto simp: a add.assoc)
  qed
qed


definition strict_put :: "string \<Rightarrow> string \<Rightarrow> char stream_end \<Rightarrow> string \<Rightarrow> nat \<Rightarrow> string + unit" where
  "strict_put b k s m n = snd s"


end
