(* ===== verification/Mentions.thy ===== *)
theory Mentions
  imports Moderation
begin

text \<open>
  Mentions: the parser of message text (packages/shared/src/parsing/mentions.ts), who is notified,
  and the rows written (apps/api/src/services/mentions-service.ts). The regular expression is written
  out as its matcher, with its backtracking. ULIDs come from the supply of the service world.
\<close>

section \<open>Parsing\<close>

datatype parsed_mention =
    GroupMention string string               \<comment> \<open>group, raw\<close>
  | NameMention string string                \<comment> \<open>name, raw\<close>
  | QualifiedMention string string string    \<comment> \<open>localpart, host, raw\<close>

definition is_alnum :: "char \<Rightarrow> bool" where
  "is_alnum c =
     (let n = (of_char c :: nat)
      in (48 \<le> n \<and> n \<le> 57) \<or> (65 \<le> n \<and> n \<le> 90) \<or> (97 \<le> n \<and> n \<le> 122))"

definition is_word_char :: "char \<Rightarrow> bool" where
  "is_word_char c \<longleftrightarrow> is_alnum c \<or> c = CHR ''_''"

definition local_char :: "char \<Rightarrow> bool" where
  "local_char c \<longleftrightarrow> is_alnum c \<or> c \<in> set ''_-.''"

definition host_char :: "char \<Rightarrow> bool" where
  "host_char c \<longleftrightarrow> is_alnum c \<or> c \<in> set ''.-''"

definition lead_char :: "char \<Rightarrow> bool" where
  "lead_char c \<longleftrightarrow> is_space c \<or> c \<in> set ''([{''"

text \<open>The assertion \<open>\b\<close> between the matched text and what follows.\<close>

definition boundary :: "string \<Rightarrow> string \<Rightarrow> bool" where
  "boundary matched following \<longleftrightarrow>
     is_word_char (last matched) \<noteq> (following \<noteq> [] \<and> is_word_char (hd following))"

text \<open>A greedy repetition gives back one character at a time until the boundary holds.\<close>

fun give_back :: "nat \<Rightarrow> string \<Rightarrow> (string \<times> string) option" where
  "give_back 0 s = None"
| "give_back (Suc n) s =
     (if boundary (take (Suc n) s) (drop (Suc n) s) then Some (take (Suc n) s, drop (Suc n) s)
      else give_back n s)"

definition match_host :: "string \<Rightarrow> (string \<times> string) option" where
  "match_host s =
     (case s of
        [] \<Rightarrow> None
      | c # h \<Rightarrow> if c = CHR ''@'' then give_back (length (takeWhile host_char h)) h else None)"

text \<open>After the \<open>@\<close>: the local part, the host if one matches, and the rest of the text.\<close>

definition match_name :: "string \<Rightarrow> (string \<times> string option \<times> string) option" where
  "match_name s =
     (let localpart = takeWhile local_char s
      in if localpart = [] then None
         else case match_host (dropWhile local_char s) of
                Some (host, rest) \<Rightarrow> Some (localpart, Some host, rest)
              | None \<Rightarrow>
                  map_option (\<lambda>(l, rest). (l, None, rest)) (give_back (length localpart) s))"

definition match_at :: "bool \<Rightarrow> string \<Rightarrow> (string \<times> string option \<times> string) option" where
  "match_at at_start s =
     (case s of
        [] \<Rightarrow> None
      | c # rest \<Rightarrow>
          if at_start \<and> c = CHR ''@'' then match_name rest
          else if lead_char c \<and> rest \<noteq> [] \<and> hd rest = CHR ''@'' then match_name (tl rest)
          else None)"

definition mention_of :: "string \<Rightarrow> string option \<Rightarrow> parsed_mention" where
  "mention_of localpart host =
     (if host \<noteq> None \<and> CHR ''.'' \<in> set (the host)
      then QualifiedMention localpart (the host) (''@'' @ localpart @ ''@'' @ the host)
      else if localpart = ''everyone'' \<or> localpart = ''here''
      then GroupMention localpart (''@'' @ localpart)
      else NameMention localpart (''@'' @ localpart))"

lemma give_back_split:
  "give_back n s = Some (a, rest) \<Longrightarrow>
     \<exists>k. 0 < k \<and> k \<le> n \<and> a = take k s \<and> rest = drop k s \<and> boundary a rest"
proof (induction n)
  case (Suc n)
  then show ?case
    by (cases "boundary (take (Suc n) s) (drop (Suc n) s)") (auto intro: exI [of _ "Suc n"] le_SucI)
qed simp

lemma match_host_split:
  assumes "match_host s = Some (h, rest)"
  shows "s = ''@'' @ h @ rest \<and> h \<noteq> [] \<and> list_all host_char h \<and> boundary h rest"
proof -
  obtain t where s: "s = CHR ''@'' # t" and g: "give_back (length (takeWhile host_char t)) t = Some (h, rest)"
    using assms by (auto simp: match_host_def split: list.splits if_splits)
  obtain k where k: "0 < k" "k \<le> length (takeWhile host_char t)" "h = take k t" "rest = drop k t" "boundary h rest"
    using give_back_split [OF g] by blast
  have "take k t = take k (takeWhile host_char t)"
    using k(2) by (metis takeWhile_eq_take take_take min.absorb1)
  then have "list_all host_char h"
    using k(3) by (auto simp: list_all_iff dest!: in_set_takeD set_takeWhileD)
  moreover have "t \<noteq> []" using k by auto
  ultimately show ?thesis using s k by auto
qed

text \<open>What a match is: the text it covers, between its \<open>@\<close> and the rest.\<close>

definition host_text :: "string option \<Rightarrow> string" where
  "host_text host = (case host of None \<Rightarrow> [] | Some h \<Rightarrow> ''@'' @ h)"

lemma match_name_split:
  assumes "match_name s = Some (l, host, rest)"
  shows "s = l @ host_text host @ rest \<and> l \<noteq> [] \<and> list_all local_char l \<and>
    (case host of None \<Rightarrow> boundary l rest | Some h \<Rightarrow> h \<noteq> [] \<and> list_all host_char h \<and> boundary h rest)"
proof (cases "match_host (dropWhile local_char s)")
  case (Some p)
  obtain h r where p: "p = (h, r)" by force
  have m: "l = takeWhile local_char s" "host = Some h" "rest = r" "l \<noteq> []"
    using assms Some p by (auto simp: match_name_def Let_def split: if_splits)
  have "takeWhile local_char s @ ''@'' @ h @ r = s"
    using match_host_split [of "dropWhile local_char s" h r] Some p
    by (metis takeWhile_dropWhile_id)
  then show ?thesis
    using m match_host_split [of "dropWhile local_char s" h r] Some p
    by (auto simp: host_text_def list_all_iff dest: set_takeWhileD)
next
  case None
  then have g: "give_back (length (takeWhile local_char s)) s = Some (l, rest)" and h: "host = None"
    using assms by (auto simp: match_name_def Let_def split: if_splits)
  obtain k where k: "0 < k" "k \<le> length (takeWhile local_char s)" "l = take k s" "rest = drop k s" "boundary l rest"
    using give_back_split [OF g] by blast
  have "take k s = take k (takeWhile local_char s)"
    using k(2) by (metis takeWhile_eq_take take_take min.absorb1)
  then have "list_all local_char l"
    using k(3) by (auto simp: list_all_iff dest!: in_set_takeD set_takeWhileD)
  then show ?thesis
    using k h by (auto simp: host_text_def)
qed

lemma match_at_split:
  assumes "match_at b s = Some (l, host, rest)"
  shows "\<exists>lead. s = lead @ ''@'' @ l @ host_text host @ rest \<and> l \<noteq> [] \<and> list_all local_char l \<and>
    (lead = [] \<and> b \<or> (\<exists>c. lead = [c] \<and> lead_char c)) \<and>
    (case host of None \<Rightarrow> boundary l rest | Some h \<Rightarrow> h \<noteq> [] \<and> list_all host_char h \<and> boundary h rest)"
proof -
  obtain c t where s: "s = c # t"
    using assms by (cases s) (auto simp: match_at_def)
  show ?thesis
  proof (cases "b \<and> c = CHR ''@''")
    case True
    then show ?thesis
      using assms match_name_split [of t l host rest] by (auto simp: s match_at_def)
  next
    case False
    then have "lead_char c" "t \<noteq> []" "hd t = CHR ''@''" "match_name (tl t) = Some (l, host, rest)"
      using assms by (auto simp: s match_at_def split: if_splits)
    then show ?thesis
      using match_name_split [of "tl t" l host rest] by (cases t) (auto simp: s intro!: exI [of _ "[c]"])
  qed
qed

lemma match_at_shorter: "match_at b s = Some (l, host, rest) \<Longrightarrow> length rest < length s"
  using match_at_split [of b s l host rest] by auto

function scan_mentions :: "bool \<Rightarrow> string \<Rightarrow> parsed_mention list" where
  "scan_mentions at_start s =
     (if s = [] then []
      else case match_at at_start s of
             Some (localpart, host, rest) \<Rightarrow> mention_of localpart host # scan_mentions False rest
           | None \<Rightarrow> scan_mentions False (tl s))"
  by auto
termination
  by (relation "measure (\<lambda>(b, s). length s)") (auto dest: match_at_shorter)

declare scan_mentions.simps [simp del]

definition parseMentions :: "string \<Rightarrow> parsed_mention list" where
  "parseMentions content = scan_mentions True content"

definition hasGroupMention :: "parsed_mention list \<Rightarrow> bool" where
  "hasGroupMention parsed = list_ex (\<lambda>m. case m of GroupMention g r \<Rightarrow> True | _ \<Rightarrow> False) parsed"

definition nameMentions :: "parsed_mention list \<Rightarrow> string list" where
  "nameMentions parsed =
     fold (\<lambda>m seen. case m of NameMention n r \<Rightarrow> if n \<in> set seen then seen else seen @ [n] | _ \<Rightarrow> seen) parsed []"

definition qualifiedMentions :: "string \<Rightarrow> (string \<times> string) list" where
  "qualifiedMentions content =
     concat (map (\<lambda>m. case m of QualifiedMention l h r \<Rightarrow> [(l, h)] | _ \<Rightarrow> []) (parseMentions content))"

lemma scan_mentions_sound:
  "m \<in> set (scan_mentions b s) \<Longrightarrow>
     \<exists>pre l host rest. s = pre @ ''@'' @ l @ host_text host @ rest \<and> (pre = [] \<and> b \<or> pre \<noteq> [] \<and> lead_char (last pre)) \<and>
       l \<noteq> [] \<and> list_all local_char l \<and>
       (case host of None \<Rightarrow> boundary l rest | Some h \<Rightarrow> h \<noteq> [] \<and> list_all host_char h \<and> boundary h rest) \<and>
       m = mention_of l host"
proof (induction b s rule: scan_mentions.induct)
  case (1 b s)
  show ?case
  proof (cases "match_at b s")
    case None
    then have "m \<in> set (scan_mentions False (tl s))" and ne: "s \<noteq> []"
      using "1.prems" by (auto simp: scan_mentions.simps [of b s] split: if_splits)
    with "1.IH"(1) None obtain pre l host rest where h: "tl s = pre @ ''@'' @ l @ host_text host @ rest"
        "pre \<noteq> [] \<and> lead_char (last pre)" "l \<noteq> []" "list_all local_char l"
        "case host of None \<Rightarrow> boundary l rest | Some h \<Rightarrow> h \<noteq> [] \<and> list_all host_char h \<and> boundary h rest"
        "m = mention_of l host"
      by blast
    then show ?thesis
      using ne by (intro exI [of _ "hd s # pre"] exI [of _ l] exI [of _ host] exI [of _ rest]) (cases s; simp)
  next
    case (Some p)
    obtain l host rest where p: "match_at b s = Some (l, host, rest)"
      using Some by (cases p) auto
    obtain lead where lead: "s = lead @ ''@'' @ l @ host_text host @ rest" "l \<noteq> []" "list_all local_char l"
        "lead = [] \<and> b \<or> (\<exists>c. lead = [c] \<and> lead_char c)"
        "case host of None \<Rightarrow> boundary l rest | Some h \<Rightarrow> h \<noteq> [] \<and> list_all host_char h \<and> boundary h rest"
      using match_at_split [OF p] by blast
    have ne: "s \<noteq> []" using lead(1) by auto
    have "m = mention_of l host \<or> m \<in> set (scan_mentions False rest)"
      using "1.prems" p ne by (auto simp: scan_mentions.simps [of b s])
    then show ?thesis
    proof
      assume "m = mention_of l host"
      then show ?thesis using lead by (intro exI [of _ lead] exI [of _ l] exI [of _ host] exI [of _ rest]) auto
    next
      assume "m \<in> set (scan_mentions False rest)"
      with "1.IH"(2) [OF ne p refl refl] obtain pre l' host' rest' where h: "rest = pre @ ''@'' @ l' @ host_text host' @ rest'"
          "pre \<noteq> [] \<and> lead_char (last pre)" "l' \<noteq> []" "list_all local_char l'"
          "case host' of None \<Rightarrow> boundary l' rest' | Some h \<Rightarrow> h \<noteq> [] \<and> list_all host_char h \<and> boundary h rest'"
          "m = mention_of l' host'"
        by blast
      then show ?thesis
        using lead(1) by (intro exI [of _ "lead @ ''@'' @ l @ host_text host @ pre"] exI [of _ l'] exI [of _ host'] exI [of _ rest']) auto
    qed
  qed
qed

text \<open>
  The parser takes a mention only where one stands: each mention it returns is the text after
  an at sign that opens the message or follows white space or an opening bracket, has a non-empty
  name of the allowed characters, ends at a word boundary, and is read as group, name or qualified
  mention by that text alone. So addresses in the middle of a word are never mentions.
\<close>

theorem parseMentions_sound:
  assumes "m \<in> set (parseMentions content)"
  shows "\<exists>pre l host rest. content = pre @ ''@'' @ l @ host_text host @ rest \<and>
    (pre = [] \<or> lead_char (last pre)) \<and> l \<noteq> [] \<and> list_all local_char l \<and>
    (case host of None \<Rightarrow> boundary l rest | Some h \<Rightarrow> h \<noteq> [] \<and> list_all host_char h \<and> boundary h rest) \<and>
    m = mention_of l host"
  using scan_mentions_sound [of m True content] assms unfolding parseMentions_def by blast

lemma char_code_simps [simp]:
  "is_word_char CHR ''a''" "local_char CHR ''a''" "local_char CHR ''n''" "local_char CHR ''.''"
  "is_word_char CHR ''n''" "\<not> is_word_char CHR ''.''" "lead_char CHR '' ''"
  by (simp_all add: is_word_char_def is_alnum_def local_char_def lead_char_def is_space_def)

lemma mention_sample: "parseMentions ''@ann.'' = [NameMention ''ann'' ''@ann'']"
  by (simp add: parseMentions_def scan_mentions.simps match_at_def match_name_def match_host_def
      boundary_def mention_of_def lead_char_def is_space_def Let_def numeral_eq_Suc)

theorem parseMentions_sound_witness:
  "\<exists>pre l host rest. ''@ann.'' = pre @ ''@'' @ l @ host_text host @ rest \<and> (pre = [] \<or> lead_char (last pre)) \<and>
     l \<noteq> [] \<and> NameMention ''ann'' ''@ann'' = mention_of l host"
proof -
  have "NameMention ''ann'' ''@ann'' \<in> set (parseMentions ''@ann.'')"
    by (simp add: mention_sample)
  from parseMentions_sound [OF this] show ?thesis by blast
qed

section \<open>Recipients\<close>

datatype mention_kind = MentionUser | MentionRole | MentionEveryone | MentionHere

definition mention_rank :: "mention_kind \<Rightarrow> nat" where
  "mention_rank k = (case k of MentionEveryone \<Rightarrow> 4 | MentionHere \<Rightarrow> 3 | MentionRole \<Rightarrow> 2 | MentionUser \<Rightarrow> 1)"

type_synonym recipients = "(ident, mention_kind) jsmap"

definition promote :: "ident \<Rightarrow> mention_kind \<Rightarrow> ident \<Rightarrow> recipients \<Rightarrow> recipients" where
  "promote authorId k userId byUserId =
     (if userId = authorId then byUserId
      else case map_get byUserId userId of
             None \<Rightarrow> map_set userId k byUserId
           | Some existing \<Rightarrow> if mention_rank k > mention_rank existing then map_set userId k byUserId else byUserId)"

definition wants_group :: "string \<Rightarrow> parsed_mention list \<Rightarrow> bool" where
  "wants_group g parsed = list_ex (\<lambda>m. case m of GroupMention h r \<Rightarrow> h = g | _ \<Rightarrow> False) parsed"

definition member_user_where :: "db \<Rightarrow> ident \<Rightarrow> (user_row \<Rightarrow> bool) \<Rightarrow> ident list" where
  "member_user_where d serverId P =
     map mem_userId (filter (\<lambda>m. mem_serverId m = serverId \<and>
       (case find_user d (mem_userId m) of None \<Rightarrow> False | Some u \<Rightarrow> P u)) (db_members d))"

definition collect_groups :: "db \<Rightarrow> parsed_mention list \<Rightarrow> ident \<Rightarrow> ident \<Rightarrow> recipients" where
  "collect_groups d parsed serverId authorId =
     (let m = [];
          m = (if wants_group ''everyone'' parsed
               then fold (promote authorId MentionEveryone)
                      (map mem_userId (filter (\<lambda>r. mem_serverId r = serverId) (db_members d))) m
               else m)
      in if wants_group ''here'' parsed
         then fold (promote authorId MentionHere)
                (member_user_where d serverId (\<lambda>u. usr_presence u = Active \<or> usr_presence u = Idle)) m
         else m)"

definition collect_names :: "db \<Rightarrow> string list \<Rightarrow> ident \<Rightarrow> ident \<Rightarrow> recipients \<Rightarrow> recipients" where
  "collect_names d names serverId authorId m =
     (if names = [] then m
      else
        let roles = filter (\<lambda>r. rol_serverId r = serverId \<and> rol_name r \<in> set names) (db_roles d);
            m = fold (\<lambda>role m. fold (promote authorId MentionRole)
                   (map mr_userId (filter (\<lambda>a. mr_roleId a = rol_id role) (db_member_roles d))) m) roles m;
            matchedRoleNames = map rol_name roles;
            userNameCandidates = filter (\<lambda>n. n \<notin> set matchedRoleNames) names
        in if userNameCandidates = [] then m
           else fold (promote authorId MentionUser) (member_user_where d serverId
                  (\<lambda>u. usr_displayName u \<in> set userNameCandidates \<or> usr_username u \<in> set userNameCandidates)) m)"

definition drop_blockers :: "db \<Rightarrow> ident \<Rightarrow> recipients \<Rightarrow> recipients" where
  "drop_blockers d authorId m =
     (let candidateIds = map fst m;
          blocks = filter (\<lambda>b. blk_blockedId b = authorId \<and> blk_blockerId b \<in> set candidateIds) (db_blocks d)
      in if candidateIds = [] then m else fold (\<lambda>b m. map_del (blk_blockerId b) m) blocks m)"

definition resolveMentionRecipients :: "db \<Rightarrow> parsed_mention list \<Rightarrow> ident \<Rightarrow> ident \<Rightarrow> recipients" where
  "resolveMentionRecipients d parsed serverId authorId =
     (if parsed = [] then []
      else drop_blockers d authorId
             (collect_names d (nameMentions parsed) serverId authorId
                (collect_groups d parsed serverId authorId)))"

text \<open>The reference: the strongest reason to notify a user, if there is one.\<close>

definition named_roles :: "db \<Rightarrow> parsed_mention list \<Rightarrow> ident \<Rightarrow> role_row set" where
  "named_roles d parsed serverId =
     {r \<in> set (db_roles d). rol_serverId r = serverId \<and> rol_name r \<in> set (nameMentions parsed)}"

definition is_named_user :: "db \<Rightarrow> parsed_mention list \<Rightarrow> ident \<Rightarrow> ident \<Rightarrow> bool" where
  "is_named_user d parsed serverId u \<longleftrightarrow>
     (\<exists>row. find_user d u = Some row \<and>
        (\<exists>n \<in> set (nameMentions parsed). n \<notin> rol_name ` named_roles d parsed serverId \<and>
           (usr_displayName row = n \<or> usr_username row = n)))"

definition is_member_of :: "db \<Rightarrow> ident \<Rightarrow> ident \<Rightarrow> bool" where
  "is_member_of d serverId u \<longleftrightarrow> (\<exists>m \<in> set (db_members d). mem_serverId m = serverId \<and> mem_userId m = u)"

definition is_present :: "db \<Rightarrow> ident \<Rightarrow> bool" where
  "is_present d u \<longleftrightarrow> (\<exists>row. find_user d u = Some row \<and> usr_presence row \<in> {Active, Idle})"

definition holds_named_role :: "db \<Rightarrow> parsed_mention list \<Rightarrow> ident \<Rightarrow> ident \<Rightarrow> bool" where
  "holds_named_role d parsed serverId u \<longleftrightarrow>
     (\<exists>r \<in> named_roles d parsed serverId. \<exists>a \<in> set (db_member_roles d). mr_roleId a = rol_id r \<and> mr_userId a = u)"

definition strongest_mention :: "db \<Rightarrow> parsed_mention list \<Rightarrow> ident \<Rightarrow> ident \<Rightarrow> mention_kind option" where
  "strongest_mention d parsed serverId u =
     (if wants_group ''everyone'' parsed \<and> is_member_of d serverId u then Some MentionEveryone
      else if wants_group ''here'' parsed \<and> is_member_of d serverId u \<and> is_present d u then Some MentionHere
      else if holds_named_role d parsed serverId u then Some MentionRole
      else if is_member_of d serverId u \<and> is_named_user d parsed serverId u then Some MentionUser
      else None)"

definition raise_kind :: "mention_kind \<Rightarrow> mention_kind option \<Rightarrow> mention_kind option" where
  "raise_kind k old = (case old of None \<Rightarrow> Some k
     | Some e \<Rightarrow> if mention_rank k > mention_rank e then Some k else Some e)"

lemma raise_kind_simps [simp]:
  "raise_kind k None = Some k"
  "raise_kind k (Some e) = Some (if mention_rank k > mention_rank e then k else e)"
  "raise_kind k (raise_kind k x) = raise_kind k x"
  by (auto simp: raise_kind_def split: option.split)

lemma get_promote:
  "map_get (promote author k v m) u =
     (if u = v \<and> u \<noteq> author then raise_kind k (map_get m u) else map_get m u)"
  by (auto simp: promote_def raise_kind_def split: option.split)

lemma get_promote_all:
  "map_get (fold (promote author k) us m) u =
     (if u \<in> set us \<and> u \<noteq> author then raise_kind k (map_get m u) else map_get m u)"
  by (induction us arbitrary: m) (auto simp: get_promote)

lemma get_promote_roles:
  "map_get (fold (\<lambda>r m. fold (promote author k) (us r) m) rs m) u =
     (if (\<exists>r \<in> set rs. u \<in> set (us r)) \<and> u \<noteq> author then raise_kind k (map_get m u) else map_get m u)"
  by (induction rs arbitrary: m) (auto simp: get_promote_all)

lemma promote_all_ok: "map_ok m \<Longrightarrow> map_ok (fold (promote author k) us m)"
  by (induction us arbitrary: m) (auto simp: promote_def split: option.split)

lemma promote_roles_ok:
  "map_ok m \<Longrightarrow> map_ok (fold (\<lambda>r m. fold (promote author k) (us r) m) rs m)"
  by (induction rs arbitrary: m) (auto simp: promote_all_ok)

lemma get_fold_del:
  "map_get (fold (\<lambda>b m. map_del (f b) m) bs m) u = (if u \<in> f ` set bs then None else map_get m u)"
  by (induction bs arbitrary: m) auto

lemma fold_del_ok: "map_ok m \<Longrightarrow> map_ok (fold (\<lambda>b m. map_del (f b) m) bs m)"
  by (induction bs arbitrary: m) auto

lemma set_member_user_where:
  "set (member_user_where d s P) =
     {u. is_member_of d s u \<and> (\<exists>row. find_user d u = Some row \<and> P row)}"
  by (auto simp: member_user_where_def is_member_of_def split: option.splits)

lemma blocked_iff:
  "isBlocked d u author \<longleftrightarrow> (\<exists>b \<in> set (db_blocks d). blk_blockerId b = u \<and> blk_blockedId b = author)"
  by (auto simp: isBlocked_def find_None_iff)

lemma get_collect_groups:
  "map_get (collect_groups d parsed s author) u =
     (if u = author then None
      else if wants_group ''everyone'' parsed \<and> is_member_of d s u then Some MentionEveryone
      else if wants_group ''here'' parsed \<and> is_member_of d s u \<and> is_present d u then Some MentionHere
      else None)"
proof -
  have all: "u \<in> set (map mem_userId (filter (\<lambda>r. mem_serverId r = s) (db_members d))) \<longleftrightarrow> is_member_of d s u"
    by (auto simp: is_member_of_def)
  have here: "u \<in> set (member_user_where d s (\<lambda>u. usr_presence u = Active \<or> usr_presence u = Idle)) \<longleftrightarrow>
      is_member_of d s u \<and> is_present d u"
    by (simp add: set_member_user_where is_present_def)
  show ?thesis
    unfolding collect_groups_def Let_def
    by (cases "wants_group ''everyone'' parsed"; cases "wants_group ''here'' parsed"; cases "u = author")
      (simp_all only: get_promote_all all here if_True if_False simp_thms map_of.simps raise_kind_simps
        mention_rank_def mention_kind.case split: if_split, simp_all)
qed

lemma get_collect_names:
  assumes "names = nameMentions parsed"
  shows "map_get (collect_names d names s author m) u =
     (let x = (if holds_named_role d parsed s u \<and> u \<noteq> author then raise_kind MentionRole (map_get m u) else map_get m u)
      in if is_member_of d s u \<and> is_named_user d parsed s u \<and> u \<noteq> author then raise_kind MentionUser x else x)"
proof (cases "names = []")
  case True
  then show ?thesis
    using assms by (simp add: collect_names_def holds_named_role_def named_roles_def is_named_user_def)
next
  case False
  let ?roles = "filter (\<lambda>r. rol_serverId r = s \<and> rol_name r \<in> set names) (db_roles d)"
  let ?cands = "filter (\<lambda>n. n \<notin> set (map rol_name ?roles)) names"
  let ?P = "\<lambda>u. usr_displayName u \<in> set ?cands \<or> usr_username u \<in> set ?cands"
  define m' where "m' = fold (\<lambda>role m. fold (promote author MentionRole)
      (map mr_userId (filter (\<lambda>a. mr_roleId a = rol_id role) (db_member_roles d))) m) ?roles m"
  have roles: "set ?roles = named_roles d parsed s"
    using assms by (auto simp: named_roles_def)
  have m: "map_get m' u =
      (if holds_named_role d parsed s u \<and> u \<noteq> author then raise_kind MentionRole (map_get m u) else map_get m u)"
    unfolding m'_def get_promote_roles roles holds_named_role_def by (simp add: image_iff) blast
  have cands: "n \<in> set ?cands \<longleftrightarrow> n \<in> set (nameMentions parsed) \<and> n \<notin> rol_name ` named_roles d parsed s" for n
    using assms by (auto simp: named_roles_def)
  have users: "(\<exists>row. find_user d u = Some row \<and> ?P row) = is_named_user d parsed s u"
    unfolding is_named_user_def cands by blast
  have run: "collect_names d names s author m =
      (if ?cands = [] then m' else fold (promote author MentionUser) (member_user_where d s ?P) m')"
    using False unfolding collect_names_def Let_def m'_def by simp
  show ?thesis
  proof (cases "?cands = []")
    case True
    then have "\<not> is_named_user d parsed s u" using users by simp
    then show ?thesis
      unfolding run m [symmetric] Let_def using True by simp
  next
    case c: False
    have "u \<in> set (member_user_where d s ?P) \<longleftrightarrow> is_member_of d s u \<and> is_named_user d parsed s u"
      unfolding set_member_user_where mem_Collect_eq users ..
    then show ?thesis
      unfolding run m [symmetric] Let_def using c by (simp only: if_False get_promote_all simp_thms conj_assoc)
  qed
qed

lemma collect_ok: "map_ok (collect_names d names s author (collect_groups d parsed s author))"
  by (simp add: collect_names_def collect_groups_def Let_def promote_all_ok promote_roles_ok)

lemma get_drop_blockers:
  "map_get (drop_blockers d author m) u = (if isBlocked d u author then None else map_get m u)"
proof -
  have "map_get m u = None" if "u \<notin> set (map fst m)"
    using that by (simp add: map_of_eq_None_iff)
  then show ?thesis
    by (auto simp: drop_blockers_def Let_def get_fold_del blocked_iff)
qed

text \<open>
  Who is notified: exactly the users with a reason, except the author and everyone who has
  blocked the author; each of them once, for the strongest reason: being a member when everyone is
  addressed, being an active or idle member when those present are, holding a role that is named,
  or being a member whose display name or user name is named and is not the name of a role.
\<close>

theorem mention_recipients_exact:
  assumes "parsed \<noteq> []"
  shows "distinct (map fst (resolveMentionRecipients d parsed serverId author)) \<and>
    map_get (resolveMentionRecipients d parsed serverId author) u =
      (if u = author \<or> isBlocked d u author then None else strongest_mention d parsed serverId u)"
proof -
  have "map_ok (drop_blockers d author m)" if "map_ok m" for m
    using that by (simp add: drop_blockers_def Let_def fold_del_ok)
  then have "map_ok (resolveMentionRecipients d parsed serverId author)"
    using assms collect_ok by (simp add: resolveMentionRecipients_def)
  moreover have "map_get (resolveMentionRecipients d parsed serverId author) u =
      (if u = author \<or> isBlocked d u author then None else strongest_mention d parsed serverId u)"
    using assms
    by (simp add: resolveMentionRecipients_def get_drop_blockers get_collect_names get_collect_groups
        strongest_mention_def mention_rank_def Let_def)
  ultimately show ?thesis
    by (simp add: map_ok_def)
qed

theorem mention_recipients_exact_witness:
  "map_get (resolveMentionRecipients sample_db [NameMention ''mod'' ''@mod''] ''S'' ''olga'') ''ann'' = Some MentionRole"
proof -
  have names: "nameMentions [NameMention ''mod'' ''@mod''] = [''mod'']"
    by (simp add: nameMentions_def)
  have rows: "\<lparr>rol_id = ''mod'', rol_serverId = ''S'', rol_name = ''mod'', rol_permissions = 2056, rol_position = 5\<rparr>
      \<in> set (db_roles sample_db)" "\<lparr>mr_serverId = ''S'', mr_userId = ''ann'', mr_roleId = ''mod''\<rparr> \<in> set (db_member_roles sample_db)"
    by (simp_all add: sample_db_def)
  have "holds_named_role sample_db [NameMention ''mod'' ''@mod''] ''S'' ''ann''"
    unfolding holds_named_role_def
    apply (rule bexI [where x = "\<lparr>rol_id = ''mod'', rol_serverId = ''S'', rol_name = ''mod'', rol_permissions = 2056, rol_position = 5\<rparr>"])
    subgoal by (rule bexI [OF _ rows(2)]) simp
    subgoal using names rows(1) by (simp add: named_roles_def)
    done
  then have "strongest_mention sample_db [NameMention ''mod'' ''@mod''] ''S'' ''ann'' = Some MentionRole"
    by (simp add: strongest_mention_def wants_group_def)
  moreover have "\<not> isBlocked sample_db ''ann'' ''olga''"
    by (simp add: isBlocked_def sample_db_def empty_db_def)
  moreover have "[NameMention ''mod'' ''@mod''] \<noteq> []" by simp
  from mention_recipients_exact [OF this, of sample_db "''S''" "''olga''" "''ann''"]
  have "map_get (resolveMentionRecipients sample_db [NameMention ''mod'' ''@mod''] ''S'' ''olga'') ''ann'' =
      (if ''ann'' = ''olga'' \<or> isBlocked sample_db ''ann'' ''olga'' then None
       else strongest_mention sample_db [NameMention ''mod'' ''@mod''] ''S'' ''ann'')"
    by (rule conjunct2)
  ultimately show ?thesis by simp
qed

section \<open>Rows\<close>

record mention_row =
  mn_id :: ident
  mn_userId :: ident
  mn_messageId :: ident
  mn_channelId :: "ident option"
  mn_dmChannelId :: "ident option"
  mn_kind :: mention_kind

record read_state_row =
  rs_userId :: ident
  rs_channelId :: ident
  rs_mentionCount :: int

record mention_tables =
  mt_mentions :: "mention_row list"
  mt_readStates :: "read_state_row list"

text \<open>The ULIDs are fresh, so that no row is skipped as a duplicate.\<close>

definition bump_mention :: "ident \<Rightarrow> ident \<Rightarrow> read_state_row list \<Rightarrow> read_state_row list" where
  "bump_mention userId channelId rows =
     upsert_where (\<lambda>r. rs_userId r = userId \<and> rs_channelId r = channelId)
       \<lparr>rs_userId = userId, rs_channelId = channelId, rs_mentionCount = 1\<rparr>
       (\<lambda>r. r\<lparr>rs_mentionCount := rs_mentionCount r + 1\<rparr>) rows"

definition writeMentionRecords ::
    "(nat \<Rightarrow> ident) \<Rightarrow> recipients \<Rightarrow> ident \<Rightarrow> ident option \<Rightarrow> ident option \<Rightarrow> mention_tables \<Rightarrow> mention_tables" where
  "writeMentionRecords ulids recipients messageId channelId dmChannelId t =
     (if recipients = [] then t
      else
        let t = t\<lparr>mt_mentions := mt_mentions t @
              map (\<lambda>(i, (u, k)). \<lparr>mn_id = ulids i, mn_userId = u, mn_messageId = messageId, mn_channelId = channelId,
                     mn_dmChannelId = dmChannelId, mn_kind = k\<rparr>) (enumerate 0 recipients)\<rparr>
        in if channelId = None \<or> channelId = Some '''' then t
           else t\<lparr>mt_readStates := fold (\<lambda>(u, k). bump_mention u (the channelId)) recipients (mt_readStates t)\<rparr>)"

text \<open>The profile look-ups that are started, one per qualified mention.\<close>

definition resolveQualifiedMentionsAsync :: "string \<Rightarrow> bool \<Rightarrow> string list" where
  "resolveQualifiedMentionsAsync content has_profiles =
     (if \<not> has_profiles then []
      else fold (\<lambda>(l, h) seen. let i = l @ ''@'' @ h in if i \<in> set seen then seen else seen @ [i])
             (qualifiedMentions content) [])"

end
