(* ===== verification/Totp.thy ===== *)
theory Totp
  imports Bytes
begin

text \<open>
  Time-based one-time passwords (apps/api/src/lib/totp.ts): base32, HOTP on 32-bit integers, the
  verification window, backup codes. HMAC-SHA-1, SHA-256 and random bytes are arguments. Strings of
  binary digits are lists of booleans. The clock is past 1970, so a counter is a natural number.
\<close>

unbundle bit_operations_syntax

section \<open>Base 32\<close>

definition BASE32 :: string where
  "BASE32 = ''ABCDEFGHIJKLMNOPQRSTUVWXYZ234567''"

definition base32Encode :: "byte list \<Rightarrow> string" where
  "base32Encode buf = encode_bits 5 BASE32 (byte_bits buf)"

definition upper_char :: "char \<Rightarrow> string" where
  "upper_char c =
     (let n = (of_char c :: nat)
      in if (97 \<le> n \<and> n \<le> 122) \<or> (224 \<le> n \<and> n \<le> 254 \<and> n \<noteq> 247) then [char_of (n - 32)]
         else if n = 223 then ''SS'' else [c])"

definition toUpperCase :: "string \<Rightarrow> string" where
  "toUpperCase s = concat (map upper_char s)"

fun read_base32 :: "string \<Rightarrow> bool list option" where
  "read_base32 [] = Some []"
| "read_base32 (ch # rest) =
     (case index_of ch BASE32 of
        None \<Rightarrow> None
      | Some idx \<Rightarrow> map_option (\<lambda>bits. binary 5 idx @ bits) (read_base32 rest))"

text \<open>\<^const>\<open>None\<close>: an invalid character makes it throw.\<close>

definition base32Decode :: "string \<Rightarrow> byte list option" where
  "base32Decode s = map_option read_bytes (read_base32 (filter (\<lambda>c. c \<noteq> CHR ''='') (toUpperCase s)))"

subsection \<open>Round trip\<close>

lemma alphabet_ok: "list_all (\<lambda>v. index_of (BASE32 ! v) BASE32 = Some v \<and> upper_char (BASE32 ! v) = [BASE32 ! v] \<and>
    BASE32 ! v \<noteq> CHR ''='') [0..<32]"
  by (simp add: BASE32_def upt_rec upper_char_def)

lemma alphabet_index:
  assumes "v < 32"
  shows "index_of (BASE32 ! v) BASE32 = Some v" "upper_char (BASE32 ! v) = [BASE32 ! v]" "BASE32 ! v \<noteq> CHR ''=''"
  using alphabet_ok assms by (auto simp: list_all_iff)

lemma read_base32_concat:
  "set s \<subseteq> (\<lambda>v. BASE32 ! v) ` {..<32} \<Longrightarrow>
   read_base32 s = Some (concat (map (\<lambda>c. binary 5 (get_or 0 (index_of c BASE32))) s))"
  by (induction s) (auto simp: alphabet_index(1))

lemma decode_encode_bits:
  "\<exists>pad. read_base32 (encode_bits 5 BASE32 bits) = Some (bits @ pad) \<and> length pad < 5"
proof -
  have "set (encode_bits 5 BASE32 bits) \<subseteq> (\<lambda>v. BASE32 ! v) ` {..<32}"
    using encode_chars [of 5 BASE32 bits] by simp
  moreover obtain pad where "concat (map (\<lambda>c. binary 5 (get_or 0 (index_of c BASE32))) (encode_bits 5 BASE32 bits)) = bits @ pad"
      "length pad < 5"
    using encode_bits_concat [of 5 "\<lambda>c. binary 5 (get_or 0 (index_of c BASE32))" BASE32 bits]
    by (auto simp: alphabet_index(1))
  ultimately show ?thesis
    by (auto simp: read_base32_concat)
qed

lemma toUpperCase_id: "(\<And>c. c \<in> set s \<Longrightarrow> upper_char c = [c]) \<Longrightarrow> toUpperCase s = s"
  by (induction s) (auto simp: toUpperCase_def)

lemma decode_encode: "base32Decode (base32Encode buf) = Some buf"
proof -
  let ?s = "base32Encode buf"
  have chars: "\<exists>v < 32. c = BASE32 ! v" if "c \<in> set ?s" for c
    using that encode_chars [of 5 BASE32 "byte_bits buf"] by (auto simp: base32Encode_def)
  then have "toUpperCase ?s = ?s"
    using alphabet_index(2) by (intro toUpperCase_id) auto
  moreover have "filter (\<lambda>c. c \<noteq> CHR ''='') ?s = ?s"
    using chars alphabet_index(3) by (fastforce simp: filter_id_conv)
  moreover obtain pad where "read_base32 ?s = Some (byte_bits buf @ pad)" "length pad < 5"
    using decode_encode_bits [of "byte_bits buf"] by (auto simp: base32Encode_def)
  ultimately show ?thesis
    by (simp add: base32Decode_def read_bytes_bits)
qed

text \<open>
  Base 32 loses nothing: decoding an encoded secret of any length gives the bytes back.
\<close>

theorem base32_roundtrip: "base32Decode (base32Encode buf) = Some buf"
  by (rule decode_encode)

section \<open>Codes\<close>

definition counter_bytes :: "nat \<Rightarrow> byte list" where  \<comment> \<open>\<open>writeBigUInt64BE\<close>\<close>
  "counter_bytes counter = map (\<lambda>i. word_of_nat (drop_bit (8 * i) counter)) (rev [0..<8])"

text \<open>Reading past the end gives \<open>undefined\<close>, which the bit operations take for 0.\<close>

definition byte_at :: "byte list \<Rightarrow> nat \<Rightarrow> 32 word" where
  "byte_at buf i = (if i < length buf then ucast (buf ! i) else 0)"

definition truncate_hmac :: "byte list \<Rightarrow> 32 word" where
  "truncate_hmac mac =
     (let offset = unat (byte_at mac (length mac - 1) AND 0x0f)
      in push_bit 24 (byte_at mac offset AND 0x7f) OR
         push_bit 16 (byte_at mac (offset + 1) AND 0xff) OR
         push_bit 8 (byte_at mac (offset + 2) AND 0xff) OR
         (byte_at mac (offset + 3) AND 0xff))"

text \<open>The 32-bit result is a signed number, and the remainder takes its sign.\<close>

definition js_rem :: "int \<Rightarrow> int \<Rightarrow> int" where
  "js_rem a b = (if a < 0 then - ((- a) mod b) else a mod b)"

definition hotp :: "(byte list \<Rightarrow> byte list \<Rightarrow> byte list) \<Rightarrow> byte list \<Rightarrow> nat \<Rightarrow> string" where
  "hotp hmac secret counter =
     (let code = sint (truncate_hmac (hmac secret (counter_bytes counter)))
      in padStart 6 (CHR ''0'') (show_int (js_rem code (10 ^ 6))))"

definition six_digits :: "string \<Rightarrow> bool" where
  "six_digits code \<longleftrightarrow> length code = 6 \<and> list_all is_digit code"

definition totp_counter :: "millis \<Rightarrow> nat" where
  "totp_counter now = nat (now div 30000)"

text \<open>The candidates from \<open>-window\<close> to \<open>window\<close>, the first match wins.\<close>

definition verifyTotpWithCounter ::
    "(byte list \<Rightarrow> byte list \<Rightarrow> byte list) \<Rightarrow> millis \<Rightarrow> string \<Rightarrow> string \<Rightarrow> nat \<Rightarrow> nat option" where
  "verifyTotpWithCounter hmac now secret code window =
     (if \<not> six_digits code then None
      else case base32Decode secret of
             None \<Rightarrow> None
           | Some secretBuf \<Rightarrow>
               let counter = totp_counter now
               in List.find (\<lambda>candidate. hotp hmac secretBuf candidate = code) [counter - window..<counter + window + 1])"

definition verifyTotp :: "(byte list \<Rightarrow> byte list \<Rightarrow> byte list) \<Rightarrow> millis \<Rightarrow> string \<Rightarrow> string \<Rightarrow> nat \<Rightarrow> bool" where
  "verifyTotp hmac now secret code window = (verifyTotpWithCounter hmac now secret code window \<noteq> None)"

text \<open>The secret is 20 random bytes.\<close>

definition otpauthUrl :: "string \<Rightarrow> string \<Rightarrow> string \<Rightarrow> string" where
  "otpauthUrl secret label issuer =
     ''otpauth://totp/'' @ encodeURIComponent issuer @ '':'' @ encodeURIComponent label @
     ''?secret='' @ secret @ ''&issuer='' @ encodeURIComponent issuer @ ''&period=30&digits=6&algorithm=SHA1''"

definition generateTotpSecret :: "byte list \<Rightarrow> string" where
  "generateTotpSecret random = base32Encode random"

lemma truncate_hmac_nonneg: "0 \<le> sint (truncate_hmac mac)"
proof -
  have "\<not> bit (truncate_hmac mac) 31"
    by (simp add: truncate_hmac_def Let_def bit_simps)
  then show ?thesis
    by (simp add: sint_uint signed_take_bit_nonnegative_iff bit_simps)
qed

lemma length_show_nat: "n < 10 ^ Suc k \<Longrightarrow> length (show_nat n) \<le> Suc k"
proof (induction k arbitrary: n)
  case 0
  then show ?case by (subst show_nat.simps) simp
next
  case (Suc k)
  have "length (show_nat (n div 10)) \<le> Suc k"
    using Suc by (intro Suc.IH) (auto simp: div_less_iff_less_mult)
  then show ?case by (subst show_nat.simps) simp
qed

lemma hotp_six_digits: "six_digits (hotp hmac k n)"
proof -
  define m where "m = nat (sint (truncate_hmac (hmac k (counter_bytes n))) mod 10 ^ 6)"
  have "int m < 10 ^ 6"
    by (simp add: m_def)
  then have "length (show_nat m) \<le> 6"
    using length_show_nat [of m 5] by simp
  moreover have "\<not> sint (truncate_hmac (hmac k (counter_bytes n))) mod 1000000 < 0"
    by (simp add: not_less)
  then have "hotp hmac k n = padStart 6 (CHR ''0'') (show_nat m)"
    using truncate_hmac_nonneg [of "hmac k (counter_bytes n)"]
    by (simp add: hotp_def js_rem_def show_int_def m_def Let_def)
  moreover have "list_all is_digit (show_nat m)"
    using show_nat_digits [of m] by (simp add: list_all_iff)
  ultimately show ?thesis
    by (auto simp: six_digits_def padStart_def list_all_iff is_digit_def)
qed

lemma find_some_iff: "List.find P xs \<noteq> None \<longleftrightarrow> (\<exists>x \<in> set xs. P x)"
  by (auto simp: find_None_iff)

text \<open>
  Two-factor codes: with a secret handed out by \<open>generateTotpSecret\<close> the server accepts exactly
  the codes that an authenticator holding the raw key computes for a 30-second slot at most the window
  away from now, and every code is six digits.
\<close>

theorem totp_accepts_exactly:
  "(verifyTotp hmac now (generateTotpSecret raw) code window \<longleftrightarrow>
     (\<exists>c. totp_counter now - window \<le> c \<and> c \<le> totp_counter now + window \<and> code = hotp hmac raw c)) \<and>
   six_digits (hotp hmac raw n)"
proof -
  have decode: "base32Decode (generateTotpSecret raw) = Some raw"
    unfolding generateTotpSecret_def by (rule decode_encode)
  have "verifyTotp hmac now (generateTotpSecret raw) code window \<longleftrightarrow>
      six_digits code \<and> (\<exists>c \<in> {totp_counter now - window..<totp_counter now + window + 1}. hotp hmac raw c = code)"
    unfolding verifyTotp_def verifyTotpWithCounter_def decode Let_def
    by (simp only: option.case find_some_iff set_upt split: if_split) blast
  then show ?thesis
    using hotp_six_digits [of hmac raw] by (auto simp: less_Suc_eq_le)
qed

section \<open>Backup codes\<close>

definition BASE64URL :: string where
  "BASE64URL = ''ABCDEFGHIJKLMNOPQRSTUVWXYZabcdefghijklmnopqrstuvwxyz0123456789-_''"

text \<open>Each code from seven random bytes.\<close>

definition backup_code :: "byte list \<Rightarrow> string" where
  "backup_code random =
     (let raw = toUpperCase (take 12 (encode_bits 6 BASE64URL (byte_bits random)))
      in take 4 raw @ ''-'' @ take 4 (drop 4 raw) @ ''-'' @ take 4 (drop 8 raw))"

definition generateBackupCodes :: "byte list list \<Rightarrow> string list" where
  "generateBackupCodes randoms = map backup_code randoms"

definition hashBackupCode :: "(string \<Rightarrow> string) \<Rightarrow> string \<Rightarrow> string" where
  "hashBackupCode sha256 code = sha256 (toUpperCase code)"

lemma length_encode_bits: "0 < n \<Longrightarrow> length (encode_bits n alphabet bits) = (length bits + n - 1) div n"
proof (induction "length bits" arbitrary: bits rule: less_induct)
  case less
  show ?case
  proof (cases "bits = []")
    case True
    then show ?thesis using less.prems by (subst encode_bits.simps) simp
  next
    case False
    then obtain l where l: "length bits = Suc l" by (cases bits) auto
    have "length (encode_bits n alphabet (drop n bits)) = (length bits - n + n - 1) div n"
      using less False by simp
    also have "\<dots> = l div n"
      using l less.prems by (cases "n \<le> length bits") auto
    finally have "length (encode_bits n alphabet bits) = Suc (l div n)"
      using False less.prems by (subst encode_bits.simps) (simp add: Let_def)
    moreover have "(length bits + n - 1) div n = Suc (l div n)"
      using l less.prems div_add_self2 [of n l] by simp
    ultimately show ?thesis by simp
  qed
qed

lemma length_byte_bits: "length (byte_bits buf) = 8 * length buf"
  by (induction buf) (auto simp: byte_bits_def)

lemma base64url_upper: "list_all (\<lambda>v. length (upper_char (BASE64URL ! v)) = 1) [0..<64]"
  by (simp add: BASE64URL_def upt_rec upper_char_def)

lemma length_toUpperCase: "(\<And>c. c \<in> set s \<Longrightarrow> length (upper_char c) = 1) \<Longrightarrow> length (toUpperCase s) = length s"
  by (induction s) (auto simp: toUpperCase_def)

text \<open>A code has ten characters in groups of four, four and two.\<close>

lemma backup_code_format:
  assumes "length random = 7"
  shows "length (backup_code random) = 12 \<and> backup_code random ! 4 = CHR ''-'' \<and> backup_code random ! 9 = CHR ''-''"
proof -
  let ?e = "encode_bits 6 BASE64URL (byte_bits random)"
  have "length (upper_char c) = 1" if "c \<in> set ?e" for c
    using that encode_chars [of 6 BASE64URL "byte_bits random"] base64url_upper by (auto simp: list_all_iff)
  then have "length (toUpperCase (take 12 ?e)) = 10"
    using assms by (subst length_toUpperCase) (auto simp: length_encode_bits length_byte_bits dest: in_set_takeD)
  then show ?thesis
    by (simp add: backup_code_def Let_def nth_append)
qed

end
