(* ===== verification/AuthTokens.thy ===== *)
theory AuthTokens
  imports JsText Errors Database
begin

text \<open>
  The tokens of a login: JSON web tokens and how their claims are checked (apps/api/src/lib/jwt.ts),
  the staged token between password and second factor (first part of
  apps/api/src/services/auth-service.ts), and how a request is authenticated
  (apps/api/src/plugins/auth.ts). Signing, verifying and hashing are arguments.
\<close>

section \<open>JSON web tokens\<close>

text \<open>What the library makes of a token for a key, an issuer and an audience.\<close>

record jwt_claims =
  jc_typ :: "string option"
  jc_sub :: "string option"
  jc_sid :: "string option"
  jc_jti :: "string option"

datatype jwt_outcome = JwtExpired | JwtInvalid | JwtPayload jwt_claims

record jwt_library =
  jl_sign :: "string \<Rightarrow> string \<Rightarrow> string \<Rightarrow> jwt_claims \<Rightarrow> int \<Rightarrow> string"   \<comment> \<open>key, issuer, audience, claims, exp\<close>
  jl_verify :: "string \<Rightarrow> string \<Rightarrow> string \<Rightarrow> int \<Rightarrow> string \<Rightarrow> jwt_outcome"    \<comment> \<open>key, issuer, audience, seconds, token\<close>

record jwt_config =
  jw_accessSecret :: string
  jw_refreshSecret :: string
  jw_accessTtlSeconds :: int
  jw_refreshTtlSeconds :: int
  jw_issuer :: "string option"

definition ACCESS_AUDIENCE :: string where "ACCESS_AUDIENCE = ''tavern-api''"
definition REFRESH_AUDIENCE :: string where "REFRESH_AUDIENCE = ''tavern-refresh''"

definition jwt_issuer :: "jwt_config \<Rightarrow> string" where
  "jwt_issuer cfg = get_or ''tavern'' (jw_issuer cfg)"

record signed_token =
  sgt_token :: string
  sgt_expiresAt :: millis

definition signAccess :: "jwt_library \<Rightarrow> jwt_config \<Rightarrow> millis \<Rightarrow> ident \<Rightarrow> ident \<Rightarrow> signed_token" where
  "signAccess lib cfg now sub sid =
     (let expiresAt = now + jw_accessTtlSeconds cfg * 1000
      in \<lparr>sgt_token = jl_sign lib (jw_accessSecret cfg) (jwt_issuer cfg) ACCESS_AUDIENCE
             \<lparr>jc_typ = Some ''access'', jc_sub = Some sub, jc_sid = Some sid, jc_jti = None\<rparr> (expiresAt div 1000),
          sgt_expiresAt = expiresAt\<rparr>)"

definition signRefresh :: "jwt_library \<Rightarrow> jwt_config \<Rightarrow> millis \<Rightarrow> ident \<Rightarrow> ident \<Rightarrow> ident \<Rightarrow> signed_token" where
  "signRefresh lib cfg now sub sid jti =
     (let expiresAt = now + jw_refreshTtlSeconds cfg * 1000
      in \<lparr>sgt_token = jl_sign lib (jw_refreshSecret cfg) (jwt_issuer cfg) REFRESH_AUDIENCE
             \<lparr>jc_typ = Some ''refresh'', jc_sub = Some sub, jc_sid = Some sid, jc_jti = Some jti\<rparr> (expiresAt div 1000),
          sgt_expiresAt = expiresAt\<rparr>)"

definition verifyAccess :: "jwt_library \<Rightarrow> jwt_config \<Rightarrow> millis \<Rightarrow> string \<Rightarrow> tavern_error + (ident \<times> ident)" where
  "verifyAccess lib cfg now token =
     (case jl_verify lib (jw_accessSecret cfg) (jwt_issuer cfg) ACCESS_AUDIENCE (now div 1000) token of
        JwtExpired \<Rightarrow> Inl (TavernError EXPIRED_TOKEN ''Access token expired'' 401 None)
      | JwtInvalid \<Rightarrow> Inl (TavernError INVALID_TOKEN ''Invalid access token'' 401 None)
      | JwtPayload p \<Rightarrow>
          (case (jc_sub p, jc_sid p) of
             (Some sub, Some sid) \<Rightarrow>
               if jc_typ p \<noteq> Some ''access'' then Inl (unauthorized (Some ''Malformed token'')) else Inr (sub, sid)
           | _ \<Rightarrow> Inl (unauthorized (Some ''Malformed token''))))"

definition verifyRefresh :: "jwt_library \<Rightarrow> jwt_config \<Rightarrow> millis \<Rightarrow> string \<Rightarrow> tavern_error + (ident \<times> ident)" where
  "verifyRefresh lib cfg now token =
     (case jl_verify lib (jw_refreshSecret cfg) (jwt_issuer cfg) REFRESH_AUDIENCE (now div 1000) token of
        JwtExpired \<Rightarrow> Inl (TavernError EXPIRED_TOKEN ''Refresh token expired'' 401 None)
      | JwtInvalid \<Rightarrow> Inl (TavernError INVALID_TOKEN ''Invalid refresh token'' 401 None)
      | JwtPayload p \<Rightarrow>
          (case (jc_sub p, jc_sid p, jc_jti p) of
             (Some sub, Some sid, Some jti) \<Rightarrow>
               if jc_typ p \<noteq> Some ''refresh''
               then Inl (TavernError INVALID_TOKEN ''Malformed refresh token'' 401 None) else Inr (sub, sid)
           | _ \<Rightarrow> Inl (TavernError INVALID_TOKEN ''Malformed refresh token'' 401 None)))"

section \<open>Staged tokens\<close>

definition STAGED_TOTP_TTL_MS :: millis where "STAGED_TOTP_TTL_MS = 5 * 60 * 1000"
definition STAGED_TOTP_VERSION :: nat where "STAGED_TOTP_VERSION = 1"

definition getStagedTotpKey :: "string option \<Rightarrow> string \<Rightarrow> string" where
  "getStagedTotpKey secret accessSecret =
     (case secret of
        Some s \<Rightarrow> if length s \<ge> 32 then s else ''tvn-totp-stage-fallback:'' @ accessSecret
      | None \<Rightarrow> ''tvn-totp-stage-fallback:'' @ accessSecret)"

definition stage_mac :: "(string \<Rightarrow> string \<Rightarrow> string) \<Rightarrow> string \<Rightarrow> string \<Rightarrow> string" where
  "stage_mac hmac k payload = hmac (''tvn-totp-stage:'' @ k) payload"

definition signStagedTotpToken :: "(string \<Rightarrow> string \<Rightarrow> string) \<Rightarrow> millis \<Rightarrow> ident \<Rightarrow> string \<Rightarrow> string" where
  "signStagedTotpToken hmac now userId k =
     (let expires = now + STAGED_TOTP_TTL_MS;
          payload = show_nat STAGED_TOTP_VERSION @ ''.'' @ userId @ ''.'' @ show_int expires
      in payload @ ''.'' @ stage_mac hmac k payload)"

fun split_on :: "char \<Rightarrow> string \<Rightarrow> string list" where
  "split_on sep [] = [[]]"
| "split_on sep (c # cs) =
     (if c = sep then [] # split_on sep cs
      else case split_on sep cs of [] \<Rightarrow> [[c]] | p # ps \<Rightarrow> (c # p) # ps)"

definition number_before :: "js_number \<Rightarrow> int \<Rightarrow> bool" where
  "number_before x v =
     (case x of NaN \<Rightarrow> False | Infinite positive \<Rightarrow> \<not> positive
      | Dec m e \<Rightarrow> if e \<ge> 0 then m * 10 ^ nat e < v else m < v * 10 ^ nat (- e))"

definition is_finite_number :: "js_number \<Rightarrow> bool" where
  "is_finite_number x = (case x of Dec m e \<Rightarrow> True | _ \<Rightarrow> False)"

definition verifyStagedTotpToken :: "(string \<Rightarrow> string \<Rightarrow> string) \<Rightarrow> millis \<Rightarrow> string \<Rightarrow> string \<Rightarrow> ident option" where
  "verifyStagedTotpToken hmac now token k =
     (case split_on (CHR ''.'') token of
        [version, userId, expiresStr, sig] \<Rightarrow>
          if version \<noteq> show_nat STAGED_TOTP_VERSION \<or> userId = [] \<or> expiresStr = [] \<or> sig = [] then None
          else if \<not> is_finite_number (Number expiresStr) \<or> number_before (Number expiresStr) now then None
          else
            let expected = stage_mac hmac k (version @ ''.'' @ userId @ ''.'' @ expiresStr)
            in if length expected \<noteq> length sig then None
               else if expected \<noteq> sig then None
               else Some userId
      | _ \<Rightarrow> None)"

fun join_with :: "char \<Rightarrow> string list \<Rightarrow> string" where
  "join_with sep [] = []"
| "join_with sep [p] = p"
| "join_with sep (p # q # ps) = p @ sep # join_with sep (q # ps)"

lemma split_on_nonempty [simp]: "split_on sep s \<noteq> []"
  by (induction s) (auto split: list.split)

lemma join_split: "join_with sep (split_on sep s) = s"
proof (induction s)
  case (Cons c s)
  obtain p ps where s: "split_on sep s = p # ps"
    by (cases "split_on sep s") auto
  then show ?case
    using Cons by (cases ps) auto
qed simp

lemma split_on_part: "sep \<notin> set s \<Longrightarrow> split_on sep (s @ sep # rest) = s # split_on sep rest"
  by (induction s) auto

lemma split_on_last: "sep \<notin> set s \<Longrightarrow> split_on sep s = [s]"
  by (induction s) auto

lemma Number_show_nat: "Number (show_nat n) = Dec (int n) 0"
proof -
  have d: "\<forall>c \<in> set (show_nat n). is_digit c"
    by (rule show_nat_digits)
  have t: "trim (show_nat n) = show_nat n"
    using trim_show_int [of "int n"] by (simp add: show_int_def)
  have run: "takeWhile is_digit (show_nat n) = show_nat n" "dropWhile is_digit (show_nat n) = []"
    using d by (simp_all add: takeWhile_eq_all_conv dropWhile_eq_Nil_conv)
  obtain c r where cr: "show_nat n = c # r"
    by (cases "show_nat n") auto
  have "show_nat n \<noteq> ''Infinity''"
    using d cr by (auto simp: is_digit_def)
  then have un: "read_unsigned (show_nat n) = Dec (int n) 0"
    unfolding read_unsigned_def read_decimal_def Let_def run by (simp add: digits_value_def read_show_nat)
  have "is_digit c" and r: "\<forall>x \<in> set r. is_digit x"
    using d cr by auto
  moreover from r have "r = [] \<or> hd r \<notin> set ''xXoObB''"
    by (cases r) (auto simp: is_digit_facts)
  ultimately show ?thesis
    using un t by (auto simp: Number_def cr is_digit_facts Let_def)
qed

lemma show_version: "show_nat STAGED_TOTP_VERSION = ''1''"
  by (subst show_nat.simps) (simp add: STAGED_TOTP_VERSION_def digit_char_def char_of_def bit_0)

text \<open>
  The staged token of a two-factor login: the server accepts its own token for the user it was
  made for until it expires, and whatever it accepts is, part by part, a version-1 token for the
  user it answers with, carrying the code of the server's key over exactly that user and expiry, and
  an expiry that has not passed.
\<close>

theorem staged_token_correct:
  assumes "CHR ''.'' \<notin> set userId" and "userId \<noteq> []" and "CHR ''.'' \<notin> set (hmac (''tvn-totp-stage:'' @ k) m)"
    and "hmac (''tvn-totp-stage:'' @ k) m \<noteq> []"
    and "m = ''1.'' @ userId @ ''.'' @ show_int (now + STAGED_TOTP_TTL_MS)"
    and "0 \<le> now" and "later \<le> now + STAGED_TOTP_TTL_MS"
  shows "verifyStagedTotpToken hmac later (signStagedTotpToken hmac now userId k) k = Some userId \<and>
    (\<forall>token u. verifyStagedTotpToken hmac later token k = Some u \<longrightarrow>
      (\<exists>expires. token = ''1.'' @ u @ ''.'' @ expires @ ''.'' @ hmac (''tvn-totp-stage:'' @ k) (''1.'' @ u @ ''.'' @ expires) \<and>
         \<not> number_before (Number expires) later))"
proof (intro conjI allI impI)
  let ?e = "nat (now + STAGED_TOTP_TTL_MS)"
  have pos: "\<not> now + STAGED_TOTP_TTL_MS < 0"
    using assms(6) by (simp add: STAGED_TOTP_TTL_MS_def)
  have one: "show_nat STAGED_TOTP_VERSION = ''1''"
    by (rule show_version)
  have e: "show_int (now + STAGED_TOTP_TTL_MS) = show_nat ?e"
    using pos by (simp add: show_int_def)
  have nodot: "CHR ''.'' \<notin> set (show_nat ?e)"
    using show_nat_digits [of ?e] by (auto simp: is_digit_def)
  have tok: "signStagedTotpToken hmac now userId k = ''1'' @ CHR ''.'' # (userId @ CHR ''.'' # (show_nat ?e @ CHR ''.'' # hmac (''tvn-totp-stage:'' @ k) m))"
    by (simp add: signStagedTotpToken_def one e assms(5) stage_mac_def Let_def)
  have "split_on (CHR ''.'') (signStagedTotpToken hmac now userId k) =
      [''1'', userId, show_nat ?e, hmac (''tvn-totp-stage:'' @ k) m]"
    unfolding tok using assms(1,3) nodot by (simp add: split_on_part split_on_last)
  then show "verifyStagedTotpToken hmac later (signStagedTotpToken hmac now userId k) k = Some userId"
    using assms(2,4,7) pos
    by (simp add: verifyStagedTotpToken_def one Number_show_nat is_finite_number_def number_before_def stage_mac_def
        assms(5) e Let_def)
next
  fix token u
  assume v: "verifyStagedTotpToken hmac later token k = Some u"
  have one: "show_nat STAGED_TOTP_VERSION = ''1''"
    by (rule show_version)
  obtain version uid expires sig where s: "split_on (CHR ''.'') token = [version, uid, expires, sig]"
    using v by (auto simp: verifyStagedTotpToken_def split: list.splits)
  have "token = join_with (CHR ''.'') [version, uid, expires, sig]"
    using join_split [of "CHR ''.''" token] s by simp
  then show "\<exists>expires. token = ''1.'' @ u @ ''.'' @ expires @ ''.'' @ hmac (''tvn-totp-stage:'' @ k) (''1.'' @ u @ ''.'' @ expires) \<and>
      \<not> number_before (Number expires) later"
    using v s by (auto simp: verifyStagedTotpToken_def one stage_mac_def Let_def split: if_splits)
qed

section \<open>Authenticating a request\<close>

record api_token_row =
  atk_id :: ident
  atk_userId :: ident
  atk_tokenHash :: string
  atk_expiresAt :: "millis option"
  atk_revokedAt :: "millis option"
  atk_lastUsedAt :: "millis option"

record auth_context =
  act_userId :: ident
  act_sessionId :: string
  act_isInstanceAdmin :: bool

definition starts_with :: "string \<Rightarrow> string \<Rightarrow> bool" where
  "starts_with p s \<longleftrightarrow> take (length p) s = p"

text \<open>
  The users come as \<open>(id, isInstanceAdmin)\<close>, a header that is absent as \<^const>\<open>None\<close>. The result
  is the context, no context, or an error; a used API token has its \<open>lastUsedAt\<close> moved.
\<close>

definition tryAuthenticate ::
    "jwt_library \<Rightarrow> jwt_config \<Rightarrow> (string \<Rightarrow> string) \<Rightarrow> millis \<Rightarrow> (ident \<times> bool) list \<Rightarrow> 'a session_row_scheme list \<Rightarrow>
     api_token_row list \<Rightarrow> string option \<Rightarrow> (tavern_error + auth_context option) \<times> api_token_row list" where
  "tryAuthenticate lib cfg sha256 now users sessions tokens header =
     (case header of
        None \<Rightarrow> (Inr None, tokens)
      | Some header \<Rightarrow>
          if \<not> starts_with ''Bearer '' header then (Inr None, tokens)
          else
            let token = trim (drop 7 header)
            in if token = [] then (Inr None, tokens)
               else if starts_with ''tvn_pat_'' token \<or> starts_with ''tvn_bot_'' token then
                 (case List.find (\<lambda>r. atk_tokenHash r = sha256 token) tokens of
                    None \<Rightarrow> (Inl (unauthorized (Some ''Token is no longer valid'')), tokens)
                  | Some apiToken \<Rightarrow>
                      if atk_revokedAt apiToken \<noteq> None
                      then (Inl (unauthorized (Some ''Token is no longer valid'')), tokens)
                      else if (case atk_expiresAt apiToken of None \<Rightarrow> False | Some t \<Rightarrow> t < now)
                      then (Inl (unauthorized (Some ''Token has expired'')), tokens)
                      else
                        (Inr (Some \<lparr>act_userId = atk_userId apiToken,
                                act_sessionId = ''apitoken:'' @ atk_id apiToken,
                                act_isInstanceAdmin = get_or False (map_get users (atk_userId apiToken))\<rparr>),
                         update_where (\<lambda>r. atk_id r = atk_id apiToken) (\<lambda>r. r\<lparr>atk_lastUsedAt := Some now\<rparr>) tokens))
               else
                 (case verifyAccess lib cfg now token of
                    Inl e \<Rightarrow> (Inl e, tokens)
                  | Inr (sub, sid) \<Rightarrow>
                      (case List.find (\<lambda>s. ses_id s = sid) sessions of
                         None \<Rightarrow> (Inl (unauthorized (Some ''Session is no longer valid'')), tokens)
                       | Some session \<Rightarrow>
                           if ses_revokedAt session \<noteq> None \<or> ses_expiresAt session < now
                           then (Inl (unauthorized (Some ''Session is no longer valid'')), tokens)
                           else if ses_userId session \<noteq> sub
                           then (Inl (unauthorized (Some ''Session/user mismatch'')), tokens)
                           else (case map_get users (ses_userId session) of
                                   None \<Rightarrow> (Inl (unauthorized (Some ''User not found'')), tokens)
                                 | Some admin \<Rightarrow>
                                     (Inr (Some \<lparr>act_userId = ses_userId session, act_sessionId = ses_id session,
                                            act_isInstanceAdmin = admin\<rparr>), tokens)))))"

definition requireUser ::
    "jwt_library \<Rightarrow> jwt_config \<Rightarrow> (string \<Rightarrow> string) \<Rightarrow> millis \<Rightarrow> (ident \<times> bool) list \<Rightarrow> 'a session_row_scheme list \<Rightarrow>
     api_token_row list \<Rightarrow> string option \<Rightarrow> (tavern_error + auth_context) \<times> api_token_row list" where
  "requireUser lib cfg sha256 now users sessions tokens header =
     (case tryAuthenticate lib cfg sha256 now users sessions tokens header of
        (Inl e, tokens) \<Rightarrow> (Inl e, tokens)
      | (Inr None, tokens) \<Rightarrow> (Inl (unauthorized None), tokens)
      | (Inr (Some ctx), tokens) \<Rightarrow> (Inr ctx, tokens))"

definition optionalUser where
  "optionalUser lib cfg sha256 now users sessions tokens header =
     tryAuthenticate lib cfg sha256 now users sessions tokens header"

text \<open>
  C19. A request is let in only on a live credential: whoever \<open>requireUser\<close> answers with holds either
  an API token of that user whose hash is stored, that is not revoked and has not expired, or an
  access token that verifies for that user and names a session of the user that is stored, not
  revoked and not expired; and the administrator flag is that of the user.
\<close>

theorem requireUser_sound:
  assumes "requireUser lib cfg sha256 now users sessions tokens header = (Inr ctx, tokens')"
  shows "\<exists>token. (\<exists>h. header = Some h \<and> token = trim (drop 7 h)) \<and>
    act_isInstanceAdmin ctx = get_or False (map_get users (act_userId ctx)) \<and>
    ((\<exists>r \<in> set tokens. atk_tokenHash r = sha256 token \<and> atk_userId r = act_userId ctx \<and> atk_revokedAt r = None \<and>
        (\<forall>t. atk_expiresAt r = Some t \<longrightarrow> now \<le> t)) \<or>
     (\<exists>s \<in> set sessions. verifyAccess lib cfg now token = Inr (act_userId ctx, ses_id s) \<and> ses_userId s = act_userId ctx \<and>
        act_sessionId ctx = ses_id s \<and> ses_revokedAt s = None \<and> now \<le> ses_expiresAt s))"
proof -
  obtain h where h: "header = Some h" "starts_with ''Bearer '' h"
    using assms by (auto simp: requireUser_def tryAuthenticate_def split: option.splits if_splits)
  define token where "token = trim (drop 7 h)"
  show ?thesis
  proof (cases "starts_with ''tvn_pat_'' token \<or> starts_with ''tvn_bot_'' token")
    case True
    obtain r where r: "List.find (\<lambda>r. atk_tokenHash r = sha256 token) tokens = Some r" "atk_revokedAt r = None"
        "\<not> (case atk_expiresAt r of None \<Rightarrow> False | Some t \<Rightarrow> t < now)"
        "act_userId ctx = atk_userId r" "act_isInstanceAdmin ctx = get_or False (map_get users (atk_userId r))"
      using assms h True
      by (auto simp: requireUser_def tryAuthenticate_def Let_def token_def [symmetric] split: option.splits if_splits)
    then have "r \<in> set tokens \<and> atk_tokenHash r = sha256 token"
      using find_in_set by fast
    then show ?thesis
      using r h(1) by (intro exI [of _ token]) (auto simp: token_def not_less split: option.splits)
  next
    case False
    obtain s admin sid where s: "verifyAccess lib cfg now token = Inr (ses_userId s, sid)"
        "List.find (\<lambda>x. ses_id x = sid) sessions = Some s" "ses_revokedAt s = None" "\<not> ses_expiresAt s < now"
        "map_get users (ses_userId s) = Some admin" "act_userId ctx = ses_userId s" "act_sessionId ctx = ses_id s"
        "act_isInstanceAdmin ctx = admin"
      using assms h False
      by (auto simp: requireUser_def tryAuthenticate_def Let_def token_def [symmetric]
          split: option.splits if_splits sum.splits)
    then have "s \<in> set sessions" "ses_id s = sid"
      using find_in_set [OF s(2)] by auto
    then show ?thesis
      using s h(1) by (intro exI [of _ token]) (auto simp: token_def not_less)
  qed
qed

text \<open>A library in which a token is its own key, audience and claims.\<close>

definition plain_jwt :: jwt_library where
  "plain_jwt = \<lparr>jl_sign = (\<lambda>k i a c e. k @ ''/'' @ get_or [] (jc_sub c) @ ''/'' @ get_or [] (jc_sid c)),
     jl_verify = (\<lambda>k i a s t. if t = k @ ''/ann/s1'' then JwtPayload \<lparr>jc_typ = Some ''access'', jc_sub = Some ''ann'',
       jc_sid = Some ''s1'', jc_jti = None\<rparr> else JwtInvalid)\<rparr>"

definition plain_jwt_config :: jwt_config where
  "plain_jwt_config = \<lparr>jw_accessSecret = ''a'', jw_refreshSecret = ''r'', jw_accessTtlSeconds = 900,
     jw_refreshTtlSeconds = 2592000, jw_issuer = None\<rparr>"

theorem requireUser_sound_witness:
  "\<exists>ctx. requireUser plain_jwt plain_jwt_config id 5 [(''ann'', True)]
      [\<lparr>ses_id = ''s1'', ses_userId = ''ann'', ses_expiresAt = 9, ses_revokedAt = None\<rparr>] [] (Some ''Bearer a/ann/s1'') =
      (Inr ctx, []) \<and> act_isInstanceAdmin ctx"
proof -
  let ?ctx = "\<lparr>act_userId = ''ann'', act_sessionId = ''s1'', act_isInstanceAdmin = True\<rparr>"
  have run: "requireUser plain_jwt plain_jwt_config id 5 [(''ann'', True)]
      [\<lparr>ses_id = ''s1'', ses_userId = ''ann'', ses_expiresAt = 9, ses_revokedAt = None\<rparr>] [] (Some ''Bearer a/ann/s1'') =
      (Inr ?ctx, [])"
    by (simp add: requireUser_def tryAuthenticate_def starts_with_def trim_def trim_start_def is_space_def
        verifyAccess_def plain_jwt_def plain_jwt_config_def Let_def)
  from requireUser_sound [OF run] run show ?thesis by auto
qed

theorem staged_token_correct_witness:
  "verifyStagedTotpToken (\<lambda>k m. ''sig'') 7 (signStagedTotpToken (\<lambda>k m. ''sig'') 5 ''ann'' ''key'') ''key'' = Some ''ann''"
proof -
  have "CHR ''.'' \<notin> set ''ann''" "''ann'' \<noteq> []" "CHR ''.'' \<notin> set ''sig''" "''sig'' \<noteq> []"
    "(0 :: int) \<le> 5" "(7 :: int) \<le> 5 + STAGED_TOTP_TTL_MS"
    by (simp_all add: STAGED_TOTP_TTL_MS_def)
  from staged_token_correct [of "''ann''" "\<lambda>k m. ''sig''" "''key''", OF this(1-4) refl this(5,6)] show ?thesis
    by blast
qed

end
