(* ===== verification/AuthService.thy ===== *)
theory AuthService
  imports AuthTokens Totp PermissionService
begin

text \<open>
  Accounts and sessions (apps/api/src/services/auth-service.ts): registration and bootstrap, login with
  its lock-outs, the second factor, refresh-token rotation, password changes and resets. Handlers that
  read a row, wait, and write are split there: the part after the wait takes the row it read, so runs
  of the parts cover concurrent requests. Hashing, verifying and signing are in \<open>auth_env\<close>.
\<close>

section \<open>State\<close>

text \<open>The credential columns of a \<open>User\<close> row.\<close>

record account_row =
  acc_id :: ident
  acc_username :: string
  acc_usernameLower :: string
  acc_email :: string
  acc_emailLower :: string
  acc_displayName :: string
  acc_passwordHash :: "string option"
  acc_isInstanceAdmin :: bool
  acc_failedLoginAttempts :: nat
  acc_loginLockedUntil :: "millis option"
  acc_totpEnabled :: bool
  acc_totpSecret :: "string option"
  acc_totpBackupCodes :: "string list"
  acc_totpLastCounter :: int
  acc_failedTotpAttempts :: nat
  acc_totpLockedUntil :: "millis option"
  acc_scheduledDeleteAt :: "millis option"

record auth_session = session_row +
  ses_refreshTokenHash :: string
  ses_createdAt :: millis
  ses_deviceName :: "string option"
  ses_ipAddress :: "string option"
  ses_userAgent :: "string option"

record password_reset_row =
  pr_id :: ident
  pr_userId :: ident
  pr_tokenHash :: string
  pr_createdAt :: millis
  pr_expiresAt :: millis
  pr_usedAt :: "millis option"

datatype invite_scope = InstanceInvite | ServerInvite

record invite_row =
  inv_id :: ident
  inv_code :: string
  inv_scope :: invite_scope
  inv_serverId :: "ident option"
  inv_maxUses :: "int option"
  inv_uses :: int
  inv_expiresAt :: "millis option"
  inv_revokedAt :: "millis option"

record reset_mail =
  rm_to :: string
  rm_subject :: string
  rm_text :: string
  rm_html :: string

record auth_world =
  aw_accounts :: "account_row list"
  aw_sessions :: "auth_session list"
  aw_resets :: "password_reset_row list"
  aw_invites :: "invite_row list"
  aw_db :: db
  aw_mails :: "reset_mail list"
  aw_keyRequests :: "ident list"   \<comment> \<open>users a federation key was asked for\<close>
  aw_prunes :: "ident list"        \<comment> \<open>calls of \<open>pruneOldestSessions\<close> that have not run yet\<close>
  aw_ulids :: "nat \<Rightarrow> ident"
  aw_next :: nat

record session_context =
  sx_ipAddress :: "string option"
  sx_userAgent :: "string option"
  sx_deviceName :: "string option"

record auth_env =
  ae_verifyPassword :: "string \<Rightarrow> string \<Rightarrow> bool"
  ae_hashPassword :: "string \<Rightarrow> string"
  ae_sha256 :: "string \<Rightarrow> string"
  ae_hmac_sha1 :: "byte list \<Rightarrow> byte list \<Rightarrow> byte list"
  ae_hmac_sha256 :: "string \<Rightarrow> string \<Rightarrow> string"
  ae_jwt :: jwt_library
  ae_jwt_config :: jwt_config
  ae_refreshTtlSeconds :: "int option"
  ae_resetTtlSeconds :: int
  ae_stagedSecret :: "string option"
  ae_userKeyStore :: bool
  ae_webBaseUrl :: string

datatype auth_error =
    Tavern tavern_error
  | TotpRequired string
  | DatabaseError          \<comment> \<open>a unique constraint or a missing row\<close>

type_synonym 'a auth_result = "(auth_error + 'a) \<times> auth_world"

record token_pair =
  tp_accessToken :: string
  tp_refreshToken :: string
  tp_accessTokenExpiresAt :: millis
  tp_refreshTokenExpiresAt :: millis

definition FAILED_LOGIN_LOCKOUT_THRESHOLD :: nat where "FAILED_LOGIN_LOCKOUT_THRESHOLD = 10"
definition FAILED_LOGIN_LOCKOUT_MS :: millis where "FAILED_LOGIN_LOCKOUT_MS = 15 * 60 * 1000"
definition FAILED_TOTP_LOCKOUT_THRESHOLD :: nat where "FAILED_TOTP_LOCKOUT_THRESHOLD = 8"
definition FAILED_TOTP_LOCKOUT_MS :: millis where "FAILED_TOTP_LOCKOUT_MS = 15 * 60 * 1000"
definition MAX_ACTIVE_SESSIONS_PER_USER :: nat where "MAX_ACTIVE_SESSIONS_PER_USER = 20"

definition invalid_credentials :: auth_error where
  "invalid_credentials = Tavern (TavernError INVALID_CREDENTIALS ''Invalid credentials'' 401 None)"

definition invalid_code :: auth_error where
  "invalid_code = Tavern (TavernError INVALID_CREDENTIALS ''Invalid code'' 401 None)"

definition fresh_ulid :: "auth_world \<Rightarrow> ident \<times> auth_world" where
  "fresh_ulid w = (aw_ulids w (aw_next w), w\<lparr>aw_next := aw_next w + 1\<rparr>)"

definition update_account :: "ident \<Rightarrow> (account_row \<Rightarrow> account_row) \<Rightarrow> auth_world \<Rightarrow> auth_world" where
  "update_account userId f w = w\<lparr>aw_accounts := update_where (\<lambda>a. acc_id a = userId) f (aw_accounts w)\<rparr>"

definition find_account :: "auth_world \<Rightarrow> ident \<Rightarrow> account_row option" where
  "find_account w userId = List.find (\<lambda>a. acc_id a = userId) (aw_accounts w)"

definition revoke_where :: "millis \<Rightarrow> (auth_session \<Rightarrow> bool) \<Rightarrow> auth_world \<Rightarrow> auth_world" where
  "revoke_where now P w =
     w\<lparr>aw_sessions := update_where P (\<lambda>s. s\<lparr>ses_revokedAt := Some now\<rparr>) (aw_sessions w)\<rparr>"

definition is_active :: "ident \<Rightarrow> auth_session \<Rightarrow> bool" where
  "is_active userId s \<longleftrightarrow> ses_userId s = userId \<and> ses_revokedAt s = None"

definition active_sessions :: "ident \<Rightarrow> auth_world \<Rightarrow> auth_session list" where
  "active_sessions userId w = filter (is_active userId) (aw_sessions w)"

section \<open>Sessions\<close>

definition issueSession :: "auth_env \<Rightarrow> millis \<Rightarrow> ident \<Rightarrow> session_context \<Rightarrow> auth_world \<Rightarrow> token_pair \<times> auth_world" where
  "issueSession env now userId ctx w =
     (let (sessionId, w) = fresh_ulid w;
          refreshTtl = get_or (60 * 60 * 24 * 30) (ae_refreshTtlSeconds env);
          (jti, w) = fresh_ulid w;
          refresh = signRefresh (ae_jwt env) (ae_jwt_config env) now userId sessionId jti;
          w = w\<lparr>aw_sessions := aw_sessions w @
                  [\<lparr>ses_id = sessionId, ses_userId = userId, ses_expiresAt = now + refreshTtl * 1000,
                    ses_revokedAt = None, ses_refreshTokenHash = ae_sha256 env (sgt_token refresh),
                    ses_createdAt = now, ses_deviceName = sx_deviceName ctx, ses_ipAddress = sx_ipAddress ctx,
                    ses_userAgent = sx_userAgent ctx\<rparr>]\<rparr>;
          w = w\<lparr>aw_prunes := aw_prunes w @ [userId]\<rparr>;
          access = signAccess (ae_jwt env) (ae_jwt_config env) now userId sessionId
      in (\<lparr>tp_accessToken = sgt_token access, tp_refreshToken = sgt_token refresh,
           tp_accessTokenExpiresAt = sgt_expiresAt access, tp_refreshTokenExpiresAt = sgt_expiresAt refresh\<rparr>, w))"

definition oldest_first :: "auth_session comparator" where
  "oldest_first = key ses_createdAt default"

definition pruneOldestSessions :: "millis \<Rightarrow> ident \<Rightarrow> auth_world \<Rightarrow> auth_world" where
  "pruneOldestSessions now userId w =
     (let active = length (active_sessions userId w)
      in if active \<le> MAX_ACTIVE_SESSIONS_PER_USER then w
         else
           let overflow = active - MAX_ACTIVE_SESSIONS_PER_USER;
               oldest = take overflow (Sorting_Algorithms.sort oldest_first (active_sessions userId w))
           in if oldest = [] then w
              else revoke_where now (\<lambda>s. ses_id s \<in> set (map ses_id oldest)) w)"

text \<open>A call that is pending runs.\<close>

definition run_prune :: "millis \<Rightarrow> ident \<Rightarrow> auth_world \<Rightarrow> auth_world" where
  "run_prune now userId w =
     (if userId \<in> set (aw_prunes w)
      then pruneOldestSessions now userId (w\<lparr>aw_prunes := remove1 userId (aw_prunes w)\<rparr>) else w)"

definition logout :: "millis \<Rightarrow> ident \<Rightarrow> auth_world \<Rightarrow> unit auth_result" where
  "logout now sessionId w =
     (if List.find (\<lambda>s. ses_id s = sessionId) (aw_sessions w) = None then (Inl DatabaseError, w)
      else (Inr (), revoke_where now (\<lambda>s. ses_id s = sessionId) w))"

section \<open>Refreshing\<close>

text \<open>Everything up to the rotation; the result is the session row that was read.\<close>

definition refresh_check :: "auth_env \<Rightarrow> millis \<Rightarrow> string \<Rightarrow> auth_world \<Rightarrow> auth_session auth_result" where
  "refresh_check env now refreshToken w =
     (case verifyRefresh (ae_jwt env) (ae_jwt_config env) now refreshToken of
        Inl e \<Rightarrow> (Inl (Tavern e), w)
      | Inr (sub, sid) \<Rightarrow>
          (case List.find (\<lambda>s. ses_id s = sid) (aw_sessions w) of
             None \<Rightarrow> (Inl (Tavern (unauthorized (Some ''Session not found''))), w)
           | Some session \<Rightarrow>
               if ses_revokedAt session \<noteq> None then
                 (Inl (Tavern (TavernError INVALID_TOKEN ''Refresh token reuse detected'' 401 None)),
                  revoke_where now (is_active (ses_userId session)) w)
               else if ses_expiresAt session < now then
                 (Inl (Tavern (TavernError EXPIRED_TOKEN ''Refresh token expired'' 401 None)), w)
               else if ses_refreshTokenHash session \<noteq> ae_sha256 env refreshToken then
                 (Inl (Tavern (TavernError INVALID_TOKEN ''Refresh token does not match session'' 401 None)), w)
               else
                 (case find_account w (ses_userId session) of
                    None \<Rightarrow>
                      (Inl (Tavern (unauthorized (Some ''Account no longer active''))),
                       revoke_where now (\<lambda>s. ses_id s = ses_id session) w)
                  | Some user \<Rightarrow>
                      if (case acc_scheduledDeleteAt user of None \<Rightarrow> False | Some t \<Rightarrow> t < now) then
                        (Inl (Tavern (unauthorized (Some ''Account no longer active''))),
                         revoke_where now (\<lambda>s. ses_id s = ses_id session) w)
                      else (Inr session, w))))"

definition refresh_rotate :: "auth_env \<Rightarrow> millis \<Rightarrow> auth_session \<Rightarrow> session_context \<Rightarrow> auth_world \<Rightarrow> token_pair auth_result" where
  "refresh_rotate env now session ctx w =
     (let P = (\<lambda>s. ses_id s = ses_id session \<and> ses_revokedAt s = None);
          count = length (filter P (aw_sessions w));
          w = revoke_where now P w
      in if count = 0 then
           (Inl (Tavern (TavernError INVALID_TOKEN ''Refresh token already rotated'' 401 None)), w)
         else
           let (pair, w) = issueSession env now (ses_userId session) ctx w in (Inr pair, w))"

definition refresh :: "auth_env \<Rightarrow> millis \<Rightarrow> string \<Rightarrow> session_context \<Rightarrow> auth_world \<Rightarrow> token_pair auth_result" where
  "refresh env now refreshToken ctx w =
     (case refresh_check env now refreshToken w of
        (Inl e, w) \<Rightarrow> (Inl e, w)
      | (Inr session, w) \<Rightarrow> refresh_rotate env now session ctx w)"

section \<open>Login\<close>

definition login_lookup :: "string \<Rightarrow> auth_world \<Rightarrow> account_row option" where
  "login_lookup identifier w =
     List.find (\<lambda>a. acc_usernameLower a = toLowerCase identifier \<or> acc_emailLower a = toLowerCase identifier)
       (aw_accounts w)"

definition is_locked :: "millis \<Rightarrow> millis option \<Rightarrow> bool" where
  "is_locked now until = (case until of None \<Rightarrow> False | Some t \<Rightarrow> t > now)"

text \<open>After the row has been read (and, for a wrong password, after the slow comparison).\<close>

definition login_finish :: "auth_env \<Rightarrow> millis \<Rightarrow> account_row \<Rightarrow> string \<Rightarrow> session_context \<Rightarrow> auth_world \<Rightarrow> token_pair auth_result" where
  "login_finish env now user password ctx w =
     (if is_locked now (acc_loginLockedUntil user) then (Inl invalid_credentials, w)
      else case acc_passwordHash user of
        None \<Rightarrow> (Inl invalid_credentials, w)
      | Some hash \<Rightarrow>
          if hash = [] then (Inl invalid_credentials, w)
          else if \<not> ae_verifyPassword env hash password then
            let nextAttempts = acc_failedLoginAttempts user + 1;
                reachedThreshold = (nextAttempts \<ge> FAILED_LOGIN_LOCKOUT_THRESHOLD);
                w = update_account (acc_id user)
                      (\<lambda>a. a\<lparr>acc_failedLoginAttempts := nextAttempts,
                             acc_loginLockedUntil := (if reachedThreshold then Some (now + FAILED_LOGIN_LOCKOUT_MS)
                                                      else acc_loginLockedUntil user)\<rparr>) w
            in (Inl invalid_credentials, w)
          else
            let w = (if acc_failedLoginAttempts user > 0 \<or> acc_loginLockedUntil user \<noteq> None
                     then update_account (acc_id user)
                            (\<lambda>a. a\<lparr>acc_failedLoginAttempts := 0, acc_loginLockedUntil := None\<rparr>) w
                     else w)
            in if acc_totpEnabled user then
                 (Inl (TotpRequired (signStagedTotpToken (ae_hmac_sha256 env) now (acc_id user)
                    (getStagedTotpKey (ae_stagedSecret env) (jw_accessSecret (ae_jwt_config env))))), w)
               else let (pair, w) = issueSession env now (acc_id user) ctx w in (Inr pair, w))"

definition login :: "auth_env \<Rightarrow> millis \<Rightarrow> string \<Rightarrow> string \<Rightarrow> session_context \<Rightarrow> auth_world \<Rightarrow> token_pair auth_result" where
  "login env now identifier password ctx w =
     (case login_lookup identifier w of
        None \<Rightarrow> (Inl invalid_credentials, w)
      | Some user \<Rightarrow> login_finish env now user password ctx w)"

definition recordFailedTotpAttempt :: "millis \<Rightarrow> ident \<Rightarrow> nat \<Rightarrow> auth_world \<Rightarrow> auth_world" where
  "recordFailedTotpAttempt now userId currentAttempts w =
     update_account userId
       (\<lambda>a. let a = a\<lparr>acc_failedTotpAttempts := currentAttempts + 1\<rparr>
            in if currentAttempts + 1 \<ge> FAILED_TOTP_LOCKOUT_THRESHOLD
               then a\<lparr>acc_totpLockedUntil := Some (now + FAILED_TOTP_LOCKOUT_MS)\<rparr> else a) w"

text \<open>The conditional updates act on the row as it is now; no row is written when they do not match.\<close>

definition advance_totp :: "account_row \<Rightarrow> nat \<Rightarrow> auth_world \<Rightarrow> bool \<times> auth_world" where
  "advance_totp user counter w =
     (let P = (\<lambda>a. acc_id a = acc_id user \<and> acc_totpLastCounter a = acc_totpLastCounter user)
      in (length (filter P (aw_accounts w)) = 1,
          w\<lparr>aw_accounts := update_where P
               (\<lambda>a. a\<lparr>acc_totpLastCounter := int counter, acc_failedTotpAttempts := 0, acc_totpLockedUntil := None\<rparr>)
               (aw_accounts w)\<rparr>))"

definition consume_backup :: "account_row \<Rightarrow> string list \<Rightarrow> auth_world \<Rightarrow> bool \<times> auth_world" where
  "consume_backup user remaining w =
     (let P = (\<lambda>a. acc_id a = acc_id user \<and> acc_totpBackupCodes a = acc_totpBackupCodes user)
      in (length (filter P (aw_accounts w)) = 1,
          w\<lparr>aw_accounts := update_where P
               (\<lambda>a. a\<lparr>acc_totpBackupCodes := remaining, acc_failedTotpAttempts := 0, acc_totpLockedUntil := None\<rparr>)
               (aw_accounts w)\<rparr>))"

fun string_index :: "string \<Rightarrow> string list \<Rightarrow> nat option" where
  "string_index s [] = None"
| "string_index s (x # xs) = (if x = s then Some 0 else map_option Suc (string_index s xs))"

definition loginTotp_finish :: "auth_env \<Rightarrow> millis \<Rightarrow> account_row \<Rightarrow> string \<Rightarrow> session_context \<Rightarrow> auth_world \<Rightarrow> token_pair auth_result" where
  "loginTotp_finish env now user code ctx w =
     (if \<not> acc_totpEnabled user \<or> acc_totpSecret user = None \<or> acc_totpSecret user = Some [] then
        (Inl (Tavern (TavernError INVALID_CREDENTIALS ''TOTP no longer required'' 400 None)), w)
      else if is_locked now (acc_totpLockedUntil user) then (Inl invalid_code, w)
      else
        let trimmed = trim code;
            fail = (\<lambda>w. (Inl invalid_code, recordFailedTotpAttempt now (acc_id user) (acc_failedTotpAttempts user) w))
        in case verifyTotpWithCounter (ae_hmac_sha1 env) now (the (acc_totpSecret user)) trimmed 1 of
             Some counter \<Rightarrow>
               if int counter \<le> acc_totpLastCounter user then fail w
               else
                 let (advanced, w) = advance_totp user counter w
                 in if \<not> advanced then fail w
                    else let (pair, w) = issueSession env now (acc_id user) ctx w in (Inr pair, w)
           | None \<Rightarrow>
               (case string_index (hashBackupCode (ae_sha256 env) trimmed) (acc_totpBackupCodes user) of
                  Some idx \<Rightarrow>
                    let remaining = take idx (acc_totpBackupCodes user) @ drop (Suc idx) (acc_totpBackupCodes user);
                        (consumed, w) = consume_backup user remaining w
                    in if \<not> consumed then fail w
                       else let (pair, w) = issueSession env now (acc_id user) ctx w in (Inr pair, w)
                | None \<Rightarrow> fail w))"

definition loginTotp :: "auth_env \<Rightarrow> millis \<Rightarrow> string \<Rightarrow> string \<Rightarrow> session_context \<Rightarrow> auth_world \<Rightarrow> token_pair auth_result" where
  "loginTotp env now stagedToken code ctx w =
     (case verifyStagedTotpToken (ae_hmac_sha256 env) now stagedToken
             (getStagedTotpKey (ae_stagedSecret env) (jw_accessSecret (ae_jwt_config env))) of
        None \<Rightarrow> (Inl (Tavern (TavernError INVALID_TOKEN ''Staged token invalid or expired'' 401 None)), w)
      | Some userId \<Rightarrow>
          (case find_account w userId of
             None \<Rightarrow> (Inl DatabaseError, w)
           | Some user \<Rightarrow> loginTotp_finish env now user code ctx w))"

section \<open>Lemmas on the tables\<close>

text \<open>What the updates leave alone.\<close>

lemma revoke_where_frame [simp]:
  "aw_accounts (revoke_where now P w) = aw_accounts w" "aw_resets (revoke_where now P w) = aw_resets w"
  "aw_invites (revoke_where now P w) = aw_invites w" "aw_prunes (revoke_where now P w) = aw_prunes w"
  "aw_ulids (revoke_where now P w) = aw_ulids w" "aw_next (revoke_where now P w) = aw_next w"
  "aw_db (revoke_where now P w) = aw_db w" "aw_mails (revoke_where now P w) = aw_mails w"
  by (simp_all add: revoke_where_def)

lemma update_account_frame [simp]:
  "aw_sessions (update_account u f w) = aw_sessions w" "aw_resets (update_account u f w) = aw_resets w"
  "aw_invites (update_account u f w) = aw_invites w" "aw_prunes (update_account u f w) = aw_prunes w"
  "aw_ulids (update_account u f w) = aw_ulids w" "aw_next (update_account u f w) = aw_next w"
  "aw_db (update_account u f w) = aw_db w"
  by (simp_all add: update_account_def)

lemma find_account_revoke [simp]: "find_account (revoke_where now P w) u = find_account w u"
  by (simp add: find_account_def)

lemma find_account_update:
  assumes "\<And>a. acc_id (f a) = acc_id a"
  shows "find_account (update_account v f w) u =
    (if u = v then map_option f (find_account w u) else find_account w u)"
proof -
  have "find_account (update_account v f w) u =
      map_option (\<lambda>a. if acc_id a = v then f a else a) (find_account w u)"
    unfolding find_account_def update_account_def
    by (simp add: find_update_where assms)
  then show ?thesis
    by (cases "find_account w u") (auto simp: find_account_def dest: find_in_set)
qed

lemma find_account_id: "find_account w u = Some a \<Longrightarrow> acc_id a = u"
  by (auto simp: find_account_def dest: find_in_set)

lemma active_update_account [simp]: "active_sessions u (update_account v f w) = active_sessions u w"
  by (simp add: active_sessions_def)

lemma filter_active_revoke:
  "filter (is_active u) (update_where P (\<lambda>s. s\<lparr>ses_revokedAt := Some now\<rparr>) ss) =
     filter (\<lambda>s. is_active u s \<and> \<not> P s) ss"
  by (induction ss) (auto simp: update_where_def is_active_def)

lemma active_revoke_where: "active_sessions u (revoke_where now P w) = filter (\<lambda>s. \<not> P s) (active_sessions u w)"
  by (simp add: active_sessions_def revoke_where_def filter_active_revoke conj_commute)

lemma active_revoke_user:
  "active_sessions u (revoke_where now (is_active v) w) = (if u = v then [] else active_sessions u w)"
proof -
  have "filter (\<lambda>s. \<not> is_active v s) (active_sessions u w) = (if u = v then [] else active_sessions u w)"
    by (auto simp: active_sessions_def filter_empty_conv is_active_def intro!: filter_cong)
  then show ?thesis
    by (simp add: active_revoke_where)
qed

section \<open>A small instance\<close>

text \<open>Concrete values for the examples below and in the theories that build on this one.\<close>

definition sample_env :: auth_env where
  "sample_env =
     \<lparr>ae_verifyPassword = (\<lambda>hash password. hash = CHR ''h'' # password),
      ae_hashPassword = (\<lambda>password. CHR ''h'' # password), ae_sha256 = (\<lambda>s. CHR ''s'' # s),
      ae_hmac_sha1 = (\<lambda>_ _. replicate 20 0), ae_hmac_sha256 = (\<lambda>_ _. ''mac''),
      ae_jwt = \<lparr>jl_sign = (\<lambda>_ _ _ c _. get_or [] (jc_sid c)),
               jl_verify = (\<lambda>_ _ _ _ t. JwtPayload \<lparr>jc_typ = Some ''refresh'', jc_sub = Some ''alice'',
                                                   jc_sid = Some t, jc_jti = Some ''j''\<rparr>)\<rparr>,
      ae_jwt_config = \<lparr>jw_accessSecret = ''a'', jw_refreshSecret = ''r'', jw_accessTtlSeconds = 900,
                       jw_refreshTtlSeconds = 1000, jw_issuer = None\<rparr>,
      ae_refreshTtlSeconds = None, ae_resetTtlSeconds = 3600, ae_stagedSecret = None,
      ae_userKeyStore = False, ae_webBaseUrl = ''https://t''\<rparr>"

definition sample_account :: account_row where
  "sample_account =
     \<lparr>acc_id = ''alice'', acc_username = ''Alice'', acc_usernameLower = ''alice'', acc_email = ''a@x'',
      acc_emailLower = ''a@x'', acc_displayName = ''Alice'', acc_passwordHash = Some ''hold'',
      acc_isInstanceAdmin = False, acc_failedLoginAttempts = 0, acc_loginLockedUntil = None,
      acc_totpEnabled = False, acc_totpSecret = None, acc_totpBackupCodes = [], acc_totpLastCounter = 0,
      acc_failedTotpAttempts = 0, acc_totpLockedUntil = None, acc_scheduledDeleteAt = None\<rparr>"

definition sample_session :: auth_session where
  "sample_session =
     \<lparr>ses_id = ''s'', ses_userId = ''alice'', ses_expiresAt = 1000000, ses_revokedAt = None,
      ses_refreshTokenHash = ''ss'', ses_createdAt = 0, ses_deviceName = None, ses_ipAddress = None,
      ses_userAgent = None\<rparr>"

definition sample_context :: session_context where
  "sample_context = \<lparr>sx_ipAddress = None, sx_userAgent = None, sx_deviceName = None\<rparr>"

definition sample_auth_world :: auth_world where
  "sample_auth_world =
     \<lparr>aw_accounts = [sample_account], aw_sessions = [sample_session], aw_resets = [], aw_invites = [],
      aw_db = empty_db, aw_mails = [], aw_keyRequests = [], aw_prunes = [],
      aw_ulids = (\<lambda>n. CHR ''s'' # replicate n (CHR ''u'')), aw_next = 1\<rparr>"

lemmas sample_auth_defs =
  sample_env_def sample_account_def sample_session_def sample_context_def sample_auth_world_def

end
