(* ===== verification/Accounts.thy ===== *)
theory Accounts
  imports AuthService
begin

text \<open>
  The rest of apps/api/src/services/auth-service.ts: registration by invite, the first-run bootstrap,
  password resets by mail and password changes, with lib/invite-codes.ts. A transaction is one step;
  what a handler reads before it and waits on is an argument of the step.
\<close>

section \<open>Creating accounts\<close>

definition MIN_USERNAME :: nat where "MIN_USERNAME = 3"

record register_request =
  rq_username :: string
  rq_displayName :: string
  rq_email :: string
  rq_password :: string
  rq_inviteCode :: string

definition invalid_invite :: "string \<Rightarrow> auth_error" where
  "invalid_invite m = Tavern (TavernError INVALID_INVITE m 400 None)"

text \<open>The \<open>User\<close> row, with the defaults of the schema, in both views of the table.\<close>

definition new_account :: "ident \<Rightarrow> register_request \<Rightarrow> string \<Rightarrow> bool \<Rightarrow> account_row" where
  "new_account uid req hash admin =
     \<lparr>acc_id = uid, acc_username = rq_username req, acc_usernameLower = toLowerCase (rq_username req),
      acc_email = rq_email req, acc_emailLower = toLowerCase (rq_email req),
      acc_displayName = rq_displayName req, acc_passwordHash = Some hash, acc_isInstanceAdmin = admin,
      acc_failedLoginAttempts = 0, acc_loginLockedUntil = None, acc_totpEnabled = False,
      acc_totpSecret = None, acc_totpBackupCodes = [], acc_totpLastCounter = 0,
      acc_failedTotpAttempts = 0, acc_totpLockedUntil = None, acc_scheduledDeleteAt = None\<rparr>"

definition new_user :: "ident \<Rightarrow> register_request \<Rightarrow> millis \<Rightarrow> user_row" where
  "new_user uid req now =
     \<lparr>usr_id = uid, usr_username = rq_username req, usr_displayName = rq_displayName req,
      usr_createdAt = now, usr_emailVerifiedAt = None, usr_remoteUserId = None,
      usr_remoteInstanceId = None, usr_presence = Offline, usr_presenceUpdatedAt = now,
      usr_manualDnd = False, usr_customStatus = None, usr_customStatusExpiresAt = None,
      usr_acceptsFederatedPresence = True\<rparr>"

definition account_clash :: "account_row \<Rightarrow> account_row \<Rightarrow> bool" where
  "account_clash a b \<longleftrightarrow>
     acc_id a = acc_id b \<or> acc_username a = acc_username b \<or> acc_usernameLower a = acc_usernameLower b \<or>
     acc_email a = acc_email b \<or> acc_emailLower a = acc_emailLower b"

definition create_user :: "millis \<Rightarrow> ident \<Rightarrow> register_request \<Rightarrow> string \<Rightarrow> bool \<Rightarrow> auth_world \<Rightarrow> auth_world option" where
  "create_user now uid req hash admin w =
     (let a = new_account uid req hash admin
      in if list_ex (account_clash a) (aw_accounts w) then None
         else Some (w\<lparr>aw_accounts := aw_accounts w @ [a],
                      aw_db := (aw_db w)\<lparr>db_users := db_users (aw_db w) @ [new_user uid req now]\<rparr>\<rparr>))"

text \<open>Up to the slow hash: what is refused before it, and the invite row that was read.\<close>

definition register_check :: "millis \<Rightarrow> register_request \<Rightarrow> auth_world \<Rightarrow> auth_error + invite_row" where
  "register_check now req w =
     (let usernameLower = toLowerCase (rq_username req);
          emailLower = toLowerCase (rq_email req);
          inviteCode = toUpperCase (trim (rq_inviteCode req))
      in if length usernameLower < MIN_USERNAME then
           Inl (Tavern (validation (Some ''Username too short'') None))
         else case List.find (\<lambda>i. inv_code i = inviteCode) (aw_invites w) of
           None \<Rightarrow> Inl (invalid_invite ''Invite is invalid or expired'')
         | Some i \<Rightarrow>
             if inv_revokedAt i \<noteq> None then Inl (invalid_invite ''Invite is invalid or expired'')
             else if (case inv_expiresAt i of None \<Rightarrow> False | Some t \<Rightarrow> t < now) then
               Inl (invalid_invite ''Invite is invalid or expired'')
             else if (case inv_maxUses i of None \<Rightarrow> False | Some n \<Rightarrow> inv_uses i \<ge> n) then
               Inl (invalid_invite ''Invite has been fully used'')
             else if inv_scope i = ServerInvite \<and> (inv_serverId i = None \<or> inv_serverId i = Some []) then
               Inl (invalid_invite ''Invite is invalid or expired'')
             else
               (case List.find (\<lambda>a. acc_usernameLower a = usernameLower \<or> acc_emailLower a = emailLower) (aw_accounts w) of
                  Some a \<Rightarrow>
                    if acc_usernameLower a = usernameLower
                    then Inl (Tavern (conflict USERNAME_TAKEN ''Username is already taken''))
                    else Inl (Tavern (conflict EMAIL_TAKEN ''Email is already registered''))
                | None \<Rightarrow> Inr i))"

definition invite_usable :: "millis \<Rightarrow> invite_row \<Rightarrow> invite_row \<Rightarrow> bool" where
  "invite_usable now seen i \<longleftrightarrow>
     inv_id i = inv_id seen \<and> inv_revokedAt i = None \<and> inv_scope i = inv_scope seen \<and>
     (case inv_expiresAt i of None \<Rightarrow> True | Some t \<Rightarrow> t > now) \<and>
     (case inv_maxUses seen of None \<Rightarrow> True | Some n \<Rightarrow> inv_uses i < n)"

text \<open>The transaction: it consumes the invite or changes no row.\<close>

definition register_commit ::
  "auth_env \<Rightarrow> millis \<Rightarrow> register_request \<Rightarrow> invite_row \<Rightarrow> auth_world \<Rightarrow> ident auth_result" where
  "register_commit env now req seen w =
     (if filter (invite_usable now seen) (aw_invites w) = [] then
        (Inl (invalid_invite ''Invite has been fully used''), w)
      else
        let (uid, w) = fresh_ulid w;
            w1 = w\<lparr>aw_invites := update_where (invite_usable now seen) (\<lambda>i. i\<lparr>inv_uses := inv_uses i + 1\<rparr>) (aw_invites w)\<rparr>
        in case create_user now uid req (ae_hashPassword env (rq_password req)) False w1 of
             None \<Rightarrow> (Inl DatabaseError, w)
           | Some w2 \<Rightarrow>
               if inv_scope seen = ServerInvite then
                 (case inv_serverId seen of
                    None \<Rightarrow> (Inl DatabaseError, w)
                  | Some serverId \<Rightarrow>
                      if find_server (aw_db w2) serverId = None \<or> find_member (aw_db w2) serverId uid \<noteq> None
                      then (Inl DatabaseError, w)
                      else (Inr uid,
                            w2\<lparr>aw_db := (aw_db w2)\<lparr>db_members := db_members (aw_db w2) @
                                 [\<lparr>mem_serverId = serverId, mem_userId = uid, mem_gatePassedAt = None\<rparr>]\<rparr>\<rparr>))
               else (Inr uid, w2))"

definition provision_key :: "auth_env \<Rightarrow> ident \<Rightarrow> auth_world \<Rightarrow> auth_world" where
  "provision_key env userId w =
     (if ae_userKeyStore env then w\<lparr>aw_keyRequests := aw_keyRequests w @ [userId]\<rparr> else w)"

definition register ::
  "auth_env \<Rightarrow> millis \<Rightarrow> register_request \<Rightarrow> session_context \<Rightarrow> auth_world \<Rightarrow> token_pair auth_result" where
  "register env now req ctx w =
     (case register_check now req w of
        Inl e \<Rightarrow> (Inl e, w)
      | Inr seen \<Rightarrow>
          (case register_commit env now req seen w of
             (Inl e, w) \<Rightarrow> (Inl e, w)
           | (Inr uid, w) \<Rightarrow>
               let (pair, w) = issueSession env now uid ctx (provision_key env uid w) in (Inr pair, w)))"

section \<open>Bootstrap\<close>

definition base64url_char :: "nat \<Rightarrow> char" where
  "base64url_char n =
     (if n < 26 then char_of (65 + n) else if n < 52 then char_of (71 + n)
      else if n < 62 then char_of (n - 4) else if n = 62 then CHR ''-'' else CHR ''_'')"

fun base64url :: "byte list \<Rightarrow> string" where
  "base64url [] = []"
| "base64url [a] = [base64url_char (unat a div 4), base64url_char (unat a mod 4 * 16)]"
| "base64url [a, b] =
     [base64url_char (unat a div 4), base64url_char (unat a mod 4 * 16 + unat b div 16),
      base64url_char (unat b mod 16 * 4)]"
| "base64url (a # b # c # bs) =
     [base64url_char (unat a div 4), base64url_char (unat a mod 4 * 16 + unat b div 16),
      base64url_char (unat b mod 16 * 4 + unat c div 64), base64url_char (unat c mod 64)] @ base64url bs"

definition generateInviteCode :: "byte list \<Rightarrow> string" where
  "generateInviteCode random = take 10 (toUpperCase (base64url random))"

record bootstrap_request = register_request +
  bq_serverName :: "string option"

definition needsBootstrap :: "auth_world \<Rightarrow> bool" where
  "needsBootstrap w \<longleftrightarrow> length (aw_accounts w) = 0"

record bootstrap_ids =
  bi_user :: ident
  bi_server :: ident
  bi_everyone :: ident
  bi_lobby :: ident
  bi_voice :: ident
  bi_invite :: ident

definition bootstrap_server_name :: "bootstrap_request \<Rightarrow> string" where
  "bootstrap_server_name req =
     (case bq_serverName req of
        None \<Rightarrow> ''The Tavern''
      | Some s \<Rightarrow> if trim s = [] then ''The Tavern'' else trim s)"

text \<open>The rows of the new instance, beside the account and its user.\<close>

definition bootstrap_db :: "millis \<Rightarrow> bootstrap_ids \<Rightarrow> string \<Rightarrow> ident \<Rightarrow> db \<Rightarrow> db" where
  "bootstrap_db now ids serverName messageId d =
     d\<lparr>db_servers := db_servers d @
          [\<lparr>srv_id = bi_server ids, srv_ownerUserId = bi_user ids, srv_name = serverName,
            srv_iconAttachmentId = None, srv_defaultRoleId = Some (bi_everyone ids),
            srv_federationEnabled = False, srv_originInstanceId = None,
            srv_verificationLevel = VerNone, srv_verificationMinAccountAgeHours = 0,
            srv_modLogChannelId = None\<rparr>],
        db_roles := db_roles d @
          [\<lparr>rol_id = bi_everyone ids, rol_serverId = bi_server ids, rol_name = ''@everyone'',
            rol_permissions = PERMISSION_DEFAULT_EVERYONE, rol_position = 0\<rparr>],
        db_members := db_members d @
          [\<lparr>mem_serverId = bi_server ids, mem_userId = bi_user ids, mem_gatePassedAt = None\<rparr>],
        db_channels := db_channels d @
          [\<lparr>chn_id = bi_lobby ids, chn_serverId = bi_server ids, chn_federationMode = Inherit\<rparr>,
           \<lparr>chn_id = bi_voice ids, chn_serverId = bi_server ids, chn_federationMode = Inherit\<rparr>],
        db_messages := db_messages d @
          [\<lparr>msg_id = messageId, msg_serverId = Some (bi_server ids), msg_channelId = Some (bi_lobby ids),
            msg_authorId = bi_user ids, msg_system = True, msg_content = ''Welcome to '' @ serverName @ ''.'',
            msg_createdAt = now, msg_deletedAt = None\<rparr>]\<rparr>"

definition bootstrap_commit ::
  "millis \<Rightarrow> bootstrap_ids \<Rightarrow> string \<Rightarrow> string \<Rightarrow> bootstrap_request \<Rightarrow> auth_world \<Rightarrow> unit auth_result" where
  "bootstrap_commit now ids hash inviteCode req w =
     (if length (aw_accounts w) > 0 then
        (Inl (Tavern (TavernError CONFLICT ''This instance has already been initialised'' 409 None)), w)
      else
        let (messageId, w) = fresh_ulid w
        in case create_user now (bi_user ids) (register_request.truncate req) hash True w of
             None \<Rightarrow> (Inl DatabaseError, w)
           | Some w1 \<Rightarrow>
               if list_ex (\<lambda>i. inv_id i = bi_invite ids \<or> inv_code i = inviteCode) (aw_invites w1)
               then (Inl DatabaseError, w)
               else
                 (Inr (),
                  w1\<lparr>aw_db := bootstrap_db now ids (bootstrap_server_name req) messageId (aw_db w1),
                     aw_invites := aw_invites w1 @
                       [\<lparr>inv_id = bi_invite ids, inv_code = inviteCode, inv_scope = InstanceInvite,
                         inv_serverId = None, inv_maxUses = None, inv_uses = 0,
                         inv_expiresAt = None, inv_revokedAt = None\<rparr>]\<rparr>))"

definition bootstrap_plan :: "auth_world \<Rightarrow> bootstrap_ids \<times> auth_world" where
  "bootstrap_plan w =
     (let (user, w) = fresh_ulid w; (server, w) = fresh_ulid w; (everyone, w) = fresh_ulid w;
          (lobby, w) = fresh_ulid w; (voice, w) = fresh_ulid w; (invite, w) = fresh_ulid w
      in (\<lparr>bi_user = user, bi_server = server, bi_everyone = everyone, bi_lobby = lobby,
           bi_voice = voice, bi_invite = invite\<rparr>, w))"

definition bootstrap ::
  "auth_env \<Rightarrow> millis \<Rightarrow> byte list \<Rightarrow> bootstrap_request \<Rightarrow> session_context \<Rightarrow> auth_world \<Rightarrow> token_pair auth_result" where
  "bootstrap env now random req ctx w =
     (if length (rq_username req) < MIN_USERNAME then
        (Inl (Tavern (validation (Some ''Username too short'') None)), w)
      else
        let (ids, w) = bootstrap_plan w
        in case bootstrap_commit now ids (ae_hashPassword env (rq_password req)) (generateInviteCode random) req w of
             (Inl e, w) \<Rightarrow> (Inl e, w)
           | (Inr _, w) \<Rightarrow>
               let (pair, w) = issueSession env now (bi_user ids) ctx (provision_key env (bi_user ids) w)
               in (Inr pair, w))"

section \<open>Password resets\<close>

definition replace_char :: "char \<Rightarrow> string \<Rightarrow> string \<Rightarrow> string" where
  "replace_char c r s = concat (map (\<lambda>x. if x = c then r else [x]) s)"

definition escapeHtml :: "string \<Rightarrow> string" where
  "escapeHtml input =
     replace_char (CHR 0x27) ''&#39;'' (replace_char (CHR 0x22) ''&quot;''
       (replace_char (CHR ''>'') ''&gt;'' (replace_char (CHR ''<'') ''&lt;''
         (replace_char (CHR ''&'') ''&amp;'' input))))"

definition newline :: string where "newline = [CHR 0x0A]"

text \<open>The dash of the mail's text, as its UTF-8 bytes.\<close>

definition em_dash :: string where "em_dash = [CHR 0xE2, CHR 0x80, CHR 0x94]"

fun join_lines :: "string list \<Rightarrow> string" where
  "join_lines [] = []"
| "join_lines [l] = l"
| "join_lines (l # m # ls) = l @ newline @ join_lines (m # ls)"

definition renderResetEmail :: "string \<Rightarrow> string \<Rightarrow> string \<Rightarrow> int \<Rightarrow> reset_mail" where
  "renderResetEmail recipient displayName link ttlMinutes =
     \<lparr>rm_to = recipient, rm_subject = ''Reset your Tavern password'',
      rm_text = join_lines
        [''Hi '' @ displayName @ '','', [],
         ''Someone (hopefully you) asked to reset the password on your Tavern'',
         ''account. To choose a new one, open this link within the next'',
         show_int ttlMinutes @ '' minutes:'', [], link, [],
         ''If you did not request a reset, you can ignore this message '' @ em_dash @ '' your'',
         ''password will stay the same.''],
      rm_html =
        ''<p>Hi '' @ escapeHtml displayName @ '',</p>'' @
        ''<p>Someone (hopefully you) asked to reset the password on your Tavern account. '' @
        ''To choose a new one, open the link below within the next '' @ show_int ttlMinutes @ '' minutes:</p>'' @
        ''<p><a href='' @ [CHR 0x22] @ escapeHtml link @ [CHR 0x22] @ ''>'' @ escapeHtml link @ ''</a></p>'' @
        ''<p>If you did not request a reset, you can ignore this message '' @ em_dash @
        '' your password will stay the same.</p>''\<rparr>"

definition buildResetLink :: "auth_env \<Rightarrow> string \<Rightarrow> string" where
  "buildResetLink env token =
     rev (dropWhile (\<lambda>c. c = CHR ''/'') (rev (ae_webBaseUrl env))) @ ''/reset-password?token='' @ encodeURIComponent token"

definition cooldown_ms :: millis where "cooldown_ms = 60000"

text \<open>\<open>token\<close> is the fresh random token; a call that mails nothing returns as one that does.\<close>

definition forgotPassword :: "auth_env \<Rightarrow> millis \<Rightarrow> string \<Rightarrow> string \<Rightarrow> auth_world \<Rightarrow> auth_world" where
  "forgotPassword env now token email w =
     (let emailLower = toLowerCase (trim email)
      in if emailLower = [] then w
         else case List.find (\<lambda>a. acc_emailLower a = emailLower) (aw_accounts w) of
           None \<Rightarrow> w
         | Some user \<Rightarrow>
             if list_ex (\<lambda>r. pr_userId r = acc_id user \<and> pr_usedAt r = None \<and> pr_createdAt r > now - cooldown_ms)
                  (aw_resets w) then w
             else
               let ttl = ae_resetTtlSeconds env;
                   (rid, w) = fresh_ulid w;
                   w = w\<lparr>aw_resets := aw_resets w @
                         [\<lparr>pr_id = rid, pr_userId = acc_id user, pr_tokenHash = ae_sha256 env token,
                           pr_createdAt = now, pr_expiresAt = now + ttl * 1000, pr_usedAt = None\<rparr>]\<rparr>
               in w\<lparr>aw_mails := aw_mails w @
                     [renderResetEmail (acc_email user) (acc_displayName user) (buildResetLink env token)
                        ((ttl + 30) div 60)]\<rparr>)"

definition invalid_reset :: auth_error where
  "invalid_reset = Tavern (TavernError INVALID_RESET_TOKEN ''Reset link is invalid or has expired'' 400 None)"

definition same_password :: auth_error where
  "same_password = Tavern (validation (Some ''New password must differ from current password'') None)"

definition find_reset :: "auth_world \<Rightarrow> string \<Rightarrow> password_reset_row option" where
  "find_reset w tokenHash = List.find (\<lambda>r. pr_tokenHash r = tokenHash) (aw_resets w)"

definition reset_transaction :: "auth_env \<Rightarrow> millis \<Rightarrow> ident \<Rightarrow> string \<Rightarrow> auth_world \<Rightarrow> auth_world" where
  "reset_transaction env now userId newPassword w =
     (let w = update_account userId
            (\<lambda>a. a\<lparr>acc_passwordHash := Some (ae_hashPassword env newPassword),
                   acc_failedLoginAttempts := 0, acc_loginLockedUntil := None\<rparr>) w;
          w = revoke_where now (is_active userId) w
      in w\<lparr>aw_resets := update_where (\<lambda>r. pr_userId r = userId \<and> pr_usedAt r = None)
               (\<lambda>r. r\<lparr>pr_usedAt := Some now\<rparr>) (aw_resets w)\<rparr>)"

definition resetPassword :: "auth_env \<Rightarrow> millis \<Rightarrow> string \<Rightarrow> string \<Rightarrow> auth_world \<Rightarrow> unit auth_result" where
  "resetPassword env now token newPassword w =
     (case find_reset w (ae_sha256 env token) of
        None \<Rightarrow> (Inl invalid_reset, w)
      | Some reset \<Rightarrow>
          if pr_usedAt reset \<noteq> None \<or> pr_expiresAt reset < now then (Inl invalid_reset, w)
          else case find_account w (pr_userId reset) of
            None \<Rightarrow> (Inl invalid_reset, w)
          | Some user \<Rightarrow>
              (case acc_passwordHash user of
                 None \<Rightarrow> (Inl invalid_reset, w)
               | Some hash \<Rightarrow>
                   if hash = [] then (Inl invalid_reset, w)
                   else if ae_verifyPassword env hash newPassword then (Inl same_password, w)
                   else
                     (Inr (), reset_transaction env now (acc_id user) newPassword w)))"

definition changePassword ::
  "auth_env \<Rightarrow> millis \<Rightarrow> ident \<Rightarrow> string \<Rightarrow> string \<Rightarrow> auth_world \<Rightarrow> unit auth_result" where
  "changePassword env now userId currentPassword newPassword w =
     (if newPassword = currentPassword then (Inl same_password, w)
      else case find_account w userId of
        None \<Rightarrow> (Inl (Tavern (unauthorized None)), w)
      | Some user \<Rightarrow>
          (case acc_passwordHash user of
             None \<Rightarrow> (Inl invalid_credentials, w)
           | Some hash \<Rightarrow>
               if hash = [] \<or> \<not> ae_verifyPassword env hash currentPassword then (Inl invalid_credentials, w)
               else
                 (Inr (), revoke_where now (is_active userId)
                    (update_account userId (\<lambda>a. a\<lparr>acc_passwordHash := Some (ae_hashPassword env newPassword)\<rparr>) w))))"

definition issueWebauthnSession ::
  "auth_env \<Rightarrow> millis \<Rightarrow> ident \<Rightarrow> session_context \<Rightarrow> auth_world \<Rightarrow> token_pair \<times> auth_world" where
  "issueWebauthnSession env now userId ctx w = issueSession env now userId ctx w"

section \<open>What a reset and a change of password do\<close>

lemma resetPassword_success:
  assumes "resetPassword env now token pw w = (Inr (), w')"
  obtains r a where "find_reset w (ae_sha256 env token) = Some r" "pr_usedAt r = None" "now \<le> pr_expiresAt r"
    "find_account w (pr_userId r) = Some a" "w' = reset_transaction env now (pr_userId r) pw w"
proof -
  from assms obtain r a hash where r: "find_reset w (ae_sha256 env token) = Some r" "pr_usedAt r = None"
      "\<not> pr_expiresAt r < now" and a: "find_account w (pr_userId r) = Some a"
      and w': "w' = reset_transaction env now (acc_id a) pw w"
    by (auto simp: resetPassword_def split: option.splits if_splits)
  from a have "acc_id a = pr_userId r"
    by (rule find_account_id)
  with r a w' show ?thesis
    by (intro that [of r a]) simp_all
qed

lemma find_account_resets [simp]: "find_account (w\<lparr>aw_resets := rs\<rparr>) u = find_account w u"
  by (simp add: find_account_def)

lemma reset_transaction_account:
  "find_account (reset_transaction env now v pw w) u =
     (if u = v then map_option (\<lambda>a. a\<lparr>acc_passwordHash := Some (ae_hashPassword env pw),
        acc_failedLoginAttempts := 0, acc_loginLockedUntil := None\<rparr>) (find_account w u)
      else find_account w u)"
  unfolding reset_transaction_def Let_def find_account_resets find_account_revoke
  by (rule find_account_update) simp

lemma reset_transaction_active:
  "active_sessions u (reset_transaction env now v pw w) = (if u = v then [] else active_sessions u w)"
  using active_revoke_user [of u now v w]
  by (simp add: reset_transaction_def Let_def active_sessions_def revoke_where_def)

lemma reset_transaction_resets:
  "\<forall>q \<in> set (aw_resets (reset_transaction env now v pw w)). pr_userId q = v \<longrightarrow> pr_usedAt q \<noteq> None"
proof (intro ballI impI)
  fix q
  assume q: "q \<in> set (aw_resets (reset_transaction env now v pw w))" and v: "pr_userId q = v"
  let ?P = "\<lambda>r. pr_userId r = v \<and> pr_usedAt r = None"
  from q have "q \<in> set (update_where ?P (\<lambda>r. r\<lparr>pr_usedAt := Some now\<rparr>) (aw_resets w))"
    by (simp add: reset_transaction_def Let_def)
  then obtain r where r: "q = (if ?P r then r\<lparr>pr_usedAt := Some now\<rparr> else r)"
    by (rule set_update_whereE)
  show "pr_usedAt q \<noteq> None"
  proof (cases "?P r")
    case True
    with r show ?thesis by simp
  next
    case False
    with r have "q = r" by simp
    with False v show ?thesis by simp
  qed
qed

lemma find_account_change_password:
  "find_account (update_account u (\<lambda>a. a\<lparr>acc_passwordHash := h\<rparr>) w) u =
     map_option (\<lambda>a. a\<lparr>acc_passwordHash := h\<rparr>) (find_account w u)"
  by (simp add: find_account_update)

lemma resetPassword_burnt:
  assumes "\<forall>q \<in> set (aw_resets w). pr_userId q = u \<longrightarrow> pr_usedAt q \<noteq> None"
    and "find_reset w (ae_sha256 env token) = Some q" and "pr_userId q = u"
  shows "resetPassword env now token pw w = (Inl invalid_reset, w)"
proof -
  have "pr_usedAt q \<noteq> None"
    using assms by (auto simp: find_reset_def dest!: find_in_set)
  then show ?thesis
    using assms by (simp add: resetPassword_def)
qed

text \<open>
  A password reset that succeeds was asked with a token that was neither used nor expired; it
  sets the new password and lifts the lock of that account, leaves none of its sessions active, and
  makes every reset link of the account, the one used and those mailed in parallel, fail from then on
  without any effect. No other account, and no session of another user, changes.
\<close>

theorem reset_takes_over_once:
  assumes "resetPassword env now token pw w = (Inr (), w')"
  shows "\<exists>r a. find_reset w (ae_sha256 env token) = Some r \<and> pr_usedAt r = None \<and> now \<le> pr_expiresAt r \<and>
    find_account w' (pr_userId r) = Some a \<and> acc_passwordHash a = Some (ae_hashPassword env pw) \<and>
    acc_failedLoginAttempts a = 0 \<and> acc_loginLockedUntil a = None \<and>
    active_sessions (pr_userId r) w' = [] \<and>
    (\<forall>u. u \<noteq> pr_userId r \<longrightarrow> find_account w' u = find_account w u \<and> active_sessions u w' = active_sessions u w) \<and>
    (\<forall>later token' pw' q. find_reset w' (ae_sha256 env token') = Some q \<and> pr_userId q = pr_userId r \<longrightarrow>
       resetPassword env later token' pw' w' = (Inl invalid_reset, w'))"
proof -
  obtain r a where r: "find_reset w (ae_sha256 env token) = Some r" "pr_usedAt r = None" "now \<le> pr_expiresAt r"
    and a: "find_account w (pr_userId r) = Some a" and w': "w' = reset_transaction env now (pr_userId r) pw w"
    using assms by (rule resetPassword_success)
  have "find_reset w' (ae_sha256 env token') = Some q \<and> pr_userId q = pr_userId r \<Longrightarrow>
      resetPassword env later token' pw' w' = (Inl invalid_reset, w')" for later token' pw' q
    using reset_transaction_resets [of env now "pr_userId r" pw w] unfolding w'
    by (rule resetPassword_burnt [where q = q]) auto
  then have burnt: "\<forall>later token' pw' q. find_reset w' (ae_sha256 env token') = Some q \<and> pr_userId q = pr_userId r \<longrightarrow>
       resetPassword env later token' pw' w' = (Inl invalid_reset, w')"
    unfolding w' by blast
  show ?thesis
    by (rule exI [of _ r], rule exI [of _ "a\<lparr>acc_passwordHash := Some (ae_hashPassword env pw),
        acc_failedLoginAttempts := 0, acc_loginLockedUntil := None\<rparr>"], intro conjI, rule r(1), rule r(2), rule r(3))
      (use a burnt in \<open>simp_all add: w' reset_transaction_account reset_transaction_active\<close>)
qed

definition sample_reset :: password_reset_row where
  "sample_reset = \<lparr>pr_id = ''r'', pr_userId = ''alice'', pr_tokenHash = ''st'', pr_createdAt = 0,
     pr_expiresAt = 100, pr_usedAt = None\<rparr>"

theorem reset_takes_over_once_witness:
  "active_sessions ''alice'' (snd (resetPassword sample_env 5 ''t'' ''new'' (sample_auth_world\<lparr>aw_resets := [sample_reset]\<rparr>))) = []"
proof -
  let ?w = "sample_auth_world\<lparr>aw_resets := [sample_reset]\<rparr>"
  obtain w' where w': "resetPassword sample_env 5 ''t'' ''new'' ?w = (Inr (), w')"
    by (simp add: resetPassword_def find_reset_def find_account_def sample_auth_defs sample_reset_def Let_def)
  from reset_takes_over_once [OF this] show ?thesis
    unfolding w' by (simp add: find_reset_def sample_env_def sample_reset_def) blast
qed

text \<open>
  A change of password does not cancel the reset links that are still out: whoever holds one can
  take the account back right after its owner has changed the password.
\<close>

theorem reset_link_survives_change:
  assumes "changePassword env now userId current pw w = (Inr (), w1)"
    and "find_reset w (ae_sha256 env token) = Some r" and "pr_userId r = userId"
    and "pr_usedAt r = None" and "later \<le> pr_expiresAt r"
    and "ae_hashPassword env pw \<noteq> []" and "\<not> ae_verifyPassword env (ae_hashPassword env pw) stolen"
  shows "\<exists>w2 a. resetPassword env later token stolen w1 = (Inr (), w2) \<and>
    find_account w2 userId = Some a \<and> acc_passwordHash a = Some (ae_hashPassword env stolen)"
proof -
  obtain a where a: "find_account w userId = Some a"
    and w1: "w1 = revoke_where now (is_active userId)
      (update_account userId (\<lambda>a. a\<lparr>acc_passwordHash := Some (ae_hashPassword env pw)\<rparr>) w)"
    using assms(1) by (auto simp: changePassword_def split: option.splits if_splits)
  have a1: "find_account w1 userId = Some (a\<lparr>acc_passwordHash := Some (ae_hashPassword env pw)\<rparr>)"
    using a by (simp add: w1 find_account_change_password)
  then have id: "acc_id (a\<lparr>acc_passwordHash := Some (ae_hashPassword env pw)\<rparr>) = userId"
    by (rule find_account_id)
  have "find_reset w1 (ae_sha256 env token) = Some r"
    using assms(2) by (simp add: w1 find_reset_def)
  then have w2: "resetPassword env later token stolen w1 = (Inr (), reset_transaction env later userId stolen w1)"
    using a1 id assms(3-7) by (simp add: resetPassword_def)
  then show ?thesis
    using a1 by (simp add: reset_transaction_account)
qed

section \<open>Invites\<close>

lemma create_user_invites [simp]:
  "create_user now uid req h adm w = Some w' \<Longrightarrow> aw_invites w' = aw_invites w"
  by (auto simp: create_user_def Let_def split: if_splits)

lemma register_commit_invites:
  assumes "register_commit env now req seen w = (r, w')"
  shows "aw_invites w' = (if isl r then aw_invites w
      else update_where (invite_usable now seen) (\<lambda>i. i\<lparr>inv_uses := inv_uses i + 1\<rparr>) (aw_invites w)) \<and>
    (\<not> isl r \<longrightarrow> (\<exists>i \<in> set (aw_invites w). invite_usable now seen i))"
  using assms
  by (auto simp: register_commit_def fresh_ulid_def Let_def filter_empty_conv
      split: if_splits option.splits)

text \<open>Requests past their checks commit one after another; who was admitted by which invite.\<close>

definition admit ::
  "auth_env \<Rightarrow> auth_world \<times> (ident \<times> ident) list \<Rightarrow> millis \<times> register_request \<times> invite_row \<Rightarrow>
   auth_world \<times> (ident \<times> ident) list" where
  "admit env st r =
     (case register_commit env (fst r) (fst (snd r)) (snd (snd r)) (fst st) of
        (Inl e, w) \<Rightarrow> (w, snd st)
      | (Inr uid, w) \<Rightarrow> (w, snd st @ [(inv_id (snd (snd r)), uid)]))"

definition admitted_by :: "ident \<Rightarrow> (ident \<times> ident) list \<Rightarrow> ident list" where
  "admitted_by i adm = map snd (filter (\<lambda>p. fst p = i) adm)"

definition uses_accounted :: "invite_row \<Rightarrow> auth_world \<times> (ident \<times> ident) list \<Rightarrow> bool" where
  "uses_accounted i st \<longleftrightarrow>
     distinct (map inv_id (aw_invites (fst st))) \<and>
     (\<exists>j \<in> set (aw_invites (fst st)). inv_id j = inv_id i \<and>
        inv_uses j = inv_uses i + int (length (admitted_by (inv_id i) (snd st))) \<and>
        (\<forall>n. inv_maxUses i = Some n \<longrightarrow> inv_uses j \<le> n))"

lemma uses_accounted_step:
  assumes inv: "uses_accounted i st"
    and seen: "inv_id (snd (snd r)) = inv_id i \<Longrightarrow> inv_maxUses (snd (snd r)) = inv_maxUses i"
  shows "uses_accounted i (admit env st r)"
proof (cases "register_commit env (fst r) (fst (snd r)) (snd (snd r)) (fst st)")
  case (Pair res w')
  let ?seen = "snd (snd r)" and ?P = "invite_usable (fst r) (snd (snd r))"
  obtain j where d: "distinct (map inv_id (aw_invites (fst st)))" and j: "j \<in> set (aw_invites (fst st))"
      "inv_id j = inv_id i" and uses: "inv_uses j = inv_uses i + int (length (admitted_by (inv_id i) (snd st)))"
      and le: "\<forall>n. inv_maxUses i = Some n \<longrightarrow> inv_uses j \<le> n"
    using inv by (auto simp: uses_accounted_def)
  note eff = register_commit_invites [OF Pair]
  show ?thesis
  proof (cases res)
    case (Inl e)
    then show ?thesis
      using inv eff by (simp add: uses_accounted_def admit_def Pair)
  next
    case (Inr uid)
    let ?f = "\<lambda>k. k\<lparr>inv_uses := inv_uses k + 1\<rparr>"
    have rows: "aw_invites w' = update_where ?P ?f (aw_invites (fst st))"
      using eff Inr by simp
    obtain k where k: "k \<in> set (aw_invites (fst st))" "?P k"
      using eff Inr by auto
    have ids: "map inv_id (aw_invites w') = map inv_id (aw_invites (fst st))"
      by (simp add: rows update_where_def)
    have mem: "(if ?P j then ?f j else j) \<in> set (aw_invites w')"
      using j(1) by (simp add: rows update_where_def)
    have same: "?P j \<longleftrightarrow> inv_id ?seen = inv_id i"
    proof
      show "?P j \<Longrightarrow> inv_id ?seen = inv_id i"
        using j(2) by (simp add: invite_usable_def)
      assume "inv_id ?seen = inv_id i"
      then have "inv_id k = inv_id j"
        using k(2) j(2) by (simp add: invite_usable_def)
      then have "k = j"
        by (rule distinct_map_unique [OF d k(1) j(1)])
      then show "?P j" using k(2) by simp
    qed
    have bound: "\<forall>n. inv_maxUses i = Some n \<longrightarrow> inv_uses (if ?P j then ?f j else j) \<le> n"
      using le same seen by (auto simp: invite_usable_def)
    have cnt: "inv_uses (if ?P j then ?f j else j) =
        inv_uses i + int (length (admitted_by (inv_id i) (snd st @ [(inv_id ?seen, uid)])))"
      using uses same by (simp add: admitted_by_def)
    show ?thesis
      unfolding uses_accounted_def admit_def Pair Inr
      using d ids mem bound cnt j(2) by (auto intro!: bexI [OF _ mem])
  qed
qed

text \<open>
  C23. An invite for a number of uses admits at most that many accounts, counting those it has already
  admitted, however many registrations pass the check at the same time and in whatever order they
  commit: each request carries the invite row it read earlier, which may be stale in everything but
  the limit, which never changes.
\<close>

theorem invite_limit_holds:
  assumes "i \<in> set (aw_invites w)" and "distinct (map inv_id (aw_invites w))"
    and "inv_maxUses i = Some n" and "inv_uses i \<le> n"
    and "\<forall>r \<in> set requests. inv_id (snd (snd r)) = inv_id i \<longrightarrow> inv_maxUses (snd (snd r)) = Some n"
  shows "int (length (admitted_by (inv_id i) (snd (foldl (admit env) (w, []) requests)))) \<le> n - inv_uses i"
proof -
  have "uses_accounted i st \<Longrightarrow> uses_accounted i (foldl (admit env) st requests)" for st
    using assms(3,5)
  proof (induction requests arbitrary: st)
    case (Cons r rs)
    then show ?case
      using uses_accounted_step [of i st r env] by simp
  qed simp
  moreover have "uses_accounted i (w, [])"
    using assms(1-4) by (auto simp: uses_accounted_def admitted_by_def)
  ultimately have "uses_accounted i (foldl (admit env) (w, []) requests)"
    by blast
  then show ?thesis
    using assms(3) by (auto simp: uses_accounted_def)
qed

definition sample_invite :: invite_row where
  "sample_invite = \<lparr>inv_id = ''i'', inv_code = ''C'', inv_scope = InstanceInvite, inv_serverId = None,
     inv_maxUses = Some 1, inv_uses = 0, inv_expiresAt = None, inv_revokedAt = None\<rparr>"

definition sample_request :: "string \<Rightarrow> register_request" where
  "sample_request name = \<lparr>rq_username = name, rq_displayName = name, rq_email = name, rq_password = ''p'',
     rq_inviteCode = ''c''\<rparr>"

theorem invite_limit_holds_witness:
  "int (length (admitted_by ''i'' (snd (foldl (admit sample_env) (sample_auth_world\<lparr>aw_invites := [sample_invite]\<rparr>, [])
     [(5, sample_request ''bob'', sample_invite), (6, sample_request ''eve'', sample_invite)])))) \<le> 1"
  using invite_limit_holds [of sample_invite "sample_auth_world\<lparr>aw_invites := [sample_invite]\<rparr>" 1
      "[(5, sample_request ''bob'', sample_invite), (6, sample_request ''eve'', sample_invite)]" sample_env]
  by (simp add: sample_invite_def)

end
