(* ===== verification/AuthRuns.thy ===== *)
theory AuthRuns
  imports Accounts "HOL-Library.Multiset"
begin

text \<open>
  Runs of the authentication service: requests whose parts interleave. A step is one part of a
  handler between two awaits; what the handler had read before is an argument of the step and may be
  stale. Session lineages, the session cap, the lock-outs and the second factor.
\<close>

section \<open>The run\<close>

datatype session_event =
    Issues ident session_context                    \<comment> \<open>the end of registration, bootstrap, WebAuthn\<close>
  | Logins account_row string session_context
  | SecondFactor account_row string session_context
  | Checks string
  | Rotates auth_session session_context
  | LogsOut ident
  | Prunes ident
  | Resets string string
  | Changes ident string string

text \<open>Beside the world, the successor of every session that was rotated.\<close>

type_synonym lineage = "(ident \<times> ident) list"

fun session_step :: "auth_env \<Rightarrow> auth_world \<times> lineage \<Rightarrow> millis \<times> session_event \<Rightarrow> auth_world \<times> lineage" where
  "session_step env (w, ps) (now, Issues u ctx) = (snd (issueSession env now u ctx w), ps)"
| "session_step env (w, ps) (now, Logins seen pw ctx) = (snd (login_finish env now seen pw ctx w), ps)"
| "session_step env (w, ps) (now, SecondFactor seen code ctx) = (snd (loginTotp_finish env now seen code ctx w), ps)"
| "session_step env (w, ps) (now, Checks token) = (snd (refresh_check env now token w), ps)"
| "session_step env (w, ps) (now, Rotates seen ctx) =
     (case refresh_rotate env now seen ctx w of
        (Inl e, w') \<Rightarrow> (w', ps)
      | (Inr pair, w') \<Rightarrow> (w', ps @ [(ses_id seen, ses_id (last (aw_sessions w')))]))"
| "session_step env (w, ps) (now, LogsOut s) = (snd (logout now s w), ps)"
| "session_step env (w, ps) (now, Prunes u) = (run_prune now u w, ps)"
| "session_step env (w, ps) (now, Resets token pw) = (snd (resetPassword env now token pw w), ps)"
| "session_step env (w, ps) (now, Changes u cur pw) = (snd (changePassword env now u cur pw w), ps)"

lemma issueSession_world:
  "snd (issueSession env now u ctx w) =
     w\<lparr>aw_next := aw_next w + 2,
       aw_sessions := aw_sessions w @
         [\<lparr>ses_id = aw_ulids w (aw_next w), ses_userId = u,
           ses_expiresAt = now + get_or (60 * 60 * 24 * 30) (ae_refreshTtlSeconds env) * 1000, ses_revokedAt = None,
           ses_refreshTokenHash = ae_sha256 env (sgt_token (signRefresh (ae_jwt env) (ae_jwt_config env) now u
              (aw_ulids w (aw_next w)) (aw_ulids w (aw_next w + 1)))),
           ses_createdAt = now, ses_deviceName = sx_deviceName ctx, ses_ipAddress = sx_ipAddress ctx,
           ses_userAgent = sx_userAgent ctx\<rparr>],
       aw_prunes := aw_prunes w @ [u]\<rparr>"
  by (simp add: issueSession_def fresh_ulid_def Let_def)

section \<open>What all the operations keep\<close>

text \<open>
  A relation between the world before and after that holds for revocations and new sessions, and
  does not see the other columns, holds for every part of a handler.
\<close>

locale session_frame =
  fixes R :: "auth_world \<Rightarrow> auth_world \<Rightarrow> bool"
  assumes same: "aw_sessions w' = aw_sessions w \<Longrightarrow> aw_ulids w' = aw_ulids w \<Longrightarrow> aw_next w' = aw_next w \<Longrightarrow>
      aw_prunes w' = aw_prunes w \<Longrightarrow> R w w'"
    and trans: "R w w1 \<Longrightarrow> R w1 w2 \<Longrightarrow> R w w2"
    and revoke: "R w (revoke_where now P w)"
    and issue: "R w (snd (issueSession env now u ctx w))"
begin

lemma refl: "R w w"
  by (rule same) simp_all

lemma account: "R w (update_account u f w)"
  by (rule same) (simp_all add: update_account_def)

lemma then_issue: "R w w1 \<Longrightarrow> issueSession env now u ctx w1 = (pair, w2) \<Longrightarrow> R w w2"
  by (metis issue trans snd_conv)

lemma login: "R w (snd (login_finish env now seen pw ctx w))"
  unfolding login_finish_def Let_def
  by (auto split: option.split prod.split intro: then_issue account refl)

lemma totp: "R w (snd (loginTotp_finish env now seen code ctx w))"
proof -
  have frame: "R w (snd (advance_totp seen c w))" "R w (snd (consume_backup seen rest w))" for c rest
    by (rule same, simp_all add: advance_totp_def consume_backup_def Let_def)+
  then have adv: "advance_totp seen c w = (b, w1) \<Longrightarrow> R w w1" "consume_backup seen rest w = (b, w1) \<Longrightarrow> R w w1"
    for c rest b w1 by (metis snd_conv)+
  have fail: "R v (recordFailedTotpAttempt now (acc_id seen) n v)" for v n
    by (simp add: recordFailedTotpAttempt_def account)
  show ?thesis
    unfolding loginTotp_finish_def Let_def
    by (auto split: option.split prod.split simp: fail refl intro: then_issue dest: adv
        intro: trans [OF adv(1) fail] trans [OF adv(2) fail])
qed

lemma check: "R w (snd (refresh_check env now token w))"
  by (auto simp: refresh_check_def refl revoke split: sum.split option.split)

lemma rotate: "R w (snd (refresh_rotate env now seen ctx w))"
  by (auto simp: refresh_rotate_def Let_def split: prod.split intro: then_issue revoke)

lemma logs_out: "R w (snd (logout now s w))"
  by (auto simp: logout_def refl revoke)

lemma reset: "R w (snd (resetPassword env now token pw w))"
proof -
  have "R w (reset_transaction env now u pw w)" for u
    unfolding reset_transaction_def Let_def
    by (rule trans [OF account], rule trans [OF revoke], rule same) simp_all
  then show ?thesis
    by (auto simp: resetPassword_def refl split: option.split)
qed

lemma change: "R w (snd (changePassword env now u cur pw w))"
  unfolding changePassword_def
  by (auto split: option.split intro: trans [OF account revoke] refl)

lemma step:
  assumes "\<And>u. R (fst st) (run_prune now u (fst st)) \<or> e \<noteq> Prunes u"
  shows "R (fst st) (fst (session_step env st (now, e)))"
proof -
  obtain w ps where st: "st = (w, ps)" by (cases st)
  have rot: "R w (fst (session_step env (w, ps) (now, Rotates seen ctx)))" for seen ctx
    using rotate [of w env now seen ctx]
    by (cases "refresh_rotate env now seen ctx w") (auto split: sum.split)
  show ?thesis
    using assms unfolding st
    by (cases e) (auto simp: issue login totp check logs_out reset change simp del: session_step.simps(5) intro: rot)
qed

end

section \<open>How sessions evolve\<close>

text \<open>New sessions get new identifiers, and no session becomes valid again.\<close>

definition evolves :: "auth_world \<Rightarrow> auth_world \<Rightarrow> bool" where
  "evolves w w' \<longleftrightarrow> aw_ulids w' = aw_ulids w \<and> aw_next w \<le> aw_next w' \<and>
     (\<forall>s' \<in> set (aw_sessions w').
        ses_id s' \<in> aw_ulids w ` {aw_next w..<aw_next w'} \<or>
        (\<exists>s \<in> set (aw_sessions w). ses_id s = ses_id s' \<and> (ses_revokedAt s \<noteq> None \<longrightarrow> ses_revokedAt s' \<noteq> None)))"

lemma evolves_same [intro]:
  "aw_sessions w' = aw_sessions w \<Longrightarrow> aw_ulids w' = aw_ulids w \<Longrightarrow> aw_next w' = aw_next w \<Longrightarrow> evolves w w'"
  by (auto simp: evolves_def)

lemma evolves_trans:
  assumes "evolves w w1" and "evolves w1 w2"
  shows "evolves w w2"
  unfolding evolves_def
proof (intro conjI ballI)
  show "aw_ulids w2 = aw_ulids w" "aw_next w \<le> aw_next w2"
    using assms by (auto simp: evolves_def)
  fix s2
  assume "s2 \<in> set (aw_sessions w2)"
  then consider "ses_id s2 \<in> aw_ulids w1 ` {aw_next w1..<aw_next w2}"
    | s1 where "s1 \<in> set (aw_sessions w1)" "ses_id s1 = ses_id s2"
        "ses_revokedAt s1 \<noteq> None \<longrightarrow> ses_revokedAt s2 \<noteq> None"
    using assms(2) by (auto simp: evolves_def)
  then show "ses_id s2 \<in> aw_ulids w ` {aw_next w..<aw_next w2} \<or>
      (\<exists>s \<in> set (aw_sessions w). ses_id s = ses_id s2 \<and> (ses_revokedAt s \<noteq> None \<longrightarrow> ses_revokedAt s2 \<noteq> None))"
  proof cases
    case 1
    then show ?thesis
      using assms by (auto simp: evolves_def)
  next
    case 2
    then consider "ses_id s1 \<in> aw_ulids w ` {aw_next w..<aw_next w1}"
      | s where "s \<in> set (aw_sessions w)" "ses_id s = ses_id s1" "ses_revokedAt s \<noteq> None \<longrightarrow> ses_revokedAt s1 \<noteq> None"
      using assms(1) unfolding evolves_def by blast
    then show ?thesis
    proof cases
      case 1
      then show ?thesis
        using 2 assms(2) by (auto simp: evolves_def)
    next
      case (2 s)
      then show ?thesis
        using \<open>ses_id s1 = ses_id s2\<close> \<open>ses_revokedAt s1 \<noteq> None \<longrightarrow> ses_revokedAt s2 \<noteq> None\<close> by auto
    qed
  qed
qed

lemma evolves_revoke [simp]: "evolves w (revoke_where now P w)"
proof -
  have "\<exists>s \<in> set (aw_sessions w). ses_id s = ses_id s' \<and> (ses_revokedAt s \<noteq> None \<longrightarrow> ses_revokedAt s' \<noteq> None)"
    if "s' \<in> set (aw_sessions (revoke_where now P w))" for s'
  proof -
    from that have "s' \<in> set (update_where P (\<lambda>s. s\<lparr>ses_revokedAt := Some now\<rparr>) (aw_sessions w))"
      by (simp add: revoke_where_def)
    then obtain s where "s \<in> set (aw_sessions w)" "s' = (if P s then s\<lparr>ses_revokedAt := Some now\<rparr> else s)"
      by (rule set_update_whereE)
    then show ?thesis by (intro bexI [of _ s]) simp_all
  qed
  then show ?thesis by (simp add: evolves_def)
qed

lemma evolves_issue [simp]: "evolves w (snd (issueSession env now u ctx w))"
  by (auto simp: evolves_def issueSession_world)

interpretation evolution: session_frame evolves
  by unfold_locales (auto intro: evolves_trans)

lemma evolves_rotate: "evolves w (snd (refresh_rotate env now seen ctx w))"
  by (rule evolution.rotate)

lemma evolves_prune: "evolves w (run_prune now u w)"
proof -
  have "evolves v (pruneOldestSessions now u v)" for v
    by (auto simp: pruneOldestSessions_def Let_def)
  moreover have "evolves w (w\<lparr>aw_prunes := ps\<rparr>)" for ps
    by (rule evolves_same) simp_all
  ultimately show ?thesis
    by (auto simp: run_prune_def intro: evolves_trans)
qed

lemma evolves_step: "evolves (fst st) (fst (session_step env st ev))"
  using evolution.step [of st "fst ev" "snd ev" env] evolves_prune by simp

section \<open>One refresh token, one successor\<close>

definition known_ids :: "auth_world \<Rightarrow> ident set" where
  "known_ids w = aw_ulids w ` {..<aw_next w}"

definition lineage_ok :: "auth_world \<times> lineage \<Rightarrow> bool" where
  "lineage_ok st \<longleftrightarrow> inj (aw_ulids (fst st)) \<and>
     ses_id ` set (aw_sessions (fst st)) \<subseteq> known_ids (fst st) \<and>
     distinct (map fst (snd st)) \<and> distinct (map snd (snd st)) \<and>
     (\<forall>p \<in> set (snd st). fst p \<in> known_ids (fst st) \<and> snd p \<in> known_ids (fst st) \<and>
        (\<forall>s \<in> set (aw_sessions (fst st)). ses_id s = fst p \<longrightarrow> ses_revokedAt s \<noteq> None))"

lemma known_ids_evolves:
  assumes "evolves w w'"
  shows "known_ids w \<subseteq> known_ids w'"
  using assms by (auto simp: evolves_def known_ids_def)

lemma sessions_known:
  assumes "evolves w w'" and "ses_id ` set (aw_sessions w) \<subseteq> known_ids w"
  shows "ses_id ` set (aw_sessions w') \<subseteq> known_ids w'"
proof
  fix i
  assume "i \<in> ses_id ` set (aw_sessions w')"
  then obtain s' where s': "s' \<in> set (aw_sessions w')" "i = ses_id s'" by blast
  then consider "i \<in> aw_ulids w ` {aw_next w..<aw_next w'}" | "i \<in> ses_id ` set (aw_sessions w)"
    using assms(1) unfolding evolves_def by (metis image_eqI)
  then show "i \<in> known_ids w'"
  proof cases
    case 1
    then show ?thesis using assms(1) by (auto simp: evolves_def known_ids_def)
  next
    case 2
    then show ?thesis using assms known_ids_evolves by blast
  qed
qed

lemma revoked_stays:
  assumes "evolves w w'" and "inj (aw_ulids w)" and "p \<in> known_ids w"
    and "\<forall>s \<in> set (aw_sessions w). ses_id s = p \<longrightarrow> ses_revokedAt s \<noteq> None"
  shows "\<forall>s \<in> set (aw_sessions w'). ses_id s = p \<longrightarrow> ses_revokedAt s \<noteq> None"
proof (intro ballI impI)
  fix s
  assume s: "s \<in> set (aw_sessions w')" "ses_id s = p"
  have "p \<notin> aw_ulids w ` {aw_next w..<aw_next w'}"
    using assms(2,3) by (auto simp: known_ids_def dest: injD)
  then obtain s0 where "s0 \<in> set (aw_sessions w)" "ses_id s0 = p" "ses_revokedAt s0 \<noteq> None \<longrightarrow> ses_revokedAt s \<noteq> None"
    using assms(1) s unfolding evolves_def by blast
  then show "ses_revokedAt s \<noteq> None"
    using assms(4) by blast
qed

lemma lineage_kept:
  assumes "lineage_ok (w, ps)" and "evolves w w'"
  shows "lineage_ok (w', ps)"
proof -
  have "inj (aw_ulids w')"
    using assms by (simp add: lineage_ok_def evolves_def)
  moreover have "fst p \<in> known_ids w' \<and> snd p \<in> known_ids w' \<and>
      (\<forall>s \<in> set (aw_sessions w'). ses_id s = fst p \<longrightarrow> ses_revokedAt s \<noteq> None)" if "p \<in> set ps" for p
    using revoked_stays [OF assms(2), of "fst p"] known_ids_evolves [OF assms(2)] assms(1) that
    by (auto simp: lineage_ok_def)
  ultimately show ?thesis
    using sessions_known [OF assms(2)] assms(1) by (simp add: lineage_ok_def)
qed

lemma rotate_success:
  assumes "refresh_rotate env now seen ctx w = (Inr pair, w')"
  shows "\<exists>s \<in> set (aw_sessions w). ses_id s = ses_id seen \<and> ses_revokedAt s = None"
    and "ses_id (last (aw_sessions w')) = aw_ulids w (aw_next w)" and "aw_next w' = aw_next w + 2"
    and "\<forall>s \<in> set (aw_sessions w'). s \<noteq> last (aw_sessions w') \<and> ses_id s = ses_id seen \<longrightarrow> ses_revokedAt s \<noteq> None"
proof -
  let ?P = "\<lambda>s. ses_id s = ses_id seen \<and> ses_revokedAt s = None"
  let ?w = "revoke_where now ?P w"
  have ne: "filter ?P (aw_sessions w) \<noteq> []"
    using assms by (auto simp: refresh_rotate_def Let_def split: if_splits)
  then have w': "w' = snd (issueSession env now (ses_userId seen) ctx ?w)"
    using assms by (auto simp: refresh_rotate_def Let_def split: if_splits prod.splits)
  show "\<exists>s \<in> set (aw_sessions w). ses_id s = ses_id seen \<and> ses_revokedAt s = None"
    using ne by (auto simp: filter_empty_conv)
  show "ses_id (last (aw_sessions w')) = aw_ulids w (aw_next w)" "aw_next w' = aw_next w + 2"
    by (simp_all add: w' issueSession_world)
  have gone: "ses_revokedAt s \<noteq> None" if s: "s \<in> set (aw_sessions ?w)" "ses_id s = ses_id seen" for s
  proof -
    from s(1) have "s \<in> set (update_where ?P (\<lambda>s. s\<lparr>ses_revokedAt := Some now\<rparr>) (aw_sessions w))"
      by (simp add: revoke_where_def)
    then obtain r where r: "s = (if ?P r then r\<lparr>ses_revokedAt := Some now\<rparr> else r)"
      by (rule set_update_whereE)
    then show ?thesis
      using s(2) by (cases "?P r") auto
  qed
  show "\<forall>s \<in> set (aw_sessions w'). s \<noteq> last (aw_sessions w') \<and> ses_id s = ses_id seen \<longrightarrow> ses_revokedAt s \<noteq> None"
    using gone by (auto simp: w' issueSession_world)
qed

lemma lineage_step:
  assumes "lineage_ok st"
  shows "lineage_ok (session_step env st ev)"
proof -
  obtain w ps now e where st: "st = (w, ps)" and ev: "ev = (now, e)"
    by (cases st, cases ev)
  have kept: "lineage_ok (w', ps)" if "evolves w w'" for w'
    using assms that by (simp add: st lineage_kept)
  show ?thesis
  proof (cases e)
    case (Rotates seen ctx)
    obtain r w' where rw: "refresh_rotate env now seen ctx w = (r, w')"
      by (cases "refresh_rotate env now seen ctx w")
    have ev': "evolves w w'"
      using evolves_rotate [of w env now seen ctx] rw by simp
    show ?thesis
    proof (cases r)
      case (Inl e)
      then show ?thesis
        using kept [OF ev'] by (simp add: st ev Rotates rw)
    next
      case (Inr pair)
      note r = rotate_success [OF rw [unfolded Inr]]
      let ?c = "aw_ulids w (aw_next w)"
      have inj: "inj (aw_ulids w)" and known: "ses_id ` set (aw_sessions w) \<subseteq> known_ids w"
        using assms by (auto simp: st lineage_ok_def)
      have ok: "lineage_ok (w', ps)"
        by (rule kept [OF ev'])
      have new: "?c \<notin> known_ids w"
        using inj by (auto simp: known_ids_def dest: injD)
      have p: "ses_id seen \<in> known_ids w"
        using r(1) known by force
      have "ses_id seen \<notin> fst ` set ps" "?c \<notin> snd ` set ps"
        using r(1) new assms by (force simp: st lineage_ok_def)+
      moreover have "\<forall>s \<in> set (aw_sessions w'). ses_id s = ses_id seen \<longrightarrow> ses_revokedAt s \<noteq> None"
        using r(2,4) new p by metis
      moreover have "ses_id seen \<in> known_ids w'" "?c \<in> known_ids w'"
        using p known_ids_evolves [OF ev'] r(3) ev' by (auto simp: known_ids_def evolves_def)
      ultimately show ?thesis
        using ok by (auto simp: st ev Rotates rw Inr lineage_ok_def r(2))
    qed
  qed (use kept evolves_step [of st env ev] in \<open>auto simp: st ev\<close>)
qed

interpretation lineages: stepping "session_step env" lineage_ok for env
  by unfold_locales (rule lineage_step)

text \<open>
  C20. Refresh tokens have one successor each. However requests interleave, no session is ever rotated
  twice, no two rotations produce the same session, and a session that has a successor is revoked for
  good: even requests that all read the session while it was valid produce one successor.
\<close>

theorem one_successor:
  assumes "inj (aw_ulids w)" and "\<forall>s \<in> set (aw_sessions w). ses_id s \<in> aw_ulids w ` {..<aw_next w}"
  shows "let (w', lineage) = foldl (session_step env) (w, []) events in
    distinct (map fst lineage) \<and> distinct (map snd lineage) \<and>
    (\<forall>(parent, child) \<in> set lineage. \<forall>s \<in> set (aw_sessions w'). ses_id s = parent \<longrightarrow> ses_revokedAt s \<noteq> None)"
proof -
  have "lineage_ok (w, [])"
    using assms by (auto simp: lineage_ok_def known_ids_def)
  then have "lineage_ok (foldl (session_step env) (w, []) events)"
    by (rule lineages.inv_run)
  then show ?thesis
    by (auto simp: lineage_ok_def)
qed

lemma sample_ulids: "inj (aw_ulids sample_auth_world)"
  by (auto simp: sample_auth_world_def inj_def)

theorem one_successor_witness:
  "let (w', lineage) = foldl (session_step sample_env) (sample_auth_world, [])
       [(5, Rotates sample_session sample_context), (6, Rotates sample_session sample_context)] in
    distinct (map fst lineage) \<and> distinct (map snd lineage) \<and>
    (\<forall>(parent, child) \<in> set lineage. \<forall>s \<in> set (aw_sessions w'). ses_id s = parent \<longrightarrow> ses_revokedAt s \<noteq> None)"
  by (rule one_successor [OF sample_ulids]) (simp add: sample_auth_world_def sample_session_def)

section \<open>The cap on sessions\<close>

definition session_load :: "auth_world \<Rightarrow> ident \<Rightarrow> nat" where
  "session_load w u = length (active_sessions u w)"

definition within_cap :: "auth_world \<times> lineage \<Rightarrow> bool" where
  "within_cap st \<longleftrightarrow>
     (\<forall>u. session_load (fst st) u \<le> MAX_ACTIVE_SESSIONS_PER_USER + count_list (aw_prunes (fst st)) u)"

lemma load_revoke: "session_load (revoke_where now P w) u \<le> session_load w u"
  by (simp add: session_load_def active_revoke_where)

lemma load_update_account [simp]: "session_load (update_account v f w) u = session_load w u"
  by (simp add: session_load_def)

lemma load_issue: "session_load (snd (issueSession env now v ctx w)) u = session_load w u + (if u = v then 1 else 0)"
  by (simp add: session_load_def active_sessions_def issueSession_world is_active_def)

lemma prunes_issue: "aw_prunes (snd (issueSession env now v ctx w)) = aw_prunes w @ [v]"
  by (simp add: issueSession_world)

lemma filter_others_length: "length (filter (\<lambda>x. f x \<notin> f ` set (take n xs)) xs) \<le> length xs - n"
proof -
  have "filter (\<lambda>x. f x \<notin> f ` set (take n xs)) (take n xs) = []"
    by (auto simp: filter_empty_conv)
  then have "filter (\<lambda>x. f x \<notin> f ` set (take n xs)) xs = filter (\<lambda>x. f x \<notin> f ` set (take n xs)) (drop n xs)"
    by (metis append_Nil append_take_drop_id filter_append)
  also have "length \<dots> \<le> length (drop n xs)"
    by (rule length_filter_le)
  finally show ?thesis by simp
qed

lemma prune_caps: "session_load (pruneOldestSessions now u w) u \<le> MAX_ACTIVE_SESSIONS_PER_USER"
proof (cases "session_load w u \<le> MAX_ACTIVE_SESSIONS_PER_USER")
  case True
  then show ?thesis
    by (simp add: pruneOldestSessions_def session_load_def)
next
  case False
  let ?a = "active_sessions u w" and ?n = "session_load w u - MAX_ACTIVE_SESSIONS_PER_USER"
  let ?s = "Sorting_Algorithms.sort oldest_first ?a"
  let ?keep = "\<lambda>s. ses_id s \<notin> ses_id ` set (take ?n ?s)"
  have len: "length ?s = length ?a"
    by (metis mset_sort size_mset)
  have "take ?n ?s \<noteq> []"
    using False len by (auto simp: session_load_def simp flip: length_0_conv)
  then have "pruneOldestSessions now u w = revoke_where now (\<lambda>s. ses_id s \<in> ses_id ` set (take ?n ?s)) w"
    using False by (simp add: pruneOldestSessions_def session_load_def Let_def)
  then have "session_load (pruneOldestSessions now u w) u = length (filter ?keep ?a)"
    by (simp add: session_load_def active_revoke_where)
  also have "\<dots> = length (filter ?keep ?s)"
    by (metis mset_filter mset_sort size_mset)
  also have "\<dots> \<le> length ?s - ?n"
    by (rule filter_others_length)
  finally show ?thesis
    using False len by (simp add: session_load_def)
qed

text \<open>The load grows only with a pending call of the prune.\<close>

definition load_covered :: "auth_world \<Rightarrow> auth_world \<Rightarrow> bool" where
  "load_covered w w' \<longleftrightarrow>
     (\<forall>u. session_load w' u + count_list (aw_prunes w) u \<le> session_load w u + count_list (aw_prunes w') u)"

lemma load_covered_trans:
  assumes "load_covered w w1" and "load_covered w1 w2"
  shows "load_covered w w2"
  unfolding load_covered_def
proof
  fix u
  have "session_load w1 u + count_list (aw_prunes w) u \<le> session_load w u + count_list (aw_prunes w1) u"
    "session_load w2 u + count_list (aw_prunes w1) u \<le> session_load w1 u + count_list (aw_prunes w2) u"
    using assms by (auto simp: load_covered_def)
  then show "session_load w2 u + count_list (aw_prunes w) u \<le> session_load w u + count_list (aw_prunes w2) u"
    by linarith
qed

interpretation coverage: session_frame load_covered
proof unfold_locales
  show "load_covered w w'" if "aw_sessions w' = aw_sessions w" "aw_prunes w' = aw_prunes w" for w w'
    using that by (simp add: load_covered_def session_load_def active_sessions_def)
  show "load_covered w w2" if "load_covered w w1" "load_covered w1 w2" for w w1 w2
    using that by (rule load_covered_trans)
  show "load_covered w (revoke_where now P w)" for w now P
    using load_revoke by (simp add: load_covered_def)
  show "load_covered w (snd (issueSession env now u ctx w))" for w env now u ctx
    by (simp add: load_covered_def load_issue prunes_issue)
qed

lemma count_list_remove1: "count_list (remove1 x xs) y = count_list xs y - (if x = y then 1 else 0)"
  by (induction xs) (auto simp: Suc_diff_le count_list_0_iff)

lemma load_prune_other: "session_load (pruneOldestSessions now u w) v \<le> session_load w v"
  by (auto simp: pruneOldestSessions_def Let_def load_revoke)

lemma prunes_prune [simp]: "aw_prunes (pruneOldestSessions now u w) = aw_prunes w"
  by (simp add: pruneOldestSessions_def Let_def)

lemma within_cap_prune:
  assumes "within_cap (w, ps)"
  shows "within_cap (run_prune now u w, ps)"
proof (cases "u \<in> set (aw_prunes w)")
  case True
  let ?w = "w\<lparr>aw_prunes := remove1 u (aw_prunes w)\<rparr>"
  have "session_load (pruneOldestSessions now u ?w) v \<le>
      MAX_ACTIVE_SESSIONS_PER_USER + count_list (remove1 u (aw_prunes w)) v" for v
  proof (cases "v = u")
    case True
    then show ?thesis using prune_caps [of now u ?w] by simp
  next
    case False
    have "session_load ?w v = session_load w v"
      by (simp add: session_load_def active_sessions_def)
    then show ?thesis
      using load_prune_other [of now u ?w v] assms False
      by (simp add: within_cap_def count_list_remove1) (metis le_trans)
  qed
  then show ?thesis
    using True by (simp add: within_cap_def run_prune_def)
qed (use assms in \<open>simp add: run_prune_def\<close>)

lemma within_cap_step:
  assumes "within_cap st"
  shows "within_cap (session_step env st ev)"
proof (cases "\<exists>u. snd ev = Prunes u")
  case True
  then obtain u now where "ev = (now, Prunes u)"
    by (cases ev) auto
  then show ?thesis
    using assms within_cap_prune by (cases st) simp
next
  case False
  then have "load_covered (fst st) (fst (session_step env st ev))"
    using coverage.step [of st "fst ev" "snd ev" env] by simp
  then have cov: "session_load (fst (session_step env st ev)) u + count_list (aw_prunes (fst st)) u \<le>
      session_load (fst st) u + count_list (aw_prunes (fst (session_step env st ev))) u" for u
    by (simp add: load_covered_def)
  show ?thesis
    unfolding within_cap_def
  proof
    fix u
    have "session_load (fst st) u \<le> MAX_ACTIVE_SESSIONS_PER_USER + count_list (aw_prunes (fst st)) u"
      using assms by (simp add: within_cap_def)
    then show "session_load (fst (session_step env st ev)) u \<le>
        MAX_ACTIVE_SESSIONS_PER_USER + count_list (aw_prunes (fst (session_step env st ev))) u"
      using cov [of u] by linarith
  qed
qed

interpretation cap: stepping "session_step env" within_cap for env
  by unfold_locales (rule within_cap_step)

text \<open>
  C21. The cap of twenty sessions. Through any interleaving of requests a user has at most twenty
  active sessions beyond the prunings that are still to run for that user, so at most twenty once
  every pruning has run; the start may be any state within the cap.
\<close>

theorem session_cap:
  assumes "\<forall>u. session_load w u \<le> 20 + count_list (aw_prunes w) u"
  shows "let w' = fst (foldl (session_step env) (w, []) events) in
    length (active_sessions u w') \<le> 20 + count_list (aw_prunes w') u \<and>
    (u \<notin> set (aw_prunes w') \<longrightarrow> length (active_sessions u w') \<le> 20)"
proof -
  have "within_cap (w, [])"
    using assms by (simp add: within_cap_def MAX_ACTIVE_SESSIONS_PER_USER_def)
  then have "within_cap (foldl (session_step env) (w, []) events)"
    by (rule cap.inv_run)
  then have "length (active_sessions u (fst (foldl (session_step env) (w, []) events))) \<le>
      20 + count_list (aw_prunes (fst (foldl (session_step env) (w, []) events))) u"
    by (simp add: within_cap_def session_load_def MAX_ACTIVE_SESSIONS_PER_USER_def)
  then show ?thesis
    by (auto simp: Let_def count_notin)
qed

theorem session_cap_witness:
  "let w' = fst (foldl (session_step sample_env) (sample_auth_world, []) [(5, Issues ''alice'' sample_context)]) in
    length (active_sessions ''alice'' w') \<le> 20 + count_list (aw_prunes w') ''alice'' \<and>
    (''alice'' \<notin> set (aw_prunes w') \<longrightarrow> length (active_sessions ''alice'' w') \<le> 20)"
  by (rule session_cap) (simp add: session_load_def active_sessions_def sample_auth_world_def)

section \<open>A session that was ended, presented again\<close>

text \<open>
  Any revoked session whose refresh token is presented again ends every session of its user. The
  check does not tell a token that was rotated from one whose session was ended by the cap: a device
  that was pruned and still holds its token, used nowhere else, signs the user out everywhere when it
  refreshes.
\<close>

theorem pruned_device_signs_out_everywhere:
  assumes "s \<in> set (active_sessions u w)" and "distinct (map ses_id (aw_sessions w))"
    and "pruneOldestSessions now u w = w1"
    and "\<forall>t \<in> set (active_sessions u w1). ses_id t \<noteq> ses_id s"
    and "verifyRefresh (ae_jwt env) (ae_jwt_config env) later token = Inr (sub, ses_id s)"
  shows "\<exists>w2. refresh env later token ctx w1 =
      (Inl (Tavern (TavernError INVALID_TOKEN ''Refresh token reuse detected'' 401 None)), w2) \<and>
    active_sessions u w2 = []"
proof -
  have s: "s \<in> set (aw_sessions w)" "ses_userId s = u"
    using assms(1) by (auto simp: active_sessions_def is_active_def)
  obtain P where P: "w1 = revoke_where now P w"
  proof (cases "w1 = w")
    case True
    then have "w1 = revoke_where now (\<lambda>_. False) w"
      by (simp add: revoke_where_def update_where_def)
    then show ?thesis by (rule that)
  next
    case False
    then show ?thesis
      using assms(3) that by (auto simp: pruneOldestSessions_def Let_def split: if_splits)
  qed
  have "List.find (\<lambda>x. ses_id x = ses_id s) (aw_sessions w) = Some s"
    using assms(2) s(1) by (rule find_unique_key)
  then have found: "List.find (\<lambda>x. ses_id x = ses_id s) (aw_sessions w1) =
      Some (if P s then s\<lparr>ses_revokedAt := Some now\<rparr> else s)" (is "_ = Some ?s")
    by (simp add: P revoke_where_def find_update_where)
  then have "?s \<in> set (aw_sessions w1)"
    using find_in_set by fast
  then have "ses_revokedAt ?s \<noteq> None"
    using assms(4) s(2) by (auto simp: active_sessions_def is_active_def)
  then have "refresh_check env later token w1 =
      (Inl (Tavern (TavernError INVALID_TOKEN ''Refresh token reuse detected'' 401 None)),
       revoke_where later (is_active u) w1)"
    using assms(5) found s(2) by (auto simp: refresh_check_def)
  then show ?thesis
    by (simp add: refresh_def active_revoke_user)
qed

definition many_sessions :: auth_world where
  "many_sessions = sample_auth_world\<lparr>aw_sessions :=
     map (\<lambda>n. sample_session\<lparr>ses_id := CHR ''s'' # replicate n (CHR ''u''), ses_createdAt := int n\<rparr>) [0..<21]\<rparr>"

theorem pruned_device_signs_out_everywhere_witness:
  "active_sessions ''alice'' (snd (refresh sample_env 9 ''s'' sample_context
     (pruneOldestSessions 5 ''alice'' many_sessions))) = []"
proof -
  have "sample_session \<in> set (active_sessions ''alice'' many_sessions)"
    by (auto simp: active_sessions_def many_sessions_def sample_session_def is_active_def intro!: image_eqI [of _ _ 0])
  moreover have "distinct (map ses_id (aw_sessions many_sessions))"
    by (simp add: many_sessions_def distinct_map inj_on_def)
  moreover have "list_all (\<lambda>t. ses_id t \<noteq> ses_id sample_session)
      (active_sessions ''alice'' (pruneOldestSessions 5 ''alice'' many_sessions))"
    by code_simp
  moreover have "verifyRefresh (ae_jwt sample_env) (ae_jwt_config sample_env) 9 ''s'' = Inr (''alice'', ses_id sample_session)"
    by (simp add: verifyRefresh_def sample_env_def sample_session_def)
  ultimately show ?thesis
    using pruned_device_signs_out_everywhere [of sample_session "''alice''" many_sessions 5 _ sample_env 9 "''s''"
        "''alice''" sample_context, OF _ _ refl]
    by (auto simp: list_all_iff)
qed

end
