(* ===== verification/Lockouts.thy ===== *)
theory Lockouts
  imports AuthRuns
begin

text \<open>
  The lock-outs of apps/api/src/services/auth-service.ts and the second factor: what wrong passwords
  count for one after another and side by side, and that codes are accepted once.
\<close>

section \<open>Guessing one after another\<close>

definition guess :: "auth_env \<Rightarrow> string \<Rightarrow> session_context \<Rightarrow> auth_world \<Rightarrow> millis \<times> string \<Rightarrow> auth_world" where
  "guess env identifier ctx w g = snd (login env (fst g) identifier (snd g) ctx w)"

lemma login_lookup_update:
  assumes "\<And>a. acc_usernameLower (f a) = acc_usernameLower a" and "\<And>a. acc_emailLower (f a) = acc_emailLower a"
    and "login_lookup identifier w = Some a"
  shows "login_lookup identifier (update_account (acc_id a) f w) = Some (f a)"
proof -
  have "login_lookup identifier (update_account (acc_id a) f w) =
      map_option (\<lambda>r. if acc_id r = acc_id a then f r else r) (login_lookup identifier w)"
    unfolding login_lookup_def update_account_def by (simp add: find_update_where assms(1,2))
  then show ?thesis
    using assms(3) by simp
qed

definition guessed :: "nat \<Rightarrow> millis \<Rightarrow> account_row \<Rightarrow> account_row" where
  "guessed n t a = a\<lparr>acc_failedLoginAttempts := n,
     acc_loginLockedUntil := (if n \<ge> FAILED_LOGIN_LOCKOUT_THRESHOLD then Some (t + FAILED_LOGIN_LOCKOUT_MS) else None)\<rparr>"

lemma wrong_guess:
  assumes "login_lookup identifier w = Some a" and "acc_loginLockedUntil a = None"
    and "acc_passwordHash a = Some h" and "h \<noteq> []" and "\<not> ae_verifyPassword env h pw"
  shows "login_lookup identifier (guess env identifier ctx w (t, pw)) = Some (guessed (acc_failedLoginAttempts a + 1) t a)"
  using assms login_lookup_update [where f = "\<lambda>x. x\<lparr>acc_failedLoginAttempts := acc_failedLoginAttempts a + 1,
      acc_loginLockedUntil := (if acc_failedLoginAttempts a + 1 \<ge> FAILED_LOGIN_LOCKOUT_THRESHOLD
        then Some (t + FAILED_LOGIN_LOCKOUT_MS) else acc_loginLockedUntil a)\<rparr>", OF _ _ assms(1)]
  by (simp add: guess_def login_def login_finish_def is_locked_def Let_def guessed_def)

lemma wrong_guesses:
  assumes "login_lookup identifier w = Some a" and "acc_failedLoginAttempts a = 0" and "acc_loginLockedUntil a = None"
    and "acc_passwordHash a = Some h" and "h \<noteq> []" and "\<forall>g \<in> set gs. \<not> ae_verifyPassword env h (snd g)"
    and "length gs \<le> FAILED_LOGIN_LOCKOUT_THRESHOLD" and "gs \<noteq> []"
  shows "login_lookup identifier (foldl (guess env identifier ctx) w gs) =
    Some (guessed (length gs) (fst (last gs)) a)"
  using assms(6-8)
proof (induction gs rule: rev_induct)
  case (snoc g gs)
  have g: "\<not> ae_verifyPassword env h (snd g)" using snoc.prems by simp
  show ?case
  proof (cases "gs = []")
    case True
    then show ?thesis
      using wrong_guess [OF assms(1,3,4,5) g, of ctx "fst g"] assms(2) by simp
  next
    case False
    let ?a = "guessed (length gs) (fst (last gs)) a"
    have look: "login_lookup identifier (foldl (guess env identifier ctx) w gs) = Some ?a"
      using snoc False by simp
    have "acc_loginLockedUntil ?a = None" "acc_passwordHash ?a = Some h"
      using snoc.prems assms(4) by (simp_all add: guessed_def)
    from wrong_guess [OF look this assms(5) g, of ctx "fst g"] show ?thesis
      by (simp add: guessed_def)
  qed
qed simp

text \<open>
  Ten wrong passwords in a row lock an account: for a quarter of an hour after the tenth every
  login is refused with the error of a wrong password and changes nothing, the right password
  included. With fewer than ten, the right password still signs in.
\<close>

theorem ten_guesses_lock:
  assumes "login_lookup identifier w = Some a" and "acc_failedLoginAttempts a = 0" and "acc_loginLockedUntil a = None"
    and "acc_passwordHash a = Some h" and "h \<noteq> []" and "acc_totpEnabled a = False"
    and "\<forall>g \<in> set gs. \<not> ae_verifyPassword env h (snd g)" and "gs \<noteq> []"
  shows "(length gs = 10 \<and> now < fst (last gs) + 15 * 60 * 1000 \<longrightarrow>
      (\<forall>pw. login env now identifier pw ctx (foldl (guess env identifier ctx) w gs) =
         (Inl invalid_credentials, foldl (guess env identifier ctx) w gs))) \<and>
    (length gs < 10 \<and> ae_verifyPassword env h right \<longrightarrow>
      \<not> isl (fst (login env now identifier right ctx (foldl (guess env identifier ctx) w gs))))"
proof (intro conjI impI allI)
  fix pw
  assume l: "length gs = 10 \<and> now < fst (last gs) + 15 * 60 * 1000"
  then have "login_lookup identifier (foldl (guess env identifier ctx) w gs) = Some (guessed 10 (fst (last gs)) a)"
    using wrong_guesses [OF assms(1-5,7) _ assms(8), of ctx] by (simp add: FAILED_LOGIN_LOCKOUT_THRESHOLD_def)
  then show "login env now identifier pw ctx (foldl (guess env identifier ctx) w gs) =
      (Inl invalid_credentials, foldl (guess env identifier ctx) w gs)"
    using l by (simp add: login_def login_finish_def is_locked_def guessed_def FAILED_LOGIN_LOCKOUT_THRESHOLD_def
        FAILED_LOGIN_LOCKOUT_MS_def)
next
  assume l: "length gs < 10 \<and> ae_verifyPassword env h right"
  then have "login_lookup identifier (foldl (guess env identifier ctx) w gs) = Some (guessed (length gs) (fst (last gs)) a)"
    using wrong_guesses [OF assms(1-5,7) _ assms(8), of ctx] by (simp add: FAILED_LOGIN_LOCKOUT_THRESHOLD_def)
  then show "\<not> isl (fst (login env now identifier right ctx (foldl (guess env identifier ctx) w gs)))"
    using l assms(4-6)
    by (auto simp: login_def login_finish_def is_locked_def guessed_def FAILED_LOGIN_LOCKOUT_THRESHOLD_def Let_def
        split: prod.split)
qed

theorem ten_guesses_lock_witness:
  "login sample_env 9 ''alice'' ''old'' sample_context
     (foldl (guess sample_env ''alice'' sample_context) sample_auth_world (replicate 10 (5, ''bad''))) =
   (Inl invalid_credentials, foldl (guess sample_env ''alice'' sample_context) sample_auth_world (replicate 10 (5, ''bad'')))"
proof -
  have "login_lookup ''alice'' sample_auth_world = Some sample_account"
    by (simp add: login_lookup_def sample_auth_world_def sample_account_def toLowerCase_def lower_char_def)
  then show ?thesis
    using ten_guesses_lock [of "''alice''" sample_auth_world sample_account "''hold''" "replicate 10 (5, ''bad'')" sample_env 9
        sample_context]
    by (simp add: sample_account_def sample_env_def)
qed

section \<open>Guessing side by side\<close>

text \<open>
  Wrong passwords sent at the same time count as one. Requests that read the account before any of
  them writes all store the count they read plus one, so any number of parallel guesses moves the
  counter by one and locks nothing.
\<close>

theorem parallel_guesses_count_once:
  assumes "find_account w (acc_id seen) = Some a" and "\<not> is_locked now (acc_loginLockedUntil seen)"
    and "acc_passwordHash seen = Some h" and "h \<noteq> []"
    and "acc_failedLoginAttempts seen + 1 < 10"
    and "\<forall>pw \<in> set guesses. \<not> ae_verifyPassword env h pw" and "guesses \<noteq> []"
  shows "\<exists>a'. find_account (foldl (\<lambda>w pw. snd (login_finish env now seen pw ctx w)) w guesses) (acc_id seen) = Some a' \<and>
    acc_failedLoginAttempts a' = acc_failedLoginAttempts seen + 1 \<and>
    acc_loginLockedUntil a' = acc_loginLockedUntil seen"
  using assms(6,7)
proof (induction guesses rule: rev_induct)
  case (snoc pw gs)
  let ?w = "foldl (\<lambda>w pw. snd (login_finish env now seen pw ctx w)) w gs"
  have "\<exists>b. find_account ?w (acc_id seen) = Some b"
    using snoc assms(1) by (cases "gs = []") auto
  then obtain b where b: "find_account ?w (acc_id seen) = Some b" by blast
  let ?f = "\<lambda>x. x\<lparr>acc_failedLoginAttempts := acc_failedLoginAttempts seen + 1,
      acc_loginLockedUntil := acc_loginLockedUntil seen\<rparr>"
  have "\<not> ae_verifyPassword env h pw" using snoc.prems by simp
  then have "snd (login_finish env now seen pw ctx ?w) = update_account (acc_id seen) ?f ?w"
    using assms(2-5) by (simp add: login_finish_def Let_def FAILED_LOGIN_LOCKOUT_THRESHOLD_def)
  moreover have "find_account (update_account (acc_id seen) ?f ?w) (acc_id seen) = Some (?f b)"
    using find_account_update [of ?f "acc_id seen" ?w "acc_id seen"] b by simp
  ultimately show ?case by simp
qed simp

theorem parallel_guesses_count_once_witness:
  "\<exists>a'. find_account (foldl (\<lambda>w pw. snd (login_finish sample_env 5 sample_account pw sample_context w))
      sample_auth_world (replicate 50 ''bad'')) ''alice'' = Some a' \<and> acc_failedLoginAttempts a' = 1"
  using parallel_guesses_count_once [of sample_auth_world sample_account sample_account 5 "''hold''" "replicate 50 ''bad''"
      sample_env sample_context]
  by (auto simp: find_account_def is_locked_def sample_auth_world_def sample_account_def sample_env_def)

section \<open>The second factor\<close>

text \<open>What a successful second step was paid with: a time step or the hash of a backup code.\<close>

type_synonym receipts = "(ident \<times> (nat + string)) list"

definition receipt :: "auth_env \<Rightarrow> millis \<Rightarrow> account_row \<Rightarrow> string \<Rightarrow> nat + string" where
  "receipt env now seen code =
     (case verifyTotpWithCounter (ae_hmac_sha1 env) now (the (acc_totpSecret seen)) (trim code) 1 of
        Some c \<Rightarrow> Inl c
      | None \<Rightarrow> Inr (hashBackupCode (ae_sha256 env) (trim code)))"

fun totp_step :: "auth_env \<Rightarrow> session_context \<Rightarrow> auth_world \<times> receipts \<Rightarrow> millis \<times> account_row \<times> string \<Rightarrow> auth_world \<times> receipts" where
  "totp_step env ctx (w, paid) (now, seen, code) =
     (case loginTotp_finish env now seen code ctx w of
        (Inl e, w') \<Rightarrow> (w', paid)
      | (Inr pair, w') \<Rightarrow> (w', paid @ [(acc_id seen, receipt env now seen code)]))"

definition counters_of :: "ident \<Rightarrow> receipts \<Rightarrow> nat list" where
  "counters_of u paid = List.map_filter (\<lambda>p. if fst p = u then (case snd p of Inl c \<Rightarrow> Some c | Inr _ \<Rightarrow> None) else None) paid"

definition codes_of :: "ident \<Rightarrow> receipts \<Rightarrow> string list" where
  "codes_of u paid = List.map_filter (\<lambda>p. if fst p = u then (case snd p of Inl _ \<Rightarrow> None | Inr h \<Rightarrow> Some h) else None) paid"

text \<open>The columns of the second factor, and how a step changes them.\<close>

definition factor :: "account_row \<Rightarrow> ident \<times> int \<times> string list" where
  "factor a = (acc_id a, acc_totpLastCounter a, acc_totpBackupCodes a)"

definition factors :: "auth_world \<Rightarrow> (ident \<times> int \<times> string list) list" where
  "factors w = map factor (aw_accounts w)"

lemma factors_issue [simp]: "issueSession env now u ctx w = (pair, w') \<Longrightarrow> factors w' = factors w"
  using issueSession_world [of env now u ctx w] by (simp add: factors_def)

lemma factors_failed [simp]: "factors (recordFailedTotpAttempt now u n w) = factors w"
  by (simp add: factors_def recordFailedTotpAttempt_def update_account_def update_where_def factor_def Let_def)

lemma factors_advance:
  assumes "advance_totp seen c w = (b, w')"
  shows "factors w' = map (\<lambda>(i, l, bs). if i = acc_id seen \<and> l = acc_totpLastCounter seen then (i, int c, bs) else (i, l, bs)) (factors w)"
    and "b \<longleftrightarrow> length (filter (\<lambda>(i, l, bs). i = acc_id seen \<and> l = acc_totpLastCounter seen) (factors w)) = 1"
  using assms
  by (auto simp: advance_totp_def factors_def update_where_def factor_def filter_map comp_def)

lemma factors_consume:
  assumes "consume_backup seen rest w = (b, w')"
  shows "factors w' = map (\<lambda>(i, l, bs). if i = acc_id seen \<and> bs = acc_totpBackupCodes seen then (i, l, rest) else (i, l, bs)) (factors w)"
    and "b \<longleftrightarrow> length (filter (\<lambda>(i, l, bs). i = acc_id seen \<and> bs = acc_totpBackupCodes seen) (factors w)) = 1"
  using assms
  by (auto simp: consume_backup_def factors_def update_where_def factor_def filter_map comp_def)

lemma distinct_filter_key:
  assumes "distinct (map fst xs)"
  shows "length (filter (\<lambda>x. fst x = k \<and> P x) xs) \<le> 1"
proof -
  have "distinct (map fst (filter (\<lambda>x. fst x = k \<and> P x) xs))"
    using assms by (simp add: distinct_map_filter)
  moreover have "set (map fst (filter (\<lambda>x. fst x = k \<and> P x) xs)) \<subseteq> {k}"
    by auto
  ultimately have "length (map fst (filter (\<lambda>x. fst x = k \<and> P x) xs)) \<le> card {k}"
    by (metis card_mono distinct_card finite.emptyI finite.insertI)
  then show ?thesis by simp
qed

lemma string_index_Some:
  "string_index s xs = Some i \<Longrightarrow> mset xs = add_mset s (mset (take i xs @ drop (Suc i) xs))"
  by (induction xs arbitrary: i) (auto split: if_splits)

lemma none_matches:
  assumes "distinct (map fst xs)" and "length (filter (\<lambda>x. fst x = k \<and> P x) xs) \<noteq> 1" and "x \<in> set xs"
  shows "\<not> (fst x = k \<and> P x)"
proof -
  have "length (filter (\<lambda>x. fst x = k \<and> P x) xs) = 0"
    using distinct_filter_key [OF assms(1), of k P] assms(2) by linarith
  then show ?thesis
    using assms(3) by (simp add: filter_empty_conv)
qed

lemma advance_lost:
  assumes "distinct (map fst (factors w))" and "advance_totp seen c w = (False, w')"
  shows "factors w' = factors w"
proof -
  have "length (filter (\<lambda>x. fst x = acc_id seen \<and> fst (snd x) = acc_totpLastCounter seen) (factors w)) \<noteq> 1"
    using factors_advance(2) [OF assms(2)] by (simp add: split_def)
  then have "\<not> (fst x = acc_id seen \<and> fst (snd x) = acc_totpLastCounter seen)" if "x \<in> set (factors w)" for x
    using none_matches [OF assms(1), of "acc_id seen" "\<lambda>x. fst (snd x) = acc_totpLastCounter seen"] that by blast
  then show ?thesis
    unfolding factors_advance(1) [OF assms(2)] by (intro map_idI) (auto simp: case_prod_beta)
qed

lemma consume_lost:
  assumes "distinct (map fst (factors w))" and "consume_backup seen rest w = (False, w')"
  shows "factors w' = factors w"
proof -
  have "length (filter (\<lambda>x. fst x = acc_id seen \<and> snd (snd x) = acc_totpBackupCodes seen) (factors w)) \<noteq> 1"
    using factors_consume(2) [OF assms(2)] by (simp add: split_def)
  then have "\<not> (fst x = acc_id seen \<and> snd (snd x) = acc_totpBackupCodes seen)" if "x \<in> set (factors w)" for x
    using none_matches [OF assms(1), of "acc_id seen" "\<lambda>x. snd (snd x) = acc_totpBackupCodes seen"] that by blast
  then show ?thesis
    unfolding factors_consume(1) [OF assms(2)] by (intro map_idI) (auto simp: case_prod_beta)
qed

lemma one_in: "length (filter P xs) = 1 \<Longrightarrow> \<exists>x \<in> set xs. P x"
  by (metis filter_False length_0_conv zero_neq_one)

lemma advance_won:
  assumes "advance_totp seen c w = (True, w')"
  shows "\<exists>bs. (acc_id seen, acc_totpLastCounter seen, bs) \<in> set (factors w)"
proof -
  have "length (filter (\<lambda>(i, l, bs). i = acc_id seen \<and> l = acc_totpLastCounter seen) (factors w)) = 1"
    using factors_advance(2) [OF assms] by simp
  from one_in [OF this] show ?thesis by auto
qed

lemma consume_won:
  assumes "consume_backup seen rest w = (True, w')"
  shows "\<exists>l. (acc_id seen, l, acc_totpBackupCodes seen) \<in> set (factors w)"
proof -
  have "length (filter (\<lambda>(i, l, bs). i = acc_id seen \<and> bs = acc_totpBackupCodes seen) (factors w)) = 1"
    using factors_consume(2) [OF assms] by simp
  from one_in [OF this] show ?thesis by auto
qed

text \<open>The parts of the second step: refused, paid with a time step, paid with a backup code.\<close>

lemma totp_cases:
  assumes "loginTotp_finish env now seen code ctx w = (r, w')"
  obtains (refused) "isl r" "w' = w"
  | (failed) v where "isl r" "w' = recordFailedTotpAttempt now (acc_id seen) (acc_failedTotpAttempts seen) v"
      "v = w \<or> (\<exists>c. advance_totp seen c w = (False, v)) \<or> (\<exists>rest. consume_backup seen rest w = (False, v))"
  | (stepped) c v pair where "r = Inr pair" "receipt env now seen code = Inl c" "acc_totpLastCounter seen < int c"
      "advance_totp seen c w = (True, v)" "issueSession env now (acc_id seen) ctx v = (pair, w')"
  | (backup) h idx v pair where "r = Inr pair" "receipt env now seen code = Inr h"
      "string_index h (acc_totpBackupCodes seen) = Some idx"
      "consume_backup seen (take idx (acc_totpBackupCodes seen) @ drop (Suc idx) (acc_totpBackupCodes seen)) w = (True, v)"
      "issueSession env now (acc_id seen) ctx v = (pair, w')"
proof (cases "\<not> acc_totpEnabled seen \<or> acc_totpSecret seen = None \<or> acc_totpSecret seen = Some [] \<or>
    is_locked now (acc_totpLockedUntil seen)")
  case True
  then show ?thesis
    using assms that(1) by (auto simp: loginTotp_finish_def split: if_splits)
next
  case False
  let ?v = "verifyTotpWithCounter (ae_hmac_sha1 env) now (the (acc_totpSecret seen)) (trim code) 1"
  let ?h = "hashBackupCode (ae_sha256 env) (trim code)" and ?bs = "acc_totpBackupCodes seen"
  show ?thesis
  proof (cases ?v)
    case (Some c)
    note v = this
    show ?thesis
    proof (cases "int c \<le> acc_totpLastCounter seen")
      case True
      then show ?thesis
        using assms False v that(2) [of w] by (auto simp: loginTotp_finish_def)
    next
      case later: False
      obtain b w1 where adv: "advance_totp seen c w = (b, w1)" by (cases "advance_totp seen c w")
      show ?thesis
      proof (cases b)
        case True
        then show ?thesis
          using assms False v later adv that(3) [of _ c w1]
          by (auto simp: loginTotp_finish_def receipt_def Let_def split: prod.splits)
      next
        case lost: False
        then have "\<exists>c. advance_totp seen c w = (False, w1)" using adv by auto
        then show ?thesis
          using assms False v later adv lost that(2) [of w1] by (auto simp: loginTotp_finish_def Let_def)
      qed
    qed
  next
    case None
    note v = this
    show ?thesis
    proof (cases "string_index ?h ?bs")
      case None
      then show ?thesis
        using assms False v that(2) [of w] by (auto simp: loginTotp_finish_def)
    next
      case (Some idx)
      obtain b w1 where con: "consume_backup seen (take idx ?bs @ drop (Suc idx) ?bs) w = (b, w1)"
        by (cases "consume_backup seen (take idx ?bs @ drop (Suc idx) ?bs) w")
      show ?thesis
      proof (cases b)
        case True
        then show ?thesis
          using assms False v Some con that(4) [of _ ?h idx w1]
          by (auto simp: loginTotp_finish_def receipt_def Let_def split: prod.splits)
      next
        case lost: False
        then have "\<exists>rest. consume_backup seen rest w = (False, w1)" using con by auto
        then show ?thesis
          using assms False v Some con lost that(2) [of w1] by (auto simp: loginTotp_finish_def Let_def)
      qed
    qed
  qed
qed

text \<open>A step either leaves the columns as they are, or pays with a later time step or a code that was there.\<close>

lemma totp_outcome:
  assumes "distinct (map fst (factors w))" and "loginTotp_finish env now seen code ctx w = (r, w')"
  shows "(isl r \<longrightarrow> factors w' = factors w) \<and>
    (\<not> isl r \<longrightarrow>
      (\<exists>c bs. receipt env now seen code = Inl c \<and> acc_totpLastCounter seen < int c \<and>
         (acc_id seen, acc_totpLastCounter seen, bs) \<in> set (factors w) \<and>
         factors w' = map (\<lambda>(i, l, bs). if i = acc_id seen \<and> l = acc_totpLastCounter seen then (i, int c, bs) else (i, l, bs)) (factors w)) \<or>
      (\<exists>h l rest. receipt env now seen code = Inr h \<and> mset (acc_totpBackupCodes seen) = add_mset h (mset rest) \<and>
         (acc_id seen, l, acc_totpBackupCodes seen) \<in> set (factors w) \<and>
         factors w' = map (\<lambda>(i, l, bs). if i = acc_id seen \<and> bs = acc_totpBackupCodes seen then (i, l, rest) else (i, l, bs)) (factors w)))"
proof -
  show ?thesis
    using assms(2)
  proof (cases rule: totp_cases)
    case refused
    then show ?thesis by simp
  next
    case (failed v)
    then show ?thesis
      using advance_lost [OF assms(1)] consume_lost [OF assms(1)] by auto
  next
    case (stepped c v pair)
    then show ?thesis
      using advance_won [of seen c w v] factors_advance(1) [of seen c w True v] by auto
  next
    case (backup h idx v pair)
    let ?rest = "take idx (acc_totpBackupCodes seen) @ drop (Suc idx) (acc_totpBackupCodes seen)"
    have "mset (acc_totpBackupCodes seen) = add_mset h (mset ?rest)"
      using backup(3) by (rule string_index_Some)
    moreover have "factors w' = map (\<lambda>(i, l, bs). if i = acc_id seen \<and> bs = acc_totpBackupCodes seen then (i, l, ?rest) else (i, l, bs)) (factors w)"
      using backup(4,5) factors_consume(1) [OF backup(4)] by simp
    moreover have "\<not> isl r" using backup(1) by simp
    ultimately show ?thesis
      using backup(2) consume_won [OF backup(4)] by blast
  qed
qed

definition payments_ok :: "ident \<Rightarrow> int \<Rightarrow> string list \<Rightarrow> auth_world \<times> receipts \<Rightarrow> bool" where
  "payments_ok u l0 bs0 st \<longleftrightarrow>
     distinct (map fst (factors (fst st))) \<and>
     (\<exists>l bs. (u, l, bs) \<in> set (factors (fst st)) \<and> l0 \<le> l \<and> sorted_wrt (<) (counters_of u (snd st)) \<and>
        (\<forall>c \<in> set (counters_of u (snd st)). l0 < int c \<and> int c \<le> l) \<and>
        mset (codes_of u (snd st)) + mset bs = mset bs0)"

lemma payments_okI:
  assumes "distinct (map fst (factors (fst st)))" and "(u, l, bs) \<in> set (factors (fst st))" and "l0 \<le> l"
    and "sorted_wrt (<) (counters_of u (snd st))" and "\<forall>c \<in> set (counters_of u (snd st)). l0 < int c \<and> int c \<le> l"
    and "mset (codes_of u (snd st)) + mset bs = mset bs0"
  shows "payments_ok u l0 bs0 st"
  using assms unfolding payments_ok_def by blast

lemma receipts_snoc:
  "counters_of u (paid @ [(v, Inl c)]) = counters_of u paid @ (if v = u then [c] else [])"
  "counters_of u (paid @ [(v, Inr h)]) = counters_of u paid"
  "codes_of u (paid @ [(v, Inl c)]) = codes_of u paid"
  "codes_of u (paid @ [(v, Inr h)]) = codes_of u paid @ (if v = u then [h] else [])"
  by (simp_all add: counters_of_def codes_of_def List.map_filter_def)

lemma distinct_fst_mem: "distinct (map fst xs) \<Longrightarrow> (k, v) \<in> set xs \<Longrightarrow> (k, v') \<in> set xs \<Longrightarrow> v = v'"
  by (metis eq_key_imp_eq_value)

lemma payments_step:
  assumes "payments_ok u l0 bs0 st"
  shows "payments_ok u l0 bs0 (totp_step env ctx st e)"
proof -
  obtain w paid now seen code where st: "st = (w, paid)" and e: "e = (now, seen, code)"
    by (cases st, cases e)
  obtain r w' where run: "loginTotp_finish env now seen code ctx w = (r, w')"
    by (cases "loginTotp_finish env now seen code ctx w")
  have d: "distinct (map fst (factors w))"
    using assms by (simp add: payments_ok_def st)
  obtain l bs where u: "(u, l, bs) \<in> set (factors w)" "l0 \<le> l" and s: "sorted_wrt (<) (counters_of u paid)"
      and range: "\<forall>c \<in> set (counters_of u paid). l0 < int c \<and> int c \<le> l"
      and codes: "mset (codes_of u paid) + mset bs = mset bs0"
    using assms by (auto simp: payments_ok_def st)
  note out = totp_outcome [OF d run]
  have fst_kept: "map fst (map f (factors w)) = map fst (factors w)" if "\<And>x. fst (f x) = fst x" for f :: "ident \<times> int \<times> string list \<Rightarrow> _"
    using that by simp
  show ?thesis
  proof (cases r)
    case (Inl err)
    then show ?thesis
      using out assms by (simp add: st e run payments_ok_def)
  next
    case (Inr pair)
    then consider
        (stepped) c b where "receipt env now seen code = Inl c" "acc_totpLastCounter seen < int c"
          "(acc_id seen, acc_totpLastCounter seen, b) \<in> set (factors w)"
          "factors w' = map (\<lambda>(i, l, bs). if i = acc_id seen \<and> l = acc_totpLastCounter seen then (i, int c, bs) else (i, l, bs)) (factors w)"
      | (backup) h k rest where "receipt env now seen code = Inr h" "mset (acc_totpBackupCodes seen) = add_mset h (mset rest)"
          "(acc_id seen, k, acc_totpBackupCodes seen) \<in> set (factors w)"
          "factors w' = map (\<lambda>(i, l, bs). if i = acc_id seen \<and> bs = acc_totpBackupCodes seen then (i, l, rest) else (i, l, bs)) (factors w)"
      using out by auto
    then show ?thesis
    proof cases
      case (stepped c b)
      have d': "distinct (map fst (factors w'))"
        unfolding stepped(4) by (subst fst_kept) (auto simp: d)
      have same: "acc_totpLastCounter seen = l" if "acc_id seen = u"
        using distinct_fst_mem [OF d u(1)] stepped(3) that by fastforce
      let ?l = "if acc_id seen = u then int c else l"
      have "(u, ?l, bs) \<in> set (factors w')"
        using u(1) same unfolding stepped(4) by (force simp: image_iff)
      moreover have "sorted_wrt (<) (counters_of u (paid @ [(acc_id seen, Inl c)]))"
        using s range same stepped(2) by (auto simp: receipts_snoc sorted_wrt_append)
      moreover have "\<forall>x \<in> set (counters_of u (paid @ [(acc_id seen, Inl c)])). l0 < int x \<and> int x \<le> ?l"
        using range same stepped(2) u(2) by (auto simp: receipts_snoc)
      moreover have "l0 \<le> ?l"
        using u(2) same stepped(2) by auto
      ultimately show ?thesis
        using d' codes by (intro payments_okI [where l = ?l and bs = bs]) (simp_all add: st e run Inr stepped(1) receipts_snoc)
    next
      case (backup h k rest)
      have d': "distinct (map fst (factors w'))"
        unfolding backup(4) by (subst fst_kept) (auto simp: d)
      have same: "acc_totpBackupCodes seen = bs" if "acc_id seen = u"
        using distinct_fst_mem [OF d u(1)] backup(3) that by fastforce
      let ?bs = "if acc_id seen = u then rest else bs"
      have "(u, l, ?bs) \<in> set (factors w')"
        using u(1) same unfolding backup(4) by (force simp: image_iff)
      moreover have "mset (codes_of u (paid @ [(acc_id seen, Inr h)])) + mset ?bs = mset bs0"
        using codes same backup(2) by (auto simp: receipts_snoc)
      ultimately show ?thesis
        using d' s range u(2)
        by (intro payments_okI [where l = l and bs = ?bs]) (simp_all add: st e run Inr backup(1) receipts_snoc)
    qed
  qed
qed

interpretation payments: stepping "totp_step env ctx" "payments_ok u l0 bs0" for env ctx u l0 bs0
  by unfold_locales (rule payments_step)

text \<open>
  C22. A second factor is accepted once. In any run of second login steps, each acting on whatever
  copy of the account it had read, the time steps accepted for an account strictly increase and lie
  beyond the last one stored at the start, and the backup codes accepted together with those still
  stored are exactly those stored at the start: neither kind of code opens two sessions.
\<close>

theorem second_factor_used_once:
  assumes "distinct (map acc_id (aw_accounts w))" and "a \<in> set (aw_accounts w)"
    and "foldl (totp_step env ctx) (w, []) steps = (w', paid)"
  shows "sorted_wrt (<) (counters_of (acc_id a) paid) \<and>
    (\<forall>c \<in> set (counters_of (acc_id a) paid). acc_totpLastCounter a < int c) \<and>
    (\<exists>a' \<in> set (aw_accounts w'). acc_id a' = acc_id a \<and>
       mset (codes_of (acc_id a) paid) + mset (acc_totpBackupCodes a') = mset (acc_totpBackupCodes a))"
proof -
  have "map fst (factors w) = map acc_id (aw_accounts w)"
    by (simp add: factors_def factor_def)
  moreover have "factor a \<in> set (factors w)"
    using assms(2) by (simp add: factors_def)
  ultimately have "payments_ok (acc_id a) (acc_totpLastCounter a) (acc_totpBackupCodes a) (w, [])"
    using assms(1) by (auto simp: payments_ok_def factor_def counters_of_def codes_of_def List.map_filter_def)
  then have "payments_ok (acc_id a) (acc_totpLastCounter a) (acc_totpBackupCodes a) (foldl (totp_step env ctx) (w, []) steps)"
    by (rule payments.inv_run)
  then show ?thesis
    unfolding assms(3) by (auto simp: payments_ok_def factors_def factor_def)
qed

definition totp_account :: account_row where
  "totp_account = sample_account\<lparr>acc_totpEnabled := True, acc_totpSecret := Some ''AAAAAAAA''\<rparr>"

theorem second_factor_used_once_witness:
  "sorted_wrt (<) (counters_of ''alice'' (snd (foldl (totp_step sample_env sample_context)
     (sample_auth_world\<lparr>aw_accounts := [totp_account]\<rparr>, [])
     [(1000000, totp_account, ''000000''), (1000001, totp_account, ''000000'')])))"
  using second_factor_used_once [of "sample_auth_world\<lparr>aw_accounts := [totp_account]\<rparr>" totp_account sample_env
      sample_context "[(1000000, totp_account, ''000000''), (1000001, totp_account, ''000000'')]", OF _ _ surjective_pairing]
  by (simp add: totp_account_def sample_account_def del: foldl_Cons totp_step.simps)

section \<open>Accounts past their deletion date\<close>

lemma refresh_deleted:
  assumes "find_account w (ses_userId s) = Some a" and "acc_scheduledDeleteAt a = Some due" and "due < later"
    and "List.find (\<lambda>x. ses_id x = ses_id s) (aw_sessions w) = Some s"
    and "verifyRefresh (ae_jwt env) (ae_jwt_config env) later token = Inr (sub, ses_id s)"
  shows "isl (fst (refresh env later token ctx w))"
  using assms by (auto simp: refresh_def refresh_check_def)

text \<open>
  An account whose deletion was due still signs in: the password login never looks at the date, so
  it hands out an access token, although a refresh of the very same session is refused, and the session
  revoked, because the account counts as deleted.
\<close>

theorem deleted_account_signs_in:
  assumes "login_lookup identifier w = Some a" and "find_account w (acc_id a) = Some a"
    and "acc_scheduledDeleteAt a = Some due" and "due < now" and "now \<le> later"
    and "acc_loginLockedUntil a = None" and "acc_totpEnabled a = False" and "acc_passwordHash a = Some h" and "h \<noteq> []"
    and "ae_verifyPassword env h pw"
    and "aw_ulids w (aw_next w) \<notin> ses_id ` set (aw_sessions w)"
    and "verifyRefresh (ae_jwt env) (ae_jwt_config env) later token = Inr (sub, aw_ulids w (aw_next w))"
  shows "\<exists>pair w'. login env now identifier pw ctx w = (Inr pair, w') \<and>
    length (active_sessions (acc_id a) w') = length (active_sessions (acc_id a) w) + 1 \<and>
    isl (fst (refresh env later token ctx w'))"
proof -
  let ?f = "\<lambda>a. a\<lparr>acc_failedLoginAttempts := 0, acc_loginLockedUntil := None\<rparr>"
  let ?w = "if acc_failedLoginAttempts a > 0 then update_account (acc_id a) ?f w else w"
  obtain pair w' where i: "issueSession env now (acc_id a) ctx ?w = (pair, w')"
    by (cases "issueSession env now (acc_id a) ctx ?w")
  then have login: "login env now identifier pw ctx w = (Inr pair, w')"
    using assms(1,6-10) by (simp add: login_def login_finish_def is_locked_def Let_def)
  have w': "w' = snd (issueSession env now (acc_id a) ctx ?w)"
    using i by simp
  have load: "length (active_sessions (acc_id a) w') = length (active_sessions (acc_id a) w) + 1"
    using load_issue [of env now "acc_id a" ctx ?w "acc_id a"] by (simp add: w' session_load_def)
  have acc: "find_account w' (acc_id a) = Some (if acc_failedLoginAttempts a > 0 then ?f a else a)"
    using find_account_update [of ?f "acc_id a" w "acc_id a"] assms(2)
    by (simp add: w' issueSession_world find_account_def)
  define s where "s = last (aw_sessions w')"
  have sid: "ses_id s = aw_ulids w (aw_next w)" "ses_userId s = acc_id a"
    by (simp_all add: s_def w' issueSession_world)
  have "List.find (\<lambda>x. ses_id x = ses_id s) (aw_sessions ?w) = None"
    using assms(11) by (auto simp: find_None_iff sid image_iff dest: sym)
  then have "List.find (\<lambda>x. ses_id x = ses_id s) (aw_sessions w') = Some s"
    by (simp add: w' issueSession_world find_append s_def)
  then have "isl (fst (refresh env later token ctx w'))"
    using refresh_deleted [of w' s "if acc_failedLoginAttempts a > 0 then ?f a else a" due later env token sub ctx]
      acc sid assms(3,4,5,12) by simp
  with login load show ?thesis by blast
qed

definition due_account :: account_row where
  "due_account = sample_account\<lparr>acc_scheduledDeleteAt := Some 1\<rparr>"

theorem deleted_account_signs_in_witness:
  "\<exists>pair w'. login sample_env 5 ''alice'' ''old'' sample_context (sample_auth_world\<lparr>aw_accounts := [due_account]\<rparr>) = (Inr pair, w') \<and>
    isl (fst (refresh sample_env 6 ''su'' sample_context w'))"
proof -
  have "login_lookup ''alice'' (sample_auth_world\<lparr>aw_accounts := [due_account]\<rparr>) = Some due_account"
    by (simp add: login_lookup_def due_account_def sample_account_def toLowerCase_def lower_char_def)
  from deleted_account_signs_in [OF this, of 1 5 6 "''hold''" sample_env "''old''" "''su''" "''alice''" sample_context]
  show ?thesis
    by (auto simp: find_account_def due_account_def sample_auth_defs verifyRefresh_def)
qed

end
