(* ===== verification/Dms.thy ===== *)
theory Dms
  imports Moderation "HOL-Library.List_Lexorder" "HOL-Library.Char_ord"
    "HOL-Library.Product_Lexorder"
begin

text \<open>
  Direct messages: apps/api/src/services/dm-service.ts and the handlers of apps/api/src/routes/dms.ts.
  Strings compare by code units, which is the order of \<open>List_Lexorder\<close> and \<open>Char_ord\<close>. Opening a
  conversation and sending a message are split at their transaction. Sanitizing HTML is an argument;
  the rows a message is published with stand for its serialized form.
\<close>

section \<open>State\<close>

record dm_message_row = message_row +
  dmg_dmChannelId :: "ident option"
  dmg_replyTo :: "ident option"
  dmg_nonce :: "string option"

datatype attachment_status = AttUploaded | AttReady | AttOther

record attachment_row =
  att_id :: ident
  att_uploaderId :: ident
  att_status :: attachment_status
  att_messageId :: "ident option"

record dm_user_dto =
  du_id :: ident
  du_displayName :: string
  du_username :: string
  du_presence :: presence

record dm_member_dto =
  dd_userId :: ident
  dd_user :: dm_user_dto
  dd_joinedAt :: millis
  dd_lastReadAt :: "millis option"

record dm_channel_dto =
  dc_id :: ident
  dc_kind :: dm_kind
  dc_name :: "string option"
  dc_createdAt :: millis
  dc_lastMessageAt :: "millis option"
  dc_members :: "dm_member_dto list"

datatype dm_event =
    DmChannelCreate ident dm_channel_dto
  | DmChannelUpdate ident dm_channel_dto
  | DmMessageCreate ident dm_message_row

datatype dm_fan_out =
    FanDmCreate ident ident string string ident     \<comment> \<open>channel, initiator, username, recipient, peer\<close>
  | FanDmMessage ident dm_message_row string ident  \<comment> \<open>channel, message, author's username, peer\<close>

record dm_world =
  dw_db :: db
  dw_messages :: "dm_message_row list"
  dw_attachments :: "attachment_row list"
  dw_postingLocks :: "(ident, millis) jsmap"
  dw_events :: "dm_event list"
  dw_fan_outs :: "dm_fan_out list"
  dw_ulids :: "nat \<Rightarrow> ident"
  dw_next :: nat

record dm_deps =
  dp_selfHost :: "string option"
  dp_queues :: bool
  dp_federationEnabled :: "bool option"
  dp_federationDmsEnabled :: "bool option"

datatype dm_error = DmTavern tavern_error | DmDatabase   \<comment> \<open>a unique constraint or a missing row\<close>

type_synonym 'a dm_result = "(dm_error + 'a) \<times> dm_world"

definition dm_ulid :: "dm_world \<Rightarrow> ident \<times> dm_world" where
  "dm_ulid w = (dw_ulids w (dw_next w), w\<lparr>dw_next := dw_next w + 1\<rparr>)"

definition dm_publish :: "dm_event \<Rightarrow> dm_world \<Rightarrow> dm_world" where
  "dm_publish e w = w\<lparr>dw_events := dw_events w @ [e]\<rparr>"

definition find_dm :: "db \<Rightarrow> ident \<Rightarrow> dm_channel_row option" where
  "find_dm d i = List.find (\<lambda>c. dmc_id c = i) (db_dm_channels d)"

definition dm_members_of :: "db \<Rightarrow> ident \<Rightarrow> dm_member_row list" where
  "dm_members_of d i = filter (\<lambda>m. dmm_dmChannelId m = i) (db_dm_members d)"

section \<open>The service\<close>

definition directPairKey :: "string \<Rightarrow> string \<Rightarrow> string" where
  "directPairKey userA userB =
     (if userA < userB then userA @ '':'' @ userB else userB @ '':'' @ userA)"

definition federatedDmPairKey :: "string \<Rightarrow> string \<Rightarrow> string" where
  "federatedDmPairKey qualifiedIdA qualifiedIdB =
     (if qualifiedIdA < qualifiedIdB then qualifiedIdA @ '':'' @ qualifiedIdB
      else qualifiedIdB @ '':'' @ qualifiedIdA)"

definition requireDmChannelMembership :: "db \<Rightarrow> ident \<Rightarrow> ident \<Rightarrow> dm_error + dm_channel_row" where
  "requireDmChannelMembership d dmChannelId userId =
     (case find_dm d dmChannelId of
        None \<Rightarrow> Inl (DmTavern (notFound (Some ''DM not found'')))
      | Some channel \<Rightarrow>
          if filter (\<lambda>m. dmm_userId m = userId) (dm_members_of d dmChannelId) = []
          then Inl (DmTavern (notFound (Some ''DM not found''))) else Inr channel)"

definition usersShareServer :: "db \<Rightarrow> ident \<Rightarrow> ident \<Rightarrow> bool" where
  "usersShareServer d userA userB \<longleftrightarrow>
     userA \<noteq> userB \<and>
     list_ex (\<lambda>m. mem_userId m = userA \<and> find_member d (mem_serverId m) userB \<noteq> None) (db_members d)"

definition dm_pair_key :: "string option \<Rightarrow> user_row \<Rightarrow> user_row \<Rightarrow> string" where
  "dm_pair_key selfHost creator otherUser =
     (case (usr_remoteUserId otherUser, selfHost) of
        (Some remote, Some host) \<Rightarrow>
          if host \<noteq> [] then federatedDmPairKey (usr_username creator @ ''@'' @ host) remote
          else directPairKey (usr_id creator) (usr_id otherUser)
      | _ \<Rightarrow> directPairKey (usr_id creator) (usr_id otherUser))"

text \<open>Up to the creation: the channel that is there, or the key to create it with.\<close>

definition direct_dm_lookup :: "db \<Rightarrow> string option \<Rightarrow> ident \<Rightarrow> ident \<Rightarrow> dm_error + (ident + string)" where
  "direct_dm_lookup d selfHost creatorId otherUserId =
     (if creatorId = otherUserId then Inl (DmTavern (validation (Some ''Cannot DM yourself'') None))
      else case (find_user d creatorId, find_user d otherUserId) of
        (Some creator, Some otherUser) \<Rightarrow>
          let pairKey = dm_pair_key selfHost creator otherUser
          in (case List.find (\<lambda>c. dmc_pairKey c = Some pairKey) (db_dm_channels d) of
                Some existing \<Rightarrow> Inr (Inl (dmc_id existing))
              | None \<Rightarrow> Inr (Inr pairKey))
      | _ \<Rightarrow> Inl (DmTavern (notFound (Some ''User not found''))))"

definition dm_row_clash :: "dm_channel_row \<Rightarrow> dm_channel_row \<Rightarrow> bool" where
  "dm_row_clash a b \<longleftrightarrow> dmc_id a = dmc_id b \<or> (dmc_pairKey a \<noteq> None \<and> dmc_pairKey a = dmc_pairKey b)"

definition create_dm :: "dm_channel_row \<Rightarrow> millis \<Rightarrow> ident list \<Rightarrow> dm_world \<Rightarrow> dm_world option" where
  "create_dm row now users w =
     (if list_ex (dm_row_clash row) (db_dm_channels (dw_db w)) \<or> \<not> distinct users then None
      else Some (w\<lparr>dw_db := (dw_db w)
             \<lparr>db_dm_channels := db_dm_channels (dw_db w) @ [row],
              db_dm_members := db_dm_members (dw_db w) @
                map (\<lambda>u. \<lparr>dmm_dmChannelId = dmc_id row, dmm_userId = u, dmm_joinedAt = now,
                         dmm_lastReadAt = None\<rparr>) users\<rparr>\<rparr>))"

definition direct_dm_create :: "millis \<Rightarrow> ident \<Rightarrow> ident \<Rightarrow> string \<Rightarrow> dm_world \<Rightarrow> ident dm_result" where
  "direct_dm_create now creatorId otherUserId pairKey w =
     (let (channelId, w) = dm_ulid w;
          row = \<lparr>dmc_id = channelId, dmc_kind = Direct, dmc_name = None, dmc_createdById = Some creatorId,
                 dmc_createdAt = now, dmc_lastMessageAt = None, dmc_pairKey = Some pairKey\<rparr>
      in case create_dm row now [creatorId, otherUserId] w of
           Some w' \<Rightarrow> (Inr channelId, w')
         | None \<Rightarrow>
             (case List.find (\<lambda>c. dmc_pairKey c = Some pairKey) (db_dm_channels (dw_db w)) of
                Some winner \<Rightarrow> (Inr (dmc_id winner), w)
              | None \<Rightarrow> (Inl DmDatabase, w)))"

definition findOrCreateDirectDm :: "millis \<Rightarrow> string option \<Rightarrow> ident \<Rightarrow> ident \<Rightarrow> dm_world \<Rightarrow> ident dm_result" where
  "findOrCreateDirectDm now selfHost creatorId otherUserId w =
     (case direct_dm_lookup (dw_db w) selfHost creatorId otherUserId of
        Inl e \<Rightarrow> (Inl e, w)
      | Inr (Inl existing) \<Rightarrow> (Inr existing, w)
      | Inr (Inr pairKey) \<Rightarrow> direct_dm_create now creatorId otherUserId pairKey w)"

definition createGroupDm :: "millis \<Rightarrow> ident \<Rightarrow> ident list \<Rightarrow> string option \<Rightarrow> dm_world \<Rightarrow> ident dm_result" where
  "createGroupDm now creatorId memberUserIds name w =
     (let others = filter (\<lambda>u. u \<noteq> creatorId) (first_seen memberUserIds)
      in if length others < 2 then
           (Inl (DmTavern (validation (Some ''Group DM needs at least 2 other members'') None)), w)
         else if length others > 9 then
           (Inl (DmTavern (validation (Some ''Group DM is limited to 10 members total'') None)), w)
         else
           let (channelId, w) = dm_ulid w;
               row = \<lparr>dmc_id = channelId, dmc_kind = Group, dmc_name = name, dmc_createdById = Some creatorId,
                      dmc_createdAt = now, dmc_lastMessageAt = None, dmc_pairKey = None\<rparr>
           in case create_dm row now (creatorId # others) w of
                None \<Rightarrow> (Inl DmDatabase, w)
              | Some w' \<Rightarrow> (Inr channelId, w'))"

text \<open>A member row always has its user: the foreign key of the schema; rows without one are left out.\<close>

definition member_dto :: "db \<Rightarrow> ident \<Rightarrow> dm_member_row \<Rightarrow> dm_member_dto option" where
  "member_dto d callerId m =
     map_option (\<lambda>u. \<lparr>dd_userId = dmm_userId m,
         dd_user = \<lparr>du_id = usr_id u, du_displayName = usr_displayName u, du_username = usr_username u,
                    du_presence = usr_presence u\<rparr>,
         dd_joinedAt = dmm_joinedAt m,
         dd_lastReadAt = (if dmm_userId m = callerId then dmm_lastReadAt m else None)\<rparr>)
       (find_user d (dmm_userId m))"

definition serializeDmChannelRow :: "db \<Rightarrow> dm_channel_row \<Rightarrow> ident \<Rightarrow> dm_channel_dto" where
  "serializeDmChannelRow d row callerId =
     \<lparr>dc_id = dmc_id row, dc_kind = dmc_kind row, dc_name = dmc_name row, dc_createdAt = dmc_createdAt row,
      dc_lastMessageAt = dmc_lastMessageAt row,
      dc_members = List.map_filter (member_dto d callerId) (dm_members_of d (dmc_id row))\<rparr>"

definition serializeDmChannel :: "db \<Rightarrow> ident \<Rightarrow> ident \<Rightarrow> dm_error + dm_channel_dto" where
  "serializeDmChannel d dmChannelId callerId =
     (case find_dm d dmChannelId of
        None \<Rightarrow> Inl (DmTavern (notFound (Some ''DM not found'')))
      | Some channel \<Rightarrow> Inr (serializeDmChannelRow d channel callerId))"

section \<open>The handlers: conversations\<close>

record dm_candidate =
  ca_userId :: ident
  ca_displayName :: string
  ca_username :: string

definition dm_candidates :: "db \<Rightarrow> ident \<Rightarrow> dm_candidate list" where
  "dm_candidates d userId =
     map (\<lambda>u. \<lparr>ca_userId = usr_id u, ca_displayName = usr_displayName u, ca_username = usr_username u\<rparr>)
       (Sorting_Algorithms.sort (key (\<lambda>u. (usr_displayName u, usr_username u)) default)
         (filter (\<lambda>u. usr_id u \<noteq> userId \<and>
              list_ex (\<lambda>m. mem_userId m = usr_id u \<and> find_member d (mem_serverId m) userId \<noteq> None) (db_members d))
            (db_users d)))"

text \<open>Most recent activity first; the database puts the channels without messages before the others.\<close>

definition recent_first :: "dm_channel_row \<Rightarrow> nat \<times> int \<times> int" where
  "recent_first c =
     (case dmc_lastMessageAt c of
        None \<Rightarrow> (0, 0, - dmc_createdAt c)
      | Some t \<Rightarrow> (1, - t, - dmc_createdAt c))"

definition list_dms :: "db \<Rightarrow> ident \<Rightarrow> dm_channel_dto list" where
  "list_dms d userId =
     (let ids = map dmm_dmChannelId (filter (\<lambda>m. dmm_userId m = userId) (db_dm_members d))
      in if ids = [] then []
         else map (\<lambda>c. serializeDmChannelRow d c userId)
                (Sorting_Algorithms.sort (key recent_first default)
                  (filter (\<lambda>c. dmc_id c \<in> set ids) (db_dm_channels d))))"

definition open_check :: "db \<Rightarrow> ident \<Rightarrow> ident \<Rightarrow> dm_error + unit" where
  "open_check d userId otherId =
     (if \<not> usersShareServer d userId otherId then
        Inl (DmTavern (forbidden (Some ''You can only DM members of a tavern you share'')))
      else let (aBlocksB, bBlocksA) = blockExistsEitherDirection d userId otherId
           in if aBlocksB \<or> bBlocksA then Inl (DmTavern (forbidden (Some ''You cannot message this member'')))
              else Inr ())"

definition open_fan_out :: "dm_deps \<Rightarrow> ident \<Rightarrow> ident \<Rightarrow> ident \<Rightarrow> dm_world \<Rightarrow> dm_world" where
  "open_fan_out deps channelId userId otherId w =
     (if get_or [] (dp_selfHost deps) \<noteq> [] \<and> dp_queues deps \<and> dp_federationDmsEnabled deps \<noteq> Some False then
        (case (find_user (dw_db w) userId, find_user (dw_db w) otherId) of
           (Some initiator, Some other) \<Rightarrow>
             (case (usr_remoteInstanceId other, usr_remoteUserId other) of
                (Some peer, Some remote) \<Rightarrow>
                  if peer \<noteq> [] \<and> remote \<noteq> [] then
                    w\<lparr>dw_fan_outs := dw_fan_outs w @ [FanDmCreate channelId userId (usr_username initiator) remote peer]\<rparr>
                  else w
              | _ \<Rightarrow> w)
         | _ \<Rightarrow> w)
      else w)"

definition announce_dm :: "(ident \<Rightarrow> dm_channel_dto \<Rightarrow> dm_event) \<Rightarrow> ident \<Rightarrow> ident \<Rightarrow> dm_world \<Rightarrow> dm_channel_dto dm_result" where
  "announce_dm ev channelId userId w =
     (case serializeDmChannel (dw_db w) channelId userId of
        Inl e \<Rightarrow> (Inl e, w)
      | Inr dto \<Rightarrow> (Inr dto, dm_publish (ev channelId dto) w))"

definition post_direct :: "dm_deps \<Rightarrow> millis \<Rightarrow> ident \<Rightarrow> ident \<Rightarrow> dm_world \<Rightarrow> dm_channel_dto dm_result" where
  "post_direct deps now userId otherId w =
     (case open_check (dw_db w) userId otherId of
        Inl e \<Rightarrow> (Inl e, w)
      | Inr _ \<Rightarrow>
          (case findOrCreateDirectDm now (dp_selfHost deps) userId otherId w of
             (Inl e, w) \<Rightarrow> (Inl e, w)
           | (Inr channelId, w) \<Rightarrow>
               (case announce_dm DmChannelCreate channelId userId w of
                  (Inl e, w) \<Rightarrow> (Inl e, w)
                | (Inr dto, w) \<Rightarrow> (Inr dto, open_fan_out deps channelId userId otherId w))))"

fun invitees_check :: "db \<Rightarrow> ident \<Rightarrow> ident list \<Rightarrow> dm_error + unit" where
  "invitees_check d userId [] = Inr ()"
| "invitees_check d userId (otherId # rest) =
     (if \<not> usersShareServer d userId otherId then
        Inl (DmTavern (forbidden (Some ''You can only add members of a tavern you share'')))
      else let (aBlocksB, bBlocksA) = blockExistsEitherDirection d userId otherId
           in if aBlocksB \<or> bBlocksA then Inl (DmTavern (forbidden (Some ''You cannot add this member'')))
              else invitees_check d userId rest)"

definition post_group :: "millis \<Rightarrow> ident \<Rightarrow> ident list \<Rightarrow> string option \<Rightarrow> dm_world \<Rightarrow> dm_channel_dto dm_result" where
  "post_group now userId userIds name w =
     (case invitees_check (dw_db w) userId userIds of
        Inl e \<Rightarrow> (Inl e, w)
      | Inr _ \<Rightarrow>
          (case createGroupDm now userId userIds name w of
             (Inl e, w) \<Rightarrow> (Inl e, w)
           | (Inr channelId, w) \<Rightarrow> announce_dm DmChannelCreate channelId userId w))"

definition get_dm :: "db \<Rightarrow> ident \<Rightarrow> ident \<Rightarrow> dm_error + dm_channel_dto" where
  "get_dm d channelId userId =
     (case requireDmChannelMembership d channelId userId of
        Inl e \<Rightarrow> Inl e
      | Inr _ \<Rightarrow> serializeDmChannel d channelId userId)"

definition patch_dm :: "ident \<Rightarrow> ident \<Rightarrow> string option \<Rightarrow> dm_world \<Rightarrow> dm_channel_dto dm_result" where
  "patch_dm channelId userId name w =
     (case requireDmChannelMembership (dw_db w) channelId userId of
        Inl e \<Rightarrow> (Inl e, w)
      | Inr channel \<Rightarrow>
          if dmc_kind channel \<noteq> Group then
            (Inl (DmTavern (validation (Some ''Only group DMs can be renamed'') None)), w)
          else announce_dm DmChannelUpdate channelId userId
            (w\<lparr>dw_db := (dw_db w)\<lparr>db_dm_channels :=
               update_where (\<lambda>c. dmc_id c = channelId) (\<lambda>c. c\<lparr>dmc_name := name\<rparr>) (db_dm_channels (dw_db w))\<rparr>\<rparr>))"

definition mark_dm_read :: "millis \<Rightarrow> ident \<Rightarrow> ident \<Rightarrow> millis option \<Rightarrow> dm_world \<Rightarrow> unit dm_result" where
  "mark_dm_read now channelId userId when w =
     (case requireDmChannelMembership (dw_db w) channelId userId of
        Inl e \<Rightarrow> (Inl e, w)
      | Inr _ \<Rightarrow>
          (Inr (), w\<lparr>dw_db := (dw_db w)\<lparr>db_dm_members :=
             update_where (\<lambda>m. dmm_dmChannelId m = channelId \<and> dmm_userId m = userId)
               (\<lambda>m. m\<lparr>dmm_lastReadAt := Some (get_or now when)\<rparr>) (db_dm_members (dw_db w))\<rparr>\<rparr>))"

section \<open>The handlers: messages\<close>

text \<open>The object spread lets the second \<open>id\<close> condition replace the first.\<close>

definition list_dm_messages ::
  "ident \<Rightarrow> ident \<Rightarrow> ident option \<Rightarrow> ident option \<Rightarrow> nat \<Rightarrow> dm_world \<Rightarrow> dm_error + dm_message_row list" where
  "list_dm_messages channelId userId before after limit w =
     (case requireDmChannelMembership (dw_db w) channelId userId of
        Inl e \<Rightarrow> Inl e
      | Inr _ \<Rightarrow>
          Inr (take limit (rev (Sorting_Algorithms.sort (key msg_id default)
            (filter (\<lambda>m. dmg_dmChannelId m = Some channelId \<and> msg_deletedAt m = None \<and>
                 (case (after, before) of
                    (Some a, _) \<Rightarrow> msg_id m > a
                  | (None, Some b) \<Rightarrow> msg_id m < b
                  | (None, None) \<Rightarrow> True)) (dw_messages w))))))"

record send_request =
  sq_content :: string
  sq_replyTo :: "ident option"
  sq_attachmentIds :: "ident list"
  sq_nonce :: "string option"

definition find_nonce :: "ident \<Rightarrow> string \<Rightarrow> dm_world \<Rightarrow> dm_message_row option" where
  "find_nonce channelId nonce w =
     List.find (\<lambda>m. dmg_dmChannelId m = Some channelId \<and> dmg_nonce m = Some nonce) (dw_messages w)"

fun attachments_check :: "ident \<Rightarrow> attachment_row list \<Rightarrow> dm_error + unit" where
  "attachments_check userId [] = Inr ()"
| "attachments_check userId (a # as) =
     (if att_uploaderId a \<noteq> userId then Inl (DmTavern (forbidden (Some ''Attachment owned by another user'')))
      else if att_messageId a \<noteq> None then Inl (DmTavern (validation (Some ''Attachment already used'') None))
      else if att_status a \<noteq> AttReady \<and> att_status a \<noteq> AttUploaded then
        Inl (DmTavern (TavernError UPLOAD_NOT_READY ''Attachment not ready'' 400 None))
      else attachments_check userId as)"

definition reply_ok :: "ident \<Rightarrow> send_request \<Rightarrow> dm_world \<Rightarrow> bool" where
  "reply_ok channelId req w =
     (case sq_replyTo req of
        None \<Rightarrow> True
      | Some r \<Rightarrow> (case List.find (\<lambda>m. msg_id m = r) (dw_messages w) of
           None \<Rightarrow> False
         | Some target \<Rightarrow> dmg_dmChannelId target = Some channelId \<and> msg_deletedAt target = None))"

text \<open>Up to the transaction: an earlier message with the same nonce, or nothing.\<close>

definition send_check :: "millis \<Rightarrow> ident \<Rightarrow> ident \<Rightarrow> send_request \<Rightarrow> dm_world \<Rightarrow> dm_error + dm_message_row option" where
  "send_check now channelId userId req w =
     bind_result (requireDmChannelMembership (dw_db w) channelId userId) (\<lambda>_.
       if (case map_get (dw_postingLocks w) userId of None \<Rightarrow> False | Some t \<Rightarrow> t > now) then
         Inl (DmTavern (TavernError CONTENT_HELD ''Your posting privileges are temporarily locked'' 403 None))
       else
         let replayed = (case sq_nonce req of None \<Rightarrow> None | Some n \<Rightarrow> if n = [] then None else find_nonce channelId n w)
         in case replayed of
           Some existing \<Rightarrow>
             if msg_authorId existing \<noteq> userId \<or> msg_deletedAt existing \<noteq> None
             then Inl (DmTavern (validation (Some ''Nonce already used'') None)) else Inr (Some existing)
         | None \<Rightarrow>
             if \<not> reply_ok channelId req w then Inl (DmTavern (validation (Some ''Reply target invalid'') None))
                else
                  let atts = filter (\<lambda>a. att_id a \<in> set (sq_attachmentIds req)) (dw_attachments w)
                  in if length atts \<noteq> length (sq_attachmentIds req)
                     then Inl (DmTavern (validation (Some ''Unknown attachment'') None))
                     else bind_result (attachments_check userId atts) (\<lambda>_. Inr None))"

definition send_commit ::
  "(string \<Rightarrow> string) \<Rightarrow> millis \<Rightarrow> ident \<Rightarrow> ident \<Rightarrow> send_request \<Rightarrow> dm_world \<Rightarrow> dm_message_row dm_result" where
  "send_commit sanitize now channelId userId req w =
     (let (messageId, w) = dm_ulid w;
          row = \<lparr>msg_id = messageId, msg_serverId = None, msg_channelId = None, msg_authorId = userId,
                 msg_system = False, msg_content = sanitize (sq_content req), msg_createdAt = now,
                 msg_deletedAt = None, dmg_dmChannelId = Some channelId, dmg_replyTo = sq_replyTo req,
                 dmg_nonce = sq_nonce req\<rparr>
      in if list_ex (\<lambda>m. msg_id m = messageId \<or>
              (dmg_dmChannelId m = Some channelId \<and> dmg_nonce m \<noteq> None \<and> dmg_nonce m = sq_nonce req)) (dw_messages w)
            \<or> find_dm (dw_db w) channelId = None
         then (Inl DmDatabase, w)
         else (Inr row,
               w\<lparr>dw_messages := dw_messages w @ [row],
                 dw_attachments := update_where (\<lambda>a. att_id a \<in> set (sq_attachmentIds req))
                   (\<lambda>a. a\<lparr>att_messageId := Some messageId\<rparr>) (dw_attachments w),
                 dw_db := (dw_db w)\<lparr>db_dm_channels :=
                   update_where (\<lambda>c. dmc_id c = channelId) (\<lambda>c. c\<lparr>dmc_lastMessageAt := Some now\<rparr>)
                     (db_dm_channels (dw_db w))\<rparr>\<rparr>))"

definition message_fan_out :: "dm_deps \<Rightarrow> ident \<Rightarrow> ident \<Rightarrow> dm_message_row \<Rightarrow> dm_world \<Rightarrow> dm_world" where
  "message_fan_out deps channelId userId row w =
     (if dp_queues deps \<and> get_or [] (dp_selfHost deps) \<noteq> [] \<and> dp_federationEnabled deps \<noteq> Some False \<and>
         dp_federationDmsEnabled deps \<noteq> Some False then
        (case find_dm (dw_db w) channelId of
           None \<Rightarrow> w
         | Some channel \<Rightarrow>
             if dmc_kind channel \<noteq> Direct then w
             else case filter (\<lambda>m. dmm_userId m \<noteq> userId) (dm_members_of (dw_db w) channelId) of
               [] \<Rightarrow> w
             | other # _ \<Rightarrow>
                 (case (Option.bind (find_user (dw_db w) (dmm_userId other)) usr_remoteInstanceId,
                        find_user (dw_db w) userId) of
                    (Some peer, Some author) \<Rightarrow>
                      if peer \<noteq> [] then
                        w\<lparr>dw_fan_outs := dw_fan_outs w @ [FanDmMessage channelId row (usr_username author) peer]\<rparr>
                      else w
                  | _ \<Rightarrow> w))
      else w)"

definition post_dm_message ::
  "(string \<Rightarrow> string) \<Rightarrow> dm_deps \<Rightarrow> millis \<Rightarrow> ident \<Rightarrow> ident \<Rightarrow> send_request \<Rightarrow> dm_world \<Rightarrow> dm_message_row dm_result" where
  "post_dm_message sanitize deps now channelId userId req w =
     (case send_check now channelId userId req w of
        Inl e \<Rightarrow> (Inl e, w)
      | Inr (Some existing) \<Rightarrow> (Inr existing, w)
      | Inr None \<Rightarrow>
          (case send_commit sanitize now channelId userId req w of
             (Inl e, w) \<Rightarrow> (Inl e, w)
           | (Inr row, w) \<Rightarrow>
               (Inr row, message_fan_out deps channelId userId row (dm_publish (DmMessageCreate channelId row) w))))"

section \<open>One conversation per pair\<close>

lemma directPairKey_commute: "directPairKey a b = directPairKey b a"
  by (auto simp: directPairKey_def)

lemma colon_split:
  assumes "CHR '':'' \<notin> set x" and "CHR '':'' \<notin> set x'" and "x @ '':'' @ y = x' @ '':'' @ y'"
  shows "x = x' \<and> y = y'"
  using assms
proof (induction x arbitrary: x')
  case Nil
  then show ?case by (cases x') auto
next
  case (Cons c x)
  then show ?case by (cases x') auto
qed

lemma directPairKey_inj:
  assumes "CHR '':'' \<notin> set a" "CHR '':'' \<notin> set b" "CHR '':'' \<notin> set c" "CHR '':'' \<notin> set d"
    and "directPairKey a b = directPairKey c d"
  shows "{a, b} = {c, d}"
proof -
  obtain x y where ab: "directPairKey a b = x @ '':'' @ y" "{a, b} = {x, y}" "CHR '':'' \<notin> set x"
    using assms(1,2) by (cases "a < b") (auto simp: directPairKey_def)
  obtain x' y' where cd: "directPairKey c d = x' @ '':'' @ y'" "{c, d} = {x', y'}" "CHR '':'' \<notin> set x'"
    using assms(3,4) by (cases "c < d") (auto simp: directPairKey_def)
  have "x = x' \<and> y = y'"
    using ab(3) cd(3) assms(5) unfolding ab(1) cd(1) by (rule colon_split)
  with ab(2) cd(2) show ?thesis by simp
qed

text \<open>What the requests of a run do to the channels; opening is split where it waits.\<close>

datatype dm_op =
    OpLookup "string option" ident ident
  | OpCreate ident ident string
  | OpGroup ident "ident list" "string option"
  | OpRename ident ident "string option"
  | OpSend ident ident send_request

type_synonym dm_answers = "(string \<times> ident) list"   \<comment> \<open>pair key and channel answered for it\<close>

fun dm_step :: "(string \<Rightarrow> string) \<Rightarrow> dm_world \<times> dm_answers \<Rightarrow> millis \<times> dm_op \<Rightarrow> dm_world \<times> dm_answers" where
  "dm_step s (w, as) (now, OpLookup host a b) =
     (case (direct_dm_lookup (dw_db w) host a b, find_user (dw_db w) a, find_user (dw_db w) b) of
        (Inr (Inl i), Some x, Some y) \<Rightarrow> (w, as @ [(dm_pair_key host x y, i)])
      | _ \<Rightarrow> (w, as))"
| "dm_step s (w, as) (now, OpCreate a b k) =
     (case direct_dm_create now a b k w of
        (Inr i, w') \<Rightarrow> (w', as @ [(k, i)])
      | (Inl e, w') \<Rightarrow> (w', as))"
| "dm_step s (w, as) (now, OpGroup a us name) = (snd (createGroupDm now a us name w), as)"
| "dm_step s (w, as) (now, OpRename c u name) = (snd (patch_dm c u name w), as)"
| "dm_step s (w, as) (now, OpSend c u req) = (snd (send_commit s now c u req w), as)"

definition dm_keys :: "dm_world \<Rightarrow> (ident \<times> string option) list" where
  "dm_keys w = map (\<lambda>c. (dmc_id c, dmc_pairKey c)) (db_dm_channels (dw_db w))"

definition holders :: "string \<Rightarrow> dm_world \<Rightarrow> ident list" where
  "holders k w = map fst (filter (\<lambda>p. snd p = Some k) (dm_keys w))"

definition answers_ok :: "dm_world \<times> dm_answers \<Rightarrow> bool" where
  "answers_ok st \<longleftrightarrow> (\<forall>k. length (holders k (fst st)) \<le> 1) \<and>
     (\<forall>p \<in> set (snd st). holders (fst p) (fst st) = [snd p])"

lemma holders_find:
  assumes "List.find (\<lambda>c. dmc_pairKey c = Some k) (db_dm_channels (dw_db w)) = Some c"
  obtains rest where "holders k w = dmc_id c # rest"
proof -
  have "\<exists>rest. filter (\<lambda>c. dmc_pairKey c = Some k) (db_dm_channels (dw_db w)) = c # rest"
    using assms by (auto simp: find_head split: list.splits)
  then show ?thesis
    using that by (auto simp: holders_def dm_keys_def filter_map comp_def)
qed

lemma create_dm_keys:
  assumes "create_dm row now us w = Some w'"
  shows "dm_keys w' = dm_keys w @ [(dmc_id row, dmc_pairKey row)]"
    and "dmc_pairKey row = Some k \<Longrightarrow> holders k w = []"
  using assms
  by (auto simp: create_dm_def dm_keys_def holders_def filter_map comp_def filter_empty_conv list_ex_iff dm_row_clash_def
      split: if_splits)

lemma dm_keys_ulid [simp]: "dm_keys (snd (dm_ulid w)) = dm_keys w"
  by (simp add: dm_ulid_def dm_keys_def)

lemma dm_keys_frame:
  assumes "\<And>c. (dmc_id (f c), dmc_pairKey (f c)) = (dmc_id c, dmc_pairKey c)"
    and "db_dm_channels (dw_db w') = update_where P f (db_dm_channels (dw_db w))"
  shows "dm_keys w' = dm_keys w"
  using assms by (auto simp: dm_keys_def update_where_def)

lemma dm_keys_patch: "dm_keys (snd (patch_dm c u name w)) = dm_keys w"
proof (cases "requireDmChannelMembership (dw_db w) c u")
  case (Inr channel)
  let ?w = "w\<lparr>dw_db := (dw_db w)\<lparr>db_dm_channels :=
               update_where (\<lambda>x. dmc_id x = c) (\<lambda>x. x\<lparr>dmc_name := name\<rparr>) (db_dm_channels (dw_db w))\<rparr>\<rparr>"
  have "dm_keys ?w = dm_keys w"
    by (rule dm_keys_frame [where f = "\<lambda>x. x\<lparr>dmc_name := name\<rparr>"]) simp_all
  moreover have "dm_keys (snd (announce_dm DmChannelUpdate c u v)) = dm_keys v" for v
    by (simp add: announce_dm_def dm_publish_def dm_keys_def split: sum.split)
  ultimately show ?thesis
    using Inr by (simp add: patch_dm_def)
qed (simp add: patch_dm_def)

lemma dm_keys_send: "dm_keys (snd (send_commit s now c u req w)) = dm_keys w"
proof -
  let ?f = "\<lambda>x. x\<lparr>dmc_lastMessageAt := Some now\<rparr>"
  have "dm_keys w' = dm_keys w" if "send_commit s now c u req w = (r, w')" for r w'
  proof (cases "isl r")
    case True
    then show ?thesis
      using that by (auto simp: send_commit_def dm_ulid_def Let_def dm_keys_def split: if_splits)
  next
    case False
    then have "db_dm_channels (dw_db w') = update_where (\<lambda>x. dmc_id x = c) ?f (db_dm_channels (dw_db w))"
      using that by (auto simp: send_commit_def dm_ulid_def Let_def split: if_splits)
    then show ?thesis
      by (intro dm_keys_frame [where f = ?f]) simp_all
  qed
  then show ?thesis by (metis prod.collapse)
qed

lemma holders_grow:
  "dm_keys w' = dm_keys w @ [(i, ko)] \<Longrightarrow> holders k w' = holders k w @ (if ko = Some k then [i] else [])"
  by (simp add: holders_def)

lemma answers_ok_same: "answers_ok (w, as) \<Longrightarrow> dm_keys w' = dm_keys w \<Longrightarrow> answers_ok (w', as)"
  by (simp add: answers_ok_def holders_def)

lemma answers_ok_grow:
  assumes "answers_ok (w, as)" and "dm_keys w' = dm_keys w @ [(i, ko)]" and "\<And>k. ko = Some k \<Longrightarrow> holders k w = []"
  shows "answers_ok (w', as)"
proof -
  have "length (holders k w') \<le> 1" for k
    using assms(1,3) holders_grow [OF assms(2), of k] by (cases "ko = Some k") (auto simp: answers_ok_def)
  moreover have "holders (fst p) w' = [snd p]" if "p \<in> set as" for p
    using assms(1,3) holders_grow [OF assms(2), of "fst p"] that by (cases "ko = Some (fst p)") (auto simp: answers_ok_def)
  ultimately show ?thesis
    by (simp add: answers_ok_def)
qed

lemma answers_ok_add: "answers_ok (w, as) \<Longrightarrow> holders k w = [i] \<Longrightarrow> answers_ok (w, as @ [(k, i)])"
  by (auto simp: answers_ok_def)

lemma holders_found:
  assumes "answers_ok (w, as)" and "List.find (\<lambda>c. dmc_pairKey c = Some k) (db_dm_channels (dw_db w)) = Some c"
  shows "holders k w = [dmc_id c]"
proof -
  obtain rest where "holders k w = dmc_id c # rest"
    using assms(2) by (rule holders_find)
  moreover have "length (holders k w) \<le> 1"
    using assms(1) by (simp add: answers_ok_def)
  ultimately show ?thesis by simp
qed

lemma direct_dm_create_ok:
  assumes "answers_ok (w, as)" and "direct_dm_create now a b k w = (r, w')"
  shows "answers_ok (w', as) \<and> (\<forall>i. r = Inr i \<longrightarrow> holders k w' = [i])"
proof -
  let ?w = "snd (dm_ulid w)" and ?i = "fst (dm_ulid w)"
  let ?row = "\<lparr>dmc_id = ?i, dmc_kind = Direct, dmc_name = None, dmc_createdById = Some a,
                 dmc_createdAt = now, dmc_lastMessageAt = None, dmc_pairKey = Some k\<rparr>"
  have ok: "answers_ok (?w, as)"
    using assms(1) by (rule answers_ok_same) simp
  show ?thesis
  proof (cases "create_dm ?row now [a, b] ?w")
    case (Some v)
    then have v: "r = Inr ?i" "w' = v"
      using assms(2) by (auto simp: direct_dm_create_def case_prod_beta Let_def)
    have keys: "dm_keys v = dm_keys ?w @ [(?i, Some k)]" and none: "holders k ?w = []"
      using create_dm_keys [OF Some] by simp_all
    have "answers_ok (v, as)"
      using ok keys by (rule answers_ok_grow) (simp add: none)
    then show ?thesis
      using v holders_grow [OF keys, of k] none by simp
  next
    case None
    then have "w' = ?w" "\<And>i. r = Inr i \<Longrightarrow> \<exists>c. List.find (\<lambda>c. dmc_pairKey c = Some k) (db_dm_channels (dw_db ?w)) = Some c \<and> i = dmc_id c"
      using assms(2) by (auto simp: direct_dm_create_def case_prod_beta Let_def split: option.splits)
    then show ?thesis
      using ok holders_found [OF ok] by blast
  qed
qed

lemma createGroupDm_ok:
  assumes "answers_ok (w, as)"
  shows "answers_ok (snd (createGroupDm now a us name w), as)"
proof -
  let ?others = "filter (\<lambda>u. u \<noteq> a) (first_seen us)"
  let ?w = "snd (dm_ulid w)" and ?i = "fst (dm_ulid w)"
  let ?row = "\<lparr>dmc_id = ?i, dmc_kind = Group, dmc_name = name, dmc_createdById = Some a,
                 dmc_createdAt = now, dmc_lastMessageAt = None, dmc_pairKey = None\<rparr>"
  have ok: "answers_ok (?w, as)"
    using assms by (rule answers_ok_same) simp
  have "answers_ok (v, as)" if "create_dm ?row now (a # ?others) ?w = Some v" for v
    using ok create_dm_keys(1) [OF that] by (rule answers_ok_grow) simp
  then show ?thesis
    using ok assms by (auto simp: createGroupDm_def case_prod_beta Let_def split: option.split)
qed

lemma answers_step:
  assumes "answers_ok st"
  shows "answers_ok (dm_step s st e)"
proof -
  obtain w as now op where st: "st = (w, as)" and e: "e = (now, op)"
    by (cases st, cases e)
  have ok: "answers_ok (w, as)" using assms st by simp
  show ?thesis
  proof (cases op)
    case (OpLookup host a b)
    show ?thesis
    proof (cases "\<exists>i x y. direct_dm_lookup (dw_db w) host a b = Inr (Inl i) \<and> find_user (dw_db w) a = Some x \<and> find_user (dw_db w) b = Some y")
      case True
      then obtain i x y where l: "direct_dm_lookup (dw_db w) host a b = Inr (Inl i)" "find_user (dw_db w) a = Some x"
          "find_user (dw_db w) b = Some y" by blast
      then obtain c where "List.find (\<lambda>c. dmc_pairKey c = Some (dm_pair_key host x y)) (db_dm_channels (dw_db w)) = Some c"
          "i = dmc_id c"
        by (auto simp: direct_dm_lookup_def Let_def split: if_splits option.splits)
      then show ?thesis
        using l ok holders_found [OF ok] by (simp add: st e OpLookup answers_ok_add)
    next
      case False
      then show ?thesis
        using ok by (auto simp: st e OpLookup split: sum.split option.split)
    qed
  next
    case (OpCreate a b k)
    obtain r w' where c: "direct_dm_create now a b k w = (r, w')"
      by (cases "direct_dm_create now a b k w")
    then show ?thesis
      using direct_dm_create_ok [OF ok c] by (cases r) (auto simp: st e OpCreate answers_ok_add)
  next
    case (OpGroup a us name)
    then show ?thesis
      using ok createGroupDm_ok by (simp add: st e)
  next
    case (OpRename c u name)
    then show ?thesis
      using ok by (simp add: st e answers_ok_same dm_keys_patch)
  next
    case (OpSend c u req)
    then show ?thesis
      using ok by (simp add: st e answers_ok_same dm_keys_send)
  qed
qed

interpretation dm_runs: stepping "dm_step s" answers_ok for s
  by unfold_locales (rule answers_step)

text \<open>
  C24. A pair has one conversation. However the requests to open it race, each acting on a look-up that
  may be stale, and whatever else happens to channels and messages meanwhile, all requests for the
  same pair key are answered with the same channel, and it is the only channel with that key. The key
  of two users does not depend on who asks.
\<close>

theorem one_conversation_per_pair:
  assumes "\<forall>k. length (holders k w) \<le> 1" and "foldl (dm_step sanitize) (w, []) ops = (w', answers)"
  shows "(\<forall>(k, i) \<in> set answers. \<forall>(k', i') \<in> set answers. k = k' \<longrightarrow> i = i') \<and>
    (\<forall>(k, i) \<in> set answers. map dmc_id (filter (\<lambda>c. dmc_pairKey c = Some k) (db_dm_channels (dw_db w'))) = [i]) \<and>
    (\<forall>x y host. usr_remoteUserId x = None \<and> usr_remoteUserId y = None \<longrightarrow> dm_pair_key host x y = dm_pair_key host y x)"
proof -
  have "answers_ok (w, [])"
    using assms(1) by (simp add: answers_ok_def)
  then have "answers_ok (foldl (dm_step sanitize) (w, []) ops)"
    by (rule dm_runs.inv_run)
  then have h: "holders k w' = [i]" if "(k, i) \<in> set answers" for k i
    using that by (auto simp: assms(2) answers_ok_def)
  have "map dmc_id (filter (\<lambda>c. dmc_pairKey c = Some k) (db_dm_channels (dw_db w'))) = [i]" if "(k, i) \<in> set answers" for k i
    using h [OF that] by (simp add: holders_def dm_keys_def filter_map comp_def)
  moreover have "i = i'" if "(k, i) \<in> set answers" "(k, i') \<in> set answers" for k i i'
    using h [OF that(1)] h [OF that(2)] by simp
  moreover have "dm_pair_key host x y = dm_pair_key host y x" if "usr_remoteUserId x = None" "usr_remoteUserId y = None" for host x y
    using that by (simp add: dm_pair_key_def directPairKey_commute split: option.split)
  ultimately show ?thesis by blast
qed

definition dm_sample_user :: "ident \<Rightarrow> user_row" where
  "dm_sample_user u = \<lparr>usr_id = u, usr_username = u, usr_displayName = u, usr_createdAt = 0,
     usr_emailVerifiedAt = None, usr_remoteUserId = None, usr_remoteInstanceId = None, usr_presence = Offline,
     usr_presenceUpdatedAt = 0, usr_manualDnd = False, usr_customStatus = None,
     usr_customStatusExpiresAt = None, usr_acceptsFederatedPresence = True\<rparr>"

definition dm_sample :: dm_world where
  "dm_sample = \<lparr>dw_db = empty_db\<lparr>db_users := [dm_sample_user ''a'', dm_sample_user ''b'']\<rparr>, dw_messages = [],
     dw_attachments = [], dw_postingLocks = [], dw_events = [], dw_fan_outs = [],
     dw_ulids = (\<lambda>n. replicate n (CHR ''u'')), dw_next = 1\<rparr>"

definition two_opens :: "dm_world \<times> (string \<times> ident) list" where
  "two_opens = foldl (dm_step id) (dm_sample, [])
     [(5, OpCreate ''a'' ''b'' ''a:b''), (6, OpCreate ''b'' ''a'' ''a:b'')]"

theorem one_conversation_per_pair_witness:
  "list_all (\<lambda>(k, i). map dmc_id (filter (\<lambda>c. dmc_pairKey c = Some k) (db_dm_channels (dw_db (fst two_opens)))) = [i])
     (snd two_opens)"
proof -
  have "\<forall>k. length (holders k dm_sample) \<le> 1"
    by (simp add: holders_def dm_keys_def dm_sample_def empty_db_def)
  moreover have "foldl (dm_step id) (dm_sample, [])
      [(5, OpCreate ''a'' ''b'' ''a:b''), (6, OpCreate ''b'' ''a'' ''a:b'')] = (fst two_opens, snd two_opens)"
    unfolding two_opens_def by (rule surjective_pairing)
  ultimately show ?thesis
    unfolding list_all_iff by (rule one_conversation_per_pair [THEN conjunct2, THEN conjunct1])
qed

section \<open>Who reads and writes\<close>

text \<open>
  A conversation does not exist for a user who is not in it: reading it, renaming it, marking it
  read, listing its messages and posting to it all end in the 404 of a conversation that is missing
  altogether, and change nothing.
\<close>

theorem outsiders_find_nothing:
  assumes "\<forall>m \<in> set (db_dm_members (dw_db w)). dmm_dmChannelId m = c \<longrightarrow> dmm_userId m \<noteq> u"
  shows "get_dm (dw_db w) c u = Inl (DmTavern (notFound (Some ''DM not found''))) \<and>
    patch_dm c u name w = (Inl (DmTavern (notFound (Some ''DM not found''))), w) \<and>
    mark_dm_read now c u at w = (Inl (DmTavern (notFound (Some ''DM not found''))), w) \<and>
    list_dm_messages c u before after limit w = Inl (DmTavern (notFound (Some ''DM not found''))) \<and>
    post_dm_message sanitize deps now c u req w = (Inl (DmTavern (notFound (Some ''DM not found''))), w)"
proof -
  have "requireDmChannelMembership (dw_db w) c u = Inl (DmTavern (notFound (Some ''DM not found'')))"
    using assms by (auto simp: requireDmChannelMembership_def dm_members_of_def filter_empty_conv split: option.split)
  then show ?thesis
    by (simp add: get_dm_def patch_dm_def mark_dm_read_def list_dm_messages_def post_dm_message_def send_check_def)
qed

theorem outsiders_find_nothing_witness:
  "post_dm_message id \<lparr>dp_selfHost = None, dp_queues = False, dp_federationEnabled = None, dp_federationDmsEnabled = None\<rparr>
     5 ''c'' ''a'' \<lparr>sq_content = ''hi'', sq_replyTo = None, sq_attachmentIds = [], sq_nonce = None\<rparr> dm_sample =
   (Inl (DmTavern (notFound (Some ''DM not found''))), dm_sample)"
  using outsiders_find_nothing [of dm_sample "''c''" "''a''"] by (simp add: dm_sample_def empty_db_def)

definition with_blocks :: "block_row list \<Rightarrow> dm_world \<Rightarrow> dm_world" where
  "with_blocks bs w = w\<lparr>dw_db := (dw_db w)\<lparr>db_blocks := bs\<rparr>\<rparr>"

lemma with_blocks_members [simp]: "dm_members_of (dw_db (with_blocks bs w)) c = dm_members_of (dw_db w) c"
  by (simp add: with_blocks_def dm_members_of_def)

lemma with_blocks_dm [simp]: "find_dm (dw_db (with_blocks bs w)) c = find_dm (dw_db w) c"
  by (simp add: with_blocks_def find_dm_def)

lemma with_blocks_user [simp]: "find_user (dw_db (with_blocks bs w)) u = find_user (dw_db w) u"
  by (simp add: with_blocks_def find_user_def)

lemma with_blocks_frame [simp]:
  "dw_messages (with_blocks bs w) = dw_messages w" "dw_attachments (with_blocks bs w) = dw_attachments w"
  "dw_postingLocks (with_blocks bs w) = dw_postingLocks w" "dw_next (with_blocks bs w) = dw_next w"
  "dw_ulids (with_blocks bs w) = dw_ulids w" "dw_fan_outs (with_blocks bs w) = dw_fan_outs w"
  by (simp_all add: with_blocks_def)

lemma with_blocks_membership:
  "requireDmChannelMembership (dw_db (with_blocks bs w)) c u = requireDmChannelMembership (dw_db w) c u"
  unfolding requireDmChannelMembership_def with_blocks_members with_blocks_dm ..

lemma send_check_blocks: "send_check now c u req (with_blocks bs w) = send_check now c u req w"
proof -
  have nonce: "find_nonce c n (with_blocks bs w) = find_nonce c n w" for n
    by (simp add: find_nonce_def)
  have reply: "reply_ok c req (with_blocks bs w) = reply_ok c req w"
    unfolding reply_ok_def with_blocks_frame ..
  show ?thesis
    unfolding send_check_def with_blocks_membership with_blocks_frame nonce reply ..
qed

lemma message_fan_out_blocks:
  "message_fan_out deps c u row (with_blocks bs w) = with_blocks bs (message_fan_out deps c u row w)"
proof -
  have "with_blocks bs (w\<lparr>dw_fan_outs := fs\<rparr>) = (with_blocks bs w)\<lparr>dw_fan_outs := fs\<rparr>" for fs
    by (simp add: with_blocks_def)
  then show ?thesis
    by (simp add: message_fan_out_def split: option.split list.split)
qed

lemma dm_publish_blocks: "dm_publish e (with_blocks bs w) = with_blocks bs (dm_publish e w)"
  by (simp add: dm_publish_def with_blocks_def)

lemma send_commit_blocks:
  "send_commit s now c u req (with_blocks bs w) =
     (fst (send_commit s now c u req w), with_blocks bs (snd (send_commit s now c u req w)))"
  by (simp add: send_commit_def dm_ulid_def Let_def) (simp add: with_blocks_def)

text \<open>
  A block does not reach a conversation that is already open. Opening one is refused as soon as
  either of the two has blocked the other, but posting a message has the same outcome and the same
  effects whatever the table of blocks says, so somebody who was blocked goes on writing to the person
  who blocked them.
\<close>

theorem blocks_do_not_stop_messages:
  assumes "isBlocked (dw_db w) b a" and "a \<noteq> b"
  shows "(\<exists>e. post_direct deps now a b w = (Inl e, w)) \<and> (\<exists>e. post_direct deps now b a w = (Inl e, w)) \<and>
    (\<forall>c req. post_dm_message sanitize deps now c a req w =
        (fst (post_dm_message sanitize deps now c a req (with_blocks [] w)),
         with_blocks (db_blocks (dw_db w)) (snd (post_dm_message sanitize deps now c a req (with_blocks [] w)))))"
proof -
  have views: "blockExistsEitherDirection (dw_db w) a b = (isBlocked (dw_db w) a b, True)"
    "blockExistsEitherDirection (dw_db w) b a = (True, isBlocked (dw_db w) a b)"
    using assms by (auto simp: blockExistsEitherDirection_def isBlocked_def find_None_iff list_ex_iff)
  have "post_dm_message sanitize deps now c a req w =
      (fst (post_dm_message sanitize deps now c a req (with_blocks [] w)),
       with_blocks (db_blocks (dw_db w)) (snd (post_dm_message sanitize deps now c a req (with_blocks [] w))))" for c req
  proof -
    let ?v = "with_blocks [] w" and ?bs = "db_blocks (dw_db w)"
    have w: "w = with_blocks ?bs ?v"
      by (simp add: with_blocks_def)
    have "post_dm_message sanitize deps now c a req (with_blocks ?bs ?v) =
        (fst (post_dm_message sanitize deps now c a req ?v), with_blocks ?bs (snd (post_dm_message sanitize deps now c a req ?v)))"
      unfolding post_dm_message_def send_check_blocks [of now c a req ?bs ?v] send_commit_blocks [of sanitize now c a req ?bs ?v]
      by (cases "send_commit sanitize now c a req ?v")
        (simp add: message_fan_out_blocks dm_publish_blocks split: sum.split option.split)
    then show ?thesis
      by (simp flip: w)
  qed
  then show ?thesis
    by (auto simp: post_direct_def open_check_def views)
qed

theorem blocks_do_not_stop_messages_witness:
  "\<exists>e. post_direct \<lparr>dp_selfHost = None, dp_queues = False, dp_federationEnabled = None, dp_federationDmsEnabled = None\<rparr>
     5 ''a'' ''b'' (with_blocks [\<lparr>blk_blockerId = ''b'', blk_blockedId = ''a'', blk_createdAt = 0\<rparr>] dm_sample) =
     (Inl e, with_blocks [\<lparr>blk_blockerId = ''b'', blk_blockedId = ''a'', blk_createdAt = 0\<rparr>] dm_sample)"
  using blocks_do_not_stop_messages [of "with_blocks [\<lparr>blk_blockerId = ''b'', blk_blockedId = ''a'', blk_createdAt = 0\<rparr>] dm_sample"
      "''b''" "''a''"]
  by (auto simp: isBlocked_def with_blocks_def)

section \<open>Sending twice\<close>

lemma send_commit_effect:
  assumes "send_commit s now c u req w = (Inr row, w')"
  shows "dw_messages w' = dw_messages w @ [row]" "msg_authorId row = u" "msg_deletedAt row = None"
    "dmg_dmChannelId row = Some c" "dmg_nonce row = sq_nonce req"
    "db_dm_members (dw_db w') = db_dm_members (dw_db w)" "dw_postingLocks w' = dw_postingLocks w"
    "find_dm (dw_db w') c \<noteq> None"
    "sq_nonce req = Some n \<Longrightarrow> find_nonce c n w = None"
proof -
  let ?f = "\<lambda>x. x\<lparr>dmc_lastMessageAt := Some now\<rparr>"
  show "dw_messages w' = dw_messages w @ [row]" "msg_authorId row = u" "msg_deletedAt row = None"
    "dmg_dmChannelId row = Some c" "dmg_nonce row = sq_nonce req"
    "db_dm_members (dw_db w') = db_dm_members (dw_db w)" "dw_postingLocks w' = dw_postingLocks w"
    using assms by (auto simp: send_commit_def dm_ulid_def Let_def split: if_splits)
  have "db_dm_channels (dw_db w') = update_where (\<lambda>x. dmc_id x = c) ?f (db_dm_channels (dw_db w))" "find_dm (dw_db w) c \<noteq> None"
    using assms by (auto simp: send_commit_def dm_ulid_def Let_def split: if_splits)
  then show "find_dm (dw_db w') c \<noteq> None"
    by (simp add: find_dm_def find_update_where)
  show "sq_nonce req = Some n \<Longrightarrow> find_nonce c n w = None"
    using assms by (auto simp: send_commit_def dm_ulid_def Let_def find_nonce_def find_None_iff list_ex_iff split: if_splits)
qed

lemma send_check_replay:
  assumes "requireDmChannelMembership (dw_db w) c u = Inr channel"
    and "case map_get (dw_postingLocks w) u of None \<Rightarrow> True | Some t \<Rightarrow> t \<le> later"
    and "sq_nonce req = Some n" and "n \<noteq> []" and "find_nonce c n w = Some row"
    and "msg_authorId row = u" and "msg_deletedAt row = None"
  shows "send_check later c u req w = Inr (Some row)"
  using assms by (auto simp: send_check_def split: option.splits)

lemma membership_cases:
  "requireDmChannelMembership d c u = Inr channel \<longleftrightarrow>
     find_dm d c = Some channel \<and> (\<exists>m \<in> set (db_dm_members d). dmm_dmChannelId m = c \<and> dmm_userId m = u)"
  by (auto simp: requireDmChannelMembership_def dm_members_of_def filter_empty_conv split: option.splits)

text \<open>
  A message sent with a nonce is sent once: repeating the request, even with another content and
  while the author is still free to post, is answered with the message of the first request and
  changes nothing, so no second row is stored and no second event published.
\<close>

theorem nonce_sends_once:
  assumes "post_dm_message sanitize deps now c u req w = (Inr row, w')"
    and "sq_nonce req = Some n" and "n \<noteq> []" and "sq_nonce again = Some n"
    and "case map_get (dw_postingLocks w) u of None \<Rightarrow> True | Some t \<Rightarrow> t \<le> later"
  shows "post_dm_message sanitize deps later c u again w' = (Inr row, w')"
proof (cases "send_check now c u req w")
  case (Inl e)
  then show ?thesis
    using assms(1) by (simp add: post_dm_message_def)
next
  case (Inr r)
  then obtain channel where mem: "requireDmChannelMembership (dw_db w) c u = Inr channel"
    by (cases "requireDmChannelMembership (dw_db w) c u") (auto simp: send_check_def)
  show ?thesis
  proof (cases r)
    case (Some existing)
    then have "existing = row" "w' = w"
      using Inr assms(1) by (auto simp: post_dm_message_def)
    moreover have "find_nonce c n w = Some existing" "msg_authorId existing = u" "msg_deletedAt existing = None"
      using Inr Some assms(2,3) mem
      by (auto simp: send_check_def bind_result_def Let_def split: if_splits option.splits sum.splits)
    ultimately have "send_check later c u again w' = Inr (Some row)"
      using send_check_replay [OF mem assms(5) assms(4,3)] by simp
    then show ?thesis
      by (simp add: post_dm_message_def)
  next
    case None
    obtain res v where commit: "send_commit sanitize now c u req w = (res, v)"
      by (cases "send_commit sanitize now c u req w")
    then obtain row' where res: "res = Inr row'"
      using assms(1) Inr None by (cases res) (auto simp: post_dm_message_def)
    then have row: "row' = row" and w': "w' = message_fan_out deps c u row (dm_publish (DmMessageCreate c row) v)"
      using assms(1) Inr None commit by (auto simp: post_dm_message_def)
    note eff = send_commit_effect [OF commit [unfolded res row]]
    have same: "dw_db (message_fan_out deps c u row x) = dw_db x" "dw_messages (message_fan_out deps c u row x) = dw_messages x"
      "dw_postingLocks (message_fan_out deps c u row x) = dw_postingLocks x" for x
      by (auto simp: message_fan_out_def split: option.split list.split)
    have d: "dw_db w' = dw_db v" "dw_messages w' = dw_messages v" "dw_postingLocks w' = dw_postingLocks v"
      by (simp_all add: w' same dm_publish_def)
    obtain channel' where "requireDmChannelMembership (dw_db w') c u = Inr channel'"
      using mem eff(6,8) unfolding d by (auto simp: membership_cases)
    moreover have "find_nonce c n w' = Some row"
      using eff(9) [OF assms(2)] eff(1,4,5) assms(2) unfolding find_nonce_def d by (simp add: find_append)
    ultimately have "send_check later c u again w' = Inr (Some row)"
      using send_check_replay [of w' c u channel' later again n row] assms(3-5) eff(2,3,7) d by simp
    then show ?thesis
      by (simp add: post_dm_message_def)
  qed
qed

definition dm_open :: dm_world where
  "dm_open = snd (direct_dm_create 1 ''a'' ''b'' ''a:b'' dm_sample)"

theorem nonce_sends_once_witness:
  "\<exists>row w'. post_dm_message id \<lparr>dp_selfHost = None, dp_queues = False, dp_federationEnabled = None, dp_federationDmsEnabled = None\<rparr>
       5 ''u'' ''a'' \<lparr>sq_content = ''hi'', sq_replyTo = None, sq_attachmentIds = [], sq_nonce = Some ''n''\<rparr> dm_open = (Inr row, w') \<and>
     post_dm_message id \<lparr>dp_selfHost = None, dp_queues = False, dp_federationEnabled = None, dp_federationDmsEnabled = None\<rparr>
       6 ''u'' ''a'' \<lparr>sq_content = ''hi'', sq_replyTo = None, sq_attachmentIds = [], sq_nonce = Some ''n''\<rparr> w' = (Inr row, w')"
proof -
  let ?deps = "\<lparr>dp_selfHost = None, dp_queues = False, dp_federationEnabled = None, dp_federationDmsEnabled = None\<rparr>"
  let ?req = "\<lparr>sq_content = ''hi'', sq_replyTo = None, sq_attachmentIds = [], sq_nonce = Some ''n''\<rparr>"
  have "\<exists>row w'. post_dm_message id ?deps 5 ''u'' ''a'' ?req dm_open = (Inr row, w')"
    by (simp add: post_dm_message_def send_check_def requireDmChannelMembership_def find_dm_def dm_members_of_def dm_open_def
        direct_dm_create_def dm_ulid_def create_dm_def dm_sample_def empty_db_def find_nonce_def reply_ok_def send_commit_def Let_def)
  then obtain row w' where r: "post_dm_message id ?deps 5 ''u'' ''a'' ?req dm_open = (Inr row, w')"
    by blast
  have "dw_postingLocks dm_open = []"
    by (simp add: dm_open_def direct_dm_create_def dm_ulid_def create_dm_def dm_sample_def empty_db_def Let_def)
  then show ?thesis
    using nonce_sends_once [OF r, of "''n''" ?req 6] r by auto
qed

section \<open>What an announcement shows\<close>

text \<open>
  The event that announces a channel goes to all its members, but it holds the row as serialized for
  the one who asked: everybody sees how far that user has read, and nobody their own mark.
\<close>

lemma announcement_shows_read_mark:
  assumes "announce_dm ev c u w = (Inr dto, w')"
    and "m \<in> set (db_dm_members (dw_db w))" and "dmm_dmChannelId m = c" and "find_user (dw_db w) (dmm_userId m) = Some x"
  shows "dw_events w' = dw_events w @ [ev c dto] \<and>
    (\<exists>e \<in> set (dc_members dto). dd_userId e = dmm_userId m \<and>
       dd_lastReadAt e = (if dmm_userId m = u then dmm_lastReadAt m else None))"
proof -
  obtain channel where ch: "find_dm (dw_db w) c = Some channel" and dto: "dto = serializeDmChannelRow (dw_db w) channel u"
      and w': "w' = dm_publish (ev c dto) w"
    using assms(1) by (auto simp: announce_dm_def serializeDmChannel_def split: option.splits)
  have id: "dmc_id channel = c"
    using ch by (auto simp: find_dm_def dest: find_in_set)
  obtain e where e: "member_dto (dw_db w) u m = Some e" "dd_userId e = dmm_userId m"
      "dd_lastReadAt e = (if dmm_userId m = u then dmm_lastReadAt m else None)"
    using assms(4) by (simp add: member_dto_def)
  then have "e \<in> set (dc_members dto)"
    using assms(2,3) id unfolding dto serializeDmChannelRow_def dm_members_of_def
    by (force simp: List.map_filter_def)
  then show ?thesis
    using e by (auto simp: w' dm_publish_def)
qed

end
