(* ===== verification/EphemeralStore.thy ===== *)
theory EphemeralStore
  imports Prelude
begin

text \<open>
  The store of short-lived values (apps/api/src/lib/ephemeral-store.ts): the in-memory backend with its
  cap and the Redis backend, whose server is an argument. The in-memory backend refines a plain table of
  values with deadlines: it may forget, and does so only above its cap.
\<close>

section \<open>In memory\<close>

record 'v memory_entry =
  me_value :: 'v
  me_expiresAt :: millis

definition IN_MEMORY_DEFAULT_CAP :: nat where "IN_MEMORY_DEFAULT_CAP = 4096"

record 'v memory_store =
  ms_entries :: "(string, 'v memory_entry) jsmap"
  ms_cap :: nat

definition new_memory_store :: "nat option \<Rightarrow> 'v memory_store" where
  "new_memory_store cap = \<lparr>ms_entries = [], ms_cap = get_or IN_MEMORY_DEFAULT_CAP cap\<rparr>"

definition gcExpired :: "millis \<Rightarrow> 'v memory_store \<Rightarrow> 'v memory_store" where
  "gcExpired now s = s\<lparr>ms_entries := filter (\<lambda>(k, v). \<not> me_expiresAt v < now) (ms_entries s)\<rparr>"

definition memory_get :: "millis \<Rightarrow> string \<Rightarrow> 'v memory_store \<Rightarrow> 'v option \<times> 'v memory_store" where
  "memory_get now k s =
     (case map_get (ms_entries s) k of
        None \<Rightarrow> (None, s)
      | Some row \<Rightarrow>
          if me_expiresAt row < now then (None, s\<lparr>ms_entries := map_del k (ms_entries s)\<rparr>)
          else (Some (me_value row), s))"

definition memory_set :: "millis \<Rightarrow> string \<Rightarrow> 'v \<Rightarrow> millis \<Rightarrow> 'v memory_store \<Rightarrow> 'v memory_store" where
  "memory_set now k v ttlMs s =
     (let s = gcExpired now s;
          s = (if length (ms_entries s) \<ge> ms_cap s \<and> map_get (ms_entries s) k = None then
                 (case ms_entries s of
                    [] \<Rightarrow> s
                  | (oldest, _) # _ \<Rightarrow>
                      if oldest \<noteq> [] then s\<lparr>ms_entries := map_del oldest (ms_entries s)\<rparr> else s)
               else s)
      in s\<lparr>ms_entries := map_set k \<lparr>me_value = v, me_expiresAt = now + ttlMs\<rparr> (ms_entries s)\<rparr>)"

definition memory_delete :: "string \<Rightarrow> 'v memory_store \<Rightarrow> 'v memory_store" where
  "memory_delete k s = s\<lparr>ms_entries := map_del k (ms_entries s)\<rparr>"

section \<open>On Redis\<close>

text \<open>
  The server's three commands on strings; \<^const>\<open>None\<close> is a command that failed. Encoding and decoding
  of values are arguments as well; decoding may fail.
\<close>

record 's redis_server =
  rs_get :: "string \<Rightarrow> 's \<Rightarrow> string option option"
  rs_set :: "string \<Rightarrow> string \<Rightarrow> int \<Rightarrow> 's \<Rightarrow> 's option"
  rs_del :: "string \<Rightarrow> 's \<Rightarrow> 's option"

definition redis_key :: "string \<Rightarrow> string \<Rightarrow> string" where
  "redis_key namespace k = ''tavern:eph:'' @ namespace @ '':'' @ k"

definition redis_get :: "'s redis_server \<Rightarrow> (string \<Rightarrow> 'v option) \<Rightarrow> string \<Rightarrow> string \<Rightarrow> 's \<Rightarrow> 'v option" where
  "redis_get r decode namespace k s =
     (case rs_get r (redis_key namespace k) s of
        None \<Rightarrow> None
      | Some None \<Rightarrow> None
      | Some (Some raw) \<Rightarrow> decode raw)"

text \<open>A failed command is thrown to the caller of \<open>set\<close>.\<close>

definition redis_set ::
  "'s redis_server \<Rightarrow> ('v \<Rightarrow> string) \<Rightarrow> string \<Rightarrow> string \<Rightarrow> 'v \<Rightarrow> millis \<Rightarrow> 's \<Rightarrow> 's option" where
  "redis_set r encode namespace k v ttlMs s = rs_set r (redis_key namespace k) (encode v) (max 1 ttlMs) s"

definition redis_delete :: "'s redis_server \<Rightarrow> string \<Rightarrow> string \<Rightarrow> 's \<Rightarrow> 's" where
  "redis_delete r namespace k s = get_or s (rs_del r (redis_key namespace k) s)"

section \<open>The table it refines\<close>

type_synonym 'v deadline_table = "string \<Rightarrow> ('v \<times> millis) option"

datatype 'v store_op = SSet string 'v millis | SGet string | SDelete string

definition table_get :: "millis \<Rightarrow> string \<Rightarrow> 'v deadline_table \<Rightarrow> 'v option" where
  "table_get now k t = (case t k of None \<Rightarrow> None | Some (v, e) \<Rightarrow> if e < now then None else Some v)"

fun table_step :: "'v deadline_table \<times> 'v option list \<Rightarrow> millis \<times> 'v store_op \<Rightarrow> 'v deadline_table \<times> 'v option list" where
  "table_step (t, as) (now, SSet k v ttl) = (t(k \<mapsto> (v, now + ttl)), as)"
| "table_step (t, as) (now, SGet k) = (t, as @ [table_get now k t])"
| "table_step (t, as) (now, SDelete k) = (t(k := None), as)"

fun memory_step :: "'v memory_store \<times> 'v option list \<Rightarrow> millis \<times> 'v store_op \<Rightarrow> 'v memory_store \<times> 'v option list" where
  "memory_step (s, as) (now, SSet k v ttl) = (memory_set now k v ttl s, as)"
| "memory_step (s, as) (now, SGet k) = (snd (memory_get now k s), as @ [fst (memory_get now k s)])"
| "memory_step (s, as) (now, SDelete k) = (memory_delete k s, as)"

fun op_key :: "'v store_op \<Rightarrow> string" where
  "op_key (SSet k v ttl) = k" | "op_key (SGet k) = k" | "op_key (SDelete k) = k"

text \<open>Everything kept is in the table; in the exact relation whatever is missing has expired.\<close>

definition kept_in :: "'v memory_store \<Rightarrow> 'v deadline_table \<Rightarrow> bool" where
  "kept_in s t \<longleftrightarrow> map_ok (ms_entries s) \<and>
     (\<forall>k row. map_get (ms_entries s) k = Some row \<longrightarrow> t k = Some (me_value row, me_expiresAt row))"

definition exact_for :: "millis \<Rightarrow> 'v memory_store \<Rightarrow> 'v deadline_table \<Rightarrow> bool" where
  "exact_for now s t \<longleftrightarrow>
     (\<forall>k v e. t k = Some (v, e) \<and> \<not> e < now \<longrightarrow> map_get (ms_entries s) k \<noteq> None)"

section \<open>The simulation\<close>

lemma map_get_filter:
  "map_ok m \<Longrightarrow> map_get (filter P m) k =
     (case map_get m k of None \<Rightarrow> None | Some v \<Rightarrow> if P (k, v) then Some v else None)"
proof (induction m)
  case (Cons a m)
  then show ?case
    by (cases a) (auto simp: map_ok_def split: option.splits dest: map_of_SomeD
        simp: weak_map_of_SomeI map_of_eq_None_iff)
qed simp

lemma gc_get:
  assumes "map_ok (ms_entries s)"
  shows "map_get (ms_entries (gcExpired now s)) k =
    (case map_get (ms_entries s) k of None \<Rightarrow> None | Some row \<Rightarrow> if me_expiresAt row < now then None else Some row)"
  using assms by (auto simp: gcExpired_def map_get_filter split: option.split)

lemma gc_ok: "map_ok (ms_entries s) \<Longrightarrow> map_ok (ms_entries (gcExpired now s))"
  by (simp add: gcExpired_def map_ok_filter)

text \<open>The entries after \<open>set\<close>: what the sweep left, less at most one key, with the new one.\<close>

lemma memory_set_entries:
  obtains evicted where
    "ms_entries (memory_set now k v ttl s) =
       map_set k \<lparr>me_value = v, me_expiresAt = now + ttl\<rparr>
         (case evicted of None \<Rightarrow> ms_entries (gcExpired now s) | Some x \<Rightarrow> map_del x (ms_entries (gcExpired now s)))"
    "evicted \<noteq> None \<Longrightarrow> length (ms_entries (gcExpired now s)) \<ge> ms_cap s \<and> map_get (ms_entries (gcExpired now s)) k = None"
    "evicted = None \<Longrightarrow> length (ms_entries (gcExpired now s)) < ms_cap s \<or> map_get (ms_entries (gcExpired now s)) k \<noteq> None \<or>
       ms_entries (gcExpired now s) = [] \<or> map_get (ms_entries (gcExpired now s)) [] \<noteq> None"
    "\<And>x. evicted = Some x \<Longrightarrow> map_get (ms_entries (gcExpired now s)) x \<noteq> None"
proof -
  let ?g = "gcExpired now s"
  have cap: "ms_cap ?g = ms_cap s" by (simp add: gcExpired_def)
  show ?thesis
  proof (cases "length (ms_entries ?g) \<ge> ms_cap s \<and> map_get (ms_entries ?g) k = None")
    case False
    then show ?thesis
      by (intro that [of None]) (auto simp: memory_set_def cap Let_def)
  next
    case full: True
    show ?thesis
    proof (cases "ms_entries ?g")
      case Nil
      then show ?thesis
        using full by (intro that [of None]) (auto simp: memory_set_def cap Let_def)
    next
      case (Cons p rest)
      then obtain x row where p: "ms_entries ?g = (x, row) # rest" by (cases p) auto
      show ?thesis
      proof (cases "x = []")
        case True
        then show ?thesis
          using full p by (intro that [of None]) (auto simp: memory_set_def cap Let_def)
      next
        case False
        then show ?thesis
          using full p by (intro that [of "Some x"]) (auto simp: memory_set_def cap Let_def)
      qed
    qed
  qed
qed

lemma kept_set:
  assumes "kept_in s t"
  shows "kept_in (memory_set now k v ttl s) (t(k \<mapsto> (v, now + ttl)))"
proof -
  have ok: "map_ok (ms_entries s)" using assms by (simp add: kept_in_def)
  obtain evicted where e: "ms_entries (memory_set now k v ttl s) =
       map_set k \<lparr>me_value = v, me_expiresAt = now + ttl\<rparr>
         (case evicted of None \<Rightarrow> ms_entries (gcExpired now s) | Some x \<Rightarrow> map_del x (ms_entries (gcExpired now s)))"
    by (rule memory_set_entries)
  have "map_ok (ms_entries (memory_set now k v ttl s))"
    unfolding e using gc_ok [OF ok] by (cases evicted) auto
  moreover have "t k' = Some (me_value row, me_expiresAt row)"
    if "map_get (ms_entries (memory_set now k v ttl s)) k' = Some row" "k' \<noteq> k" for k' row
    using that assms gc_get [OF ok] unfolding e
    by (cases evicted) (auto simp: kept_in_def split: if_splits option.splits)
  moreover have "row = \<lparr>me_value = v, me_expiresAt = now + ttl\<rparr>"
    if "map_get (ms_entries (memory_set now k v ttl s)) k = Some row" for row
    using that unfolding e by simp
  ultimately show ?thesis
    by (auto simp: kept_in_def)
qed

lemma kept_get: "kept_in s t \<Longrightarrow> kept_in (snd (memory_get now k s)) t"
  by (auto simp: kept_in_def memory_get_def split: option.split if_splits)

lemma kept_delete: "kept_in s t \<Longrightarrow> kept_in (memory_delete k s) (t(k := None))"
  by (auto simp: kept_in_def memory_delete_def)

lemma get_sound: "kept_in s t \<Longrightarrow> fst (memory_get now k s) = None \<or> fst (memory_get now k s) = table_get now k t"
  by (auto simp: kept_in_def memory_get_def table_get_def split: option.split)

lemma get_exact:
  assumes "kept_in s t" and "exact_for now s t"
  shows "fst (memory_get now k s) = table_get now k t"
proof (cases "table_get now k t")
  case None
  then show ?thesis
    using get_sound [OF assms(1), of now k] by simp
next
  case (Some v)
  then obtain e where e: "t k = Some (v, e)" "\<not> e < now"
    by (auto simp: table_get_def split: option.splits if_splits)
  then obtain row where "map_get (ms_entries s) k = Some row"
    using assms(2) unfolding exact_for_def by blast
  moreover from this have "me_value row = v" "me_expiresAt row = e"
    using assms(1) e(1) by (auto simp: kept_in_def)
  ultimately show ?thesis
    using Some e(2) by (simp add: memory_get_def)
qed

lemma exact_later: "exact_for now s t \<Longrightarrow> now \<le> later \<Longrightarrow> exact_for later s t"
  unfolding exact_for_def by fastforce

lemma exact_get: "kept_in s t \<Longrightarrow> exact_for now s t \<Longrightarrow> exact_for now (snd (memory_get now k s)) t"
  unfolding exact_for_def kept_in_def memory_get_def by (fastforce split: option.split)

lemma exact_delete: "exact_for now s t \<Longrightarrow> exact_for now (memory_delete k s) (t(k := None))"
  by (auto simp: exact_for_def memory_delete_def)

lemma exact_set:
  assumes "kept_in s t" and "exact_for now s t"
    and "length (ms_entries (gcExpired now s)) < ms_cap s \<or> map_get (ms_entries (gcExpired now s)) k \<noteq> None"
  shows "exact_for now (memory_set now k v ttl s) (t(k \<mapsto> (v, now + ttl)))"
proof -
  have ok: "map_ok (ms_entries s)" using assms by (simp add: kept_in_def)
  have cap: "ms_cap (gcExpired now s) = ms_cap s" by (simp add: gcExpired_def)
  have "ms_entries (memory_set now k v ttl s) = map_set k \<lparr>me_value = v, me_expiresAt = now + ttl\<rparr> (ms_entries (gcExpired now s))"
    using assms(3) by (auto simp: memory_set_def cap Let_def)
  then have get: "map_get (ms_entries (memory_set now k v ttl s)) k' =
      (if k' = k then Some \<lparr>me_value = v, me_expiresAt = now + ttl\<rparr> else map_get (ms_entries (gcExpired now s)) k')" for k'
    by simp
  show ?thesis
    unfolding exact_for_def
  proof (intro allI impI)
    fix k' u e
    assume a: "(t(k \<mapsto> (v, now + ttl))) k' = Some (u, e) \<and> \<not> e < now"
    show "map_get (ms_entries (memory_set now k v ttl s)) k' \<noteq> None"
    proof (cases "k' = k")
      case False
      then have tk: "t k' = Some (u, e)" using a by simp
      then obtain row where row: "map_get (ms_entries s) k' = Some row"
        using a assms(2) unfolding exact_for_def by blast
      then have "me_expiresAt row = e"
        using assms(1) tk by (auto simp: kept_in_def)
      then show ?thesis
        using get [of k'] False gc_get [OF ok, of now k'] row a by simp
    qed (simp add: get)
  qed
qed

section \<open>Size\<close>

definition store_keys :: "'v memory_store \<Rightarrow> string set" where
  "store_keys s = fst ` set (ms_entries s)"

lemma store_size: "map_ok (ms_entries s) \<Longrightarrow> length (ms_entries s) = card (store_keys s)"
  unfolding store_keys_def map_ok_def by (metis distinct_card length_map list.set_map)

lemma key_present: "map_get m k \<noteq> None \<longleftrightarrow> k \<in> fst ` set m"
  by (simp add: map_of_eq_None_iff)

lemma gc_keys: "store_keys (gcExpired now s) \<subseteq> store_keys s"
  by (auto simp: store_keys_def gcExpired_def)

lemma set_keys: "store_keys (memory_set now k v ttl s) \<subseteq> insert k (store_keys s)"
proof -
  obtain evicted where "ms_entries (memory_set now k v ttl s) =
       map_set k \<lparr>me_value = v, me_expiresAt = now + ttl\<rparr>
         (case evicted of None \<Rightarrow> ms_entries (gcExpired now s) | Some x \<Rightarrow> map_del x (ms_entries (gcExpired now s)))"
    by (rule memory_set_entries)
  then show ?thesis
    using gc_keys [of now s] unfolding store_keys_def
    by (cases evicted) (auto simp: dom_update dest!: subsetD [OF dom_delete_subset, OF imageI [of _ _ fst]])
qed

lemma map_set_length:
  "length (map_set k u m) \<le> Suc (length m)"
  "map_get m k \<noteq> None \<Longrightarrow> length (map_set k u m) = length m"
  by (induction m) auto

lemma map_del_length: "map_get m x \<noteq> None \<Longrightarrow> length (map_del x m) < length m"
  unfolding AList.delete_eq by (auto simp: dest!: map_of_SomeD intro: length_filter_less)

lemma set_bounded:
  assumes "map_ok (ms_entries s)" and "[] \<notin> store_keys s" and "length (ms_entries s) \<le> max 1 (ms_cap s)"
  shows "length (ms_entries (memory_set now k v ttl s)) \<le> max 1 (ms_cap s)"
proof -
  let ?g = "gcExpired now s" and ?w = "memory_set now k v ttl s"
  have ok: "map_ok (ms_entries ?g)" using assms(1) by (rule gc_ok)
  have len: "length (ms_entries ?g) \<le> max 1 (ms_cap s)"
    using assms(3) by (simp add: gcExpired_def le_trans [OF length_filter_le])
  obtain evicted where e: "ms_entries ?w = map_set k \<lparr>me_value = v, me_expiresAt = now + ttl\<rparr>
         (case evicted of None \<Rightarrow> ms_entries ?g | Some x \<Rightarrow> map_del x (ms_entries ?g))"
    and full: "evicted = None \<Longrightarrow> length (ms_entries ?g) < ms_cap s \<or> map_get (ms_entries ?g) k \<noteq> None \<or>
       ms_entries ?g = [] \<or> map_get (ms_entries ?g) [] \<noteq> None"
    and gone: "\<And>x. evicted = Some x \<Longrightarrow> map_get (ms_entries ?g) x \<noteq> None"
    by (rule memory_set_entries [of now k v ttl s]) blast
  show ?thesis
  proof (cases evicted)
    case None
    have "map_get (ms_entries ?g) [] = None"
      using assms(2) gc_keys [of now s] by (auto simp: store_keys_def map_of_eq_None_iff)
    then show ?thesis
      using full [OF None] len e None map_set_length(1) [of k "\<lparr>me_value = v, me_expiresAt = now + ttl\<rparr>" "ms_entries ?g"]
        map_set_length(2) [of "ms_entries ?g" k "\<lparr>me_value = v, me_expiresAt = now + ttl\<rparr>"]
      by (auto simp: le_max_iff_disj)
  next
    case (Some x)
    have "length (map_del x (ms_entries ?g)) < length (ms_entries ?g)"
      using gone [OF Some] by (rule map_del_length)
    then show ?thesis
      using len e Some map_set_length(1) [of k "\<lparr>me_value = v, me_expiresAt = now + ttl\<rparr>" "map_del x (ms_entries ?g)"]
      by simp
  qed
qed

section \<open>Runs\<close>

definition in_step ::
  "string set \<Rightarrow> nat \<Rightarrow> millis \<Rightarrow> 'v memory_store \<times> 'v option list \<Rightarrow> 'v deadline_table \<times> 'v option list \<Rightarrow> bool" where
  "in_step K cap now m t \<longleftrightarrow>
     kept_in (fst m) (fst t) \<and> ms_cap (fst m) = cap \<and> store_keys (fst m) \<subseteq> K \<and>
     list_all2 (\<lambda>a b. a = None \<or> a = b) (snd m) (snd t) \<and>
     (card K \<le> cap \<longrightarrow> exact_for now (fst m) (fst t) \<and> snd m = snd t) \<and>
     ([] \<notin> K \<longrightarrow> length (ms_entries (fst m)) \<le> max 1 cap)"

lemma cap_frame [simp]:
  "ms_cap (memory_set now k v ttl s) = ms_cap s" "ms_cap (snd (memory_get now k s)) = ms_cap s"
  "ms_cap (memory_delete k s) = ms_cap s"
  by (auto simp: memory_set_def memory_get_def memory_delete_def gcExpired_def Let_def split: option.split list.split)

lemma shrink_frame:
  "store_keys (snd (memory_get now k s)) \<subseteq> store_keys s" "store_keys (memory_delete k s) \<subseteq> store_keys s"
  "length (ms_entries (snd (memory_get now k s))) \<le> length (ms_entries s)"
  "length (ms_entries (memory_delete k s)) \<le> length (ms_entries s)"
  by (auto simp: store_keys_def memory_get_def memory_delete_def AList.delete_eq split: option.split)

lemma in_step_keeps:
  assumes inv: "in_step K cap now m t" and later: "now \<le> now'" and key: "op_key op \<in> K" and fin: "finite K"
  shows "in_step K cap now' (memory_step m (now', op)) (table_step t (now', op))"
proof -
  obtain s as d es where m: "m = (s, as)" and t: "t = (d, es)" by (cases m, cases t)
  have kept: "kept_in s d" and c: "ms_cap s = cap" and keys: "store_keys s \<subseteq> K"
      and rel: "list_all2 (\<lambda>a b. a = None \<or> a = b) as es"
      and ex: "card K \<le> cap \<Longrightarrow> exact_for now' s d \<and> as = es"
      and size: "[] \<notin> K \<Longrightarrow> length (ms_entries s) \<le> max 1 cap"
    using inv exact_later [OF _ later] by (auto simp: in_step_def m t)
  have ok: "map_ok (ms_entries s)" using kept by (simp add: kept_in_def)
  show ?thesis
  proof (cases op)
    case (SSet k v ttl)
    have k: "k \<in> K" using key SSet by simp
    have room: "length (ms_entries (gcExpired now' s)) < ms_cap s \<or> map_get (ms_entries (gcExpired now' s)) k \<noteq> None"
      if "card K \<le> cap"
    proof (cases "k \<in> store_keys (gcExpired now' s)")
      case False
      have sub: "insert k (store_keys (gcExpired now' s)) \<subseteq> K"
        using k keys gc_keys [of now' s] by auto
      have "length (ms_entries (gcExpired now' s)) < card (insert k (store_keys (gcExpired now' s)))"
        using store_size [OF gc_ok [OF ok], of now'] False by (simp add: store_keys_def)
      also have "\<dots> \<le> card K"
        using sub fin by (rule card_mono [rotated])
      finally show ?thesis using that c by simp
    next
      case True
      then show ?thesis
        using key_present [of "ms_entries (gcExpired now' s)" k] by (simp add: store_keys_def)
    qed
    have "kept_in (memory_set now' k v ttl s) (d(k \<mapsto> (v, now' + ttl)))"
      using kept by (rule kept_set)
    moreover have "store_keys (memory_set now' k v ttl s) \<subseteq> K"
      using set_keys [of now' k v ttl s] k keys by auto
    moreover have "exact_for now' (memory_set now' k v ttl s) (d(k \<mapsto> (v, now' + ttl))) \<and> as = es" if "card K \<le> cap"
      using ex [OF that] exact_set [OF kept _ room [OF that]] by simp
    moreover have "length (ms_entries (memory_set now' k v ttl s)) \<le> max 1 cap" if "[] \<notin> K"
      using set_bounded [OF ok, of now' k v ttl] size [OF that] that keys c by auto
    ultimately show ?thesis
      using c rel by (simp add: m t SSet in_step_def)
  next
    case (SGet k)
    have "list_all2 (\<lambda>a b. a = None \<or> a = b) (as @ [fst (memory_get now' k s)]) (es @ [table_get now' k d])"
      using rel get_sound [OF kept] by (simp add: list_all2_appendI)
    moreover have "as @ [fst (memory_get now' k s)] = es @ [table_get now' k d]" if "card K \<le> cap"
      using ex [OF that] get_exact [OF kept] by simp
    moreover have "store_keys (snd (memory_get now' k s)) \<subseteq> K"
      using shrink_frame(1) keys by (rule subset_trans)
    moreover have "length (ms_entries (snd (memory_get now' k s))) \<le> max 1 cap" if "[] \<notin> K"
      using shrink_frame(3) size [OF that] by (rule le_trans)
    ultimately show ?thesis
      using kept_get [OF kept] exact_get [OF kept] c ex by (simp add: m t SGet in_step_def)
  next
    case (SDelete k)
    have "store_keys (memory_delete k s) \<subseteq> K"
      using shrink_frame(2) keys by (rule subset_trans)
    moreover have "length (ms_entries (memory_delete k s)) \<le> max 1 cap" if "[] \<notin> K"
      using shrink_frame(4) size [OF that] by (rule le_trans)
    ultimately show ?thesis
      using kept_delete [OF kept] exact_delete [of now' s d k] c ex rel by (simp add: m t SDelete in_step_def)
  qed
qed

lemma in_step_run:
  assumes "in_step K cap now m t" and "sorted_wrt (\<le>) (now # map fst ops)" and "op_key ` snd ` set ops \<subseteq> K" and "finite K"
  shows "\<exists>later. in_step K cap later (foldl memory_step m ops) (foldl table_step t ops)"
  using assms
proof (induction ops arbitrary: now m t)
  case (Cons e ops)
  have "in_step K cap (fst e) (memory_step m (fst e, snd e)) (table_step t (fst e, snd e))"
    using Cons.prems by (intro in_step_keeps [of K cap now]) auto
  then show ?case
    using Cons.IH [of "fst e"] Cons.prems by simp
qed auto

text \<open>
  C25. The in-memory store refines a plain table of values with deadlines. In any run of its operations
  whose clock does not go back, every answer is the answer of the table or nothing; it is always the
  answer of the table if the run names at most as many keys as the cap; and the store never holds more
  entries than the cap (or one, for a cap of zero), provided no key is the empty string.
\<close>

theorem memory_store_refines_table:
  assumes "sorted_wrt (\<le>) (map fst ops)"
    and "foldl memory_step (new_memory_store cap, []) ops = (s, answers)"
    and "foldl table_step (Map.empty, []) ops = (t, expected)"
  shows "list_all2 (\<lambda>a b. a = None \<or> a = b) answers expected \<and>
    (card (op_key ` snd ` set ops) \<le> get_or IN_MEMORY_DEFAULT_CAP cap \<longrightarrow> answers = expected) \<and>
    ([] \<notin> op_key ` snd ` set ops \<longrightarrow> length (ms_entries s) \<le> max 1 (get_or IN_MEMORY_DEFAULT_CAP cap))"
proof -
  let ?K = "op_key ` snd ` set ops" and ?cap = "get_or IN_MEMORY_DEFAULT_CAP cap"
  have start: "in_step ?K ?cap now (new_memory_store cap, []) (Map.empty, [])" for now
    by (simp add: in_step_def kept_in_def exact_for_def new_memory_store_def store_keys_def)
  have "\<exists>now. sorted_wrt (\<le>) (now # map fst ops)"
    using assms(1) by (cases ops) (auto intro: exI [of _ "fst (hd ops)"])
  then obtain now where "sorted_wrt (\<le>) (now # map fst ops)" ..
  then obtain later where "in_step ?K ?cap later (s, answers) (t, expected)"
    using in_step_run [OF start, of now ops] by (auto simp: assms(2,3))
  then show ?thesis
    by (simp add: in_step_def)
qed

theorem memory_store_refines_table_witness:
  "snd (foldl memory_step (new_memory_store (Some 1), []) [(1, SSet ''a'' (5::nat) 10), (2, SSet ''b'' 6 10), (3, SGet ''a'')]) = [None] \<and>
   length (ms_entries (fst (foldl memory_step (new_memory_store (Some 1), [])
     [(1, SSet ''a'' (5::nat) 10), (2, SSet ''b'' 6 10), (3, SGet ''a'')]))) \<le> 1"
  (is "?evicted \<and> ?bounded")
proof
  show ?evicted
    by (simp add: new_memory_store_def memory_set_def memory_get_def gcExpired_def)
  show ?bounded
    using memory_store_refines_table [of "[(1, SSet ''a'' (5::nat) 10), (2, SSet ''b'' 6 10), (3, SGet ''a'')]" "Some 1",
        OF _ surjective_pairing surjective_pairing]
    by (simp del: foldl_Cons)
qed

end
