(* ===== verification/CanonicalJson.thy ===== *)
theory CanonicalJson
  imports JsText "HOL-Library.Multiset" "HOL-Library.List_Lexorder" "HOL-Library.Char_ord"
begin

text \<open>
  The canonical JSON text that signatures are made over (packages/federation/src/canonical-json.ts).
  Values are JavaScript values whose numbers are integers; the keys of an object are in insertion order
  and compare by code units. \<open>JSON.stringify\<close> of strings and integers is written out.
\<close>

section \<open>Values\<close>

datatype json =
    JUndefined
  | JNull
  | JBool bool
  | JNum int
  | JNonFinite
  | JStr string
  | JArr "json list"
  | JObj "(string \<times> json) list"
  | JOther string          \<comment> \<open>a bigint, symbol or function\<close>

section \<open>\<open>JSON.stringify\<close> of strings\<close>

definition hex_digit :: "nat \<Rightarrow> char" where
  "hex_digit n = (if n < 10 then char_of (48 + n) else char_of (87 + n))"

definition quote_char :: char where "quote_char = CHR 0x22"
definition backslash :: char where "backslash = CHR 0x5C"

definition escape_tail :: "nat \<Rightarrow> string" where
  "escape_tail n =
     (if n = 34 then [quote_char] else if n = 92 then [backslash]
      else if n = 8 then ''b'' else if n = 12 then ''f'' else if n = 10 then ''n''
      else if n = 13 then ''r'' else if n = 9 then ''t''
      else ''u00'' @ [hex_digit (n div 16), hex_digit (n mod 16)])"

definition escape_char :: "char \<Rightarrow> string" where
  "escape_char c =
     (let n = (of_char c :: nat)
      in if n = 34 \<or> n = 92 \<or> n < 32 then backslash # escape_tail n else [c])"

definition quote_string :: "string \<Rightarrow> string" where
  "quote_string s = quote_char # concat (map escape_char s) @ [quote_char]"

section \<open>\<open>canonicalize\<close>\<close>

fun join_commas :: "string list \<Rightarrow> string" where
  "join_commas [] = []"
| "join_commas [p] = p"
| "join_commas (p # q # ps) = p @ '','' @ join_commas (q # ps)"

definition print_part :: "string \<times> string \<Rightarrow> string" where
  "print_part p = quote_string (fst p) @ '':'' @ snd p"

text \<open>\<^const>\<open>None\<close> is a \<open>TypeError\<close>. The printed members of an object are put in the order of their keys.\<close>

fun stringify :: "json \<Rightarrow> string option"
  and stringify_items :: "json list \<Rightarrow> string list option"
  and stringify_members :: "(string \<times> json) list \<Rightarrow> (string \<times> string) list option" where
  "stringify JNull = Some ''null''"
| "stringify (JBool v) = Some (if v then ''true'' else ''false'')"
| "stringify JNonFinite = None"
| "stringify (JNum v) = Some (show_int v)"
| "stringify (JStr v) = Some (quote_string v)"
| "stringify (JArr v) = map_option (\<lambda>items. ''['' @ join_commas items @ '']'') (stringify_items v)"
| "stringify (JObj obj) =
     map_option (\<lambda>parts. ''{'' @ join_commas (map print_part (sort_key fst parts)) @ ''}'') (stringify_members obj)"
| "stringify JUndefined = None"
| "stringify (JOther t) = None"
| "stringify_items [] = Some []"
| "stringify_items (item # items) =
     (case (if item = JUndefined then Some ''null'' else stringify item, stringify_items items) of
        (Some s, Some ss) \<Rightarrow> Some (s # ss)
      | _ \<Rightarrow> None)"
| "stringify_members [] = Some []"
| "stringify_members ((k, v) # obj) =
     (if v = JUndefined then stringify_members obj
      else case (stringify v, stringify_members obj) of
        (Some s, Some parts) \<Rightarrow> Some ((k, s) # parts)
      | _ \<Rightarrow> None)"

definition canonicalize :: "json \<Rightarrow> string option" where
  "canonicalize value = (if value = JUndefined then None else stringify value)"

section \<open>What the text stands for\<close>

text \<open>
  The value without what the text does not show: members that are \<open>undefined\<close> are dropped, undefined
  items are null, and members are in the order of their keys.
\<close>

fun normal :: "json \<Rightarrow> json" where
  "normal JUndefined = JNull"
| "normal (JArr vs) = JArr (map normal vs)"
| "normal (JObj ps) =
     JObj (sort_key fst (map (\<lambda>p. (fst p, normal (snd p))) (filter (\<lambda>p. snd p \<noteq> JUndefined) ps)))"
| "normal v = v"

fun supported :: "json \<Rightarrow> bool" where
  "supported (JArr vs) = (\<forall>v \<in> set vs. v = JUndefined \<or> supported v)"
| "supported (JObj ps) = (\<forall>p \<in> set ps. snd p = JUndefined \<or> supported (snd p))"
| "supported JUndefined = False"
| "supported JNonFinite = False"
| "supported (JOther t) = False"
| "supported v = True"

fun print_json :: "json \<Rightarrow> string" where
  "print_json JNull = ''null''"
| "print_json (JBool v) = (if v then ''true'' else ''false'')"
| "print_json (JNum v) = show_int v"
| "print_json (JStr v) = quote_string v"
| "print_json (JArr vs) = ''['' @ join_commas (map print_json vs) @ '']''"
| "print_json (JObj ps) = ''{'' @ join_commas (map (\<lambda>p. quote_string (fst p) @ '':'' @ print_json (snd p)) ps) @ ''}''"
| "print_json v = []"

lemma sort_key_map:
  assumes "\<And>x. h (g x) = f x"
  shows "sort_key h (map g xs) = map g (sort_key f xs)"
proof -
  have "insort_key h (g x) (map g ys) = map g (insort_key f x ys)" for x ys
    by (induction ys) (simp_all add: assms)
  then show ?thesis
    by (induction xs) simp_all
qed

lemma stringify_prints:
  "stringify v = (if supported v then Some (print_json (normal v)) else None)"
  "stringify_items vs = (if \<forall>v \<in> set vs. v = JUndefined \<or> supported v
     then Some (map (\<lambda>v. print_json (normal v)) vs) else None)"
  "stringify_members ps = (if \<forall>p \<in> set ps. snd p = JUndefined \<or> supported (snd p)
     then Some (map (\<lambda>p. (fst p, print_json (normal (snd p)))) (filter (\<lambda>p. snd p \<noteq> JUndefined) ps)) else None)"
proof (induction v and vs and ps rule: stringify_stringify_items_stringify_members.induct)
  case (7 obj)
  have "sort_key fst (map (\<lambda>p. (fst p, print_json (normal (snd p)))) (filter (\<lambda>p. snd p \<noteq> JUndefined) obj)) =
      map (\<lambda>p. (fst p, print_json (normal (snd p)))) (sort_key fst (filter (\<lambda>p. snd p \<noteq> JUndefined) obj))"
    by (rule sort_key_map) simp
  moreover have "sort_key fst (map (\<lambda>p. (fst p, normal (snd p))) (filter (\<lambda>p. snd p \<noteq> JUndefined) obj)) =
      map (\<lambda>p. (fst p, normal (snd p))) (sort_key fst (filter (\<lambda>p. snd p \<noteq> JUndefined) obj))"
    by (rule sort_key_map) simp
  ultimately show ?case
    using 7 by (simp add: print_part_def comp_def)
qed (auto simp: comp_def split: option.splits if_splits)

section \<open>The text determines the value\<close>

text \<open>
  Printers that can be read back from the front of a longer text: no printed text continues as
  another one. The texts of values are followed by a comma, a closing bracket, or nothing.
\<close>

definition follows :: "string \<Rightarrow> bool" where
  "follows x \<longleftrightarrow> x = [] \<or> hd x \<in> {CHR '','', CHR '']'', CHR ''}''}"

definition readable :: "('a \<Rightarrow> string) \<Rightarrow> 'a \<Rightarrow> ('a \<Rightarrow> bool) \<Rightarrow> bool" where
  "readable p a ok \<longleftrightarrow> (\<forall>b x y. ok b \<and> follows x \<and> follows y \<and> p a @ x = p b @ y \<longrightarrow> a = b \<and> x = y)"

lemma readableD:
  "readable p a ok \<Longrightarrow> ok b \<Longrightarrow> follows x \<Longrightarrow> follows y \<Longrightarrow> p a @ x = p b @ y \<Longrightarrow> a = b \<and> x = y"
  unfolding readable_def by blast

text \<open>Strings.\<close>

definition hex_value :: "char \<Rightarrow> nat" where
  "hex_value c = (let n = of_char c in if n < 58 then n - 48 else n - 87)"

fun unescape :: "string \<Rightarrow> nat \<times> string" where
  "unescape (c # x) =
     (if c = quote_char then (34, x) else if c = backslash then (92, x)
      else if c = CHR ''b'' then (8, x) else if c = CHR ''f'' then (12, x) else if c = CHR ''n'' then (10, x)
      else if c = CHR ''r'' then (13, x) else if c = CHR ''t'' then (9, x)
      else (hex_value (x ! 2) * 16 + hex_value (x ! 3), drop 4 x))"
| "unescape [] = (0, [])"

lemma hex_value_digit: "n < 16 \<Longrightarrow> hex_value (hex_digit n) = n"
  by (simp add: hex_digit_def hex_value_def take_bit_nat_eq_self)

lemma unescape_tail:
  assumes "n = 34 \<or> n = 92 \<or> n < 32"
  shows "unescape (escape_tail n @ x) = (n, x)"
proof (cases "n \<in> {34, 92, 8, 12, 10, 13, 9}")
  case True
  then show ?thesis
    by (auto simp: escape_tail_def quote_char_def backslash_def)
next
  case False
  then have "n < 32" "n div 16 < 16" using assms by auto
  then show ?thesis
    using False by (simp add: escape_tail_def quote_char_def backslash_def hex_value_digit)
qed

lemma escape_inj:
  assumes "escape_char c @ x = escape_char d @ y"
  shows "c = d \<and> x = y"
proof -
  let ?s = "\<lambda>c. (of_char c :: nat) = 34 \<or> (of_char c :: nat) = 92 \<or> (of_char c :: nat) < 32"
  have raw: "c \<noteq> backslash" if "\<not> ?s c" for c
    using that by (auto simp: backslash_def)
  consider "?s c" "?s d" | "\<not> ?s c" "\<not> ?s d" | "?s c" "\<not> ?s d" | "\<not> ?s c" "?s d"
    by blast
  then show ?thesis
  proof cases
    case 1
    then have "escape_tail (of_char c) @ x = escape_tail (of_char d) @ y"
      using assms by (simp add: escape_char_def)
    then have "unescape (escape_tail (of_char c) @ x) = unescape (escape_tail (of_char d) @ y)"
      by simp
    then have "(of_char c :: nat) = of_char d" "x = y"
      unfolding unescape_tail [OF 1(1)] unescape_tail [OF 1(2)] by simp_all
    then show ?thesis by simp
  next
    case 2
    then show ?thesis using assms by (simp add: escape_char_def)
  next
    case 3
    then show ?thesis using assms raw [of d] by (simp add: escape_char_def)
  next
    case 4
    then show ?thesis using assms raw [of c] by (auto simp: escape_char_def)
  qed
qed

lemma escape_head: "\<exists>h r. escape_char c = h # r \<and> h \<noteq> quote_char"
  by (auto simp: escape_char_def Let_def quote_char_def backslash_def)

lemma quote_body_inj:
  assumes "concat (map escape_char s) @ quote_char # x = concat (map escape_char t) @ quote_char # y"
  shows "s = t \<and> x = y"
  using assms
proof (induction s arbitrary: t)
  case Nil
  show ?case
  proof (cases t)
    case Nil
    then show ?thesis using Nil.prems by simp
  next
    case (Cons d t')
    then show ?thesis
      using Nil.prems escape_head [of d] by auto
  qed
next
  case (Cons c s)
  show ?case
  proof (cases t)
    case Nil
    then show ?thesis
      using Cons.prems escape_head [of c] by auto
  next
    case (Cons d t')
    have "escape_char c @ (concat (map escape_char s) @ quote_char # x) =
        escape_char d @ (concat (map escape_char t') @ quote_char # y)"
      using Cons.prems Cons by simp
    then have "c = d \<and> concat (map escape_char s) @ quote_char # x = concat (map escape_char t') @ quote_char # y"
      by (rule escape_inj)
    then show ?thesis
      using Cons.IH [of t'] Cons by simp
  qed
qed

lemma quote_string_inj: "quote_string s @ x = quote_string t @ y \<Longrightarrow> s = t \<and> x = y"
  using quote_body_inj [of s x t y] by (simp add: quote_string_def)

text \<open>Numbers.\<close>

lemma show_nat_split:
  assumes "show_nat m @ x = show_nat n @ y" "x = [] \<or> \<not> is_digit (hd x)" "y = [] \<or> \<not> is_digit (hd y)"
  shows "m = n \<and> x = y"
proof -
  have run: "takeWhile is_digit (show_nat k @ z) = show_nat k" if "z = [] \<or> \<not> is_digit (hd z)" for k z
    using that show_nat_digits [of k] by (cases z) auto
  have "show_nat m = show_nat n"
    using run [OF assms(2), of m] run [OF assms(3), of n] assms(1) by simp
  moreover from this have "m = n"
    using read_show_nat by (metis option.inject)
  ultimately show ?thesis using assms(1) by blast
qed

lemma not_digit:
  "\<not> is_digit (CHR ''n'')" "\<not> is_digit (CHR ''t'')" "\<not> is_digit (CHR ''f'')" "\<not> is_digit quote_char"
  "\<not> is_digit (CHR ''['')" "\<not> is_digit (CHR ''{'')" "\<not> is_digit (CHR '']'')" "\<not> is_digit (CHR ''}'')"
  "\<not> is_digit (CHR '','')" "\<not> is_digit (CHR ''-'')"
  by (simp_all add: is_digit_def quote_char_def)

lemma show_nat_head: "\<exists>h r. show_nat n = h # r \<and> is_digit h"
  using show_nat_digits [of n] by (cases "show_nat n") auto

lemma show_int_split:
  assumes eq: "show_int i @ x = show_int k @ y" and f: "follows x" "follows y"
  shows "i = k \<and> x = y"
proof -
  have nd: "x = [] \<or> \<not> is_digit (hd x)" "y = [] \<or> \<not> is_digit (hd y)"
    using f not_digit by (auto simp: follows_def)
  have clash: "show_nat n @ u \<noteq> CHR ''-'' # r" for n u r
    using show_nat_head [of n] not_digit(10) by auto
  consider "i < 0" "k < 0" | "\<not> i < 0" "\<not> k < 0" | "i < 0" "\<not> k < 0" | "\<not> i < 0" "k < 0" by linarith
  then show ?thesis
  proof cases
    case 1
    then have "show_nat (nat (- i)) @ x = show_nat (nat (- k)) @ y" using eq by (simp add: show_int_def)
    from show_nat_split [OF this nd] 1 show ?thesis by linarith
  next
    case 2
    then have "show_nat (nat i) @ x = show_nat (nat k) @ y" using eq by (simp add: show_int_def)
    from show_nat_split [OF this nd] 2 show ?thesis by linarith
  next
    case 3
    then show ?thesis using eq clash [of "nat k" y] by (metis append_Cons show_int_def)
  next
    case 4
    then show ?thesis using eq clash [of "nat i" x] by (metis append_Cons show_int_def)
  qed
qed

text \<open>The first character of a text tells the kind of the value.\<close>

fun plain :: "json \<Rightarrow> bool" where
  "plain (JArr vs) = (\<forall>v \<in> set vs. plain v)"
| "plain (JObj ps) = (\<forall>p \<in> set ps. plain (snd p))"
| "plain JUndefined = False"
| "plain JNonFinite = False"
| "plain (JOther t) = False"
| "plain v = True"

fun shape :: "json \<Rightarrow> nat" where
  "shape JNull = 0"
| "shape (JBool v) = (if v then 1 else 2)"
| "shape (JStr s) = 3"
| "shape (JArr vs) = 4"
| "shape (JObj ps) = 5"
| "shape v = 6"

definition char_shape :: "char \<Rightarrow> nat" where
  "char_shape c = (if c = CHR ''n'' then 0 else if c = CHR ''t'' then 1 else if c = CHR ''f'' then 2
     else if c = quote_char then 3 else if c = CHR ''['' then 4 else if c = CHR ''{'' then 5 else 6)"

lemma print_head:
  assumes "plain v"
  obtains h r where "print_json v = h # r" "char_shape h = shape v" "h \<noteq> CHR '']''" "h \<noteq> CHR ''}''"
proof -
  have digit: "char_shape h = 6 \<and> h \<noteq> CHR '']'' \<and> h \<noteq> CHR ''}''" if "is_digit h" for h
    using that not_digit by (auto simp: char_shape_def simp del: char.inject)
  have "\<exists>h r. print_json v = h # r \<and> char_shape h = shape v \<and> h \<noteq> CHR '']'' \<and> h \<noteq> CHR ''}''"
  proof (cases v)
    case (JNum i)
    show ?thesis
    proof (cases "i < 0")
      case True
      then show ?thesis
        using JNum by (simp add: show_int_def char_shape_def quote_char_def)
    next
      case False
      then obtain h r where "print_json v = h # r" "is_digit h"
        using show_nat_head [of "nat i"] JNum by (auto simp: show_int_def)
      then show ?thesis using digit [of h] JNum by simp
    qed
  qed (use assms in \<open>auto simp: char_shape_def quote_string_def quote_char_def\<close>)
  then show ?thesis using that by blast
qed

lemma same_shape:
  assumes "print_json v @ x = print_json w @ y" "plain v" "plain w"
  shows "shape v = shape w"
proof -
  obtain h r where h: "print_json v = h # r" "char_shape h = shape v" using print_head [OF assms(2)] by metis
  obtain h' r' where h': "print_json w = h' # r'" "char_shape h' = shape w" using print_head [OF assms(3)] by metis
  show ?thesis using assms(1) h h' by simp
qed

text \<open>Lists of readable parts between commas.\<close>

definition rest_commas :: "('a \<Rightarrow> string) \<Rightarrow> 'a list \<Rightarrow> string \<Rightarrow> string" where
  "rest_commas p xs x = (if xs = [] then x else CHR '','' # join_commas (map p xs) @ x)"

lemma join_commas_Cons: "join_commas (map p (v # vs)) @ x = p v @ rest_commas p vs x"
  by (cases vs) (simp_all add: rest_commas_def)

lemma join_readable:
  assumes "\<And>v. v \<in> set xs \<Longrightarrow> readable p v ok" "\<forall>v \<in> set ys. ok v"
    and e: "e = CHR '']'' \<or> e = CHR ''}''"
    and heads: "\<And>v r. v \<in> set xs \<union> set ys \<Longrightarrow> p v \<noteq> [] \<and> hd (p v) \<noteq> e"
    and eq: "join_commas (map p xs) @ e # x = join_commas (map p ys) @ e # y"
  shows "xs = ys \<and> x = y"
  using assms
proof (induction xs arbitrary: ys)
  case Nil
  show ?case
  proof (cases ys)
    case Nil
    then show ?thesis using Nil.prems by simp
  next
    case (Cons w ws)
    have "e # x = p w @ rest_commas p ws (e # y)"
      using Nil.prems(5) unfolding Cons join_commas_Cons by simp
    then show ?thesis
      using Nil.prems(4) [of w] Cons by (cases "p w") auto
  qed
next
  case (Cons v vs)
  show ?case
  proof (cases ys)
    case Nil
    have "p v @ rest_commas p vs (e # x) = e # y"
      using Cons.prems(5) unfolding Nil join_commas_Cons by simp
    then show ?thesis
      using Cons.prems(4) [of v] by (cases "p v") auto
  next
    case (Cons w ws)
    have f: "follows (rest_commas p us (e # z))" for us z
      using e by (auto simp: follows_def rest_commas_def)
    have "p v @ rest_commas p vs (e # x) = p w @ rest_commas p ws (e # y)"
      using Cons.prems(5) unfolding Cons join_commas_Cons by simp
    then have vw: "v = w" "rest_commas p vs (e # x) = rest_commas p ws (e # y)"
      using readableD [OF Cons.prems(1) [of v] _ f f] Cons.prems(2) Cons by auto
    then have "join_commas (map p vs) @ e # x = join_commas (map p ws) @ e # y"
      using e by (auto simp: rest_commas_def split: if_splits)
    then show ?thesis
      using Cons.IH [of ws] Cons.prems Cons vw by auto
  qed
qed

text \<open>Values.\<close>

lemma print_member_head: "hd (quote_string k @ z) = quote_char \<and> quote_string k @ z \<noteq> []"
  by (simp add: quote_string_def)

lemma readable_member:
  assumes "readable print_json (snd p) plain"
  shows "readable (\<lambda>p. quote_string (fst p) @ '':'' @ print_json (snd p)) p (\<lambda>p. plain (snd p))"
  unfolding readable_def
proof (intro allI impI, elim conjE)
  fix q x y
  assume q: "plain (snd q)" "follows x" "follows y"
    and eq: "(quote_string (fst p) @ '':'' @ print_json (snd p)) @ x = (quote_string (fst q) @ '':'' @ print_json (snd q)) @ y"
  then have "quote_string (fst p) @ CHR '':'' # print_json (snd p) @ x = quote_string (fst q) @ CHR '':'' # print_json (snd q) @ y"
    by simp
  then have "fst p = fst q" "print_json (snd p) @ x = print_json (snd q) @ y"
    using quote_string_inj by blast+
  then show "p = q \<and> x = y"
    using readableD [OF assms q] by (simp add: prod_eq_iff)
qed

lemma print_readable: "plain v \<Longrightarrow> readable print_json v plain"
proof (induction v)
  case (JArr vs)
  show ?case
    unfolding readable_def
  proof (intro allI impI, elim conjE)
    fix w x y
    assume w: "plain w" and f: "follows x" "follows y" and eq: "print_json (JArr vs) @ x = print_json w @ y"
    then obtain ws where ws: "w = JArr ws"
      using same_shape [OF eq JArr.prems w] by (cases w) (auto split: if_splits)
    have "join_commas (map print_json vs) @ CHR '']'' # x = join_commas (map print_json ws) @ CHR '']'' # y"
      using eq ws by simp
    moreover have "print_json u \<noteq> [] \<and> hd (print_json u) \<noteq> CHR '']''" if "u \<in> set vs \<union> set ws" for u
      using that JArr.prems w ws by (auto elim!: print_head [of u])
    ultimately have "vs = ws \<and> x = y"
      using join_readable [of vs print_json plain ws "CHR '']''" x y] JArr w ws by auto
    then show "JArr vs = w \<and> x = y" using ws by simp
  qed
next
  case (JObj ps)
  let ?p = "\<lambda>p. quote_string (fst p) @ '':'' @ print_json (snd p)"
  have members: "readable ?p p (\<lambda>p. plain (snd p))" if "p \<in> set ps" for p
    using JObj.IH [of p "snd p"] JObj.prems that by (intro readable_member) (auto simp: prod_set_defs)
  show ?case
    unfolding readable_def
  proof (intro allI impI, elim conjE)
    fix w x y
    assume w: "plain w" and f: "follows x" "follows y" and eq: "print_json (JObj ps) @ x = print_json w @ y"
    then obtain ws where ws: "w = JObj ws"
      using same_shape [OF eq JObj.prems w] by (cases w) (auto split: if_splits)
    have "join_commas (map ?p ps) @ CHR ''}'' # x = join_commas (map ?p ws) @ CHR ''}'' # y"
      using eq ws by simp
    moreover have "?p u \<noteq> [] \<and> hd (?p u) \<noteq> CHR ''}''" for u
      using print_member_head [of "fst u"] by (simp add: quote_char_def)
    ultimately have "ps = ws \<and> x = y"
      using join_readable [of ps ?p "\<lambda>p. plain (snd p)" ws "CHR ''}''" x y] members w ws by auto
    then show "JObj ps = w \<and> x = y" using ws by simp
  qed
next
  case (JStr s)
  show ?case
    unfolding readable_def
  proof (intro allI impI, elim conjE)
    fix w x y
    assume w: "plain w" and eq: "print_json (JStr s) @ x = print_json w @ y"
    then obtain t where "w = JStr t"
      using same_shape [OF eq _ w] by (cases w) (auto split: if_splits)
    then show "JStr s = w \<and> x = y" using eq quote_string_inj [of s x t y] by simp
  qed
next
  case (JNum i)
  show ?case
    unfolding readable_def
  proof (intro allI impI, elim conjE)
    fix w x y
    assume w: "plain w" and f: "follows x" "follows y" and eq: "print_json (JNum i) @ x = print_json w @ y"
    then obtain k where "w = JNum k"
      using same_shape [OF eq _ w] by (cases w) (auto split: if_splits)
    then show "JNum i = w \<and> x = y" using eq show_int_split [OF _ f, of i k] by simp
  qed
next
  case JNull
  show ?case
    unfolding readable_def
  proof (intro allI impI, elim conjE)
    fix w x y
    assume w: "plain w" and eq: "print_json JNull @ x = print_json w @ y"
    then have "w = JNull"
      using same_shape [OF eq _ w] by (cases w) (auto split: if_splits)
    then show "JNull = w \<and> x = y" using eq by simp
  qed
next
  case (JBool v)
  show ?case
    unfolding readable_def
  proof (intro allI impI, elim conjE)
    fix w x y
    assume w: "plain w" and eq: "print_json (JBool v) @ x = print_json w @ y"
    then have "w = JBool v"
      using same_shape [OF eq _ w] by (cases w) (auto split: if_splits)
    then show "JBool v = w \<and> x = y" using eq by simp
  qed
qed simp_all

lemma normal_plain: "supported v \<Longrightarrow> plain (normal v)"
proof (induction v)
  case (JArr vs)
  have "plain (normal v)" if "v \<in> set vs" for v
    using JArr that by (cases "v = JUndefined") auto
  then show ?case by simp
next
  case (JObj ps)
  then show ?case by (auto simp: prod_set_defs)
qed simp_all

lemma canonicalize_eq_iff:
  "canonicalize a \<noteq> None \<Longrightarrow> canonicalize a = canonicalize b \<longleftrightarrow> canonicalize b \<noteq> None \<and> normal a = normal b"
proof -
  assume "canonicalize a \<noteq> None"
  then have a: "supported a" "canonicalize a = Some (print_json (normal a))"
    by (auto simp: canonicalize_def stringify_prints(1) split: if_splits)
  show ?thesis
  proof
    assume eq: "canonicalize a = canonicalize b"
    then have b: "supported b" "canonicalize b = Some (print_json (normal b))"
      using a by (auto simp: canonicalize_def stringify_prints(1) split: if_splits)
    have "print_json (normal a) @ [] = print_json (normal b) @ []"
      using eq a(2) b(2) by simp
    then have "normal a = normal b"
      using readableD [OF print_readable [OF normal_plain [OF a(1)]] normal_plain [OF b(1)]]
      by (metis follows_def)
    then show "canonicalize b \<noteq> None \<and> normal a = normal b" using b by simp
  next
    assume b: "canonicalize b \<noteq> None \<and> normal a = normal b"
    then have "canonicalize b = Some (print_json (normal b))"
      by (auto simp: canonicalize_def stringify_prints(1) split: if_splits)
    then show "canonicalize a = canonicalize b" using a b by simp
  qed
qed

text \<open>
  C26. Two values have the same text exactly when they agree up to the order of members, dropped
  \<open>undefined\<close> members and \<open>undefined\<close> items, so a signature of the text is a signature of the value:
  no string content, nesting or number can be moved across a boundary without changing the text.
\<close>

theorem canonical_text_determines_value:
  "canonicalize a \<noteq> None \<Longrightarrow> canonicalize a = canonicalize b \<longleftrightarrow> canonicalize b \<noteq> None \<and> normal a = normal b"
  by (rule canonicalize_eq_iff)

lemma canonical_text_determines_value_witness:
  "canonicalize (JObj [(''b'', JNum 1), (''a'', JUndefined)]) = canonicalize (JObj [(''b'', JNum 1)])
   \<and> canonicalize (JObj [(''b'', JNum 1)]) \<noteq> canonicalize (JObj [(''b'', JStr ''1'')])"
  using canonical_text_determines_value [of "JObj [(''b'', JNum 1)]" "JObj [(''b'', JNum 1), (''a'', JUndefined)]"]
    canonical_text_determines_value [of "JObj [(''b'', JNum 1)]" "JObj [(''b'', JStr ''1'')]"]
  by (simp add: canonicalize_def)

text \<open>The order in which an object was built does not show.\<close>

lemma sorted_members_unique:
  assumes "distinct (map fst ps)" "mset ps = mset qs"
  shows "sort_key fst ps = sort_key fst qs"
  by (rule sort_key_inj_key_eq) (use assms in \<open>simp_all add: distinct_map\<close>)

lemma member_order_does_not_show:
  assumes "distinct (map fst ps)" "mset ps = mset qs"
  shows "canonicalize (JObj ps) = canonicalize (JObj qs)"
proof -
  let ?keep = "filter (\<lambda>p. snd p \<noteq> JUndefined)" and ?g = "\<lambda>p. (fst p, normal (snd p))"
  have "distinct (map fst (map ?g (?keep ps)))"
    using assms(1) by (simp add: comp_def distinct_map_filter)
  moreover have "mset (map ?g (?keep ps)) = mset (map ?g (?keep qs))"
    using assms(2) by simp
  ultimately have "sort_key fst (map ?g (?keep ps)) = sort_key fst (map ?g (?keep qs))"
    by (rule sorted_members_unique)
  moreover have "set ps = set qs" using assms(2) by (rule mset_eq_setD)
  ultimately show ?thesis
    unfolding canonicalize_def stringify_prints(1) by simp
qed

lemma sample_text:
  "canonicalize (JObj [(''z'', JArr [JUndefined, JBool True]), (''a'', JStr [quote_char]), (''u'', JUndefined)]) =
     Some (''{'' @ quote_string ''a'' @ '':'' @ [quote_char, backslash, quote_char, quote_char] @ '','' @ quote_string ''z'' @ '':[null,true]}'')"
  by (simp add: canonicalize_def print_part_def quote_string_def escape_char_def escape_tail_def quote_char_def backslash_def
      less_char_def less_eq_char_def)

end
