(* ===== verification/JsDate.thy ===== *)
theory JsDate
  imports JsText "HOL-Library.Monad_Syntax"
begin

text \<open>
  JavaScript dates as far as the timestamps of envelopes use them: \<open>toISOString\<close> and \<open>Date.parse\<close>
  of the ISO date-time format with a zone. A time is a number of milliseconds since 1970.
\<close>

section \<open>Days, months and years\<close>

definition leap :: "int \<Rightarrow> bool" where
  "leap y \<longleftrightarrow> y mod 4 = 0 \<and> (y mod 100 \<noteq> 0 \<or> y mod 400 = 0)"

definition day_from_year :: "int \<Rightarrow> int" where
  "day_from_year y = 365 * (y - 1970) + (y - 1969) div 4 - (y - 1901) div 100 + (y - 1601) div 400"

definition year_of_day :: "int \<Rightarrow> int" where
  "year_of_day d =
     (let y = 1970 + (400 * d) div 146097
      in if d < day_from_year y then y - 1 else if day_from_year (y + 1) \<le> d then y + 1 else y)"

definition month_lengths :: "bool \<Rightarrow> int list" where
  "month_lengths lp = [31, if lp then 29 else 28, 31, 30, 31, 30, 31, 31, 30, 31, 30, 31]"

fun month_of :: "int list \<Rightarrow> int \<Rightarrow> int \<times> int" where
  "month_of [] d = (1, d + 1)"
| "month_of (m # ms) d = (if d < m then (1, d + 1) else let (k, e) = month_of ms (d - m) in (k + 1, e))"

definition civil_of_day :: "int \<Rightarrow> int \<times> int \<times> int" where
  "civil_of_day d = (let y = year_of_day d in (y, month_of (month_lengths (leap y)) (d - day_from_year y)))"

definition day_of_civil :: "int \<Rightarrow> int \<Rightarrow> int \<Rightarrow> int" where
  "day_of_civil y m e = day_from_year y + sum_list (take (nat (m - 1)) (month_lengths (leap y))) + e - 1"

lemma div_step:
  assumes "0 < n"
  shows "(x + 1) div n = x div n + (if (x + 1) mod n = 0 then 1 else (0::int))"
proof -
  let ?s = "x mod n + 1"
  have x: "x + 1 = ?s + (x div n) * n" by simp
  have s: "0 < ?s" "?s \<le> n" using pos_mod_bound [OF assms, of x] pos_mod_sign [OF assms, of x] by linarith+
  have "(?s + (x div n) * n) div n = x div n + ?s div n" "(?s + (x div n) * n) mod n = ?s mod n"
    using assms by (simp_all only: div_mult_self1 mod_mult_self1)
  then have "(x + 1) div n = x div n + ?s div n" "(x + 1) mod n = ?s mod n"
    by (simp_all only: x [symmetric])
  then show ?thesis
    using s by (cases "?s = n") auto
qed

lemma leap_step: "day_from_year (y + 1) = day_from_year y + (if leap y then 366 else 365)"
proof -
  have m: "(y - 1968) mod 4 = y mod 4" "(y - 1900) mod 100 = y mod 100" "(y - 1600) mod 400 = y mod 400"
    using mod_mult_self2 [of "y - 1968" 4 492] mod_mult_self2 [of "y - 1900" 100 19] mod_mult_self2 [of "y - 1600" 400 4]
    by simp_all
  have d: "y mod 100 = 0 \<Longrightarrow> y mod 4 = 0" "y mod 400 = 0 \<Longrightarrow> y mod 100 = 0"
    using mod_mod_cancel [of 4 100 y] mod_mod_cancel [of 100 400 y] by auto
  have s: "y - 1969 + 1 = y - 1968" "y - 1901 + 1 = y - 1900" "y - 1601 + 1 = y - 1600"
    by simp_all
  have q: "(y - 1968) div 4 = (y - 1969) div 4 + (if y mod 4 = 0 then 1 else 0)"
    "(y - 1900) div 100 = (y - 1901) div 100 + (if y mod 100 = 0 then 1 else 0)"
    "(y - 1600) div 400 = (y - 1601) div 400 + (if y mod 400 = 0 then 1 else 0)"
    using div_step [of 4 "y - 1969"] div_step [of 100 "y - 1901"] div_step [of 400 "y - 1601"]
    by (simp_all only: s m zero_less_numeral True_implies_equals)
  have r: "y + 1 - 1970 = y - 1970 + 1" "y + 1 - 1969 = y - 1968" "y + 1 - 1901 = y - 1900" "y + 1 - 1601 = y - 1600"
    by simp_all
  show ?thesis
    unfolding day_from_year_def leap_def r q
    using d by (cases "y mod 4 = 0"; cases "y mod 100 = 0"; cases "y mod 400 = 0") simp_all
qed

lemma div_bounds: "0 < n \<Longrightarrow> n * (x div n) \<le> x \<and> x < n * (x div n) + (n::int)"
  using pos_mod_bound [of n x] pos_mod_sign [of n x] mult_div_mod_eq [of n x] by linarith

lemma day_from_year_bounds:
  "400 * day_from_year y \<le> 146097 * y - 287810501" "146097 * y - 287811597 \<le> 400 * day_from_year y"
proof -
  define a b c where abc: "a = (y - 1969) div 4" "b = (y - 1901) div 100" "c = (y - 1601) div 400"
  have "4 * a \<le> y - 1969" "y - 1969 < 4 * a + 4" "100 * b \<le> y - 1901" "y - 1901 < 100 * b + 100"
    "400 * c \<le> y - 1601" "y - 1601 < 400 * c + 400"
    unfolding abc using div_bounds [of 4 "y - 1969"] div_bounds [of 100 "y - 1901"] div_bounds [of 400 "y - 1601"]
    by (simp_all only: zero_less_numeral True_implies_equals)
  then show "400 * day_from_year y \<le> 146097 * y - 287810501" "146097 * y - 287811597 \<le> 400 * day_from_year y"
    unfolding day_from_year_def abc [symmetric] by (simp_all add: algebra_simps)
qed

lemma year_of_day: "day_from_year (year_of_day d) \<le> d \<and> d < day_from_year (year_of_day d + 1)"
proof -
  define n where "n = (400 * d) div 146097"
  have n: "146097 * n \<le> 400 * d" "400 * d < 146097 * n + 146097"
    unfolding n_def using div_bounds [of 146097 "400 * d"] by simp_all
  have "day_from_year (1970 + n - 1) \<le> d"
    using day_from_year_bounds(1) [of "1970 + n - 1"] n by (simp add: algebra_simps)
  moreover have "d < day_from_year (1970 + n + 1 + 1)"
    using day_from_year_bounds(2) [of "1970 + n + 1 + 1"] n by (simp add: algebra_simps)
  ultimately show ?thesis
    unfolding year_of_day_def Let_def n_def [symmetric] by (auto simp: algebra_simps)
qed

lemma month_of:
  assumes "0 \<le> d" "d < sum_list ms" "\<forall>m \<in> set ms. m \<le> 31" "month_of ms d = (k, e)"
  shows "1 \<le> k \<and> k \<le> int (length ms) \<and> 1 \<le> e \<and> e \<le> 31 \<and> d = sum_list (take (nat (k - 1)) ms) + e - 1"
  using assms
proof (induction ms arbitrary: d k)
  case (Cons m ms)
  show ?case
  proof (cases "d < m")
    case False
    then obtain j where j: "month_of ms (d - m) = (j, e)" "k = j + 1"
      using Cons.prems(4) by (auto split: prod.splits)
    then have "1 \<le> j \<and> j \<le> int (length ms) \<and> 1 \<le> e \<and> e \<le> 31 \<and> d - m = sum_list (take (nat (j - 1)) ms) + e - 1"
      using Cons.prems False by (intro Cons.IH) auto
    moreover from this have "nat (k - 1) = Suc (nat (j - 1))" using j by linarith
    ultimately show ?thesis using j by simp
  qed (use Cons.prems in auto)
qed simp

lemma month_lengths_facts:
  "sum_list (month_lengths lp) = (if lp then 366 else 365)" "\<forall>m \<in> set (month_lengths lp). m \<le> 31"
  "length (month_lengths lp) = 12"
  by (auto simp: month_lengths_def)

lemma civil_roundtrip:
  assumes "civil_of_day d = (y, m, e)"
  shows "day_of_civil y m e = d" "1 \<le> m" "m \<le> 12" "1 \<le> e" "e \<le> 31" "y = year_of_day d"
proof -
  have y: "y = year_of_day d" and me: "month_of (month_lengths (leap y)) (d - day_from_year y) = (m, e)"
    using assms by (auto simp: civil_of_day_def Let_def)
  have "1 \<le> m \<and> m \<le> int (length (month_lengths (leap y))) \<and> 1 \<le> e \<and> e \<le> 31 \<and>
      d - day_from_year y = sum_list (take (nat (m - 1)) (month_lengths (leap y))) + e - 1"
    using year_of_day [of d] leap_step [of y] y
    by (intro month_of [OF _ _ _ me]) (auto simp: month_lengths_facts)
  then show "day_of_civil y m e = d" "1 \<le> m" "m \<le> 12" "1 \<le> e" "e \<le> 31" "y = year_of_day d"
    using y by (auto simp: day_of_civil_def month_lengths_facts)
qed

section \<open>\<open>toISOString\<close>\<close>

definition MAX_TIME :: millis where "MAX_TIME = 8640000000000000"

definition iso_year :: "int \<Rightarrow> string" where
  "iso_year y =
     (if 0 \<le> y \<and> y \<le> 9999 then padStart 4 (CHR ''0'') (show_int y)
      else (if y < 0 then CHR ''-'' else CHR ''+'') # padStart 6 (CHR ''0'') (show_int \<bar>y\<bar>))"

definition two :: "int \<Rightarrow> string" where
  "two v = padStart 2 (CHR ''0'') (show_int v)"

text \<open>\<^const>\<open>None\<close>: a \<open>RangeError\<close>.\<close>

definition toISOString :: "millis \<Rightarrow> string option" where
  "toISOString t =
     (if MAX_TIME < \<bar>t\<bar> then None
      else
        let (y, m, e) = civil_of_day (t div 86400000);
            ms = t mod 86400000
        in Some (iso_year y @ ''-'' @ two m @ ''-'' @ two e @ ''T'' @ two (ms div 3600000) @ '':'' @
             two (ms div 60000 mod 60) @ '':'' @ two (ms div 1000 mod 60) @ ''.'' @
             padStart 3 (CHR ''0'') (show_int (ms mod 1000)) @ ''Z''))"

lemma toISOString_some: "\<bar>t\<bar> \<le> MAX_TIME \<Longrightarrow> \<exists>s. toISOString t = Some s"
  by (auto simp: toISOString_def Let_def split: prod.split)

section \<open>\<open>Date.parse\<close>\<close>

text \<open>
  The date-time format with a zone, which is what the schemas of the callers let through; the colon of
  the offset may be missing. \<^const>\<open>None\<close> is \<open>NaN\<close>.
\<close>

definition read_fixed :: "nat \<Rightarrow> string \<Rightarrow> (int \<times> string) option" where
  "read_fixed n s =
     (if n \<le> length s \<and> list_all is_digit (take n s) then Some (digits_value (take n s), drop n s) else None)"

definition expect :: "char \<Rightarrow> string \<Rightarrow> string option" where
  "expect c s = (case s of x # r \<Rightarrow> if x = c then Some r else None | [] \<Rightarrow> None)"

definition read_year :: "string \<Rightarrow> (int \<times> string) option" where
  "read_year s =
     (case s of
        [] \<Rightarrow> None
      | c # r \<Rightarrow>
          if c = CHR ''+'' then read_fixed 6 r
          else if c = CHR ''-'' then
            (case read_fixed 6 r of
               Some (v, r) \<Rightarrow> if v = 0 then None else Some (- v, r)
             | None \<Rightarrow> None)
          else read_fixed 4 (c # r))"

text \<open>Seconds and milliseconds may be missing; digits after the third of the fraction are dropped.\<close>

definition read_seconds :: "string \<Rightarrow> (int \<times> int \<times> string) option" where
  "read_seconds s =
     (case expect (CHR '':'') s of
        None \<Rightarrow> Some (0, 0, s)
      | Some r \<Rightarrow>
          (case read_fixed 2 r of
             None \<Rightarrow> None
           | Some (sec, r) \<Rightarrow>
               (case expect (CHR ''.'') r of
                  None \<Rightarrow> Some (sec, 0, r)
                | Some f \<Rightarrow>
                    if takeWhile is_digit f = [] then None
                    else Some (sec, digits_value (take 3 (takeWhile is_digit f @ ''00'')), dropWhile is_digit f))))"

definition read_zone :: "string \<Rightarrow> int option" where
  "read_zone s =
     (if s = ''Z'' then Some 0
      else case s of
        [] \<Rightarrow> None
      | c # r \<Rightarrow>
          if c \<noteq> CHR ''+'' \<and> c \<noteq> CHR ''-'' then None
          else (case read_fixed 2 r of
                  None \<Rightarrow> None
                | Some (h, r) \<Rightarrow>
                    (case read_fixed 2 (get_or r (expect (CHR '':'') r)) of
                       Some (m, []) \<Rightarrow>
                         if h \<le> 23 \<and> m \<le> 59 then Some ((if c = CHR ''+'' then 1 else -1) * (h * 60 + m) * 60000) else None
                     | _ \<Rightarrow> None)))"

definition Date_parse :: "string \<Rightarrow> millis option" where
  "Date_parse s = do {
     (y, s) \<leftarrow> read_year s;
     s \<leftarrow> expect (CHR ''-'') s;
     (m, s) \<leftarrow> read_fixed 2 s;
     s \<leftarrow> expect (CHR ''-'') s;
     (e, s) \<leftarrow> read_fixed 2 s;
     s \<leftarrow> expect (CHR ''T'') s;
     (h, s) \<leftarrow> read_fixed 2 s;
     s \<leftarrow> expect (CHR '':'') s;
     (mi, s) \<leftarrow> read_fixed 2 s;
     (sec, ms, s) \<leftarrow> read_seconds s;
     zone \<leftarrow> read_zone s;
     let t = day_of_civil y m e * 86400000 + h * 3600000 + mi * 60000 + sec * 1000 + ms - zone in
     if 1 \<le> m \<and> m \<le> 12 \<and> 1 \<le> e \<and> e \<le> 31 \<and> mi \<le> 59 \<and> sec \<le> 59
       \<and> (h \<le> 23 \<or> (h = 24 \<and> mi = 0 \<and> sec = 0 \<and> ms = 0)) \<and> \<bar>t\<bar> \<le> MAX_TIME
     then Some t else None }"

section \<open>Round trip\<close>

lemma length_show_nat_le: "n < 10 ^ k \<Longrightarrow> 0 < k \<Longrightarrow> length (show_nat n) \<le> k"
proof (induction n arbitrary: k rule: show_nat.induct)
  case (1 n)
  show ?case
  proof (cases "n < 10")
    case True
    then show ?thesis using 1 by (subst show_nat.simps) simp
  next
    case False
    then have "1 < k" using 1 by (cases k; cases "k - 1") auto
    then obtain j where j: "k = Suc j" "0 < j" by (cases k) auto
    then have "n div 10 < 10 ^ j" using 1 by (simp add: less_mult_imp_div_less mult.commute)
    then show ?thesis
      using 1 False j by (subst show_nat.simps) simp
  qed
qed

lemma read_zeros: "read_digits 10 0 (replicate j (CHR ''0'') @ s) = read_digits 10 0 s"
  by (induction j) (simp_all add: digit_value_def)

lemma padded:
  assumes "0 \<le> v" "v < 10 ^ n" "0 < n"
  shows "length (padStart n (CHR ''0'') (show_int v)) = n" "list_all is_digit (padStart n (CHR ''0'') (show_int v))"
    "digits_value (padStart n (CHR ''0'') (show_int v)) = v"
proof -
  let ?s = "padStart n (CHR ''0'') (show_nat (nat v))"
  have s: "padStart n (CHR ''0'') (show_int v) = ?s" using assms(1) by (simp add: show_int_def)
  have "nat v < 10 ^ n" using assms(1,2) by (simp add: nat_less_iff)
  then show "length (padStart n (CHR ''0'') (show_int v)) = n"
    unfolding s using length_show_nat_le [of "nat v" n] assms(3) by (simp add: padStart_def)
  show "list_all is_digit (padStart n (CHR ''0'') (show_int v))"
    unfolding s using show_nat_digits by (auto simp: padStart_def list_all_iff is_digit_def)
  show "digits_value (padStart n (CHR ''0'') (show_int v)) = v"
    unfolding s using assms(1) by (simp add: digits_value_def padStart_def read_zeros read_show_nat)
qed

lemma read_padded:
  assumes "0 \<le> v" "v < 10 ^ n" "0 < n"
  shows "read_fixed n (padStart n (CHR ''0'') (show_int v) @ r) = Some (v, r)"
    and "\<exists>c s. padStart n (CHR ''0'') (show_int v) = c # s \<and> is_digit c"
  using padded [OF assms] assms(3)
  by (simp_all add: read_fixed_def) (cases "padStart n (CHR ''0'') (show_int v)"; simp)

lemma expect_same [simp]: "expect c (c # r) = Some r"
  by (simp add: expect_def)

lemma read_two: "0 \<le> v \<Longrightarrow> v < 100 \<Longrightarrow> read_fixed 2 (two v @ r) = Some (v, r)"
  unfolding two_def by (rule read_padded(1)) simp_all

lemma read_iso_year:
  assumes "\<bar>y\<bar> < 1000000"
  shows "read_year (iso_year y @ r) = Some (y, r)"
proof (cases "0 \<le> y \<and> y \<le> 9999")
  case True
  then obtain c s where c: "padStart 4 (CHR ''0'') (show_int y) = c # s" "is_digit c"
    using read_padded(2) [of y 4] by auto
  have "read_fixed 4 (padStart 4 (CHR ''0'') (show_int y) @ r) = Some (y, r)"
    using True by (intro read_padded(1)) simp_all
  then show ?thesis
    using True c by (simp add: iso_year_def read_year_def is_digit_facts)
next
  case False
  have "read_fixed 6 (padStart 6 (CHR ''0'') (show_int \<bar>y\<bar>) @ r) = Some (\<bar>y\<bar>, r)"
    using assms by (intro read_padded(1)) simp_all
  then show ?thesis
    using False by (auto simp: iso_year_def read_year_def)
qed

lemma clock_roundtrip:
  "ms div 3600000 * 3600000 + (ms div 60000 mod 60) * 60000 + (ms div 1000 mod 60) * 1000 + ms mod 1000 = (ms :: int)"
proof -
  have "ms div 60000 = ms div 1000 div 60" "ms div 3600000 = ms div 60000 div 60"
    by (simp_all add: zdiv_zmult2_eq [symmetric])
  then show ?thesis
    using mult_div_mod_eq [of 1000 ms] mult_div_mod_eq [of 60 "ms div 1000"] mult_div_mod_eq [of 60 "ms div 60000"]
    by linarith
qed

lemma year_in_range:
  assumes "\<bar>t\<bar> \<le> MAX_TIME"
  shows "\<bar>year_of_day (t div 86400000)\<bar> < 1000000"
proof -
  define d where "d = t div 86400000"
  have "86400000 * d \<le> t" "t < 86400000 * d + 86400000"
    unfolding d_def using div_bounds [of 86400000 t] by simp_all
  then have d: "- 100000001 < d" "d < 100000001"
    using assms by (auto simp: MAX_TIME_def)
  define y where "y = year_of_day d"
  have "day_from_year y \<le> d" "d < day_from_year (y + 1)"
    using year_of_day [of d] by (simp_all add: y_def)
  then have "146097 * y - 287811597 \<le> 400 * d" "400 * d < 146097 * (y + 1) - 287810501"
    using day_from_year_bounds(2) [of y] day_from_year_bounds(1) [of "y + 1"] by linarith+
  then show ?thesis
    using d unfolding d_def [symmetric] y_def [symmetric] by (simp add: algebra_simps)
qed

lemma not_digit_Z: "\<not> is_digit (CHR ''Z'')"
  by (simp add: is_digit_def)

lemma read_seconds_full:
  assumes "0 \<le> sec" "sec < 60" "0 \<le> ms" "ms < 1000"
  shows "read_seconds (CHR '':'' # two sec @ CHR ''.'' # padStart 3 (CHR ''0'') (show_int ms) @ ''Z'') = Some (sec, ms, ''Z'')"
proof -
  define q where "q = padStart 3 (CHR ''0'') (show_int ms)"
  have q: "length q = 3" "list_all is_digit q" "digits_value q = ms"
    using padded [of ms 3] assms(3,4) by (simp_all add: q_def)
  have t: "takeWhile is_digit (q @ ''Z'') = q" "dropWhile is_digit (q @ ''Z'') = ''Z''"
    using q(2) not_digit_Z by (simp_all add: list_all_iff)
  have n: "q \<noteq> []" using q(1) by auto
  have "read_fixed 2 (two sec @ r) = Some (sec, r)" for r
    by (rule read_two) (use assms in linarith)+
  then show ?thesis
    unfolding q_def [symmetric] using q(1,3) n by (simp add: read_seconds_def t)
qed

lemma parse_parts:
  assumes y: "\<bar>y\<bar> < 1000000" and m: "1 \<le> m" "m \<le> 12" and e: "1 \<le> e" "e \<le> 31" and h: "0 \<le> h" "h \<le> 23"
    and mi: "0 \<le> mi" "mi < 60" and sec: "0 \<le> sec" "sec < 60" and ms: "0 \<le> ms" "ms < 1000"
    and t: "t = day_of_civil y m e * 86400000 + h * 3600000 + mi * 60000 + sec * 1000 + ms" "\<bar>t\<bar> \<le> MAX_TIME"
  shows "Date_parse (iso_year y @ ''-'' @ two m @ ''-'' @ two e @ ''T'' @ two h @ '':'' @ two mi @ '':'' @ two sec @ ''.'' @
     padStart 3 (CHR ''0'') (show_int ms) @ ''Z'') = Some t"
proof -
  have two: "read_fixed 2 (two m @ r) = Some (m, r)" "read_fixed 2 (two e @ r) = Some (e, r)"
    "read_fixed 2 (two h @ r) = Some (h, r)" "read_fixed 2 (two mi @ r) = Some (mi, r)" for r
    by (rule read_two; use m e h mi in linarith)+
  have zone: "read_zone ''Z'' = Some 0" by (simp add: read_zone_def)
  have ok: "1 \<le> m \<and> m \<le> 12 \<and> 1 \<le> e \<and> e \<le> 31 \<and> mi \<le> 59 \<and> sec \<le> 59 \<and>
      (h \<le> 23 \<or> (h = 24 \<and> mi = 0 \<and> sec = 0 \<and> ms = 0)) \<and> \<bar>t\<bar> \<le> MAX_TIME"
    using m e mi sec h t(2) by auto
  show ?thesis
    using ok unfolding Date_parse_def
    by (simp only: append_Cons append_Nil read_iso_year [OF y] two expect_same read_seconds_full [OF sec ms] zone
        Option.bind.bind_lunit case_prod_conv Let_def diff_zero t(1) [symmetric] if_True simp_thms)
qed

lemma iso_roundtrip:
  assumes "toISOString t = Some s"
  shows "Date_parse s = Some t"
proof -
  obtain y m e where c: "civil_of_day (t div 86400000) = (y, m, e)"
    by (cases "civil_of_day (t div 86400000)") auto
  define ms where "ms = t mod 86400000"
  have ms: "0 \<le> ms" "ms < 86400000" by (simp_all add: ms_def)
  have t: "\<bar>t\<bar> \<le> MAX_TIME" and s: "s = iso_year y @ ''-'' @ two m @ ''-'' @ two e @ ''T'' @ two (ms div 3600000) @ '':'' @
             two (ms div 60000 mod 60) @ '':'' @ two (ms div 1000 mod 60) @ ''.'' @
             padStart 3 (CHR ''0'') (show_int (ms mod 1000)) @ ''Z''"
    using assms c unfolding toISOString_def ms_def by (auto simp: Let_def simp del: append_Cons split: if_splits)
  have h: "0 \<le> ms div 3600000" "ms div 3600000 \<le> 23"
    using ms div_bounds [of 3600000 ms] by (simp_all add: pos_imp_zdiv_nonneg_iff)
  have y: "\<bar>y\<bar> < 1000000"
    using year_in_range [OF t] civil_roundtrip(6) [OF c] by simp
  note f = civil_roundtrip [OF c]
  have whole: "t = day_of_civil y m e * 86400000 + ms div 3600000 * 3600000 + ms div 60000 mod 60 * 60000 +
      ms div 1000 mod 60 * 1000 + ms mod 1000"
    using f(1) clock_roundtrip [of ms] div_mult_mod_eq [of t 86400000] unfolding ms_def [symmetric] by linarith
  show ?thesis
    unfolding s by (rule parse_parts [OF y f(2-5) h _ _ _ _ _ _ whole t]) simp_all
qed

end
