(* ===== verification/Envelopes.thy ===== *)
theory Envelopes
  imports CanonicalJson JsDate Bytes "HOL-Library.Monad_Syntax"
begin

text \<open>
  Signed envelopes between instances (packages/shared/src/federation/constants.ts, envelope.ts,
  packages/federation/src/federation-message-signing.ts, services/federation-envelopes.ts). An
  instance signs the canonical text of an envelope; in the two-layer form the author has signed the
  payload as well. The signature scheme, the schema of the payload and zod's date-time pattern are
  arguments. A thrown error is \<open>Inl\<close>.
\<close>

section \<open>Constants\<close>

definition PROTOCOL_VERSION :: string where "PROTOCOL_VERSION = ''ir20/1''"

definition ENVELOPE_EVENT_TYPES :: "string list" where
  "ENVELOPE_EVENT_TYPES =
     [''peering.request'', ''peering.accept'', ''peering.revoke'', ''profile.request'', ''profile.response'',
      ''message.create'', ''message.update'', ''message.delete'', ''reaction.add'', ''reaction.remove'',
      ''member.join_request'', ''member.joined'', ''member.add'', ''member.remove'', ''member.leave'',
      ''member.removed'', ''server.update'', ''channel.create'', ''channel.update'', ''channel.delete'',
      ''dm.create'', ''dm.message.create'', ''dm.message.update'', ''dm.message.delete'', ''dm.reaction.add'',
      ''dm.reaction.remove'', ''presence.update'']"

definition ENVELOPE_DEFAULT_LIFETIME_S :: int where "ENVELOPE_DEFAULT_LIFETIME_S = 300"
definition ENVELOPE_CLOCK_SKEW_S :: int where "ENVELOPE_CLOCK_SKEW_S = 60"

section \<open>Envelopes\<close>

record envelope =
  env_version :: string
  env_eventType :: string
  env_nonce :: string
  env_notBefore :: string
  env_notAfter :: string
  env_fromInstance :: string
  env_toInstance :: string
  env_payload :: json
  env_userSignature :: "string option"   \<comment> \<open>present in the two-layer form\<close>
  env_signature :: string

text \<open>The envelope without its signature, as an object.\<close>

definition unsigned_members :: "envelope \<Rightarrow> (string \<times> json) list" where
  "unsigned_members e =
     [(''version'', JStr (env_version e)), (''eventType'', JStr (env_eventType e)), (''nonce'', JStr (env_nonce e)),
      (''notBefore'', JStr (env_notBefore e)), (''notAfter'', JStr (env_notAfter e)),
      (''fromInstance'', JStr (env_fromInstance e)), (''toInstance'', JStr (env_toInstance e)),
      (''payload'', env_payload e)] @
     (case env_userSignature e of None \<Rightarrow> [] | Some s \<Rightarrow> [(''userSignature'', JStr s)])"

definition envelope_json :: "envelope \<Rightarrow> json" where
  "envelope_json e = JObj (unsigned_members e @ [(''signature'', JStr (env_signature e))])"

datatype envelope_error =
    BothSigners          \<comment> \<open>pass exactly one of signUser / preservedUserSignature, not both\<close>
  | NoSigner             \<comment> \<open>must provide either signUser or preservedUserSignature\<close>
  | CanonicalTypeError
  | TimeRangeError
  | SignerFailed
  | KeyLength            \<comment> \<open>publicKeyFromRaw: expected 32 bytes\<close>

definition canonical_bytes :: "json \<Rightarrow> envelope_error + byte list" where
  "canonical_bytes v = (case canonicalize v of None \<Rightarrow> Inl CanonicalTypeError | Some s \<Rightarrow> Inr (utf8 s))"

definition envelopeSigningBytes :: "envelope \<Rightarrow> envelope_error + byte list" where
  "envelopeSigningBytes e = canonical_bytes (JObj (unsigned_members e))"

type_synonym signer = "byte list \<Rightarrow> byte list option"    \<comment> \<open>\<^const>\<open>None\<close>: it throws\<close>

definition run_signer :: "signer \<Rightarrow> byte list \<Rightarrow> envelope_error + string" where
  "run_signer sign bytes = (case sign bytes of None \<Rightarrow> Inl SignerFailed | Some s \<Rightarrow> Inr (base64_text s))"

definition iso_date :: "millis \<Rightarrow> envelope_error + string" where
  "iso_date t = (case toISOString t of None \<Rightarrow> Inl TimeRangeError | Some s \<Rightarrow> Inr s)"

text \<open>The rest of building an envelope, once the user signature is there; the nonce is a new ULID.\<close>

definition sign_envelope ::
  "string \<Rightarrow> string \<Rightarrow> millis \<Rightarrow> millis \<Rightarrow> string \<Rightarrow> string \<Rightarrow> json \<Rightarrow> string option \<Rightarrow> signer \<Rightarrow>
   envelope_error + envelope" where
  "sign_envelope nonce eventType notBefore notAfter fromInstance toInstance payload userSignature sign =
     (case iso_date notBefore of Inl e \<Rightarrow> Inl e | Inr nb \<Rightarrow>
      case iso_date notAfter of Inl e \<Rightarrow> Inl e | Inr na \<Rightarrow>
      let unsigned = \<lparr>env_version = PROTOCOL_VERSION, env_eventType = eventType, env_nonce = nonce, env_notBefore = nb,
            env_notAfter = na, env_fromInstance = fromInstance, env_toInstance = toInstance, env_payload = payload,
            env_userSignature = userSignature, env_signature = []\<rparr>
      in case envelopeSigningBytes unsigned of Inl e \<Rightarrow> Inl e | Inr bytes \<Rightarrow>
         case run_signer sign bytes of Inl e \<Rightarrow> Inl e | Inr signature \<Rightarrow> Inr (unsigned\<lparr>env_signature := signature\<rparr>))"

subsection \<open>Building\<close>

record build_input =
  bi_eventType :: string
  bi_fromInstance :: string
  bi_toInstance :: string
  bi_payload :: json
  bi_lifetimeSeconds :: "int option"
  bi_notBefore :: "millis option"

definition window_start :: "millis \<Rightarrow> build_input \<Rightarrow> millis" where
  "window_start now i = get_or now (bi_notBefore i)"

definition window_end :: "millis \<Rightarrow> build_input \<Rightarrow> millis" where
  "window_end now i = window_start now i + get_or ENVELOPE_DEFAULT_LIFETIME_S (bi_lifetimeSeconds i) * 1000"

definition buildSignedEnvelope :: "millis \<Rightarrow> string \<Rightarrow> build_input \<Rightarrow> signer \<Rightarrow> envelope_error + envelope" where
  "buildSignedEnvelope now nonce i sign =
     sign_envelope nonce (bi_eventType i) (window_start now i) (window_end now i) (bi_fromInstance i) (bi_toInstance i)
       (bi_payload i) None sign"

definition buildTwoLayerMessageEnvelope ::
  "millis \<Rightarrow> string \<Rightarrow> build_input \<Rightarrow> signer option \<Rightarrow> string option \<Rightarrow> signer \<Rightarrow> envelope_error + envelope" where
  "buildTwoLayerMessageEnvelope now nonce i signUser preservedUserSignature signInstance =
     (if signUser \<noteq> None \<and> preservedUserSignature \<noteq> None then Inl BothSigners
      else
        case (case preservedUserSignature of
                Some s \<Rightarrow> Inr s
              | None \<Rightarrow>
                  (case signUser of
                     None \<Rightarrow> Inl NoSigner
                   | Some sign \<Rightarrow>
                       (case canonical_bytes (bi_payload i) of Inl e \<Rightarrow> Inl e | Inr bytes \<Rightarrow> run_signer sign bytes))) of
          Inl e \<Rightarrow> Inl e
        | Inr userSignature \<Rightarrow>
            sign_envelope nonce (bi_eventType i) (window_start now i) (window_end now i) (bi_fromInstance i)
              (bi_toInstance i) (bi_payload i) (Some userSignature) signInstance)"

subsection \<open>The wire schema\<close>

record wire_schema =
  ws_datetime :: "string \<Rightarrow> bool"          \<comment> \<open>zod's \<open>datetime({ offset: true })\<close>\<close>
  ws_payload :: "json \<Rightarrow> json option"        \<comment> \<open>the payload schema\<close>
  ws_message :: "json \<Rightarrow> string"             \<comment> \<open>the message of zod's error\<close>

definition member :: "(string \<times> json) list \<Rightarrow> string \<Rightarrow> json" where
  "member ps k = (case map_of ps k of None \<Rightarrow> JUndefined | Some v \<Rightarrow> v)"

definition string_field :: "(string \<Rightarrow> bool) \<Rightarrow> (string \<times> json) list \<Rightarrow> string \<Rightarrow> string option" where
  "string_field ok ps k = (case member ps k of JStr s \<Rightarrow> if ok s then Some s else None | _ \<Rightarrow> None)"

definition nonce_ok :: "string \<Rightarrow> bool" where
  "nonce_ok s \<longleftrightarrow> 20 \<le> length s \<and> length s \<le> 64 \<and>
     list_all (\<lambda>c. let n = (of_char c :: nat) in
       (65 \<le> n \<and> n \<le> 90) \<or> (97 \<le> n \<and> n \<le> 122) \<or> (48 \<le> n \<and> n \<le> 57) \<or> n = 95 \<or> n = 45) s"

definition host_ok :: "string \<Rightarrow> bool" where
  "host_ok s \<longleftrightarrow> 1 \<le> length s \<and> length s \<le> 253"

definition parse_wire :: "wire_schema \<Rightarrow> bool \<Rightarrow> json \<Rightarrow> envelope option" where
  "parse_wire z two_layer input =
     (case input of
        JObj ps \<Rightarrow> do {
          version \<leftarrow> string_field (\<lambda>s. s = PROTOCOL_VERSION) ps ''version'';
          eventType \<leftarrow> string_field (\<lambda>s. s \<in> set ENVELOPE_EVENT_TYPES) ps ''eventType'';
          nonce \<leftarrow> string_field nonce_ok ps ''nonce'';
          notBefore \<leftarrow> string_field (ws_datetime z) ps ''notBefore'';
          notAfter \<leftarrow> string_field (ws_datetime z) ps ''notAfter'';
          fromInstance \<leftarrow> string_field host_ok ps ''fromInstance'';
          toInstance \<leftarrow> string_field host_ok ps ''toInstance'';
          payload \<leftarrow> ws_payload z (member ps ''payload'');
          userSignature \<leftarrow> (if two_layer then map_option Some (string_field (\<lambda>s. s \<noteq> []) ps ''userSignature'') else Some None);
          signature \<leftarrow> string_field (\<lambda>s. s \<noteq> []) ps ''signature'';
          Some \<lparr>env_version = version, env_eventType = eventType, env_nonce = nonce, env_notBefore = notBefore,
            env_notAfter = notAfter, env_fromInstance = fromInstance, env_toInstance = toInstance, env_payload = payload,
            env_userSignature = userSignature, env_signature = signature\<rparr> }
      | _ \<Rightarrow> None)"

text \<open>Comparisons of dates; \<open>NaN\<close> is in no relation.\<close>

definition date_le :: "millis option \<Rightarrow> millis option \<Rightarrow> bool" where
  "date_le a b = (case (a, b) of (Some x, Some y) \<Rightarrow> x \<le> y | _ \<Rightarrow> False)"

definition after_window_rejected :: "millis \<Rightarrow> envelope \<Rightarrow> string option" where
  "after_window_rejected now env =
     (let skewMs = ENVELOPE_CLOCK_SKEW_S * 1000; nb = Date_parse (env_notBefore env); na = Date_parse (env_notAfter env)
      in if (case nb of Some t \<Rightarrow> now + skewMs < t | None \<Rightarrow> False) then Some ''notBefore in the future''
         else if (case na of Some t \<Rightarrow> now - skewMs > t | None \<Rightarrow> False) then Some ''notAfter expired''
         else None)"

subsection \<open>Verifying\<close>

datatype reject_kind = EnvelopeInvalid | Expired | SigFailure | UserSigFailure | InstanceSigFailure

datatype verify_result = Accepted envelope | Rejected reject_kind string

type_synonym scheme = "byte list \<Rightarrow> byte list \<Rightarrow> byte list \<Rightarrow> bool"   \<comment> \<open>message, signature, raw public key\<close>

definition check_signature :: "scheme \<Rightarrow> byte list \<Rightarrow> string \<Rightarrow> byte list \<Rightarrow> envelope_error + bool" where
  "check_signature edVerify bytes signature rawKey =
     (if length rawKey \<noteq> 32 then Inl KeyLength else Inr (edVerify bytes (base64_bytes signature) rawKey))"

definition verifyEnvelopeShape ::
  "scheme \<Rightarrow> wire_schema \<Rightarrow> millis \<Rightarrow> byte list \<Rightarrow> json \<Rightarrow> envelope_error + verify_result" where
  "verifyEnvelopeShape edVerify z now peerPublicKeyRaw input =
     (case parse_wire z False input of
        None \<Rightarrow> Inr (Rejected EnvelopeInvalid (''envelope shape invalid: '' @ ws_message z input))
      | Some env \<Rightarrow>
          if date_le (Date_parse (env_notAfter env)) (Date_parse (env_notBefore env)) then
            Inr (Rejected EnvelopeInvalid (''envelope shape invalid: '' @ ws_message z input))
          else case after_window_rejected now env of
            Some reason \<Rightarrow> Inr (Rejected Expired reason)
          | None \<Rightarrow>
              case envelopeSigningBytes env of Inl e \<Rightarrow> Inl e | Inr bytes \<Rightarrow>
              case check_signature edVerify bytes (env_signature env) peerPublicKeyRaw of Inl e \<Rightarrow> Inl e | Inr ok \<Rightarrow>
              if \<not> ok then Inr (Rejected SigFailure ''signature does not verify against peer public key'')
              else Inr (Accepted env))"

definition verifyTwoLayerMessageEnvelope ::
  "scheme \<Rightarrow> wire_schema \<Rightarrow> millis \<Rightarrow> byte list \<Rightarrow> byte list \<Rightarrow> json \<Rightarrow> envelope_error + verify_result" where
  "verifyTwoLayerMessageEnvelope edVerify z now peerInstancePublicKeyRaw authorPublicKeyRaw input =
     (case parse_wire z True input of
        None \<Rightarrow> Inr (Rejected EnvelopeInvalid (''envelope shape invalid: '' @ ws_message z input))
      | Some env \<Rightarrow>
          if date_le (Date_parse (env_notAfter env)) (Date_parse (env_notBefore env)) then
            Inr (Rejected EnvelopeInvalid ''notAfter must be after notBefore'')
          else case after_window_rejected now env of
            Some reason \<Rightarrow> Inr (Rejected Expired reason)
          | None \<Rightarrow>
              case canonical_bytes (env_payload env) of Inl e \<Rightarrow> Inl e | Inr payloadBytes \<Rightarrow>
              case check_signature edVerify payloadBytes (get_or [] (env_userSignature env)) authorPublicKeyRaw of
                Inl e \<Rightarrow> Inl e
              | Inr ok \<Rightarrow>
              if \<not> ok then Inr (Rejected UserSigFailure ''user signature does not verify against author public key'')
              else case envelopeSigningBytes env of Inl e \<Rightarrow> Inl e | Inr bytes \<Rightarrow>
              case check_signature edVerify bytes (env_signature env) peerInstancePublicKeyRaw of Inl e \<Rightarrow> Inl e | Inr ok \<Rightarrow>
              if \<not> ok then Inr (Rejected InstanceSigFailure ''instance signature does not verify against peer public key'')
              else Inr (Accepted env))"

section \<open>The signed text determines the envelope\<close>

lemma normal_members:
  assumes "normal (JObj ps) = normal (JObj qs)" "(k, v) \<in> set ps" "v \<noteq> JUndefined"
  shows "\<exists>v'. (k, v') \<in> set qs \<and> v' \<noteq> JUndefined \<and> normal v = normal v'"
proof -
  let ?n = "\<lambda>ps. (\<lambda>p. (fst p, normal (snd p))) ` {p \<in> set ps. snd p \<noteq> JUndefined}"
  have "set (sort_key fst (map (\<lambda>p. (fst p, normal (snd p))) (filter (\<lambda>p. snd p \<noteq> JUndefined) ps))) =
      set (sort_key fst (map (\<lambda>p. (fst p, normal (snd p))) (filter (\<lambda>p. snd p \<noteq> JUndefined) qs)))"
    using assms(1) by (simp only: normal.simps json.inject)
  then have "?n ps = ?n qs" by simp
  moreover have "(k, normal v) \<in> ?n ps" using assms(2,3) by force
  ultimately show ?thesis by auto
qed

definition same_content :: "envelope \<Rightarrow> envelope \<Rightarrow> bool" where
  "same_content e e' \<longleftrightarrow>
     env_version e = env_version e' \<and> env_eventType e = env_eventType e' \<and> env_nonce e = env_nonce e' \<and>
     env_notBefore e = env_notBefore e' \<and> env_notAfter e = env_notAfter e' \<and>
     env_fromInstance e = env_fromInstance e' \<and> env_toInstance e = env_toInstance e' \<and>
     env_userSignature e = env_userSignature e' \<and> normal (env_payload e) = normal (env_payload e')"

lemma unsigned_keys:
  "(''version'', v) \<in> set (unsigned_members e) \<longleftrightarrow> v = JStr (env_version e)"
  "(''eventType'', v) \<in> set (unsigned_members e) \<longleftrightarrow> v = JStr (env_eventType e)"
  "(''nonce'', v) \<in> set (unsigned_members e) \<longleftrightarrow> v = JStr (env_nonce e)"
  "(''notBefore'', v) \<in> set (unsigned_members e) \<longleftrightarrow> v = JStr (env_notBefore e)"
  "(''notAfter'', v) \<in> set (unsigned_members e) \<longleftrightarrow> v = JStr (env_notAfter e)"
  "(''fromInstance'', v) \<in> set (unsigned_members e) \<longleftrightarrow> v = JStr (env_fromInstance e)"
  "(''toInstance'', v) \<in> set (unsigned_members e) \<longleftrightarrow> v = JStr (env_toInstance e)"
  "(''payload'', v) \<in> set (unsigned_members e) \<longleftrightarrow> v = env_payload e"
  "(''userSignature'', v) \<in> set (unsigned_members e) \<longleftrightarrow> (\<exists>s. env_userSignature e = Some s \<and> v = JStr s)"
  by (auto simp: unsigned_members_def split: option.splits)

lemma signing_bytes_inj:
  assumes "envelopeSigningBytes e = Inr m" "envelopeSigningBytes e' = Inr m"
  shows "same_content e e'"
proof -
  have "canonicalize (JObj (unsigned_members e)) = canonicalize (JObj (unsigned_members e'))"
    "canonicalize (JObj (unsigned_members e)) \<noteq> None"
    using assms utf8_inj by (auto simp: envelopeSigningBytes_def canonical_bytes_def split: option.splits)
  then have n: "normal (JObj (unsigned_members e)) = normal (JObj (unsigned_members e'))"
    using canonicalize_eq_iff by blast
  note fwd = normal_members [OF n] and bwd = normal_members [OF n [symmetric]]
  have "env_version e = env_version e'" using fwd [of "''version''"] by (auto simp: unsigned_keys)
  moreover have "env_eventType e = env_eventType e'" using fwd [of "''eventType''"] by (auto simp: unsigned_keys)
  moreover have "env_nonce e = env_nonce e'" using fwd [of "''nonce''"] by (auto simp: unsigned_keys)
  moreover have "env_notBefore e = env_notBefore e'" using fwd [of "''notBefore''"] by (auto simp: unsigned_keys)
  moreover have "env_notAfter e = env_notAfter e'" using fwd [of "''notAfter''"] by (auto simp: unsigned_keys)
  moreover have "env_fromInstance e = env_fromInstance e'" using fwd [of "''fromInstance''"] by (auto simp: unsigned_keys)
  moreover have "env_toInstance e = env_toInstance e'" using fwd [of "''toInstance''"] by (auto simp: unsigned_keys)
  moreover have "env_userSignature e = env_userSignature e'"
    using fwd [of "''userSignature''"] bwd [of "''userSignature''"]
    by (cases "env_userSignature e"; cases "env_userSignature e'") (auto simp: unsigned_keys)
  moreover have "normal (env_payload e) = normal (env_payload e')"
    using fwd [of "''payload''"] bwd [of "''payload''"]
    by (cases "env_payload e = JUndefined"; cases "env_payload e' = JUndefined") (auto simp: unsigned_keys)
  ultimately show ?thesis by (simp add: same_content_def)
qed

lemma canonical_bytes_inj:
  assumes "canonical_bytes v = Inr m" "canonical_bytes w = Inr m"
  shows "normal v = normal w"
proof -
  have "canonicalize v = canonicalize w" "canonicalize v \<noteq> None"
    using assms utf8_inj by (auto simp: canonical_bytes_def split: option.splits)
  then show ?thesis using canonicalize_eq_iff by blast
qed

section \<open>What is accepted was signed\<close>

lemma parse_wireD:
  assumes "parse_wire z two_layer input = Some env"
  shows "env_version env = PROTOCOL_VERSION" "env_eventType env \<in> set ENVELOPE_EVENT_TYPES"
    "env_userSignature env \<noteq> None \<longleftrightarrow> two_layer"
  using assms
  by (auto simp: parse_wire_def string_field_def bind_eq_Some_conv split: json.splits if_splits)

text \<open>The window of an envelope contains the time, up to the tolerated skew.\<close>

definition in_window :: "millis \<Rightarrow> envelope \<Rightarrow> bool" where
  "in_window now env \<longleftrightarrow>
     (\<forall>t. Date_parse (env_notBefore env) = Some t \<longrightarrow> t \<le> now + 60000) \<and>
     (\<forall>t. Date_parse (env_notAfter env) = Some t \<longrightarrow> now - 60000 \<le> t)"

lemma window_not_rejected: "after_window_rejected now env = None \<longleftrightarrow> in_window now env"
  by (auto simp: after_window_rejected_def in_window_def Let_def ENVELOPE_CLOCK_SKEW_S_def split: option.splits if_splits)

lemma verify_two_accepts:
  assumes "verifyTwoLayerMessageEnvelope edVerify z now instanceKey authorKey input = Inr (Accepted env)"
  obtains payloadBytes bytes where
    "parse_wire z True input = Some env" "in_window now env"
    "canonical_bytes (env_payload env) = Inr payloadBytes" "edVerify payloadBytes (base64_bytes (get_or [] (env_userSignature env))) authorKey"
    "envelopeSigningBytes env = Inr bytes" "edVerify bytes (base64_bytes (env_signature env)) instanceKey"
  using assms
  by (auto simp: verifyTwoLayerMessageEnvelope_def check_signature_def window_not_rejected
      split: option.splits if_splits sum.splits)

lemma verify_one_accepts:
  assumes "verifyEnvelopeShape edVerify z now peerKey input = Inr (Accepted env)"
  obtains bytes where
    "parse_wire z False input = Some env" "in_window now env"
    "envelopeSigningBytes env = Inr bytes" "edVerify bytes (base64_bytes (env_signature env)) peerKey"
  using assms
  by (auto simp: verifyEnvelopeShape_def check_signature_def window_not_rejected
      split: option.splits if_splits sum.splits)

text \<open>
  C31. What an instance accepts was said by the holders of the keys. Suppose that the only messages for
  which a signature verifies under a key are those its holder has signed: the peer has signed the
  envelopes \<open>sent\<close>, of either form, and the author the payloads \<open>authored\<close>. Then an accepted two-layer
  envelope agrees with a two-layer envelope that was sent, user signature included, its payload with one that was
  authored, up to the order of members; an accepted single-layer envelope agrees with a single-layer envelope that
  was sent. Neither form passes for the other, no part of one message can be used in another, and the
  time is in the window that was signed, up to the tolerated skew.
\<close>

theorem accepted_envelope_was_signed:
  assumes "\<And>m s. edVerify m s instanceKey \<Longrightarrow> \<exists>e \<in> sent. envelopeSigningBytes e = Inr m"
    and "\<And>m s. edVerify m s authorKey \<Longrightarrow> \<exists>v \<in> authored. canonical_bytes v = Inr m"
  shows "(verifyTwoLayerMessageEnvelope edVerify z now instanceKey authorKey input = Inr (Accepted env) \<longrightarrow>
      env_userSignature env \<noteq> None \<and> (\<exists>e \<in> sent. same_content e env) \<and>
      (\<exists>v \<in> authored. normal v = normal (env_payload env)) \<and> in_window now env) \<and>
    (verifyEnvelopeShape edVerify z now instanceKey input = Inr (Accepted env) \<longrightarrow>
      env_userSignature env = None \<and> (\<exists>e \<in> sent. same_content e env) \<and> in_window now env)"
proof (intro conjI impI)
  assume "verifyTwoLayerMessageEnvelope edVerify z now instanceKey authorKey input = Inr (Accepted env)"
  then show "env_userSignature env \<noteq> None" "\<exists>e \<in> sent. same_content e env"
      "\<exists>v \<in> authored. normal v = normal (env_payload env)" "in_window now env"
    by (rule verify_two_accepts, metis assms parse_wireD(3) signing_bytes_inj canonical_bytes_inj)+
next
  assume "verifyEnvelopeShape edVerify z now instanceKey input = Inr (Accepted env)"
  then show "env_userSignature env = None" "\<exists>e \<in> sent. same_content e env" "in_window now env"
    by (rule verify_one_accepts, metis assms(1) parse_wireD(3) signing_bytes_inj)+
qed

section \<open>What is built is accepted\<close>

lemma unsigned_frame [simp]: "unsigned_members (e\<lparr>env_signature := s\<rparr>) = unsigned_members e"
  by (simp add: unsigned_members_def)

lemma sign_envelopeD:
  assumes "sign_envelope nonce ty t0 t1 a b payload us sign = Inr e"
  obtains nb na bytes s where "toISOString t0 = Some nb" "toISOString t1 = Some na"
    "e = \<lparr>env_version = PROTOCOL_VERSION, env_eventType = ty, env_nonce = nonce, env_notBefore = nb, env_notAfter = na,
       env_fromInstance = a, env_toInstance = b, env_payload = payload, env_userSignature = us,
       env_signature = base64_text s\<rparr>"
    "envelopeSigningBytes e = Inr bytes" "sign bytes = Some s"
  using assms
  by (auto simp: sign_envelope_def iso_date_def run_signer_def Let_def envelopeSigningBytes_def unsigned_members_def
      split: sum.splits option.splits)

lemma envelope_member:
  "member (unsigned_members e @ [(''signature'', JStr (env_signature e))]) ''version'' = JStr (env_version e)"
  "member (unsigned_members e @ [(''signature'', JStr (env_signature e))]) ''eventType'' = JStr (env_eventType e)"
  "member (unsigned_members e @ [(''signature'', JStr (env_signature e))]) ''nonce'' = JStr (env_nonce e)"
  "member (unsigned_members e @ [(''signature'', JStr (env_signature e))]) ''notBefore'' = JStr (env_notBefore e)"
  "member (unsigned_members e @ [(''signature'', JStr (env_signature e))]) ''notAfter'' = JStr (env_notAfter e)"
  "member (unsigned_members e @ [(''signature'', JStr (env_signature e))]) ''fromInstance'' = JStr (env_fromInstance e)"
  "member (unsigned_members e @ [(''signature'', JStr (env_signature e))]) ''toInstance'' = JStr (env_toInstance e)"
  "member (unsigned_members e @ [(''signature'', JStr (env_signature e))]) ''payload'' = env_payload e"
  "member (unsigned_members e @ [(''signature'', JStr (env_signature e))]) ''signature'' = JStr (env_signature e)"
  "env_userSignature e = Some s \<Longrightarrow>
   member (unsigned_members e @ [(''signature'', JStr (env_signature e))]) ''userSignature'' = JStr s"
  by (simp_all add: member_def unsigned_members_def split: option.split)

lemma parse_wire_own:
  assumes "env_version e = PROTOCOL_VERSION" "env_eventType e \<in> set ENVELOPE_EVENT_TYPES" "nonce_ok (env_nonce e)"
    "ws_datetime z (env_notBefore e)" "ws_datetime z (env_notAfter e)" "host_ok (env_fromInstance e)"
    "host_ok (env_toInstance e)" "ws_payload z (env_payload e) = Some p" "env_signature e \<noteq> []"
    "env_userSignature e = (if two_layer then Some us else None)" "us \<noteq> []"
  shows "parse_wire z two_layer (envelope_json e) = Some (e\<lparr>env_payload := p\<rparr>)"
  using assms by (simp add: parse_wire_def envelope_json_def string_field_def envelope_member)

text \<open>The signing bytes depend on the payload through its canonical text only.\<close>

lemma signing_bytes_payload:
  assumes "canonicalize p = canonicalize (env_payload e)" "canonicalize p \<noteq> None"
  shows "envelopeSigningBytes (e\<lparr>env_payload := p\<rparr>) = envelopeSigningBytes e"
proof -
  have "p \<noteq> JUndefined" "env_payload e \<noteq> JUndefined" "stringify p = stringify (env_payload e)"
    using assms by (auto simp: canonicalize_def split: if_splits)
  then have "stringify_members (unsigned_members (e\<lparr>env_payload := p\<rparr>)) = stringify_members (unsigned_members e)"
    by (simp add: unsigned_members_def split: option.split)
  then show ?thesis
    by (simp add: envelopeSigningBytes_def canonical_bytes_def canonicalize_def)
qed

lemma canonical_bytes_payload: "canonicalize p = canonicalize q \<Longrightarrow> canonical_bytes p = canonical_bytes q"
  by (simp add: canonical_bytes_def)

lemma in_window_built:
  assumes "toISOString t0 = Some (env_notBefore e)" "toISOString t1 = Some (env_notAfter e)" "t0 \<le> later + 60000" "later - 60000 \<le> t1"
  shows "in_window later (e\<lparr>env_payload := p\<rparr>)"
  using iso_roundtrip [OF assms(1)] iso_roundtrip [OF assms(2)] assms(3,4) by (simp add: in_window_def)

text \<open>A signer whose signatures verify under a key; a schema that reads what \<open>toISOString\<close> writes.\<close>

definition signs_for :: "signer \<Rightarrow> scheme \<Rightarrow> byte list \<Rightarrow> bool" where
  "signs_for sign edVerify rawKey \<longleftrightarrow>
     length rawKey = 32 \<and> (\<forall>m s. sign m = Some s \<longrightarrow> s \<noteq> [] \<and> edVerify m s rawKey)"

definition reads_iso :: "wire_schema \<Rightarrow> bool" where
  "reads_iso z \<longleftrightarrow> (\<forall>t s. toISOString t = Some s \<longrightarrow> ws_datetime z s)"

text \<open>What the receiver's schema and clock have to allow.\<close>

definition receivable :: "wire_schema \<Rightarrow> millis \<Rightarrow> millis \<Rightarrow> string \<Rightarrow> build_input \<Rightarrow> json \<Rightarrow> bool" where
  "receivable z now later nonce i p \<longleftrightarrow>
     bi_eventType i \<in> set ENVELOPE_EVENT_TYPES \<and> nonce_ok nonce \<and> host_ok (bi_fromInstance i) \<and> host_ok (bi_toInstance i) \<and>
     ws_payload z (bi_payload i) = Some p \<and> canonicalize p = canonicalize (bi_payload i) \<and> canonicalize p \<noteq> None \<and>
     window_start now i < window_end now i \<and> window_start now i \<le> later + 60000 \<and> later - 60000 \<le> window_end now i"

lemma built_parses:
  assumes e: "sign_envelope nonce (bi_eventType i) (window_start now i) (window_end now i) (bi_fromInstance i)
      (bi_toInstance i) (bi_payload i) us sign = Inr e"
    and s: "signs_for sign edVerify rawKey" and z: "reads_iso z"
    and r: "receivable z now later nonce i p" and us: "us \<noteq> Some []"
  obtains bytes where "parse_wire z (us \<noteq> None) (envelope_json e) = Some (e\<lparr>env_payload := p\<rparr>)"
    "after_window_rejected later (e\<lparr>env_payload := p\<rparr>) = None"
    "\<not> date_le (Date_parse (env_notAfter e)) (Date_parse (env_notBefore e))"
    "envelopeSigningBytes (e\<lparr>env_payload := p\<rparr>) = Inr bytes"
    "check_signature edVerify bytes (env_signature e) rawKey = Inr True" "env_userSignature e = us"
proof -
  from e obtain nb na bytes b where f: "toISOString (window_start now i) = Some nb" "toISOString (window_end now i) = Some na"
    "e = \<lparr>env_version = PROTOCOL_VERSION, env_eventType = bi_eventType i, env_nonce = nonce, env_notBefore = nb, env_notAfter = na,
       env_fromInstance = bi_fromInstance i, env_toInstance = bi_toInstance i, env_payload = bi_payload i,
       env_userSignature = us, env_signature = base64_text b\<rparr>"
    "envelopeSigningBytes e = Inr bytes" "sign bytes = Some b"
    by (rule sign_envelopeD)
  have d: "Date_parse nb = Some (window_start now i)" "Date_parse na = Some (window_end now i)"
    using iso_roundtrip f(1,2) by blast+
  have b: "b \<noteq> []" "edVerify bytes b rawKey" "length rawKey = 32"
    using s f(5) by (auto simp: signs_for_def)
  have w: "window_start now i \<le> later + 60000" "later - 60000 \<le> window_end now i"
    using r unfolding receivable_def by blast+
  have c: "canonicalize p = canonicalize (bi_payload i)" "canonicalize p \<noteq> None"
    using r unfolding receivable_def by blast+
  have "ws_datetime z nb" "ws_datetime z na"
    using z f(1,2) by (auto simp: reads_iso_def)
  then have "parse_wire z (us \<noteq> None) (envelope_json e) = Some (e\<lparr>env_payload := p\<rparr>)"
    using r us b(1)
    by (intro parse_wire_own [where us = "get_or ''x'' us"]; cases us)
      (auto simp: f(3) receivable_def base64_text_nonempty)
  moreover have "after_window_rejected later (e\<lparr>env_payload := p\<rparr>) = None"
    unfolding window_not_rejected
    by (rule in_window_built [OF _ _ w]) (use f(1,2) in \<open>simp_all add: f(3)\<close>)
  moreover have "\<not> date_le (Date_parse (env_notAfter e)) (Date_parse (env_notBefore e))"
    using r d by (simp add: f(3) date_le_def receivable_def)
  moreover have "envelopeSigningBytes (e\<lparr>env_payload := p\<rparr>) = Inr bytes"
    using signing_bytes_payload [of p e] c f(4) by (simp add: f(3))
  moreover have "check_signature edVerify bytes (env_signature e) rawKey = Inr True" "env_userSignature e = us"
    using b by (simp_all add: f(3) check_signature_def base64_roundtrip)
  ultimately show ?thesis by (rule that)
qed

lemma single_accepted:
  assumes "buildSignedEnvelope now nonce i sign = Inr e" and "signs_for sign edVerify rawKey"
    and "reads_iso z" and "receivable z now later nonce i p"
  shows "verifyEnvelopeShape edVerify z later rawKey (envelope_json e) = Inr (Accepted (e\<lparr>env_payload := p\<rparr>))"
  by (rule built_parses [OF assms(1) [unfolded buildSignedEnvelope_def] assms(2-4)])
    (simp_all add: verifyEnvelopeShape_def)

lemma two_layer_accepted:
  assumes b: "buildTwoLayerMessageEnvelope now nonce i (Some signUser) None signInstance = Inr e"
    and u: "signs_for signUser edVerify userKey" and s: "signs_for signInstance edVerify rawKey"
    and z: "reads_iso z" and r: "receivable z now later nonce i p"
  shows "verifyTwoLayerMessageEnvelope edVerify z later rawKey userKey (envelope_json e) = Inr (Accepted (e\<lparr>env_payload := p\<rparr>))"
proof -
  from b obtain bytes sb where us: "canonical_bytes (bi_payload i) = Inr bytes" "signUser bytes = Some sb"
    and e: "sign_envelope nonce (bi_eventType i) (window_start now i) (window_end now i) (bi_fromInstance i)
      (bi_toInstance i) (bi_payload i) (Some (base64_text sb)) signInstance = Inr e"
    by (auto simp: buildTwoLayerMessageEnvelope_def run_signer_def split: sum.splits option.splits)
  have p: "canonical_bytes p = Inr bytes"
    using us(1) r canonical_bytes_payload by (metis receivable_def)
  have c: "check_signature edVerify bytes (base64_text sb) userKey = Inr True" and n: "base64_text sb \<noteq> []"
    using u us(2) by (auto simp: signs_for_def check_signature_def base64_roundtrip base64_text_nonempty)
  show ?thesis
    by (rule built_parses [OF e s z r]) (use p c n in \<open>simp_all add: verifyTwoLayerMessageEnvelope_def\<close>)
qed

lemma relay_accepted:
  assumes b: "buildTwoLayerMessageEnvelope now nonce i None (Some us) signInstance = Inr e" and us: "us \<noteq> []"
    and c: "canonical_bytes p = Inr bytes" "check_signature edVerify bytes us userKey = Inr True"
    and s: "signs_for signInstance edVerify rawKey" and z: "reads_iso z" and r: "receivable z now later nonce i p"
  shows "verifyTwoLayerMessageEnvelope edVerify z later rawKey userKey (envelope_json e) = Inr (Accepted (e\<lparr>env_payload := p\<rparr>))"
proof -
  have e: "sign_envelope nonce (bi_eventType i) (window_start now i) (window_end now i) (bi_fromInstance i)
      (bi_toInstance i) (bi_payload i) (Some us) signInstance = Inr e"
    using b by (simp add: buildTwoLayerMessageEnvelope_def)
  show ?thesis
    by (rule built_parses [OF e s z r]) (use us c in \<open>simp_all add: verifyTwoLayerMessageEnvelope_def\<close>)
qed

text \<open>A payload with the same canonical text gives the same envelope but for the payload.\<close>

lemma sign_envelope_payload:
  assumes "sign_envelope nonce ty t0 t1 a b payload us sign = Inr e"
    and "canonicalize p = canonicalize payload" "canonicalize p \<noteq> None"
  shows "sign_envelope nonce ty t0 t1 a b p us sign = Inr (e\<lparr>env_payload := p\<rparr>)"
proof -
  from assms(1) obtain nb na bytes s where f: "toISOString t0 = Some nb" "toISOString t1 = Some na"
    "e = \<lparr>env_version = PROTOCOL_VERSION, env_eventType = ty, env_nonce = nonce, env_notBefore = nb, env_notAfter = na,
       env_fromInstance = a, env_toInstance = b, env_payload = payload, env_userSignature = us, env_signature = base64_text s\<rparr>"
    "envelopeSigningBytes e = Inr bytes" "sign bytes = Some s"
    by (rule sign_envelopeD)
  have "envelopeSigningBytes (e\<lparr>env_payload := p\<rparr>) = Inr bytes"
    using signing_bytes_payload [of p e] assms(2,3) f(4) by (simp add: f(3))
  moreover have "envelopeSigningBytes (x\<lparr>env_signature := []\<rparr>) = envelopeSigningBytes x" for x
    by (simp add: envelopeSigningBytes_def)
  from this [of "e\<lparr>env_payload := p\<rparr>"] calculation show ?thesis
    using f(1,2,5) by (simp add: sign_envelope_def iso_date_def run_signer_def f(3))
qed


subsection \<open>An example\<close>

definition sample_input :: build_input where
  "sample_input = \<lparr>bi_eventType = ''message.create'', bi_fromInstance = ''a.b'', bi_toInstance = ''c.d'',
     bi_payload = JObj [(''k'', JNum 1)], bi_lifetimeSeconds = None, bi_notBefore = None\<rparr>"

definition sample_schema :: wire_schema where
  "sample_schema = \<lparr>ws_datetime = (\<lambda>s. True), ws_payload = Some, ws_message = (\<lambda>v. [])\<rparr>"

definition sample_key :: "byte \<Rightarrow> byte list" where "sample_key b = replicate 32 b"

text \<open>A scheme in which each of two keys has signed one message.\<close>

definition sample_payload_bytes :: "byte list" where
  "sample_payload_bytes = utf8 (get_or [] (canonicalize (bi_payload sample_input)))"

definition sample_envelope :: envelope where
  "sample_envelope = \<lparr>env_version = PROTOCOL_VERSION, env_eventType = ''message.create'', env_nonce = replicate 20 (CHR ''A''),
     env_notBefore = get_or [] (toISOString 0), env_notAfter = get_or [] (toISOString 300000), env_fromInstance = ''a.b'',
     env_toInstance = ''c.d'', env_payload = JObj [(''k'', JNum 1)], env_userSignature = Some (base64_text [2]),
     env_signature = base64_text [1]\<rparr>"

definition sample_scheme :: scheme where
  "sample_scheme m s k \<longleftrightarrow> (if k = sample_key 1 then envelopeSigningBytes sample_envelope = Inr m \<and> s = [1]
     else m = sample_payload_bytes \<and> s = [2])"

definition sample_signer :: signer where
  "sample_signer m = (if envelopeSigningBytes sample_envelope = Inr m then Some [1] else None)"

definition sample_user_signer :: signer where
  "sample_user_signer m = (if m = sample_payload_bytes then Some [2] else None)"

lemma sample_keys: "sample_key 1 \<noteq> sample_key 2" "length (sample_key b) = 32"
  by (simp_all add: sample_key_def numeral_eq_Suc)

lemma sample_signs:
  "signs_for sample_user_signer sample_scheme (sample_key 2)" "signs_for sample_signer sample_scheme (sample_key 1)"
  using sample_keys by (auto simp: signs_for_def sample_user_signer_def sample_signer_def sample_scheme_def split: if_splits)

lemma sample_receivable:
  "reads_iso sample_schema" "receivable sample_schema 0 5 (replicate 20 (CHR ''A'')) sample_input (JObj [(''k'', JNum 1)])"
  by (simp_all add: reads_iso_def sample_schema_def receivable_def sample_input_def list_all_iff ENVELOPE_EVENT_TYPES_def nonce_ok_def host_ok_def
      window_start_def window_end_def ENVELOPE_DEFAULT_LIFETIME_S_def canonicalize_def)

lemma sample_built:
  "buildTwoLayerMessageEnvelope 0 (replicate 20 (CHR ''A'')) sample_input (Some sample_user_signer) None sample_signer =
   Inr sample_envelope"
proof -
  have t: "toISOString 0 = Some (env_notBefore sample_envelope)" "toISOString 300000 = Some (env_notAfter sample_envelope)"
    using toISOString_some [of 0] toISOString_some [of 300000] by (auto simp: sample_envelope_def MAX_TIME_def)
  have "\<exists>bytes. envelopeSigningBytes sample_envelope = Inr bytes"
    by (simp add: envelopeSigningBytes_def canonical_bytes_def canonicalize_def stringify_prints(1) unsigned_members_def sample_envelope_def)
  then obtain bytes where b: "envelopeSigningBytes sample_envelope = Inr bytes" ..
  have u: "canonical_bytes (bi_payload sample_input) = Inr sample_payload_bytes"
    by (simp add: canonical_bytes_def sample_payload_bytes_def sample_input_def canonicalize_def)
  have frame: "envelopeSigningBytes \<lparr>env_version = PROTOCOL_VERSION, env_eventType = ''message.create'', env_nonce = replicate 20 (CHR ''A''),
     env_notBefore = env_notBefore sample_envelope, env_notAfter = env_notAfter sample_envelope, env_fromInstance = ''a.b'',
     env_toInstance = ''c.d'', env_payload = JObj [(''k'', JNum 1)], env_userSignature = Some (base64_text [2]),
     env_signature = []\<rparr> = Inr bytes"
    using b by (simp add: envelopeSigningBytes_def unsigned_members_def sample_envelope_def)
  have w: "window_start 0 sample_input = 0" "window_end 0 sample_input = 300000"
    by (simp_all add: window_start_def window_end_def sample_input_def ENVELOPE_DEFAULT_LIFETIME_S_def)
  have us: "run_signer sample_user_signer sample_payload_bytes = Inr (base64_text [2])" "run_signer sample_signer bytes = Inr (base64_text [1])"
    using b by (simp_all add: run_signer_def sample_user_signer_def sample_signer_def)
  have i: "bi_eventType sample_input = ''message.create''" "bi_fromInstance sample_input = ''a.b''" "bi_toInstance sample_input = ''c.d''"
    "bi_payload sample_input = JObj [(''k'', JNum 1)]"
    by (simp_all add: sample_input_def)
  show ?thesis
    by (simp only: buildTwoLayerMessageEnvelope_def sign_envelope_def iso_date_def w t u [unfolded i] us i frame Let_def sum.case option.case
        option.simps if_False simp_thms not_None_eq)
      (simp add: sample_envelope_def)
qed


theorem accepted_envelope_was_signed_witness:
  "verifyTwoLayerMessageEnvelope sample_scheme sample_schema 5 (sample_key 1) (sample_key 2) (envelope_json sample_envelope) =
     Inr (Accepted sample_envelope) \<and>
   in_window 5 sample_envelope \<and> (\<exists>v \<in> {JObj [(''k'', JNum 1)]}. normal v = normal (env_payload sample_envelope))"
proof -
  have "verifyTwoLayerMessageEnvelope sample_scheme sample_schema 5 (sample_key 1) (sample_key 2) (envelope_json sample_envelope) =
      Inr (Accepted sample_envelope)"
    using two_layer_accepted [OF sample_built sample_signs sample_receivable] by (simp add: sample_envelope_def)
  moreover have "\<exists>e \<in> {sample_envelope}. envelopeSigningBytes e = Inr m" if "sample_scheme m s (sample_key 1)" for m s
    using that by (simp add: sample_scheme_def)
  moreover have "\<exists>v \<in> {JObj [(''k'', JNum 1)]}. canonical_bytes v = Inr m" if "sample_scheme m s (sample_key 2)" for m s
    using that sample_keys by (auto simp: sample_scheme_def sample_payload_bytes_def sample_input_def canonical_bytes_def canonicalize_def)
  ultimately show ?thesis
    using accepted_envelope_was_signed [of sample_scheme "sample_key 1" "{sample_envelope}" "sample_key 2" "{JObj [(''k'', JNum 1)]}"]
    by blast
qed

section \<open>The shape of what is accepted\<close>

definition well_formed :: "wire_schema \<Rightarrow> envelope \<Rightarrow> bool" where
  "well_formed z e \<longleftrightarrow> env_version e = PROTOCOL_VERSION \<and> env_eventType e \<in> set ENVELOPE_EVENT_TYPES \<and> nonce_ok (env_nonce e) \<and>
     host_ok (env_fromInstance e) \<and> host_ok (env_toInstance e) \<and> ws_datetime z (env_notBefore e) \<and> ws_datetime z (env_notAfter e) \<and>
     env_signature e \<noteq> [] \<and> env_userSignature e \<noteq> Some [] \<and> (\<exists>v. ws_payload z v = Some (env_payload e)) \<and>
     \<not> date_le (Date_parse (env_notAfter e)) (Date_parse (env_notBefore e))"

lemma parsed_shape:
  assumes "parse_wire z two_layer input = Some env" "\<not> date_le (Date_parse (env_notAfter env)) (Date_parse (env_notBefore env))"
  shows "well_formed z env"
  using assms
  by (auto simp: well_formed_def parse_wire_def string_field_def bind_eq_Some_conv split: json.splits if_splits)



end
