(* ===== verification/Delivery.thy ===== *)
theory Delivery
  imports Envelopes Database
begin

text \<open>
  Delivery of envelopes to peers: the guard on peer hosts (packages/federation/src/ssrf-guard.ts), the
  outbox dispatcher (outbox-dispatcher.ts) and the synchronous exchange (sync-dispatch.ts). The name
  service, the network and the keys are arguments; requests that were made are recorded.
\<close>

section \<open>Peer hosts\<close>

definition starts :: "string \<Rightarrow> string \<Rightarrow> bool" where
  "starts p s \<longleftrightarrow> take (length p) s = p"

definition ends :: "string \<Rightarrow> string \<Rightarrow> bool" where
  "ends p s \<longleftrightarrow> length p \<le> length s \<and> drop (length s - length p) s = p"

definition is_hex :: "char \<Rightarrow> bool" where
  "is_hex c \<longleftrightarrow> (let n = (of_char c :: nat) in (48 \<le> n \<and> n \<le> 57) \<or> (97 \<le> n \<and> n \<le> 102) \<or> (65 \<le> n \<and> n \<le> 70))"

text \<open>The patterns of private addresses; the last two ignore case.\<close>

definition private_172 :: "string \<Rightarrow> bool" where
  "private_172 ip =
     (starts ''172.'' ip \<and>
      (case drop 4 ip of
         a # b # d # r \<Rightarrow> d = CHR ''.'' \<and>
           ((a = CHR ''1'' \<and> b \<in> set ''6789'') \<or> (a = CHR ''2'' \<and> is_digit b) \<or> (a = CHR ''3'' \<and> b \<in> set ''01''))
       | _ \<Rightarrow> False))"

definition unique_local :: "string \<Rightarrow> bool" where
  "unique_local ip =
     (case ip of a # b # c # d # e # r \<Rightarrow> a \<in> set ''fF'' \<and> b \<in> set ''cdCD'' \<and> is_hex c \<and> is_hex d \<and> e = CHR '':''
      | _ \<Rightarrow> False)"

definition link_local :: "string \<Rightarrow> bool" where
  "link_local ip =
     (case ip of a # b # c # d # e # r \<Rightarrow> a \<in> set ''fF'' \<and> b \<in> set ''eE'' \<and> c \<in> set ''89abAB'' \<and> is_hex d \<and> e = CHR '':''
      | _ \<Rightarrow> False)"

definition isPrivateIp :: "string \<Rightarrow> bool" where
  "isPrivateIp ip \<longleftrightarrow>
     starts ''127.'' ip \<or> starts ''10.'' ip \<or> private_172 ip \<or> starts ''192.168.'' ip \<or> starts ''169.254.'' ip \<or>
     ip = ''::1'' \<or> unique_local ip \<or> link_local ip"

text \<open>\<open>/^\d+\.\d+\.\d+\.\d+(?::\d+)?$/\<close>: the digits are taken greedily, no digit is a dot or a colon.\<close>

definition after_digits :: "string \<Rightarrow> string option" where
  "after_digits s = (if takeWhile is_digit s = [] then None else Some (dropWhile is_digit s))"

definition bare_ipv4 :: "string \<Rightarrow> bool" where
  "bare_ipv4 s =
     (case do {
        s \<leftarrow> after_digits s; s \<leftarrow> expect (CHR ''.'') s; s \<leftarrow> after_digits s; s \<leftarrow> expect (CHR ''.'') s;
        s \<leftarrow> after_digits s; s \<leftarrow> expect (CHR ''.'') s; after_digits s } of
        None \<Rightarrow> False
      | Some r \<Rightarrow> r = [] \<or> (\<exists>p \<in> set_option (expect (CHR '':'') r). after_digits p = Some []))"

text \<open>A name service answers with addresses, or fails or is too slow (\<^const>\<open>None\<close>).\<close>

record resolver =
  rs_resolve4 :: "string \<Rightarrow> string list option"
  rs_resolve6 :: "string \<Rightarrow> string list option"

definition assertValidPeerHost :: "resolver \<Rightarrow> string \<Rightarrow> string + unit" where
  "assertValidPeerHost rs host =
     (let lower = toLowerCase host
      in if host = [] then Inl ''peer host is required''
         else if lower = ''localhost'' then Inl ''peer host cannot be localhost''
         else if bare_ipv4 host then Inl ''peer host must be a hostname, not an IPv4 address''
         else if CHR '':'' \<in> set host \<or> CHR ''['' \<in> set host \<or> CHR '']'' \<in> set host then
           Inl ''peer host must not contain port or IPv6 brackets''
         else if CHR ''.'' \<notin> set host then Inl ''peer host must be a fully-qualified domain''
         else if ends ''.local'' lower \<or> ends ''.localhost'' lower then
           Inl ''peer host cannot be an mDNS/loopback (.local/.localhost) name''
         else
           let ips = get_or [] (rs_resolve4 rs host) @ get_or [] (rs_resolve6 rs host)
           in if ips \<noteq> [] \<and> list_all isPrivateIp ips then
                Inl (''peer host '' @ host @ '' resolves only to private/loopback addresses'')
              else Inr ())"

section \<open>The outbox dispatcher\<close>

record outbox_job =
  job_messageId :: string
  job_peerInstanceId :: ident
  job_eventType :: string
  job_payload :: json
  job_nonce :: "string option"
  job_authorUserId :: ident
  job_preservedUserSignature :: "string option"
  job_singleLayer :: bool

text \<open>What comes over the network is what \<open>JSON.stringify\<close> keeps of a value.\<close>

fun wire :: "json \<Rightarrow> json" where
  "wire JUndefined = JNull"
| "wire JNonFinite = JNull"
| "wire (JArr vs) = JArr (map wire vs)"
| "wire (JObj ps) = JObj (map (\<lambda>p. (fst p, wire (snd p))) (filter (\<lambda>p. snd p \<noteq> JUndefined) ps))"
| "wire v = v"

text \<open>A response: its status, the text of its body (or a failure to read it), the value its text stands for.\<close>

datatype fetch_result =
    NetworkError string
  | Response int "string option" "string + json"

record dispatcher =
  ds_selfHost :: string
  ds_sign :: signer                                \<comment> \<open>the key of the instance\<close>
  ds_userKey :: "ident \<Rightarrow> signer option"            \<comment> \<open>\<open>loadKeyFor\<close>; \<^const>\<open>None\<close>: it throws\<close>
  ds_resolver :: resolver
  ds_fetch :: "string \<Rightarrow> json \<Rightarrow> fetch_result"
  ds_ulid :: string                                 \<comment> \<open>the ULID generated next\<close>

datatype dispatch_error =
    InvalidHost string
  | ExclusiveLayers
  | NoUserKey
  | BuildFailed envelope_error
  | NetworkFailure string
  | RetryableStatus int string
  | PermanentStatus int string     \<comment> \<open>\<open>FederationOutboxPermanentError\<close>\<close>

datatype dispatch_result = DroppedNotFound | DroppedNotPeered | Delivered | Threw dispatch_error

definition find_instance_row :: "db \<Rightarrow> ident \<Rightarrow> remote_instance_row option" where
  "find_instance_row d i = List.find (\<lambda>r. rin_id r = i) (db_remote_instances d)"

definition buildSingleLayerEnvelope :: "millis \<Rightarrow> string \<Rightarrow> build_input \<Rightarrow> signer \<Rightarrow> envelope_error + envelope" where
  "buildSingleLayerEnvelope now nonce i signInstance =
     sign_envelope nonce (bi_eventType i) now (now + ENVELOPE_DEFAULT_LIFETIME_S * 1000) (bi_fromInstance i)
       (bi_toInstance i) (bi_payload i) None signInstance"

definition job_input :: "dispatcher \<Rightarrow> remote_instance_row \<Rightarrow> outbox_job \<Rightarrow> build_input" where
  "job_input ds peer job = \<lparr>bi_eventType = job_eventType job, bi_fromInstance = ds_selfHost ds, bi_toInstance = rin_host peer,
     bi_payload = job_payload job, bi_lifetimeSeconds = None, bi_notBefore = None\<rparr>"

definition job_envelope :: "dispatcher \<Rightarrow> millis \<Rightarrow> remote_instance_row \<Rightarrow> outbox_job \<Rightarrow> dispatch_error + envelope" where
  "job_envelope ds now peer job =
     (if job_singleLayer job \<and> job_preservedUserSignature job \<noteq> None then Inl ExclusiveLayers
      else
        let i = job_input ds peer job;
            built = (\<lambda>r. case r of Inl e \<Rightarrow> Inl (BuildFailed e) | Inr env \<Rightarrow> Inr env)
        in if job_singleLayer job then built (buildSingleLayerEnvelope now (ds_ulid ds) i (ds_sign ds))
           else case job_preservedUserSignature job of
             Some s \<Rightarrow> built (buildTwoLayerMessageEnvelope now (ds_ulid ds) i None (Some s) (ds_sign ds))
           | None \<Rightarrow>
               (case ds_userKey ds (job_authorUserId job) of
                  None \<Rightarrow> Inl NoUserKey
                | Some sign \<Rightarrow> built (buildTwoLayerMessageEnvelope now (ds_ulid ds) i (Some sign) None (ds_sign ds))))"

definition event_url :: "string \<Rightarrow> string" where
  "event_url host = ''https://'' @ host @ ''/_federation/event''"

text \<open>The result, and the request that was made.\<close>

definition dispatchOutboxJob ::
  "dispatcher \<Rightarrow> db \<Rightarrow> millis \<Rightarrow> outbox_job \<Rightarrow> dispatch_result \<times> (string \<times> json) option" where
  "dispatchOutboxJob ds d now job =
     (case find_instance_row d (job_peerInstanceId job) of
        None \<Rightarrow> (DroppedNotFound, None)
      | Some peer \<Rightarrow>
          if rin_status peer \<noteq> Peered then (DroppedNotPeered, None)
          else case assertValidPeerHost (ds_resolver ds) (rin_host peer) of
            Inl e \<Rightarrow> (Threw (InvalidHost e), None)
          | Inr _ \<Rightarrow>
              (case job_envelope ds now peer job of
                 Inl e \<Rightarrow> (Threw e, None)
               | Inr envelope \<Rightarrow>
                   let url = event_url (rin_host peer); body = wire (envelope_json envelope)
                   in (case ds_fetch ds url body of
                         NetworkError m \<Rightarrow> Threw (NetworkFailure m)
                       | Response status text value \<Rightarrow>
                           if 200 \<le> status \<and> status < 300 then Delivered
                           else
                             let snippet = take 200 (get_or [] text)
                             in if 400 \<le> status \<and> status < 500 then Threw (PermanentStatus status snippet)
                                else Threw (RetryableStatus status snippet),
                       Some (url, body))))"

section \<open>The synchronous exchange\<close>

datatype sync_result = SyncOk json | SyncFailed int string

definition postFederationEventSync ::
  "scheme \<Rightarrow> wire_schema \<Rightarrow> resolver \<Rightarrow> (string \<Rightarrow> json \<Rightarrow> fetch_result) \<Rightarrow> millis \<Rightarrow> string \<Rightarrow> string \<Rightarrow> byte list \<Rightarrow>
   string option \<Rightarrow> json \<Rightarrow> (string + envelope_error) + sync_result" where
  "postFederationEventSync edVerify z rs fetch now selfHost peerHost peerPublicKeyRaw pathOverride envelope =
     (case assertValidPeerHost rs peerHost of
        Inl e \<Rightarrow> Inl (Inl e)
      | Inr _ \<Rightarrow>
        case fetch (''https://'' @ peerHost @ get_or ''/_federation/event'' pathOverride) (wire envelope) of
          NetworkError m \<Rightarrow> Inr (SyncFailed 0 (''network error: '' @ m))
        | Response status text value \<Rightarrow>
            if status < 200 \<or> 300 \<le> status then
              let snippet = take 200 (get_or [] text)
              in Inr (SyncFailed status (if snippet = [] then ''HTTP '' @ show_int status else snippet))
            else case value of
              Inl m \<Rightarrow> Inr (SyncFailed status (''response is not JSON: '' @ m))
            | Inr body \<Rightarrow>
                case parse_wire z False body of
                  None \<Rightarrow> Inr (SyncFailed status (''response envelope shape invalid: '' @ ws_message z body))
                | Some env \<Rightarrow>
                    if env_toInstance env \<noteq> selfHost then
                      Inr (SyncFailed status
                        (''response toInstance '' @ env_toInstance env @ '' does not match selfHost '' @ selfHost))
                    else if env_fromInstance env \<noteq> peerHost then
                      Inr (SyncFailed status
                        (''response fromInstance '' @ env_fromInstance env @ '' does not match peerHost '' @ peerHost))
                    else if date_le (Date_parse (env_notAfter env)) (Date_parse (env_notBefore env)) then
                      Inr (SyncFailed status ''notAfter must be after notBefore'')
                    else case after_window_rejected now env of
                      Some reason \<Rightarrow> Inr (SyncFailed status (''response '' @ reason))
                    | None \<Rightarrow>
                        case envelopeSigningBytes env of Inl e \<Rightarrow> Inl (Inr e) | Inr bytes \<Rightarrow>
                        case check_signature edVerify bytes (env_signature env) peerPublicKeyRaw of Inl e \<Rightarrow> Inl (Inr e) | Inr ok \<Rightarrow>
                        if \<not> ok then Inr (SyncFailed status ''response signature does not verify against peer public key'')
                        else Inr (SyncOk (env_payload env)))"

section \<open>Private addresses are the private ranges\<close>

definition dotted :: "nat \<Rightarrow> nat \<Rightarrow> nat \<Rightarrow> nat \<Rightarrow> string" where
  "dotted a b c d = show_nat a @ ''.'' @ show_nat b @ ''.'' @ show_nat c @ ''.'' @ show_nat d"

definition private_range :: "nat \<Rightarrow> nat \<Rightarrow> bool" where
  "private_range a b \<longleftrightarrow> a = 127 \<or> a = 10 \<or> (a = 172 \<and> 16 \<le> b \<and> b \<le> 31) \<or> (a = 192 \<and> b = 168) \<or> (a = 169 \<and> b = 254)"

lemma digit_char_eq: "x < 10 \<Longrightarrow> digit_char x = c \<longleftrightarrow> (of_char c :: nat) = 48 + x"
  by (metis of_char_digit_char of_char_eq_iff)

lemma is_digit_not_dot: "\<not> is_digit (CHR ''.'')"
  by (simp add: is_digit_def)

lemma starts_append: "starts p s \<longleftrightarrow> (\<exists>r. s = p @ r)"
  by (metis append_eq_conv_conj append_take_drop_id starts_def)

lemma starts_number: "starts (show_nat n @ CHR ''.'' # q) (show_nat a @ CHR ''.'' # r) \<longleftrightarrow> a = n \<and> starts q r"
proof
  assume "starts (show_nat n @ CHR ''.'' # q) (show_nat a @ CHR ''.'' # r)"
  then obtain r' where "show_nat n @ CHR ''.'' # (q @ r') = show_nat a @ CHR ''.'' # r"
    unfolding starts_append by force
  then have "n = a \<and> CHR ''.'' # (q @ r') = CHR ''.'' # r"
    by (rule show_nat_split) (simp_all add: is_digit_not_dot)
  then show "a = n \<and> starts q r" by (auto simp: starts_append)
qed (auto simp: starts_append)

lemma numerals_shown:
  "show_nat 127 = ''127''" "show_nat 10 = ''10''" "show_nat 172 = ''172''" "show_nat 192 = ''192''" "show_nat 168 = ''168''"
  "show_nat 169 = ''169''" "show_nat 254 = ''254''"
  by (simp_all add: show_nat.simps digit_char_eq)

lemma starts_Nil [simp]: "starts [] s"
  by (simp add: starts_def)

lemma private_172_number:
  assumes "b < 256"
  shows "(case show_nat b @ CHR ''.'' # r of
         a # b # d # r \<Rightarrow> d = CHR ''.'' \<and>
           ((a = CHR ''1'' \<and> b \<in> set ''6789'') \<or> (a = CHR ''2'' \<and> is_digit b) \<or> (a = CHR ''3'' \<and> b \<in> set ''01''))
       | _ \<Rightarrow> False) \<longleftrightarrow> 16 \<le> b \<and> b \<le> 31"
proof -
  consider "b < 10" | "10 \<le> b" "b < 100" | "100 \<le> b" by linarith
  then show ?thesis
  proof cases
    case 1
    then show ?thesis
      by (cases r) (simp_all add: show_nat.simps is_digit_not_dot)
  next
    case 2
    then have n: "show_nat b = [digit_char (b div 10), digit_char (b mod 10)]" and q: "b div 10 < 10"
      by (simp_all add: show_nat.simps)
    define x y where xy: "x = b div 10" "y = b mod 10"
    have b: "b = 10 * x + y" "y < 10" by (simp_all add: xy)
    have "(x = 1 \<and> (y = 6 \<or> y = 7 \<or> y = 8 \<or> y = 9) \<or> x = 2 \<or> x = 3 \<and> (y = 0 \<or> y = 1)) \<longleftrightarrow> 16 \<le> b \<and> b \<le> 31"
      using b by auto
    then show ?thesis
      using 2 q unfolding n xy by (simp add: digit_char_eq is_digit_digit_char)
  next
    case 3
    have "b div 100 < 10" using assms by (intro less_mult_imp_div_less) simp
    moreover have "10 \<le> b div 10" using div_le_mono [of 100 b 10] 3 by simp
    ultimately have "show_nat b = [digit_char (b div 100), digit_char (b div 10 mod 10), digit_char (b mod 10)]"
      using 3 by (simp add: show_nat.simps div_mult2_eq [symmetric])
    moreover have "digit_char (b mod 10) \<noteq> CHR ''.''"
      by (simp add: digit_char_eq)
    ultimately show ?thesis using 3 by simp
  qed
qed

lemma private_dotted:
  assumes "b < 256"
  shows "isPrivateIp (dotted a b c d) \<longleftrightarrow> private_range a b"
proof -
  let ?r = "show_nat c @ CHR ''.'' # show_nat d"
  have dotted: "dotted a b c d = show_nat a @ CHR ''.'' # (show_nat b @ CHR ''.'' # ?r)"
    by (simp add: dotted_def)
  have one: "starts (show_nat n @ ''.'') (dotted a b c d) \<longleftrightarrow> a = n" for n
    using starts_number [of n "[]" a] unfolding dotted by simp
  have pair: "starts (show_nat m @ CHR ''.'' # show_nat n @ ''.'') (dotted a b c d) \<longleftrightarrow> a = m \<and> b = n" for m n
    using starts_number [of m "show_nat n @ ''.''" a] starts_number [of n "[]" b] unfolding dotted by simp
  have digits: "\<exists>h t. dotted a b c d = h # t \<and> is_digit h"
    using show_nat_head [of a] by (auto simp: dotted_def)
  have no6: "dotted a b c d \<noteq> ''::1''" "\<not> unique_local (dotted a b c d)" "\<not> link_local (dotted a b c d)"
    using digits by (auto simp: unique_local_def link_local_def is_digit_def split: list.splits)
  have p172: "private_172 (dotted a b c d) \<longleftrightarrow> a = 172 \<and> 16 \<le> b \<and> b \<le> 31"
  proof (cases "a = 172")
    case True
    then have "drop 4 (dotted a b c d) = show_nat b @ CHR ''.'' # ?r"
      by (simp add: dotted_def numerals_shown)
    then show ?thesis
      using True one [of 172] private_172_number [OF assms, of ?r] by (simp add: private_172_def numerals_shown)
  next
    case False
    then show ?thesis using one [of 172] by (simp add: private_172_def numerals_shown)
  qed
  show ?thesis
    using one [of 127] one [of 10] pair [of 192 168] pair [of 169 254] no6 p172
    by (simp add: isPrivateIp_def private_range_def numerals_shown)
qed

section \<open>Dispatching\<close>

lemma job_envelope_fields:
  assumes "job_envelope ds now peer job = Inr e"
  shows "env_toInstance e = rin_host peer" "env_fromInstance e = ds_selfHost ds" "env_payload e = job_payload job"
    "env_eventType e = job_eventType job" "env_userSignature e = None \<longleftrightarrow> job_singleLayer job"
  using assms
  by (auto simp: job_envelope_def Let_def buildSingleLayerEnvelope_def buildTwoLayerMessageEnvelope_def job_input_def
      elim!: sign_envelopeD split: if_splits sum.splits option.splits)

lemma dispatch_request:
  assumes "dispatchOutboxJob ds d now job = (res, Some (url, body))"
  obtains peer e where "find_instance_row d (job_peerInstanceId job) = Some peer" "rin_status peer = Peered"
    "assertValidPeerHost (ds_resolver ds) (rin_host peer) = Inr ()" "job_envelope ds now peer job = Inr e"
    "url = event_url (rin_host peer)" "body = wire (envelope_json e)"
  using assms
  by (auto simp: dispatchOutboxJob_def Let_def split: option.splits if_splits sum.splits)

text \<open>The errors that are thrown before the request.\<close>

fun before_request :: "dispatch_error \<Rightarrow> bool" where
  "before_request (NetworkFailure m) = False"
| "before_request (RetryableStatus n m) = False"
| "before_request (PermanentStatus n m) = False"
| "before_request e = True"

lemma dispatch_result_cases:
  assumes "dispatchOutboxJob ds d now job = (res, req)"
  shows "case req of
      None \<Rightarrow> res = DroppedNotFound \<or> res = DroppedNotPeered \<or>
(\<exists>e. res = Threw e \<and> before_request e)
    | Some (url, body) \<Rightarrow>
        (case ds_fetch ds url body of
           NetworkError m \<Rightarrow> res = Threw (NetworkFailure m)
         | Response status text v \<Rightarrow>
             res = (if status div 100 = 2 then Delivered
                    else if status div 100 = 4 then Threw (PermanentStatus status (take 200 (get_or [] text)))
                    else Threw (RetryableStatus status (take 200 (get_or [] text)))))"
proof -
  have hundred: "status div 100 = n \<longleftrightarrow> 100 * n \<le> status \<and> status < 100 * n + 100" for status n :: int
    using div_bounds [of 100 status] by auto
  have built: "before_request e"
    if "job_envelope ds now peer job = Inl e" for peer e
    using that by (auto simp: job_envelope_def Let_def split: if_splits option.splits sum.splits)
  show ?thesis
    using assms built
    by (auto simp: dispatchOutboxJob_def Let_def hundred split: option.splits if_splits sum.splits fetch_result.splits)
qed

section \<open>What arrives is accepted\<close>

lemma wire_text:
  "stringify v \<noteq> None \<Longrightarrow> stringify (wire v) = stringify v"
  "stringify_items vs \<noteq> None \<Longrightarrow> stringify_items (map wire vs) = stringify_items vs"
  "stringify_members ps \<noteq> None \<Longrightarrow>
   stringify_members (map (\<lambda>p. (fst p, wire (snd p))) (filter (\<lambda>p. snd p \<noteq> JUndefined) ps)) = stringify_members ps"
proof (induction v and vs and ps rule: stringify_stringify_items_stringify_members.induct)
  case (11 item items)
  then show ?case by (cases item) (auto split: option.splits if_splits)
next
  case (13 k v obj)
  have "wire v \<noteq> JUndefined" by (cases v) auto
  with 13 show ?case by (auto split: option.splits if_splits)
qed auto

lemma wire_canonical: "v \<noteq> JUndefined \<Longrightarrow> canonicalize v \<noteq> None \<Longrightarrow> canonicalize (wire v) = canonicalize v"
  by (cases "wire v = JUndefined") (auto simp: canonicalize_def wire_text elim!: wire.elims)

lemma wire_envelope:
  "env_payload e \<noteq> JUndefined \<Longrightarrow> wire (envelope_json e) = envelope_json (e\<lparr>env_payload := wire (env_payload e)\<rparr>)"
  by (simp add: envelope_json_def unsigned_members_def split: option.split)

definition rewired :: "outbox_job \<Rightarrow> outbox_job" where
  "rewired job = job\<lparr>job_payload := wire (job_payload job)\<rparr>"

text \<open>What arrives is what would have been built for the payload as it arrives.\<close>

lemma rewired_envelope:
  assumes e: "job_envelope ds now peer job = Inr e"
    and c: "canonicalize (wire (job_payload job)) = canonicalize (job_payload job)" "canonicalize (job_payload job) \<noteq> None"
  shows "job_envelope ds now peer (rewired job) = Inr (e\<lparr>env_payload := wire (job_payload job)\<rparr>)"
proof -
  have c': "canonicalize (wire (job_payload job)) \<noteq> None" using c by simp
  have bytes: "canonical_bytes (wire (job_payload job)) = canonical_bytes (job_payload job)"
    using c(1) by (rule canonical_bytes_payload)
  note step = sign_envelope_payload [OF _ c(1) c']
  show ?thesis
    using e step
    by (auto simp: job_envelope_def rewired_def job_input_def buildSingleLayerEnvelope_def buildTwoLayerMessageEnvelope_def
        bytes window_start_def window_end_def Let_def split: if_splits sum.splits option.splits)
qed

lemma single_window:
  "buildSingleLayerEnvelope now nonce (job_input ds peer job) sign = buildSignedEnvelope now nonce (job_input ds peer job) sign"
  by (simp add: buildSingleLayerEnvelope_def buildSignedEnvelope_def job_input_def window_start_def window_end_def)

text \<open>What the peer has to know and to allow for a job.\<close>

definition author_known :: "dispatcher \<Rightarrow> scheme \<Rightarrow> byte list \<Rightarrow> outbox_job \<Rightarrow> bool" where
  "author_known ds edVerify userKey job =
     (case job_preservedUserSignature job of
        None \<Rightarrow> (\<forall>sign. ds_userKey ds (job_authorUserId job) = Some sign \<longrightarrow> signs_for sign edVerify userKey)
      | Some s \<Rightarrow> s \<noteq> [] \<and> (\<forall>bytes. canonical_bytes (job_payload job) = Inr bytes \<longrightarrow>
          check_signature edVerify bytes s userKey = Inr True))"

definition expects_job :: "wire_schema \<Rightarrow> dispatcher \<Rightarrow> millis \<Rightarrow> millis \<Rightarrow> remote_instance_row \<Rightarrow> outbox_job \<Rightarrow> json \<Rightarrow> bool" where
  "expects_job z ds now later peer job p \<longleftrightarrow>
     job_payload job \<noteq> JUndefined \<and> canonicalize (job_payload job) \<noteq> None \<and>
     receivable z now later (ds_ulid ds) (job_input ds peer (rewired job)) p"

lemma dispatched_accepted:
  assumes e: "job_envelope ds now peer job = Inr e"
    and x: "expects_job z ds now later peer job p" and z: "reads_iso z" and s: "signs_for (ds_sign ds) edVerify instanceKey"
    and u: "author_known ds edVerify userKey job"
  shows "(if job_singleLayer job then verifyEnvelopeShape edVerify z later instanceKey (wire (envelope_json e))
     else verifyTwoLayerMessageEnvelope edVerify z later instanceKey userKey (wire (envelope_json e))) =
     Inr (Accepted (e\<lparr>env_payload := p\<rparr>))"
proof -
  let ?e = "e\<lparr>env_payload := wire (job_payload job)\<rparr>" and ?i = "job_input ds peer (rewired job)"
  have c: "canonicalize (wire (job_payload job)) = canonicalize (job_payload job)"
    using x wire_canonical by (simp add: expects_job_def)
  have r: "receivable z now later (ds_ulid ds) ?i p" and p: "canonicalize p = canonicalize (job_payload job)"
    using x c by (auto simp: expects_job_def receivable_def job_input_def rewired_def)
  have e': "job_envelope ds now peer (rewired job) = Inr ?e"
    using e c x by (intro rewired_envelope) (simp_all add: expects_job_def)
  have w: "wire (envelope_json e) = envelope_json ?e"
    using wire_envelope [of e] job_envelope_fields(3) [OF e] x by (simp add: expects_job_def)
  have same: "job_singleLayer (rewired job) = job_singleLayer job"
    "job_preservedUserSignature (rewired job) = job_preservedUserSignature job" "job_authorUserId (rewired job) = job_authorUserId job"
    by (simp_all add: rewired_def)
  show ?thesis
  proof (cases "job_singleLayer job")
    case True
    then have "buildSignedEnvelope now (ds_ulid ds) ?i (ds_sign ds) = Inr ?e"
      using e' by (auto simp: job_envelope_def Let_def same single_window split: if_splits sum.splits)
    from single_accepted [OF this s z r] True show ?thesis by (simp add: w)
  next
    case two: False
    show ?thesis
    proof (cases "job_preservedUserSignature job")
      case None
      then obtain sign where "ds_userKey ds (job_authorUserId job) = Some sign"
        and b: "buildTwoLayerMessageEnvelope now (ds_ulid ds) ?i (Some sign) None (ds_sign ds) = Inr ?e"
        using e' two by (auto simp: job_envelope_def Let_def same split: if_splits sum.splits option.splits)
      then have "signs_for sign edVerify userKey" using u None by (simp add: author_known_def)
      from two_layer_accepted [OF b this s z r] two show ?thesis by (simp add: w)
    next
      case (Some us)
      then have b: "buildTwoLayerMessageEnvelope now (ds_ulid ds) ?i None (Some us) (ds_sign ds) = Inr ?e"
        using e' two by (auto simp: job_envelope_def Let_def same split: if_splits sum.splits option.splits)
      obtain bytes where bytes: "canonical_bytes (job_payload job) = Inr bytes"
        using x by (auto simp: expects_job_def canonical_bytes_def)
      have "us \<noteq> []" "check_signature edVerify bytes us userKey = Inr True"
        using u Some bytes by (simp_all add: author_known_def)
      from relay_accepted [OF b this(1) _ this(2) s z r] canonical_bytes_payload [OF p] bytes two
      show ?thesis by (simp add: w)
    qed
  qed
qed

section \<open>Properties\<close>

text \<open>
  The patterns for private addresses are the private ranges: the dotted form of an address is
  recognised exactly if the address is in 127/8, 10/8, 172.16/12, 192.168/16 or 169.254/16, and a host name that
  resolves to such dotted forms only is refused unless it resolves to nothing.
\<close>

theorem private_addresses_exact:
  assumes "rs_resolve4 rs host = Some (map (\<lambda>(a, b, c, d). dotted a b c d) quads)" "rs_resolve6 rs host = None"
    and "list_all (\<lambda>(a, b, c, d). b < 256) quads"
  shows "filter isPrivateIp (map (\<lambda>(a, b, c, d). dotted a b c d) quads) =
      map (\<lambda>(a, b, c, d). dotted a b c d) (filter (\<lambda>(a, b, c, d). private_range a b) quads) \<and>
    (assertValidPeerHost rs host = Inr () \<longrightarrow> quads = [] \<or> list_ex (\<lambda>(a, b, c, d). \<not> private_range a b) quads)"
proof
  have p: "isPrivateIp (dotted a b c d) = private_range a b" if "(a, b, c, d) \<in> set quads" for a b c d
    using assms(3) that by (intro private_dotted) (auto simp: list_all_iff)
  then show "filter isPrivateIp (map (\<lambda>(a, b, c, d). dotted a b c d) quads) =
      map (\<lambda>(a, b, c, d). dotted a b c d) (filter (\<lambda>(a, b, c, d). private_range a b) quads)"
    by (auto simp: filter_map intro!: arg_cong [where f = "map _"] filter_cong)
  show "assertValidPeerHost rs host = Inr () \<longrightarrow> quads = [] \<or> list_ex (\<lambda>(a, b, c, d). \<not> private_range a b) quads"
    using p by (auto simp: assertValidPeerHost_def assms(1,2) Let_def list_all_iff list_ex_iff split: if_splits)
qed

theorem private_addresses_exact_witness:
  "filter isPrivateIp [dotted 172 31 0 1, dotted 172 32 0 1] = [dotted 172 31 0 1]"
  using private_addresses_exact [of "\<lparr>rs_resolve4 = (\<lambda>h. Some [dotted 172 31 0 1, dotted 172 32 0 1]), rs_resolve6 = (\<lambda>h. None)\<rparr>"
      "''h''" "[(172, 31, 0, 1), (172, 32, 0, 1)]"]
  by (simp add: private_range_def)

text \<open>Some addresses and hosts that are not recognised.\<close>

lemma guard_gaps:
  "\<not> isPrivateIp (dotted 0 0 0 0)" "\<not> isPrivateIp (dotted 100 64 0 1)"
  "assertValidPeerHost \<lparr>rs_resolve4 = (\<lambda>h. None), rs_resolve6 = (\<lambda>h. None)\<rparr> ''127.1'' = Inr ()"
  "assertValidPeerHost \<lparr>rs_resolve4 = (\<lambda>h. None), rs_resolve6 = (\<lambda>h. None)\<rparr> ''localhost.'' = Inr ()"
  by (simp_all add: private_dotted private_range_def)
    (simp_all add: assertValidPeerHost_def bare_ipv4_def after_digits_def expect_def is_digit_def toLowerCase_def lower_char_def ends_def Let_def)

text \<open>
  A request is made only for a peer in state peered whose host passed the guard, to the event address of that
  host, with an envelope from this instance to that host that carries the payload of the job; then the
  job is delivered exactly for a status of 2xx, fails for good exactly for 4xx, and everything else
  (another status, the network) is an error that is retried. Without a request the job is dropped or fails.
\<close>

theorem dispatch_exact:
  assumes "dispatchOutboxJob ds d now job = (res, req)"
  shows "case req of
      None \<Rightarrow> res = DroppedNotFound \<or> res = DroppedNotPeered \<or> (\<exists>e. res = Threw e \<and> before_request e)
    | Some (url, body) \<Rightarrow>
        (\<exists>peer e. find_instance_row d (job_peerInstanceId job) = Some peer \<and> rin_status peer = Peered \<and>
           assertValidPeerHost (ds_resolver ds) (rin_host peer) = Inr () \<and> url = event_url (rin_host peer) \<and>
           body = wire (envelope_json e) \<and> env_fromInstance e = ds_selfHost ds \<and> env_toInstance e = rin_host peer \<and>
           env_payload e = job_payload job \<and> (env_userSignature e = None \<longleftrightarrow> job_singleLayer job)) \<and>
        (case ds_fetch ds url body of
           NetworkError m \<Rightarrow> res = Threw (NetworkFailure m)
         | Response status text v \<Rightarrow>
             res = (if status div 100 = 2 then Delivered
                    else if status div 100 = 4 then Threw (PermanentStatus status (take 200 (get_or [] text)))
                    else Threw (RetryableStatus status (take 200 (get_or [] text)))))"
proof (cases req)
  case None
  then show ?thesis
    using dispatch_result_cases [OF assms] by simp
next
  case (Some r)
  obtain url body where r: "r = (url, body)" by (cases r)
  with Some have d: "dispatchOutboxJob ds d now job = (res, Some (url, body))" using assms by simp
  obtain peer e where p: "find_instance_row d (job_peerInstanceId job) = Some peer" "rin_status peer = Peered"
      "assertValidPeerHost (ds_resolver ds) (rin_host peer) = Inr ()" "url = event_url (rin_host peer)" "body = wire (envelope_json e)"
      and e: "job_envelope ds now peer job = Inr e"
    using dispatch_request [OF d] by metis
  have "\<exists>peer e. find_instance_row d (job_peerInstanceId job) = Some peer \<and> rin_status peer = Peered \<and>
           assertValidPeerHost (ds_resolver ds) (rin_host peer) = Inr () \<and> url = event_url (rin_host peer) \<and>
           body = wire (envelope_json e) \<and> env_fromInstance e = ds_selfHost ds \<and> env_toInstance e = rin_host peer \<and>
           env_payload e = job_payload job \<and> (env_userSignature e = None \<longleftrightarrow> job_singleLayer job)"
    by (intro exI conjI) (rule p job_envelope_fields [OF e])+
  then show ?thesis
    using dispatch_result_cases [OF d] unfolding Some r option.case prod.case by (rule conjI)
qed

definition sample_peer :: remote_instance_row where
  "sample_peer = \<lparr>rin_id = ''P'', rin_host = ''c.d'', rin_status = Peered, rin_capabilities = [''messages''],
     rin_instanceKey = sample_key 9, rin_previousInstanceKey = None\<rparr>"

definition sample_job :: outbox_job where
  "sample_job = \<lparr>job_messageId = ''m'', job_peerInstanceId = ''P'', job_eventType = ''message.create'',
     job_payload = JObj [(''k'', JNum 1)], job_nonce = None, job_authorUserId = ''u'', job_preservedUserSignature = None, job_singleLayer = False\<rparr>"

definition sample_dispatcher :: dispatcher where
  "sample_dispatcher = \<lparr>ds_selfHost = ''a.b'', ds_sign = sample_signer, ds_userKey = (\<lambda>u. Some sample_user_signer),
     ds_resolver = \<lparr>rs_resolve4 = (\<lambda>h. None), rs_resolve6 = (\<lambda>h. None)\<rparr>, ds_fetch = (\<lambda>u b. Response 503 None (Inl [])),
     ds_ulid = replicate 20 (CHR ''A'')\<rparr>"

lemma sample_dispatch:
  "job_envelope sample_dispatcher 0 sample_peer sample_job = Inr sample_envelope"
  "job_input sample_dispatcher sample_peer (rewired sample_job) = sample_input"
  "signs_for (ds_sign sample_dispatcher) sample_scheme (sample_key 1)"
  "author_known sample_dispatcher sample_scheme (sample_key 2) sample_job"
  "ds_ulid sample_dispatcher = replicate 20 (CHR ''A'')"
  using sample_signs sample_built
  by (simp_all add: job_envelope_def job_input_def sample_dispatcher_def sample_peer_def sample_job_def sample_input_def
      rewired_def author_known_def)

lemma sample_host: "assertValidPeerHost (ds_resolver sample_dispatcher) ''c.d'' = Inr ()"
  by (simp add: sample_dispatcher_def assertValidPeerHost_def bare_ipv4_def after_digits_def is_digit_def toLowerCase_def
      lower_char_def ends_def Let_def)

theorem dispatch_exact_witness:
  "dispatchOutboxJob sample_dispatcher (empty_db\<lparr>db_remote_instances := [sample_peer]\<rparr>) 0 sample_job =
     (Threw (RetryableStatus 503 []), Some (''https://c.d/_federation/event'', wire (envelope_json sample_envelope))) \<and>
   env_toInstance sample_envelope = ''c.d''"
proof -
  have "dispatchOutboxJob sample_dispatcher (empty_db\<lparr>db_remote_instances := [sample_peer]\<rparr>) 0 sample_job =
     (Threw (RetryableStatus 503 []), Some (''https://c.d/_federation/event'', wire (envelope_json sample_envelope)))"
    using sample_host sample_dispatch(1)
    by (simp add: dispatchOutboxJob_def find_instance_row_def sample_peer_def sample_job_def event_url_def sample_dispatcher_def)
  with dispatch_exact [OF this] show ?thesis
    by (simp add: sample_envelope_def)
qed

text \<open>
  What is dispatched is accepted. If the peer knows the key of this instance and the key of the
  author (for a relayed job: the author's signature of the payload verifies), and its schema and clock allow the
  payload as it arrives, then the body of every request the dispatcher makes verifies there, in the form
  the job asks for, and yields the payload of the job up to what its text shows.
\<close>

theorem dispatched_envelope_accepted:
  assumes "dispatchOutboxJob ds d now job = (res, Some (url, body))"
    and "find_instance_row d (job_peerInstanceId job) = Some peer"
    and "signs_for (ds_sign ds) edVerify instanceKey" and "author_known ds edVerify userKey job"
    and "reads_iso z" and "expects_job z ds now later peer job p"
  shows "\<exists>env. env_payload env = p \<and> normal p = normal (job_payload job) \<and> env_fromInstance env = ds_selfHost ds \<and>
    env_toInstance env = rin_host peer \<and>
    (if job_singleLayer job then verifyEnvelopeShape edVerify z later instanceKey body
     else verifyTwoLayerMessageEnvelope edVerify z later instanceKey userKey body) = Inr (Accepted env)"
proof -
  obtain e where e: "job_envelope ds now peer job = Inr e" "body = wire (envelope_json e)"
    using dispatch_request [OF assms(1)] assms(2) by (metis option.inject)
  have "canonicalize (wire (job_payload job)) = canonicalize (job_payload job)" "canonicalize (job_payload job) \<noteq> None"
    "canonicalize p = canonicalize (wire (job_payload job))"
    using assms(6) wire_canonical by (auto simp: expects_job_def receivable_def job_input_def rewired_def)
  then have "normal p = normal (job_payload job)"
    using canonicalize_eq_iff by metis
  then show ?thesis
    using dispatched_accepted [OF e(1) assms(6,5,3,4)] job_envelope_fields [OF e(1)] unfolding e(2)
    by (intro exI [of _ "e\<lparr>env_payload := p\<rparr>"]) simp
qed

theorem dispatched_envelope_accepted_witness:
  "\<exists>env. env_payload env = JObj [(''k'', JNum 1)] \<and>
     verifyTwoLayerMessageEnvelope sample_scheme sample_schema 5 (sample_key 1) (sample_key 2) (wire (envelope_json sample_envelope)) =
       Inr (Accepted env)"
proof -
  let ?d = "empty_db\<lparr>db_remote_instances := [sample_peer]\<rparr>"
  have d: "dispatchOutboxJob sample_dispatcher ?d 0 sample_job =
     (Threw (RetryableStatus 503 []), Some (''https://c.d/_federation/event'', wire (envelope_json sample_envelope)))"
    using sample_host sample_dispatch(1)
    by (simp add: dispatchOutboxJob_def find_instance_row_def sample_peer_def sample_job_def event_url_def sample_dispatcher_def)
  have "find_instance_row ?d (job_peerInstanceId sample_job) = Some sample_peer"
    by (simp add: find_instance_row_def sample_peer_def sample_job_def)
  moreover have "expects_job sample_schema sample_dispatcher 0 5 sample_peer sample_job (JObj [(''k'', JNum 1)])"
    unfolding expects_job_def sample_dispatch(2,5) using sample_receivable(2) by (simp add: sample_job_def canonicalize_def)
  ultimately show ?thesis
    using dispatched_envelope_accepted [OF d _ sample_dispatch(3,4) sample_receivable(1)] by (force simp: sample_job_def)
qed

text \<open>
  The synchronous exchange believes the peer only. If the messages whose signatures verify under the
  key of the peer are the envelopes it has sent, a payload that is returned is the payload of a
  single-layer envelope the peer sent from the host that was asked to this instance, in its window.
\<close>

theorem sync_reply_was_signed:
  assumes "\<And>m s. edVerify m s peerKey \<Longrightarrow> \<exists>e \<in> sent. envelopeSigningBytes e = Inr m"
    and "postFederationEventSync edVerify z rs fetch now selfHost peerHost peerKey path envelope = Inr (SyncOk payload)"
  shows "\<exists>e \<in> sent. normal (env_payload e) = normal payload \<and> env_fromInstance e = peerHost \<and> env_toInstance e = selfHost \<and>
    env_userSignature e = None \<and> in_window now e \<and> assertValidPeerHost rs peerHost = Inr ()"
proof -
  obtain env body bytes where env: "parse_wire z False body = Some env" "env_toInstance env = selfHost" "env_fromInstance env = peerHost"
    "after_window_rejected now env = None" "envelopeSigningBytes env = Inr bytes" "edVerify bytes (base64_bytes (env_signature env)) peerKey"
    "payload = env_payload env" "assertValidPeerHost rs peerHost = Inr ()"
    using assms(2)
    by (auto simp: postFederationEventSync_def check_signature_def Let_def
        split: sum.splits fetch_result.splits if_splits option.splits)
  obtain e where e: "e \<in> sent" "envelopeSigningBytes e = Inr bytes"
    using assms(1) [OF env(6)] by blast
  have "same_content e env" using e(2) env(5) by (rule signing_bytes_inj)
  then show ?thesis
    using e(1) env parse_wireD(3) [OF env(1)] window_not_rejected
    by (intro bexI [of _ e]) (auto simp: same_content_def in_window_def)
qed

definition sample_reply :: envelope where
  "sample_reply = sample_envelope\<lparr>env_fromInstance := ''c.d'', env_toInstance := ''a.b'', env_userSignature := None\<rparr>"

definition reply_scheme :: scheme where
  "reply_scheme m s k \<longleftrightarrow> envelopeSigningBytes sample_reply = Inr m"

theorem sync_reply_was_signed_witness:
  "postFederationEventSync reply_scheme sample_schema (ds_resolver sample_dispatcher)
     (\<lambda>u b. Response 200 None (Inr (envelope_json sample_reply))) 5 ''a.b'' ''c.d'' (sample_key 3) None JNull =
     Inr (SyncOk (JObj [(''k'', JNum 1)])) \<and>
   (\<exists>e \<in> {sample_reply}. in_window 5 e)"
proof -
  obtain nb na where iso: "toISOString 0 = Some nb" "toISOString 300000 = Some na"
    using toISOString_some [of 0] toISOString_some [of 300000] by (auto simp: MAX_TIME_def)
  then have d: "Date_parse (env_notBefore sample_reply) = Some 0" "Date_parse (env_notAfter sample_reply) = Some 300000"
    by (simp_all add: sample_reply_def sample_envelope_def iso_roundtrip)
  have same: "sample_reply\<lparr>env_payload := JObj [(''k'', JNum 1)]\<rparr> = sample_reply"
    by (simp add: sample_reply_def sample_envelope_def)
  have "parse_wire sample_schema False (envelope_json sample_reply) = Some (sample_reply\<lparr>env_payload := JObj [(''k'', JNum 1)]\<rparr>)"
    by (rule parse_wire_own [where us = "''x''"])
      (simp_all add: sample_reply_def sample_envelope_def sample_schema_def ENVELOPE_EVENT_TYPES_def nonce_ok_def host_ok_def
        list_all_iff base64_text_nonempty)
  then have parse: "parse_wire sample_schema False (envelope_json sample_reply) = Some sample_reply"
    unfolding same .
  have bytes: "\<exists>bytes. envelopeSigningBytes sample_reply = Inr bytes"
    by (simp add: envelopeSigningBytes_def canonical_bytes_def canonicalize_def stringify_prints(1) unsigned_members_def
        sample_reply_def sample_envelope_def)
  have f: "env_toInstance sample_reply = ''a.b''" "env_fromInstance sample_reply = ''c.d''" "env_payload sample_reply = JObj [(''k'', JNum 1)]"
    by (simp_all add: sample_reply_def sample_envelope_def)
  have "after_window_rejected 5 sample_reply = None"
    by (simp add: window_not_rejected in_window_def d)
  then have "postFederationEventSync reply_scheme sample_schema (ds_resolver sample_dispatcher)
     (\<lambda>u b. Response 200 None (Inr (envelope_json sample_reply))) 5 ''a.b'' ''c.d'' (sample_key 3) None JNull =
     Inr (SyncOk (JObj [(''k'', JNum 1)]))"
    using bytes sample_keys(2)
    by (auto simp: postFederationEventSync_def sample_host parse f date_le_def d check_signature_def reply_scheme_def)
  moreover from this have "\<exists>e \<in> {sample_reply}. in_window 5 e"
    using sync_reply_was_signed [of reply_scheme "sample_key 3" "{sample_reply}"] by (fastforce simp: reply_scheme_def)
  ultimately show ?thesis ..
qed

end
