(* ===== verification/FederationKeys.thy ===== *)
theory FederationKeys
  imports Bytes
begin

text \<open>
  The signing keys and how they are stored (packages/federation/src/at-rest.ts, federation-keys.ts,
  user-keys.ts). AES-GCM, the generation of key pairs and random nonces are arguments; a private key
  stands for its PKCS8 bytes. Each method is split at its await: what it reads may be stale when it writes.
\<close>

section \<open>Encryption at rest\<close>

record gcm =
  gc_encrypt :: "byte list \<Rightarrow> byte list \<Rightarrow> byte list \<Rightarrow> byte list \<times> byte list"   \<comment> \<open>key, nonce, plaintext; ciphertext and tag\<close>
  gc_decrypt :: "byte list \<Rightarrow> byte list \<Rightarrow> byte list \<Rightarrow> byte list \<Rightarrow> byte list option"  \<comment> \<open>key, nonce, tag, ciphertext\<close>

definition gcm_ok :: "gcm \<Rightarrow> bool" where
  "gcm_ok g \<longleftrightarrow> (\<forall>k n p. length (snd (gc_encrypt g k n p)) = 16 \<and>
     gc_decrypt g k n (snd (gc_encrypt g k n p)) (fst (gc_encrypt g k n p)) = Some p)"

datatype key_error = KeyMustBe32 | TooShort | UnknownVersion byte | AuthenticationFailed | NoKeypair string | NotBootstrapped

definition VERSION :: byte where "VERSION = 1"
definition NONCE_LEN :: nat where "NONCE_LEN = 12"
definition TAG_LEN :: nat where "TAG_LEN = 16"

definition encryptAtRest :: "gcm \<Rightarrow> byte list \<Rightarrow> byte list \<Rightarrow> byte list \<Rightarrow> key_error + byte list" where
  "encryptAtRest g nonce plaintext dataKey =
     (if length dataKey \<noteq> 32 then Inl KeyMustBe32
      else let (ct, tag) = gc_encrypt g dataKey nonce plaintext in Inr ([VERSION] @ nonce @ tag @ ct))"

definition decryptAtRest :: "gcm \<Rightarrow> byte list \<Rightarrow> byte list \<Rightarrow> key_error + byte list" where
  "decryptAtRest g blob dataKey =
     (if length dataKey \<noteq> 32 then Inl KeyMustBe32
      else if length blob < 1 + NONCE_LEN + TAG_LEN then Inl TooShort
      else if blob ! 0 \<noteq> VERSION then Inl (UnknownVersion (blob ! 0))
      else
        let nonce = take NONCE_LEN (drop 1 blob);
            tag = take TAG_LEN (drop (1 + NONCE_LEN) blob);
            ct = drop (1 + NONCE_LEN + TAG_LEN) blob
        in case gc_decrypt g dataKey nonce tag ct of None \<Rightarrow> Inl AuthenticationFailed | Some p \<Rightarrow> Inr p)"

lemma decrypt_encrypt:
  assumes "gcm_ok g" "length nonce = 12" "encryptAtRest g nonce p k = Inr blob"
  shows "decryptAtRest g blob k = Inr p"
proof -
  obtain ct tag where e: "gc_encrypt g k nonce p = (ct, tag)" by (cases "gc_encrypt g k nonce p")
  have t: "length tag = 16" "gc_decrypt g k nonce tag ct = Some p"
    using assms(1) e unfolding gcm_ok_def by (metis fst_conv snd_conv)+
  show ?thesis
    using assms(2,3) t by (auto simp: encryptAtRest_def decryptAtRest_def e NONCE_LEN_def TAG_LEN_def split: if_splits)
qed

section \<open>Stores\<close>

record federation_key_row =
  fk_id :: string
  fk_isCurrent :: bool
  fk_publicKey :: "byte list"
  fk_privateKey :: "byte list"
  fk_createdAt :: millis

record user_key_row =
  uk_id :: ident
  uk_public :: "byte list option"
  uk_private :: "byte list option"

record loaded_key =
  lk_id :: string
  lk_publicKeyRaw :: "byte list"
  lk_privateKey :: "byte list"

text \<open>The tables, what each process has loaded, and how many pairs have been generated.\<close>

record key_world =
  kw_keys :: "federation_key_row list"
  kw_users :: "user_key_row list"
  kw_current :: "nat \<Rightarrow> loaded_key option"
  kw_generated :: nat

record key_env =
  ke_gcm :: gcm
  ke_dataKey :: "byte list"
  ke_pair :: "nat \<Rightarrow> byte list \<times> byte list"   \<comment> \<open>public and private half of the n-th pair\<close>
  ke_nonce :: "nat \<Rightarrow> byte list"
  ke_ulid :: "nat \<Rightarrow> string"

text \<open>The newest current key.\<close>

definition find_current :: "key_world \<Rightarrow> federation_key_row option" where
  "find_current w =
     (case sort_key (\<lambda>r. - fk_createdAt r) (filter fk_isCurrent (kw_keys w)) of [] \<Rightarrow> None | r # rs \<Rightarrow> Some r)"

definition set_current :: "nat \<Rightarrow> loaded_key \<Rightarrow> key_world \<Rightarrow> key_world" where
  "set_current p k w = w\<lparr>kw_current := (kw_current w)(p := Some k)\<rparr>"

text \<open>\<open>bootstrap\<close> after its query: \<open>existing\<close> is what the query found.\<close>

definition bootstrap_finish ::
  "key_env \<Rightarrow> millis \<Rightarrow> nat \<Rightarrow> federation_key_row option \<Rightarrow> key_world \<Rightarrow> (key_error + unit) \<times> key_world" where
  "bootstrap_finish env now p existing w =
     (case existing of
        Some row \<Rightarrow>
          (case decryptAtRest (ke_gcm env) (fk_privateKey row) (ke_dataKey env) of
             Inl e \<Rightarrow> (Inl e, w)
           | Inr pkcs8 \<Rightarrow>
               (Inr (), set_current p \<lparr>lk_id = fk_id row, lk_publicKeyRaw = fk_publicKey row, lk_privateKey = pkcs8\<rparr> w))
      | None \<Rightarrow>
          let n = kw_generated w; (pub, pkcs8) = ke_pair env n; w = w\<lparr>kw_generated := n + 1\<rparr>
          in case encryptAtRest (ke_gcm env) (ke_nonce env n) pkcs8 (ke_dataKey env) of
               Inl e \<Rightarrow> (Inl e, w)
             | Inr encrypted \<Rightarrow>
                 let row = \<lparr>fk_id = ke_ulid env n, fk_isCurrent = True, fk_publicKey = pub, fk_privateKey = encrypted,
                       fk_createdAt = now\<rparr>
                 in (Inr (), set_current p \<lparr>lk_id = ke_ulid env n, lk_publicKeyRaw = pub, lk_privateKey = pkcs8\<rparr>
                       (w\<lparr>kw_keys := kw_keys w @ [row]\<rparr>)))"

definition keys_bootstrap :: "key_env \<Rightarrow> millis \<Rightarrow> nat \<Rightarrow> key_world \<Rightarrow> (key_error + unit) \<times> key_world" where
  "keys_bootstrap env now p w =
     (if kw_current w p \<noteq> None then (Inr (), w) else bootstrap_finish env now p (find_current w) w)"

definition store_sign :: "(byte list \<Rightarrow> byte list \<Rightarrow> byte list) \<Rightarrow> nat \<Rightarrow> byte list \<Rightarrow> key_world \<Rightarrow> key_error + byte list" where
  "store_sign edSign p message w =
     (case kw_current w p of None \<Rightarrow> Inl NotBootstrapped | Some k \<Rightarrow> Inr (edSign message (lk_privateKey k)))"

definition getPublicKeyRaw :: "nat \<Rightarrow> key_world \<Rightarrow> key_error + byte list" where
  "getPublicKeyRaw p w = (case kw_current w p of None \<Rightarrow> Inl NotBootstrapped | Some k \<Rightarrow> Inr (lk_publicKeyRaw k))"

definition getPublicKeyAdvertised :: "nat \<Rightarrow> key_world \<Rightarrow> key_error + string" where
  "getPublicKeyAdvertised p w =
     (case getPublicKeyRaw p w of Inl e \<Rightarrow> Inl e | Inr raw \<Rightarrow> Inr (''ed25519:'' @ base64_text raw))"

subsection \<open>Keys of users\<close>

definition find_user_keys :: "key_world \<Rightarrow> ident \<Rightarrow> user_key_row option" where
  "find_user_keys w u = List.find (\<lambda>r. uk_id r = u) (kw_users w)"

definition has_public :: "user_key_row option \<Rightarrow> bool" where
  "has_public existing = (case existing of Some r \<Rightarrow> uk_public r \<noteq> None | None \<Rightarrow> False)"

definition ensureKeyFor_finish :: "key_env \<Rightarrow> ident \<Rightarrow> user_key_row option \<Rightarrow> key_world \<Rightarrow> (key_error + unit) \<times> key_world" where
  "ensureKeyFor_finish env u existing w =
     (if has_public existing then (Inr (), w)
      else
        let n = kw_generated w; (pub, pkcs8) = ke_pair env n; w = w\<lparr>kw_generated := n + 1\<rparr>
        in case encryptAtRest (ke_gcm env) (ke_nonce env n) pkcs8 (ke_dataKey env) of
             Inl e \<Rightarrow> (Inl e, w)
           | Inr encrypted \<Rightarrow>
               (Inr (), w\<lparr>kw_users := update_where (\<lambda>r. uk_id r = u)
                  (\<lambda>r. r\<lparr>uk_public := Some pub, uk_private := Some encrypted\<rparr>) (kw_users w)\<rparr>))"

definition ensureKeyFor :: "key_env \<Rightarrow> ident \<Rightarrow> key_world \<Rightarrow> (key_error + unit) \<times> key_world" where
  "ensureKeyFor env u w = ensureKeyFor_finish env u (find_user_keys w u) w"

definition loadKeyFor :: "key_env \<Rightarrow> ident \<Rightarrow> key_world \<Rightarrow> key_error + byte list \<times> byte list" where
  "loadKeyFor env u w =
     (case find_user_keys w u of
        None \<Rightarrow> Inl (NoKeypair u)
      | Some row \<Rightarrow>
          (case (uk_public row, uk_private row) of
             (Some pub, Some priv) \<Rightarrow>
               (case decryptAtRest (ke_gcm env) priv (ke_dataKey env) of Inl e \<Rightarrow> Inl e | Inr pkcs8 \<Rightarrow> Inr (pub, pkcs8))
           | _ \<Rightarrow> Inl (NoKeypair u)))"

definition getUserPublicKeyRaw :: "ident \<Rightarrow> key_world \<Rightarrow> byte list option" where
  "getUserPublicKeyRaw u w = (case find_user_keys w u of None \<Rightarrow> None | Some r \<Rightarrow> uk_public r)"

section \<open>The halves of a pair stay together\<close>

text \<open>Steps of several processes; the rows they act on were read at any earlier time.\<close>

datatype key_op =
    BootstrapFinish nat "federation_key_row option"
  | EnsureFinish ident "user_key_row option"

text \<open>What is known of a state: each row has both halves of one generated pair, as has what each process loaded.\<close>

definition sealed_pair :: "key_env \<Rightarrow> byte list \<Rightarrow> byte list \<Rightarrow> bool" where
  "sealed_pair env pub blob \<longleftrightarrow> (\<exists>i. fst (ke_pair env i) = pub \<and> decryptAtRest (ke_gcm env) blob (ke_dataKey env) = Inr (snd (ke_pair env i)))"

definition user_sealed :: "key_env \<Rightarrow> user_key_row \<Rightarrow> bool" where
  "user_sealed env r \<longleftrightarrow>
     (case (uk_public r, uk_private r) of (None, None) \<Rightarrow> True | (Some pub, Some blob) \<Rightarrow> sealed_pair env pub blob | _ \<Rightarrow> False)"

definition keys_ok :: "key_env \<Rightarrow> key_world \<Rightarrow> bool" where
  "keys_ok env w \<longleftrightarrow>
     (\<forall>r \<in> set (kw_keys w). sealed_pair env (fk_publicKey r) (fk_privateKey r)) \<and>
     (\<forall>r \<in> set (kw_users w). user_sealed env r) \<and>
     (\<forall>p k. kw_current w p = Some k \<longrightarrow> (\<exists>i. ke_pair env i = (lk_publicKeyRaw k, lk_privateKey k)))"

text \<open>Rows of keys are never removed or changed, so a row that was read is still there.\<close>

fun key_step :: "key_env \<Rightarrow> key_world \<Rightarrow> millis \<times> key_op \<Rightarrow> key_world" where
  "key_step env w (now, BootstrapFinish p existing) =
     (if (case existing of None \<Rightarrow> True | Some r \<Rightarrow> r \<in> set (kw_keys w))
      then snd (bootstrap_finish env now p existing w) else w)"
| "key_step env w (now, EnsureFinish u existing) = snd (ensureKeyFor_finish env u existing w)"

definition env_ok :: "key_env \<Rightarrow> bool" where
  "env_ok env \<longleftrightarrow> gcm_ok (ke_gcm env) \<and> (\<forall>n. length (ke_nonce env n) = 12)"

lemma seals:
  assumes "env_ok env" "encryptAtRest (ke_gcm env) (ke_nonce env n) (snd (ke_pair env n)) (ke_dataKey env) = Inr blob"
  shows "sealed_pair env (fst (ke_pair env n)) blob"
  using decrypt_encrypt assms unfolding sealed_pair_def env_ok_def by blast

lemma keys_ok_step:
  assumes e: "env_ok env" and w: "keys_ok env w"
  shows "keys_ok env (key_step env w op)"
proof -
  obtain now a where op: "op = (now, a)" by (cases op)
  show ?thesis
  proof (cases a)
    case (BootstrapFinish p existing)
    have "keys_ok env (snd (bootstrap_finish env now p existing w))"
      if "existing = None \<or> (\<exists>r \<in> set (kw_keys w). existing = Some r)"
    proof (cases existing)
      case None
      obtain pub priv where pr: "ke_pair env (kw_generated w) = (pub, priv)" by (cases "ke_pair env (kw_generated w)")
      then show ?thesis
        using w seals [OF e, of "kw_generated w"] None
        by (auto simp: bootstrap_finish_def Let_def keys_ok_def set_current_def split: sum.splits)
    next
      case (Some r)
      then have "sealed_pair env (fk_publicKey r) (fk_privateKey r)" using w that by (auto simp: keys_ok_def)
      then obtain i where "ke_pair env i = (fk_publicKey r, snd (ke_pair env i))"
          "decryptAtRest (ke_gcm env) (fk_privateKey r) (ke_dataKey env) = Inr (snd (ke_pair env i))"
        unfolding sealed_pair_def by (metis prod.collapse)
      then show ?thesis
        using w Some by (auto simp: bootstrap_finish_def keys_ok_def set_current_def)
    qed
    then show ?thesis using w by (auto simp: op BootstrapFinish split: option.splits)
  next
    case (EnsureFinish u existing)
    obtain pub priv where pr: "ke_pair env (kw_generated w) = (pub, priv)" by (cases "ke_pair env (kw_generated w)")
    show ?thesis
    proof (cases "encryptAtRest (ke_gcm env) (ke_nonce env (kw_generated w)) priv (ke_dataKey env)")
      case (Inl x)
      then show ?thesis using w pr by (auto simp: op EnsureFinish ensureKeyFor_finish_def Let_def keys_ok_def)
    next
      case (Inr blob)
      then have s: "sealed_pair env pub blob" using seals [OF e, of "kw_generated w"] pr by simp
      have "user_sealed env r" if "r \<in> set (update_where (\<lambda>r. uk_id r = u)
           (\<lambda>r. r\<lparr>uk_public := Some pub, uk_private := Some blob\<rparr>) (kw_users w))" for r
        using that by (rule set_update_whereE) (use w s in \<open>auto simp: user_sealed_def keys_ok_def\<close>)
      then show ?thesis
        using w pr Inr by (auto simp: op EnsureFinish ensureKeyFor_finish_def Let_def keys_ok_def)
    qed
  qed
qed

interpretation key_runs: stepping "\<lambda>w op. if env_ok env then key_step env w op else w" "keys_ok env" for env
  by unfold_locales (simp add: keys_ok_step)

lemma keys_ok_run: "env_ok env \<Longrightarrow> keys_ok env w \<Longrightarrow> keys_ok env (foldl (key_step env) w ops)"
  using key_runs.inv_run [of env w ops] by simp

text \<open>
  Public and private halves stay together. However bootstraps of any number of processes and
  provisionings of users interleave, each acting on rows it may have read long before, the key a
  process advertises belongs to the key it signs with, and a user whose public key is stored can be
  loaded, with the private half of the same generated pair.
\<close>

theorem halves_stay_together:
  assumes "env_ok env" and "keys_ok env w" and "w' = foldl (key_step env) w ops"
  shows "(\<forall>p pub. getPublicKeyRaw p w' = Inr pub \<longrightarrow>
      (\<exists>i. fst (ke_pair env i) = pub \<and> (\<forall>edSign m. store_sign edSign p m w' = Inr (edSign m (snd (ke_pair env i)))))) \<and>
    (\<forall>u pub. getUserPublicKeyRaw u w' = Some pub \<longrightarrow> (\<exists>i. loadKeyFor env u w' = Inr (pub, snd (ke_pair env i)) \<and> fst (ke_pair env i) = pub))"
proof (intro conjI allI impI)
  have ok: "keys_ok env w'"
    using keys_ok_run assms by blast
  fix p pub
  assume "getPublicKeyRaw p w' = Inr pub"
  then obtain k where k: "kw_current w' p = Some k" "lk_publicKeyRaw k = pub"
    by (auto simp: getPublicKeyRaw_def split: option.splits)
  then obtain i where "ke_pair env i = (pub, lk_privateKey k)"
    using ok unfolding keys_ok_def by metis
  then show "\<exists>i. fst (ke_pair env i) = pub \<and> (\<forall>edSign m. store_sign edSign p m w' = Inr (edSign m (snd (ke_pair env i))))"
    using k by (intro exI [of _ i]) (simp add: store_sign_def)
next
  have ok: "keys_ok env w'"
    using keys_ok_run assms by blast
  fix u pub
  assume "getUserPublicKeyRaw u w' = Some pub"
  then obtain r where r: "find_user_keys w' u = Some r" "uk_public r = Some pub"
    by (auto simp: getUserPublicKeyRaw_def split: option.splits)
  then have "user_sealed env r"
    using ok find_in_set unfolding keys_ok_def find_user_keys_def by metis
  then obtain blob where b: "uk_private r = Some blob" "sealed_pair env pub blob"
    using r(2) by (auto simp: user_sealed_def split: option.splits)
  then obtain i where "fst (ke_pair env i) = pub" "decryptAtRest (ke_gcm env) blob (ke_dataKey env) = Inr (snd (ke_pair env i))"
    by (auto simp: sealed_pair_def)
  then show "\<exists>i. loadKeyFor env u w' = Inr (pub, snd (ke_pair env i)) \<and> fst (ke_pair env i) = pub"
    using r b by (intro exI [of _ i]) (simp add: loadKeyFor_def)
qed

definition sample_key_env :: key_env where
  "sample_key_env = \<lparr>ke_gcm = \<lparr>gc_encrypt = (\<lambda>k n p. (p, replicate 16 0)), gc_decrypt = (\<lambda>k n t c. Some c)\<rparr>,
     ke_dataKey = replicate 32 7, ke_pair = (\<lambda>n. ([word_of_nat n], [word_of_nat n, 1])), ke_nonce = (\<lambda>n. replicate 12 0),
     ke_ulid = (\<lambda>n. replicate n (CHR ''k''))\<rparr>"

definition sample_key_world :: key_world where
  "sample_key_world = \<lparr>kw_keys = [], kw_users = [\<lparr>uk_id = ''u'', uk_public = None, uk_private = None\<rparr>],
     kw_current = (\<lambda>p. None), kw_generated = 0\<rparr>"

lemma sample_keys_ok: "env_ok sample_key_env" "keys_ok sample_key_env sample_key_world"
  by (simp_all add: env_ok_def gcm_ok_def sample_key_env_def keys_ok_def sample_key_world_def user_sealed_def)

theorem halves_stay_together_witness:
  "\<exists>i. loadKeyFor sample_key_env ''u'' (key_step sample_key_env (key_step sample_key_env sample_key_world
       (1, EnsureFinish ''u'' None)) (2, EnsureFinish ''u'' None)) = Inr ([1], snd (ke_pair sample_key_env i))"
proof -
  let ?ops = "[(1, EnsureFinish ''u'' None), (2, EnsureFinish ''u'' None)]"
  have "getUserPublicKeyRaw ''u'' (foldl (key_step sample_key_env) sample_key_world ?ops) = Some [1]"
    by (simp add: sample_key_env_def sample_key_world_def ensureKeyFor_finish_def has_public_def encryptAtRest_def
        update_where_def getUserPublicKeyRaw_def find_user_keys_def)
  then have "\<exists>i. loadKeyFor sample_key_env ''u'' (foldl (key_step sample_key_env) sample_key_world ?ops) =
      Inr ([1], snd (ke_pair sample_key_env i))"
    using halves_stay_together [OF sample_keys_ok refl, of ?ops] by blast
  then show ?thesis by simp
qed

text \<open>Two processes that start on an empty table at once end with different keys.\<close>

lemma bootstrap_race:
  "let w = key_step sample_key_env (key_step sample_key_env sample_key_world (1, BootstrapFinish 0 None)) (1, BootstrapFinish 1 None)
   in getPublicKeyRaw 0 w = Inr [0] \<and> getPublicKeyRaw 1 w = Inr [1]"
  by (simp add: sample_key_env_def sample_key_world_def bootstrap_finish_def encryptAtRest_def set_current_def getPublicKeyRaw_def)

end
