(* ===== verification/Outbox.thy ===== *)
theory Outbox
  imports Delivery
begin

text \<open>
  The fan-out of events to peers (services/federation-outbox.ts) and the queue it feeds (the Redis client
  of services/queues.ts, where BullMQ ignores a job whose id it still knows). The payload schemas of
  zod are arguments. An enqueue that fails is caught per peer.
\<close>

section \<open>The queue\<close>

definition outbox_job_id :: "outbox_job \<Rightarrow> string" where
  "outbox_job_id job =
     ''fedoutbox-'' @ job_peerInstanceId job @ ''-'' @ job_eventType job @ ''-'' @ get_or (job_messageId job) (job_nonce job)"

text \<open>The jobs BullMQ knows, waiting, running, or finished and retained, and the ULIDs still to come.\<close>

record fan_state =
  fs_jobs :: "(string \<times> outbox_job) list"
  fs_ulids :: "nat \<Rightarrow> string"
  fs_next :: nat

record fan_env =
  fe_selfHost :: string
  fe_parse :: "string \<Rightarrow> json \<Rightarrow> json option"     \<comment> \<open>by event type\<close>
  fe_fails :: "outbox_job \<Rightarrow> bool"                 \<comment> \<open>adding the job fails\<close>
  fe_enabled :: "bool option"                       \<comment> \<open>\<open>federationEnabledOnInstance\<close>\<close>
  fe_dmsEnabled :: "bool option"
  fe_presenceEnabled :: bool

definition enqueueFederationOutbox :: "fan_env \<Rightarrow> outbox_job \<Rightarrow> fan_state \<Rightarrow> (unit + unit) \<times> fan_state" where
  "enqueueFederationOutbox fe job s =
     (if fe_fails fe job then (Inl (), s)
      else if outbox_job_id job \<in> fst ` set (fs_jobs s) then (Inr (), s)
      else (Inr (), s\<lparr>fs_jobs := fs_jobs s @ [(outbox_job_id job, job)]\<rparr>))"

definition next_ulid :: "fan_state \<Rightarrow> string \<times> fan_state" where
  "next_ulid s = (fs_ulids s (fs_next s), s\<lparr>fs_next := fs_next s + 1\<rparr>)"

text \<open>The job of one peer is queued; a failure is logged. With \<open>fresh\<close>, its nonce is a new ULID.\<close>

definition enqueue_for :: "fan_env \<Rightarrow> bool \<Rightarrow> outbox_job \<Rightarrow> fan_state \<Rightarrow> fan_state" where
  "enqueue_for fe fresh job s =
     (if fresh then let (u, s) = next_ulid s in snd (enqueueFederationOutbox fe (job\<lparr>job_nonce := Some u\<rparr>) s)
      else snd (enqueueFederationOutbox fe job s))"

definition enqueue_peers :: "fan_env \<Rightarrow> bool \<Rightarrow> outbox_job \<Rightarrow> ident list \<Rightarrow> fan_state \<Rightarrow> fan_state" where
  "enqueue_peers fe fresh job peerIds s = fold (\<lambda>p. enqueue_for fe fresh (job\<lparr>job_peerInstanceId := p\<rparr>)) peerIds s"

section \<open>Targets\<close>

definition computeEffectiveFederation :: "bool \<Rightarrow> federation_mode \<Rightarrow> bool" where
  "computeEffectiveFederation serverFederationEnabled channelMode =
     (case channelMode of ForceOff \<Rightarrow> False | ForceOn \<Rightarrow> True | Inherit \<Rightarrow> serverFederationEnabled)"

definition peered :: "db \<Rightarrow> ident \<Rightarrow> bool" where
  "peered d i = (case find_instance_row d i of None \<Rightarrow> False | Some r \<Rightarrow> rin_status r = Peered)"

definition remote_home :: "db \<Rightarrow> ident \<Rightarrow> ident option" where
  "remote_home d u =
     (case Option.bind (find_user d u) usr_remoteInstanceId of
        None \<Rightarrow> None
      | Some i \<Rightarrow> if peered d i then Some i else None)"

definition findPeersWithRemoteMembers :: "db \<Rightarrow> ident \<Rightarrow> ident list" where
  "findPeersWithRemoteMembers d serverId =
     first_seen (List.map_filter (\<lambda>m. remote_home d (mem_userId m)) (filter (\<lambda>m. mem_serverId m = serverId) (db_members d)))"

definition findFanOutTargetsForChannel :: "db \<Rightarrow> ident \<Rightarrow> ident option \<Rightarrow> ident list" where
  "findFanOutTargetsForChannel d serverId originInstanceId =
     (case originInstanceId of
        Some home \<Rightarrow> if peered d home then [home] else []
      | None \<Rightarrow> findPeersWithRemoteMembers d serverId)"

section \<open>Payloads\<close>

datatype fan_error = InvalidPayload | InvalidDate

definition parsed :: "fan_env \<Rightarrow> string \<Rightarrow> (string \<times> json option) list \<Rightarrow> fan_error + json" where
  "parsed fe eventType entries =
     (if \<exists>f \<in> set entries. snd f = None then Inl InvalidDate
      else case fe_parse fe eventType (JObj (map (\<lambda>(k, v). (k, the v)) entries)) of
        None \<Rightarrow> Inl InvalidPayload
      | Some p \<Rightarrow> Inr p)"

definition js_text :: "string \<Rightarrow> json option" where "js_text s = Some (JStr s)"
definition js_nullable :: "string option \<Rightarrow> json option" where
  "js_nullable s = Some (case s of None \<Rightarrow> JNull | Some v \<Rightarrow> JStr v)"
definition js_date :: "millis \<Rightarrow> json option" where "js_date t = map_option JStr (toISOString t)"

definition qualified_id :: "fan_env \<Rightarrow> string \<Rightarrow> string" where
  "qualified_id fe localpart = localpart @ ''@'' @ fe_selfHost fe"

definition plain_job :: "string \<Rightarrow> string \<Rightarrow> ident \<Rightarrow> json \<Rightarrow> outbox_job" where
  "plain_job eventType messageId authorUserId payload = \<lparr>job_messageId = messageId, job_peerInstanceId = [], job_eventType = eventType,
     job_payload = payload, job_nonce = None, job_authorUserId = authorUserId, job_preservedUserSignature = None, job_singleLayer = False\<rparr>"

text \<open>The shape all fan-outs share: the instance gate, the peers, the payload, one job per peer.\<close>

definition fan_out ::
  "fan_env \<Rightarrow> bool \<Rightarrow> string \<Rightarrow> string \<Rightarrow> ident \<Rightarrow> (string \<times> json option) list \<Rightarrow> ident list \<Rightarrow> fan_state \<Rightarrow> fan_error + fan_state" where
  "fan_out fe fresh eventType messageId authorUserId entries peerIds s =
     (if fe_enabled fe = Some False then Inr s
      else if peerIds = [] then Inr s
      else case parsed fe eventType entries of
        Inl e \<Rightarrow> Inl e
      | Inr payload \<Rightarrow> Inr (enqueue_peers fe fresh (plain_job eventType messageId authorUserId payload) peerIds s))"

section \<open>Messages and reactions of channels\<close>

text \<open>Where the message is: its server, and the instance the channel is a mirror of.\<close>

record place =
  pl_serverId :: ident
  pl_originInstanceId :: "ident option"

definition place_targets :: "db \<Rightarrow> place \<Rightarrow> ident list" where
  "place_targets d pl = findFanOutTargetsForChannel d (pl_serverId pl) (pl_originInstanceId pl)"

definition fanOutMessageCreate ::
  "fan_env \<Rightarrow> db \<Rightarrow> place \<Rightarrow> ident \<Rightarrow> string \<Rightarrow> ident \<Rightarrow> string \<Rightarrow> string \<Rightarrow> millis \<Rightarrow> string option \<Rightarrow> fan_state \<Rightarrow> fan_error + fan_state" where
  "fanOutMessageCreate fe d pl channelId messageId authorUserId authorUsername content createdAt replyToMessageId s =
     fan_out fe False ''message.create'' messageId authorUserId
       [(''authorRemoteUserId'', js_text (qualified_id fe authorUsername)), (''channelId'', js_text channelId), (''messageId'', js_text messageId),
        (''content'', js_text content), (''replyToMessageId'', js_nullable replyToMessageId), (''createdAt'', js_date createdAt)]
       (place_targets d pl) s"

definition fanOutMessageCreateRelay ::
  "fan_env \<Rightarrow> db \<Rightarrow> ident \<Rightarrow> string \<Rightarrow> json \<Rightarrow> string \<Rightarrow> ident \<Rightarrow> ident \<Rightarrow> fan_state \<Rightarrow> fan_error + fan_state" where
  "fanOutMessageCreateRelay fe d serverId messageId originalPayload originalUserSignature excludePeerInstanceId authorUserId s =
     (if fe_enabled fe = Some False then Inr s
      else
        let peerIds = filter (\<lambda>i. i \<noteq> excludePeerInstanceId) (findPeersWithRemoteMembers d serverId)
        in if peerIds = [] then Inr s
           else if fe_parse fe ''message.create'' originalPayload = None then Inl InvalidPayload
           else Inr (enqueue_peers fe True ((plain_job ''message.create'' messageId authorUserId originalPayload)
                  \<lparr>job_preservedUserSignature := Some originalUserSignature\<rparr>) peerIds s))"

definition fanOutMessageUpdate ::
  "fan_env \<Rightarrow> db \<Rightarrow> place \<Rightarrow> string \<Rightarrow> ident \<Rightarrow> string \<Rightarrow> string \<Rightarrow> millis \<Rightarrow> fan_state \<Rightarrow> fan_error + fan_state" where
  "fanOutMessageUpdate fe d pl messageId authorUserId authorUsername content editedAt s =
     fan_out fe False ''message.update'' messageId authorUserId
       [(''authorRemoteUserId'', js_text (qualified_id fe authorUsername)), (''messageId'', js_text messageId), (''content'', js_text content),
        (''editedAt'', js_date editedAt)]
       (place_targets d pl) s"

definition fanOutMessageDelete ::
  "fan_env \<Rightarrow> db \<Rightarrow> place \<Rightarrow> string \<Rightarrow> ident \<Rightarrow> string \<Rightarrow> millis \<Rightarrow> fan_state \<Rightarrow> fan_error + fan_state" where
  "fanOutMessageDelete fe d pl messageId actorUserId actorUsername deletedAt s =
     fan_out fe False ''message.delete'' messageId actorUserId
       [(''actorRemoteUserId'', js_text (qualified_id fe actorUsername)), (''messageId'', js_text messageId), (''deletedAt'', js_date deletedAt)]
       (place_targets d pl) s"

definition fanOutReactionAdd ::
  "fan_env \<Rightarrow> db \<Rightarrow> place \<Rightarrow> string \<Rightarrow> ident \<Rightarrow> string \<Rightarrow> string \<Rightarrow> fan_state \<Rightarrow> fan_error + fan_state" where
  "fanOutReactionAdd fe d pl messageId actorUserId actorUsername emoji s =
     fan_out fe False ''reaction.add'' messageId actorUserId
       [(''actorRemoteUserId'', js_text (qualified_id fe actorUsername)), (''messageId'', js_text messageId), (''emoji'', js_text emoji)]
       (place_targets d pl) s"

definition fanOutReactionRemove ::
  "fan_env \<Rightarrow> db \<Rightarrow> place \<Rightarrow> string \<Rightarrow> ident \<Rightarrow> string \<Rightarrow> string \<Rightarrow> fan_state \<Rightarrow> fan_error + fan_state" where
  "fanOutReactionRemove fe d pl messageId actorUserId actorUsername emoji s =
     fan_out fe False ''reaction.remove'' messageId actorUserId
       [(''actorRemoteUserId'', js_text (qualified_id fe actorUsername)), (''messageId'', js_text messageId), (''emoji'', js_text emoji)]
       (place_targets d pl) s"

section \<open>Servers, channels and members\<close>

definition opt_text :: "string \<Rightarrow> string option \<Rightarrow> (string \<times> json option) list" where
  "opt_text k v = (case v of None \<Rightarrow> [] | Some s \<Rightarrow> [(k, js_text s)])"

text \<open>A nullable field that may be absent: \<^const>\<open>None\<close> is \<open>undefined\<close>.\<close>

definition opt_nullable :: "string \<Rightarrow> string option option \<Rightarrow> (string \<times> json option) list" where
  "opt_nullable k v = (case v of None \<Rightarrow> [] | Some s \<Rightarrow> [(k, js_nullable s)])"

definition fanOutServerUpdate ::
  "fan_env \<Rightarrow> db \<Rightarrow> ident \<Rightarrow> ident \<Rightarrow> string option \<Rightarrow> string option option \<Rightarrow> string option option \<Rightarrow> fan_state \<Rightarrow> fan_error + fan_state" where
  "fanOutServerUpdate fe d serverId ownerUserId name description iconUrl s =
     fan_out fe True ''server.update'' serverId ownerUserId
       ((''serverId'', js_text serverId) # opt_text ''name'' name @ opt_nullable ''description'' description @ opt_nullable ''iconUrl'' iconUrl)
       (findPeersWithRemoteMembers d serverId) s"

definition mode_name :: "federation_mode \<Rightarrow> string" where
  "mode_name m = (case m of Inherit \<Rightarrow> ''inherit'' | ForceOn \<Rightarrow> ''force_on'' | ForceOff \<Rightarrow> ''force_off'')"

record channel_fields =
  cf_id :: ident
  cf_name :: string
  cf_type :: string
  cf_topic :: "string option"
  cf_position :: int
  cf_federationMode :: federation_mode
  cf_nsfw :: bool

definition fanOutChannelCreate :: "fan_env \<Rightarrow> db \<Rightarrow> ident \<Rightarrow> ident \<Rightarrow> channel_fields \<Rightarrow> fan_state \<Rightarrow> fan_error + fan_state" where
  "fanOutChannelCreate fe d serverId ownerUserId c s =
     fan_out fe True ''channel.create'' (cf_id c) ownerUserId
       [(''serverId'', js_text serverId),
        (''channel'', Some (JObj [(''id'', JStr (cf_id c)), (''name'', JStr (cf_name c)), (''type'', JStr (cf_type c)),
           (''topic'', the (js_nullable (cf_topic c))), (''position'', JNum (cf_position c)),
           (''federationMode'', JStr (mode_name (cf_federationMode c))), (''nsfw'', JBool (cf_nsfw c))]))]
       (findPeersWithRemoteMembers d serverId) s"

record channel_changes =
  cc_name :: "string option"
  cc_topic :: "string option option"
  cc_position :: "int option"
  cc_federationMode :: "federation_mode option"
  cc_nsfw :: "bool option"

definition fanOutChannelUpdate ::
  "fan_env \<Rightarrow> db \<Rightarrow> ident \<Rightarrow> ident \<Rightarrow> ident \<Rightarrow> channel_changes \<Rightarrow> fan_state \<Rightarrow> fan_error + fan_state" where
  "fanOutChannelUpdate fe d serverId channelId ownerUserId c s =
     fan_out fe True ''channel.update'' channelId ownerUserId
       ([(''serverId'', js_text serverId), (''channelId'', js_text channelId)] @ opt_text ''name'' (cc_name c) @
        opt_nullable ''topic'' (cc_topic c) @
        (case cc_position c of None \<Rightarrow> [] | Some n \<Rightarrow> [(''position'', Some (JNum n))]) @
        opt_text ''federationMode'' (map_option mode_name (cc_federationMode c)) @
        (case cc_nsfw c of None \<Rightarrow> [] | Some b \<Rightarrow> [(''nsfw'', Some (JBool b))]))
       (findPeersWithRemoteMembers d serverId) s"

definition fanOutChannelDelete :: "fan_env \<Rightarrow> db \<Rightarrow> ident \<Rightarrow> ident \<Rightarrow> ident \<Rightarrow> fan_state \<Rightarrow> fan_error + fan_state" where
  "fanOutChannelDelete fe d serverId channelId ownerUserId s =
     fan_out fe True ''channel.delete'' channelId ownerUserId [(''serverId'', js_text serverId), (''channelId'', js_text channelId)]
       (findPeersWithRemoteMembers d serverId) s"

text \<open>An identifier that is the empty string counts as absent.\<close>

definition fanOutMemberAdd ::
  "fan_env \<Rightarrow> db \<Rightarrow> ident \<Rightarrow> string \<Rightarrow> string \<Rightarrow> millis \<Rightarrow> ident \<Rightarrow> ident option \<Rightarrow> fan_state \<Rightarrow> fan_error + fan_state" where
  "fanOutMemberAdd fe d serverId memberRemoteUserId memberDisplayName joinedAt authorUserId excludePeerInstanceId s =
     (let allPeerIds = findPeersWithRemoteMembers d serverId;
          peerIds = (if get_or [] excludePeerInstanceId = [] then allPeerIds
                     else filter (\<lambda>i. Some i \<noteq> excludePeerInstanceId) allPeerIds)
      in fan_out fe True ''member.add'' memberRemoteUserId authorUserId
           [(''serverId'', js_text serverId), (''memberRemoteUserId'', js_text memberRemoteUserId),
            (''memberDisplayName'', js_text memberDisplayName), (''joinedAt'', js_date joinedAt)]
           peerIds s)"

definition remove_targets :: "db \<Rightarrow> ident \<Rightarrow> ident list \<Rightarrow> ident option \<Rightarrow> ident list" where
  "remove_targets d serverId additionalPeerInstanceIds excludePeerInstanceId =
     (let seen = first_seen (findPeersWithRemoteMembers d serverId @ filter (\<lambda>i. i \<noteq> []) additionalPeerInstanceIds)
      in if get_or [] excludePeerInstanceId = [] then seen else filter (\<lambda>i. Some i \<noteq> excludePeerInstanceId) seen)"

definition fanOutMemberRemove ::
  "fan_env \<Rightarrow> db \<Rightarrow> ident \<Rightarrow> string \<Rightarrow> string \<Rightarrow> millis \<Rightarrow> ident \<Rightarrow> ident list \<Rightarrow> ident option \<Rightarrow> fan_state \<Rightarrow> fan_error + fan_state" where
  "fanOutMemberRemove fe d serverId memberRemoteUserId reason removedAt actorUserId additionalPeerInstanceIds excludePeerInstanceId s =
     fan_out fe True ''member.remove'' memberRemoteUserId actorUserId
       [(''serverId'', js_text serverId), (''memberRemoteUserId'', js_text memberRemoteUserId), (''reason'', js_text reason),
        (''removedAt'', js_date removedAt)]
       (remove_targets d serverId additionalPeerInstanceIds excludePeerInstanceId) s"

section \<open>Direct messages and presence: one peer\<close>

definition capable :: "string \<Rightarrow> db \<Rightarrow> ident \<Rightarrow> bool" where
  "capable capability d peerInstanceId =
     (case find_instance_row d peerInstanceId of
        None \<Rightarrow> False
      | Some peer \<Rightarrow> rin_status peer = Peered \<and> capability \<in> set (rin_capabilities peer))"

definition fan_out_dm ::
  "fan_env \<Rightarrow> db \<Rightarrow> bool \<Rightarrow> string \<Rightarrow> string \<Rightarrow> ident \<Rightarrow> (string \<times> json option) list \<Rightarrow> ident \<Rightarrow> fan_state \<Rightarrow> fan_error + fan_state" where
  "fan_out_dm fe d fresh eventType messageId authorUserId entries peerInstanceId s =
     (if fe_enabled fe = Some False \<or> fe_dmsEnabled fe = Some False \<or> \<not> capable ''dms'' d peerInstanceId then Inr s
      else fan_out fe fresh eventType messageId authorUserId entries [peerInstanceId] s)"

definition fanOutDmCreate ::
  "fan_env \<Rightarrow> db \<Rightarrow> millis \<Rightarrow> ident \<Rightarrow> ident \<Rightarrow> string \<Rightarrow> string \<Rightarrow> ident \<Rightarrow> fan_state \<Rightarrow> fan_error + fan_state" where
  "fanOutDmCreate fe d now dmChannelId initiatorUserId initiatorUsername recipientRemoteUserId peerInstanceId s =
     fan_out_dm fe d False ''dm.create'' dmChannelId initiatorUserId
       [(''dmChannelId'', js_text dmChannelId), (''initiatorRemoteUserId'', js_text (qualified_id fe initiatorUsername)),
        (''recipientRemoteUserId'', js_text recipientRemoteUserId), (''createdAt'', js_date now)]
       peerInstanceId s"

definition fanOutDmMessageCreate ::
  "fan_env \<Rightarrow> db \<Rightarrow> ident \<Rightarrow> string \<Rightarrow> ident \<Rightarrow> string \<Rightarrow> string \<Rightarrow> string option \<Rightarrow> millis \<Rightarrow> ident \<Rightarrow> fan_state \<Rightarrow> fan_error + fan_state" where
  "fanOutDmMessageCreate fe d dmChannelId messageId authorUserId authorUsername content replyToMessageId createdAt peerInstanceId s =
     fan_out_dm fe d False ''dm.message.create'' messageId authorUserId
       [(''dmChannelId'', js_text dmChannelId), (''messageId'', js_text messageId), (''authorRemoteUserId'', js_text (qualified_id fe authorUsername)),
        (''content'', js_text content), (''replyToMessageId'', js_nullable replyToMessageId), (''createdAt'', js_date createdAt)]
       peerInstanceId s"

definition fanOutDmMessageUpdate ::
  "fan_env \<Rightarrow> db \<Rightarrow> ident \<Rightarrow> string \<Rightarrow> ident \<Rightarrow> string \<Rightarrow> string \<Rightarrow> millis \<Rightarrow> ident \<Rightarrow> fan_state \<Rightarrow> fan_error + fan_state" where
  "fanOutDmMessageUpdate fe d dmChannelId messageId authorUserId authorUsername content editedAt peerInstanceId s =
     fan_out_dm fe d True ''dm.message.update'' messageId authorUserId
       [(''dmChannelId'', js_text dmChannelId), (''messageId'', js_text messageId), (''authorRemoteUserId'', js_text (qualified_id fe authorUsername)),
        (''content'', js_text content), (''editedAt'', js_date editedAt)]
       peerInstanceId s"

definition fanOutDmMessageDelete ::
  "fan_env \<Rightarrow> db \<Rightarrow> ident \<Rightarrow> string \<Rightarrow> ident \<Rightarrow> string \<Rightarrow> millis \<Rightarrow> ident \<Rightarrow> fan_state \<Rightarrow> fan_error + fan_state" where
  "fanOutDmMessageDelete fe d dmChannelId messageId actorUserId actorUsername deletedAt peerInstanceId s =
     fan_out_dm fe d True ''dm.message.delete'' messageId actorUserId
       [(''dmChannelId'', js_text dmChannelId), (''messageId'', js_text messageId), (''actorRemoteUserId'', js_text (qualified_id fe actorUsername)),
        (''deletedAt'', js_date deletedAt)]
       peerInstanceId s"

definition fanOutDmReactionAdd ::
  "fan_env \<Rightarrow> db \<Rightarrow> ident \<Rightarrow> string \<Rightarrow> ident \<Rightarrow> string \<Rightarrow> string \<Rightarrow> ident \<Rightarrow> fan_state \<Rightarrow> fan_error + fan_state" where
  "fanOutDmReactionAdd fe d dmChannelId messageId actorUserId actorUsername emoji peerInstanceId s =
     fan_out_dm fe d True ''dm.reaction.add'' messageId actorUserId
       [(''dmChannelId'', js_text dmChannelId), (''messageId'', js_text messageId), (''actorRemoteUserId'', js_text (qualified_id fe actorUsername)),
        (''emoji'', js_text emoji)]
       peerInstanceId s"

definition fanOutDmReactionRemove ::
  "fan_env \<Rightarrow> db \<Rightarrow> ident \<Rightarrow> string \<Rightarrow> ident \<Rightarrow> string \<Rightarrow> string \<Rightarrow> ident \<Rightarrow> fan_state \<Rightarrow> fan_error + fan_state" where
  "fanOutDmReactionRemove fe d dmChannelId messageId actorUserId actorUsername emoji peerInstanceId s =
     fan_out_dm fe d True ''dm.reaction.remove'' messageId actorUserId
       [(''dmChannelId'', js_text dmChannelId), (''messageId'', js_text messageId), (''actorRemoteUserId'', js_text (qualified_id fe actorUsername)),
        (''emoji'', js_text emoji)]
       peerInstanceId s"

definition presence_name :: "presence \<Rightarrow> string" where
  "presence_name p = (case p of Active \<Rightarrow> ''active'' | Idle \<Rightarrow> ''idle'' | Dnd \<Rightarrow> ''dnd'' | Offline \<Rightarrow> ''offline'')"

definition fanOutPresenceUpdate ::
  "fan_env \<Rightarrow> db \<Rightarrow> ident \<Rightarrow> string \<Rightarrow> presence \<Rightarrow> string option \<Rightarrow> millis option \<Rightarrow> millis \<Rightarrow> fan_state \<Rightarrow> fan_error + fan_state" where
  "fanOutPresenceUpdate fe d peerInstanceId userRemoteUserId presence customStatus customStatusExpiresAt updatedAt s =
     (if \<not> fe_presenceEnabled fe \<or> \<not> capable ''presence'' d peerInstanceId then Inr s
      else case parsed fe ''presence.update''
          [(''userRemoteUserId'', js_text userRemoteUserId), (''presence'', js_text (presence_name presence)),
           (''customStatus'', js_nullable customStatus),
           (''customStatusExpiresAt'', case customStatusExpiresAt of None \<Rightarrow> Some JNull | Some t \<Rightarrow> js_date t), (''updatedAt'', js_date updatedAt)] of
        Inl e \<Rightarrow> Inl e
      | Inr payload \<Rightarrow>
          Inr (enqueue_peers fe True ((plain_job ''presence.update'' userRemoteUserId [] payload)\<lparr>job_singleLayer := True\<rparr>) [peerInstanceId] s))"

section \<open>What a fan-out queues\<close>

definition to_peer :: "outbox_job \<Rightarrow> ident \<Rightarrow> outbox_job" where
  "to_peer job p = job\<lparr>job_peerInstanceId := p\<rparr>"

definition keyed :: "outbox_job \<Rightarrow> string \<times> outbox_job" where
  "keyed job = (outbox_job_id job, job)"

lemma job_id_of_peer: "outbox_job_id (to_peer job p) = outbox_job_id (to_peer job q) \<longleftrightarrow> p = q"
  by (simp add: outbox_job_id_def to_peer_def)

lemma enqueue_outcome:
  "snd (enqueueFederationOutbox fe job s) =
     (if fe_fails fe job \<or> outbox_job_id job \<in> fst ` set (fs_jobs s) then s else s\<lparr>fs_jobs := fs_jobs s @ [keyed job]\<rparr>)"
  by (simp add: enqueueFederationOutbox_def keyed_def)

definition wanted :: "fan_env \<Rightarrow> outbox_job \<Rightarrow> fan_state \<Rightarrow> ident list \<Rightarrow> ident list" where
  "wanted fe job s ps = filter (\<lambda>p. \<not> fe_fails fe (to_peer job p) \<and> outbox_job_id (to_peer job p) \<notin> fst ` set (fs_jobs s)) ps"

lemma enqueue_peers_collapsing:
  "distinct ps \<Longrightarrow> enqueue_peers fe False job ps s = s\<lparr>fs_jobs := fs_jobs s @ map (\<lambda>p. keyed (to_peer job p)) (wanted fe job s ps)\<rparr>"
proof (induction ps arbitrary: s)
  case Nil
  then show ?case by (simp add: enqueue_peers_def wanted_def)
next
  case (Cons p ps)
  define s1 where "s1 = snd (enqueueFederationOutbox fe (to_peer job p) s)"
  have step: "enqueue_peers fe False job (p # ps) s = enqueue_peers fe False job ps s1"
    by (simp add: enqueue_peers_def enqueue_for_def s1_def to_peer_def)
  have same: "wanted fe job s1 ps = wanted fe job s ps"
    unfolding wanted_def
  proof (rule filter_cong [OF refl])
    fix q assume "q \<in> set ps"
    then have "q \<noteq> p" using Cons.prems by auto
    then show "(\<not> fe_fails fe (to_peer job q) \<and> outbox_job_id (to_peer job q) \<notin> fst ` set (fs_jobs s1)) \<longleftrightarrow>
        (\<not> fe_fails fe (to_peer job q) \<and> outbox_job_id (to_peer job q) \<notin> fst ` set (fs_jobs s))"
      by (simp add: s1_def enqueue_outcome keyed_def job_id_of_peer)
  qed
  show ?case unfolding step using Cons by (simp add: same) (auto simp: s1_def enqueue_outcome wanted_def)
qed

definition with_nonce :: "string \<Rightarrow> outbox_job \<Rightarrow> outbox_job" where
  "with_nonce u job = job\<lparr>job_nonce := Some u\<rparr>"

text \<open>Every ULID still to come is new to the queue: no known job id ends in it.\<close>

definition ulids_fresh :: "fan_state \<Rightarrow> bool" where
  "ulids_fresh s \<longleftrightarrow> inj (fs_ulids s) \<and> (\<forall>k. length (fs_ulids s k) = 26) \<and>
     (\<forall>k \<ge> fs_next s. \<forall>j \<in> fst ` set (fs_jobs s). drop (length j - 26) j \<noteq> fs_ulids s k)"

lemma job_id_ends_in_nonce: "length u = 26 \<Longrightarrow> drop (length (outbox_job_id (with_nonce u job)) - 26) (outbox_job_id (with_nonce u job)) = u"
proof -
  assume len: "length u = 26"
  have "outbox_job_id (with_nonce u job) = (''fedoutbox-'' @ job_peerInstanceId job @ ''-'' @ job_eventType job @ ''-'') @ u" (is "_ = ?a @ u")
    by (simp add: outbox_job_id_def with_nonce_def)
  moreover have "drop (length (a @ u) - 26) (a @ u) = u" for a using len by (simp add: drop_append)
  ultimately show ?thesis by metis
qed

lemma enqueue_fresh:
  assumes "ulids_fresh s"
  shows "enqueue_for fe True job s =
           s\<lparr>fs_next := fs_next s + 1,
             fs_jobs := fs_jobs s @ (let j = with_nonce (fs_ulids s (fs_next s)) job in if fe_fails fe j then [] else [keyed j])\<rparr>"
proof -
  let ?u = "fs_ulids s (fs_next s)"
  have "outbox_job_id (with_nonce ?u job) \<notin> fst ` set (fs_jobs s)"
    using assms job_id_ends_in_nonce [of ?u job] unfolding ulids_fresh_def by (metis order_refl)
  then show ?thesis by (simp add: enqueue_for_def next_ulid_def enqueue_outcome flip: with_nonce_def)
qed

lemma ulids_stay_fresh:
  assumes "ulids_fresh s"
  shows "ulids_fresh (enqueue_for fe True job s)"
  using assms unfolding enqueue_fresh [OF assms] ulids_fresh_def
  by (auto simp: Let_def keyed_def job_id_ends_in_nonce dest: injD)

lemma enqueue_peers_fresh:
  "ulids_fresh s \<Longrightarrow> enqueue_peers fe True job ps s =
     s\<lparr>fs_next := fs_next s + length ps,
       fs_jobs := fs_jobs s @ map keyed (filter (\<lambda>j. \<not> fe_fails fe j)
         (map (\<lambda>(k, p). with_nonce (fs_ulids s (fs_next s + k)) (to_peer job p)) (enumerate 0 ps)))\<rparr>"
proof (induction ps arbitrary: s)
  case Nil
  then show ?case by (simp add: enqueue_peers_def)
next
  case (Cons p ps)
  let ?s = "enqueue_for fe True (to_peer job p) s"
  have step: "enqueue_peers fe True job (p # ps) s = enqueue_peers fe True job ps ?s"
    by (simp add: enqueue_peers_def to_peer_def)
  have shift: "enumerate (Suc 0) ps = map (\<lambda>(k, p). (Suc k, p)) (enumerate 0 ps)"
    by (induction ps arbitrary: rule: rev_induct) (simp_all add: enumerate_append_eq)
  show ?case unfolding step Cons.IH [OF ulids_stay_fresh [OF Cons.prems]]
    by (simp add: enqueue_fresh [OF Cons.prems] shift Let_def case_prod_beta filter_map comp_def)
qed

section \<open>Who is told, and once\<close>

lemma place_targets_distinct: "distinct (place_targets d pl)"
  by (simp add: place_targets_def findFanOutTargetsForChannel_def findPeersWithRemoteMembers_def distinct_first_seen split: option.splits)

lemma remote_home_peered: "remote_home d u = Some i \<Longrightarrow> peered d i"
  by (auto simp: remote_home_def split: option.splits if_splits)

lemma set_map_filter: "set (List.map_filter f xs) = {y. \<exists>x \<in> set xs. f x = Some y}"
  by (force simp: List.map_filter_def)

lemma set_place_targets:
  "set (place_targets d pl) =
     {i. peered d i \<and> (case pl_originInstanceId pl of
            Some home \<Rightarrow> i = home
          | None \<Rightarrow> \<exists>m \<in> set (db_members d). mem_serverId m = pl_serverId pl \<and> remote_home d (mem_userId m) = Some i)}"
  by (auto simp: place_targets_def findFanOutTargetsForChannel_def findPeersWithRemoteMembers_def set_map_filter
      remote_home_peered split: option.splits)

lemma fan_out_collapsing:
  assumes "fan_out fe False et m a entries ps s = Inr s'" "distinct ps"
  shows "s' = s \<or> (\<exists>payload. s' = s\<lparr>fs_jobs := fs_jobs s @ map (\<lambda>p. keyed (to_peer (plain_job et m a payload) p)) (wanted fe (plain_job et m a payload) s ps)\<rparr>)"
  using assms by (auto simp: fan_out_def enqueue_peers_collapsing split: if_splits sum.splits)

lemma id_ignores_payload: "outbox_job_id (to_peer (plain_job et m a payload) p) = outbox_job_id (to_peer (plain_job et m b q) p)"
  by (simp add: outbox_job_id_def to_peer_def plain_job_def)

lemma fan_out_repeated:
  assumes "fan_out fe False et m a e ps s = Inr s1" "fan_out fe False et m b f ps s1 = Inr s2" "distinct ps" "fe_fails fe = (\<lambda>_. False)"
  shows "s2 = s1"
proof (cases "fe_enabled fe = Some False \<or> ps = []")
  case True
  then show ?thesis using assms(2) by (auto simp: fan_out_def split: if_splits)
next
  case False
  then obtain x y where x: "s1 = enqueue_peers fe False (plain_job et m a x) ps s"
      and y: "s2 = enqueue_peers fe False (plain_job et m b y) ps s1"
    using assms(1,2) by (auto simp: fan_out_def split: sum.splits)
  have "outbox_job_id (to_peer (plain_job et m b y) p) \<in> fst ` set (fs_jobs s1)" if "p \<in> set ps" for p
    using that unfolding x enqueue_peers_collapsing [OF assms(3)] id_ignores_payload [of et m b y p a x]
    by (simp add: image_Un image_image keyed_def wanted_def assms(4)) blast
  then have "wanted fe (plain_job et m b y) s1 ps = []" by (simp add: wanted_def filter_empty_conv)
  then show ?thesis unfolding y enqueue_peers_collapsing [OF assms(3)] by simp
qed

text \<open>
  A message sent in a federated channel is told to exactly the right peers, each once: in a mirror to the
  peered home, else to the peered homes of the remote members of the server. A job is queued for each
  of them, unless adding it fails or the queue already knows a job for this message and peer.
\<close>

theorem message_told_to_each_peer_once:
  assumes "fe_enabled fe \<noteq> Some False"
    and "parsed fe ''message.create''
       [(''authorRemoteUserId'', js_text (qualified_id fe name)), (''channelId'', js_text c), (''messageId'', js_text m),
        (''content'', js_text content), (''replyToMessageId'', js_nullable reply), (''createdAt'', js_date t)] = Inr payload"
  shows "fanOutMessageCreate fe d pl c m u name content t reply s = Inr (s\<lparr>fs_jobs := fs_jobs s @ map (\<lambda>p. keyed (to_peer (plain_job ''message.create'' m u payload) p)) (wanted fe (plain_job ''message.create'' m u payload) s (place_targets d pl))\<rparr>) \<and>
     distinct (place_targets d pl) \<and>
     set (place_targets d pl) =
       {i. peered d i \<and> (case pl_originInstanceId pl of
              Some home \<Rightarrow> i = home
            | None \<Rightarrow> \<exists>x \<in> set (db_members d). mem_serverId x = pl_serverId pl \<and> remote_home d (mem_userId x) = Some i)}"
  using assms(1) set_place_targets [of d pl] place_targets_distinct [of d pl]
  by (simp add: fanOutMessageCreate_def fan_out_def assms(2) enqueue_peers_collapsing wanted_def)

text \<open>
  Edits and reactions of channel messages carry no nonce, so while the queue remembers the job of the
  first edit (or reaction) of a message, a later one, whatever its text, emoji or actor, queues nothing:
  the peers never learn of it.
\<close>

theorem later_edits_are_dropped:
  assumes "fe_fails fe = (\<lambda>_. False)"
  shows "(fanOutMessageUpdate fe d pl m a name text1 t s = Inr s1 \<longrightarrow> fanOutMessageUpdate fe d pl m b name' text2 t' s1 = Inr s2 \<longrightarrow> s2 = s1) \<and>
    (fanOutReactionAdd fe d pl m a name emoji s = Inr s3 \<longrightarrow> fanOutReactionAdd fe d pl m b name' emoji' s3 = Inr s4 \<longrightarrow> s4 = s3) \<and>
    (fanOutReactionRemove fe d pl m a name emoji s = Inr s5 \<longrightarrow> fanOutReactionRemove fe d pl m b name' emoji' s5 = Inr s6 \<longrightarrow> s6 = s5)"
  using fan_out_repeated [OF _ _ place_targets_distinct assms]
  by (auto simp: fanOutMessageUpdate_def fanOutReactionAdd_def fanOutReactionRemove_def)

text \<open>In a direct message the same edit carries a ULID and is queued each time.\<close>

lemma dm_edit_queued:
  assumes "ulids_fresh s" "fanOutDmMessageUpdate fe d c m a name content t p s = Inr s'"
    "fe_enabled fe \<noteq> Some False" "fe_dmsEnabled fe \<noteq> Some False" "capable ''dms'' d p" "fe_fails fe = (\<lambda>_. False)"
  shows "ulids_fresh s' \<and> (\<exists>payload. fs_jobs s' = fs_jobs s @
     [keyed (with_nonce (fs_ulids s (fs_next s)) (to_peer (plain_job ''dm.message.update'' m a payload) p))])"
proof -
  obtain payload where s': "s' = enqueue_for fe True (to_peer (plain_job ''dm.message.update'' m a payload) p) s"
    using assms(2-5)
    by (auto simp: fanOutDmMessageUpdate_def fan_out_dm_def fan_out_def enqueue_peers_def to_peer_def split: sum.splits)
  have "ulids_fresh s'" unfolding s' by (rule ulids_stay_fresh [OF assms(1)])
  moreover have "fs_jobs s' = fs_jobs s @ [keyed (with_nonce (fs_ulids s (fs_next s)) (to_peer (plain_job ''dm.message.update'' m a payload) p))]"
    unfolding s' by (simp add: enqueue_fresh [OF assms(1)] assms(6) Let_def)
  ultimately show ?thesis by blast
qed

section \<open>A server with one remote member\<close>

definition fan_sample_user :: user_row where
  "fan_sample_user = \<lparr>usr_id = ''U'', usr_username = ''u'', usr_displayName = ''u'', usr_createdAt = 0, usr_emailVerifiedAt = None,
     usr_remoteUserId = Some ''u@c.d'', usr_remoteInstanceId = Some ''P'', usr_presence = Offline, usr_presenceUpdatedAt = 0,
     usr_manualDnd = False, usr_customStatus = None, usr_customStatusExpiresAt = None, usr_acceptsFederatedPresence = True\<rparr>"

definition fan_sample_db :: db where
  "fan_sample_db = empty_db\<lparr>db_remote_instances := [sample_peer], db_users := [fan_sample_user],
     db_members := [\<lparr>mem_serverId = ''S'', mem_userId = ''U'', mem_gatePassedAt = None\<rparr>]\<rparr>"

definition fan_sample_env :: fan_env where
  "fan_sample_env = \<lparr>fe_selfHost = ''a.b'', fe_parse = (\<lambda>_ v. Some v), fe_fails = (\<lambda>_. False), fe_enabled = None,
     fe_dmsEnabled = None, fe_presenceEnabled = True\<rparr>"

lemma fan_sample_fields:
  "fe_parse fan_sample_env = (\<lambda>_ v. Some v)" "fe_fails fan_sample_env = (\<lambda>_. False)" "fe_enabled fan_sample_env = None"
  by (simp_all add: fan_sample_env_def)

definition fan_sample_start :: fan_state where
  "fan_sample_start = \<lparr>fs_jobs = [], fs_ulids = (\<lambda>_. []), fs_next = 0\<rparr>"

lemma fan_sample_targets: "place_targets fan_sample_db \<lparr>pl_serverId = ''S'', pl_originInstanceId = None\<rparr> = [''P'']"
  by (simp add: place_targets_def findFanOutTargetsForChannel_def findPeersWithRemoteMembers_def fan_sample_db_def empty_db_def
      List.map_filter_def remote_home_def peered_def find_instance_row_def find_user_def sample_peer_def fan_sample_user_def)

lemma fan_sample_parsed: "\<exists>payload. parsed fan_sample_env et [(a, js_text u), (b, js_text v), (c, js_text w), (d, js_text x), (e, js_nullable y), (f, js_date 0)] = Inr payload"
  using toISOString_some [of 0] by (auto simp: MAX_TIME_def parsed_def fan_sample_env_def js_text_def js_nullable_def js_date_def)

lemma message_told_to_each_peer_once_witness:
  "\<exists>payload. fanOutMessageCreate fan_sample_env fan_sample_db \<lparr>pl_serverId = ''S'', pl_originInstanceId = None\<rparr> ''C'' ''M'' ''A'' ''ann'' ''hi'' 0 None
       fan_sample_start =
     Inr (fan_sample_start\<lparr>fs_jobs := [keyed (to_peer (plain_job ''message.create'' ''M'' ''A'' payload) ''P'')]\<rparr>)"
proof -
  let ?pl = "\<lparr>pl_serverId = ''S'', pl_originInstanceId = None\<rparr>"
  obtain payload where "parsed fan_sample_env ''message.create''
       [(''authorRemoteUserId'', js_text (qualified_id fan_sample_env ''ann'')), (''channelId'', js_text ''C''), (''messageId'', js_text ''M''),
        (''content'', js_text ''hi''), (''replyToMessageId'', js_nullable None), (''createdAt'', js_date 0)] = Inr payload"
    using fan_sample_parsed by blast
  from message_told_to_each_peer_once [OF _ this, of fan_sample_db ?pl "''A''" fan_sample_start, THEN conjunct1]
  have "fanOutMessageCreate fan_sample_env fan_sample_db ?pl ''C'' ''M'' ''A'' ''ann'' ''hi'' 0 None fan_sample_start =
     Inr (fan_sample_start\<lparr>fs_jobs := [keyed (to_peer (plain_job ''message.create'' ''M'' ''A'' payload) ''P'')]\<rparr>)"
    by (simp add: fan_sample_fields fan_sample_targets wanted_def fan_sample_start_def)
  then show ?thesis by (intro exI)
qed

text \<open>The second edit queues nothing although the first was queued.\<close>

lemma later_edits_are_dropped_witness:
  "\<exists>s1. fanOutMessageUpdate fan_sample_env fan_sample_db \<lparr>pl_serverId = ''S'', pl_originInstanceId = None\<rparr> ''M'' ''A'' ''ann'' ''first'' 0
       fan_sample_start = Inr s1 \<and> length (fs_jobs s1) = 1 \<and>
     fanOutMessageUpdate fan_sample_env fan_sample_db \<lparr>pl_serverId = ''S'', pl_originInstanceId = None\<rparr> ''M'' ''A'' ''ann'' ''second'' 0 s1 = Inr s1"
proof -
  let ?pl = "\<lparr>pl_serverId = ''S'', pl_originInstanceId = None\<rparr>"
  have ok: "\<exists>s'. fanOutMessageUpdate fan_sample_env fan_sample_db ?pl ''M'' ''A'' ''ann'' body 0 s = Inr s' \<and>
      (fs_jobs s = [] \<longrightarrow> length (fs_jobs s') = 1)" for body s
    using toISOString_some [of 0]
    by (auto simp: fanOutMessageUpdate_def fan_out_def fan_sample_targets parsed_def js_text_def js_date_def MAX_TIME_def
        enqueue_peers_collapsing wanted_def fan_sample_fields)
  obtain s1 where s1: "fanOutMessageUpdate fan_sample_env fan_sample_db ?pl ''M'' ''A'' ''ann'' ''first'' 0 fan_sample_start = Inr s1"
      "length (fs_jobs s1) = 1"
    using ok [of "''first''" fan_sample_start] by (auto simp: fan_sample_start_def)
  obtain s2 where s2: "fanOutMessageUpdate fan_sample_env fan_sample_db ?pl ''M'' ''A'' ''ann'' ''second'' 0 s1 = Inr s2"
    using ok by blast
  have never: "fe_fails fan_sample_env = (\<lambda>_. False)" by (simp add: fan_sample_env_def)
  have "s2 = s1" by (rule later_edits_are_dropped [OF never, THEN conjunct1, THEN mp, THEN mp, OF s1(1) s2])
  then show ?thesis using s1 s2 by blast
qed

end
