(* ===== verification/RemoteUsers.thy ===== *)
theory RemoteUsers
  imports Outbox AuthService Moderation Dms
begin

text \<open>
  The tables the inbound side of the federation works on, the rows that stand for users of other instances
  (services/remote-user-upsert.ts), the cache of their profiles (services/federation-profile.ts with its
  client in services/federation-client.ts) and the mirrors of servers whose home is another instance
  (services/federation-mirror.ts, services/mirror-remote-user-resolver.ts).
\<close>

section \<open>Rows\<close>

text \<open>Servers, channels, messages and invites with the columns only the federation reads.\<close>

record fed_server_row = server_row +
  fsr_description :: "string option"
  fsr_iconUrl :: "string option"
  fsr_createdAt :: millis

record fed_channel_row = channel_row +
  fcr_type :: string
  fcr_name :: string
  fcr_topic :: "string option"
  fcr_position :: int
  fcr_nsfw :: bool
  fcr_originInstanceId :: "ident option"

record fed_message_row = message_row +
  fmr_dmChannelId :: "ident option"
  fmr_replyTo :: "ident option"
  fmr_editedAt :: "millis option"
  fmr_signature :: "byte list option"
  fmr_originInstanceId :: "ident option"

datatype remote_scope = AnyPeer | SpecificInstance | SpecificUser

record fed_invite_row = invite_row +
  finv_remoteScope :: "remote_scope option"
  finv_remoteInstanceHost :: "string option"
  finv_remoteUserId :: "string option"

record remote_user_row =
  rus_id :: ident
  rus_remoteInstanceId :: ident
  rus_remoteUserId :: string
  rus_displayNameCache :: string
  rus_avatarUrlCache :: "string option"
  rus_publicKey :: "byte list"
  rus_lastSeenAt :: millis

record reaction_row =
  rct_messageId :: ident
  rct_userId :: ident
  rct_emoji :: string

record edit_row =
  edt_id :: ident
  edt_messageId :: ident
  edt_content :: string
  edt_editedBy :: ident

record log_row =
  log_peerInstanceId :: ident
  log_nonce :: string
  log_eventType :: string
  log_payloadHash :: "byte list"

datatype fed_place = InServer "ident option" ident | InDm ident    \<comment> \<open>a server and its channel, or a conversation\<close>

datatype fed_event =
    EvMessageCreate fed_place fed_message_row
  | EvMessageUpdate fed_place fed_message_row
  | EvMessageDelete fed_place ident millis
  | EvReactionAdd fed_place reaction_row
  | EvReactionRemove fed_place reaction_row
  | EvMemberAdd ident ident
  | EvMemberRemove ident "ident option"
  | EvServerUpdate fed_server_row
  | EvChannelCreate fed_channel_row
  | EvChannelUpdate fed_channel_row
  | EvChannelDelete ident ident
  | EvDmChannelCreate ident ident
  | EvPresence ident presence "string option" "millis option"

text \<open>
  The world: \<open>iw_db\<close> holds users, members, bans, conversations and instances; servers, channels,
  messages and invites are in the richer tables. \<open>iw_acceptsDms\<close> and \<open>iw_joinedAt\<close> are columns of
  users and members. A column \<open>usernameLower\<close> is its user name in lower case.
\<close>

record inbound_world =
  iw_db :: db
  iw_servers :: "fed_server_row list"
  iw_channels :: "fed_channel_row list"
  iw_messages :: "fed_message_row list"
  iw_reactions :: "reaction_row list"
  iw_edits :: "edit_row list"
  iw_mentions :: "ident list"          \<comment> \<open>the message of each mention\<close>
  iw_pins :: "ident list"
  iw_invites :: "fed_invite_row list"
  iw_remoteUsers :: "remote_user_row list"
  iw_log :: "log_row list"
  iw_acceptsDms :: "ident \<Rightarrow> bool"
  iw_joinedAt :: "ident \<times> ident \<Rightarrow> millis"
  iw_events :: "fed_event list"
  iw_queue :: fan_state
  iw_ulids :: "nat \<Rightarrow> ident"
  iw_next :: nat

definition fed_ulid :: "inbound_world \<Rightarrow> ident \<times> inbound_world" where
  "fed_ulid w = (iw_ulids w (iw_next w), w\<lparr>iw_next := iw_next w + 1\<rparr>)"

definition fed_publish :: "fed_event \<Rightarrow> inbound_world \<Rightarrow> inbound_world" where
  "fed_publish e w = w\<lparr>iw_events := iw_events w @ [e]\<rparr>"

definition find_srv :: "inbound_world \<Rightarrow> ident \<Rightarrow> fed_server_row option" where
  "find_srv w i = List.find (\<lambda>s. srv_id s = i) (iw_servers w)"

definition find_chn :: "inbound_world \<Rightarrow> ident \<Rightarrow> fed_channel_row option" where
  "find_chn w i = List.find (\<lambda>c. chn_id c = i) (iw_channels w)"

definition find_msg :: "inbound_world \<Rightarrow> ident \<Rightarrow> fed_message_row option" where
  "find_msg w i = List.find (\<lambda>m. msg_id m = i) (iw_messages w)"

definition find_remote :: "inbound_world \<Rightarrow> string \<Rightarrow> remote_user_row option" where
  "find_remote w i = List.find (\<lambda>r. rus_remoteUserId r = i) (iw_remoteUsers w)"

definition user_of_remote :: "inbound_world \<Rightarrow> string \<Rightarrow> user_row option" where
  "user_of_remote w i = List.find (\<lambda>u. usr_remoteUserId u = Some i) (db_users (iw_db w))"

definition find_peer :: "inbound_world \<Rightarrow> string \<Rightarrow> remote_instance_row option" where
  "find_peer w host = List.find (\<lambda>i. rin_host i = host) (db_remote_instances (iw_db w))"

section \<open>Failures\<close>

datatype inbound_code =
    BadEnvelope | UnknownPeer | PeerNotPeered | BadSignature | UnauthorizedLeave | Replay | UnknownChannel | UnknownMessage
  | UnknownInvite | UnknownMirrorServer | UnknownMember | UnknownRecipient | RecipientRefusesFederatedDms
  | InviteNoLongerValid | FederationOff | NotAMember | NotOrigin | Forbidden | DmsCapabilityMissing
  | PresenceCapabilityMissing | NotHomeInstance | DmChannelConflict | UnknownDmChannel | UnknownDmMember | NotDmMember
  | NotImplemented

text \<open>A \<open>FederationInboundError\<close> with its code, a violated unique index (\<open>P2002\<close>), any other exception.\<close>

datatype inbound_failure = Refused inbound_code | UniqueViolation | Thrown

section \<open>Users of other instances\<close>

definition remote_email :: "string \<Rightarrow> string" where   \<comment> \<open>\<open>emailLower\<close> of a materialised user\<close>
  "remote_email remoteUserId = toLowerCase (remoteUserId @ ''.federated.local'')"

definition remote_user_new :: "millis \<Rightarrow> ident \<Rightarrow> string \<Rightarrow> remote_user_row \<Rightarrow> user_row" where
  "remote_user_new now uid username r =
     \<lparr>usr_id = uid, usr_username = username, usr_displayName = rus_displayNameCache r, usr_createdAt = now, usr_emailVerifiedAt = None,
      usr_remoteUserId = Some (rus_remoteUserId r), usr_remoteInstanceId = Some (rus_remoteInstanceId r), usr_presence = Offline,
      usr_presenceUpdatedAt = now, usr_manualDnd = False, usr_customStatus = None, usr_customStatusExpiresAt = None,
      usr_acceptsFederatedPresence = True\<rparr>"

text \<open>The addresses of local accounts do not end in \<open>.federated.local\<close>; generated names are new.\<close>

definition remote_email_taken :: "string \<Rightarrow> user_row \<Rightarrow> bool" where
  "remote_email_taken remoteUserId u =
     (case usr_remoteUserId u of None \<Rightarrow> False | Some r \<Rightarrow> remote_email r = remote_email remoteUserId)"

definition ensureUserForRemoteUser :: "millis \<Rightarrow> remote_user_row \<Rightarrow> inbound_world \<Rightarrow> inbound_failure + user_row \<times> inbound_world" where
  "ensureUserForRemoteUser now r w =
     (case user_of_remote w (rus_remoteUserId r) of
        Some u \<Rightarrow> Inr (u, w)
      | None \<Rightarrow>
          let (newUserId, w) = fed_ulid w; (usernameSeed, w) = fed_ulid w;
              u = remote_user_new now newUserId (''__rem_'' @ toLowerCase usernameSeed) r
          in if list_ex (remote_email_taken (rus_remoteUserId r)) (db_users (iw_db w)) then Inl UniqueViolation
             else Inr (u, w\<lparr>iw_db := (iw_db w)\<lparr>db_users := db_users (iw_db w) @ [u]\<rparr>, iw_acceptsDms := (iw_acceptsDms w)(newUserId := True)\<rparr>))"

section \<open>Fields of a parsed payload\<close>

definition fld :: "json \<Rightarrow> string \<Rightarrow> json" where
  "fld v k = (case v of JObj ps \<Rightarrow> member ps k | _ \<Rightarrow> JUndefined)"

definition txt_of :: "json \<Rightarrow> string" where "txt_of v = (case v of JStr s \<Rightarrow> s | _ \<Rightarrow> [])"
definition opt_of :: "json \<Rightarrow> string option" where "opt_of v = (case v of JStr s \<Rightarrow> Some s | _ \<Rightarrow> None)"
definition int_of_json :: "json \<Rightarrow> int" where "int_of_json v = (case v of JNum n \<Rightarrow> n | _ \<Rightarrow> 0)"
definition bool_of :: "json \<Rightarrow> bool" where "bool_of v = (case v of JBool b \<Rightarrow> b | _ \<Rightarrow> False)"

definition fld_text :: "json \<Rightarrow> string \<Rightarrow> string" where "fld_text v k = txt_of (fld v k)"

definition mode_of :: "json \<Rightarrow> federation_mode" where
  "mode_of v = (if v = JStr ''force_on'' then ForceOn else if v = JStr ''force_off'' then ForceOff else Inherit)"

section \<open>Profiles\<close>

definition parseRemoteUserId :: "string \<Rightarrow> (string \<times> string) option" where
  "parseRemoteUserId s =
     (let localpart = takeWhile (\<lambda>c. c \<noteq> CHR ''@'') s; rest = dropWhile (\<lambda>c. c \<noteq> CHR ''@'') s; host = drop 1 rest
      in if rest = [] \<or> localpart = [] \<or> host = [] then None
         else if CHR ''@'' \<in> set host \<or> CHR ''.'' \<notin> set host then None
         else if \<not> list_all (\<lambda>c. let n = (of_char (lower_char c) :: nat) in
                   (97 \<le> n \<and> n \<le> 122) \<or> (48 \<le> n \<and> n \<le> 57) \<or> n = 95 \<or> n = 46 \<or> n = 45) localpart then None
         else Some (localpart, host))"

definition CACHE_TTL_MS :: millis where "CACHE_TTL_MS = 60 * 60 * 1000"

text \<open>
  The client: \<open>pe_discover\<close> is the key of a valid discovery document (\<^const>\<open>None\<close>: the request or its
  schema failed), \<open>pe_post\<close> the answer to the first or second attempt to post.
\<close>

record profile_env =
  pe_selfHost :: string
  pe_resolver :: resolver
  pe_sign :: signer
  pe_verify :: scheme
  pe_schema :: wire_schema
  pe_discover :: "string \<Rightarrow> string option"
  pe_post :: "nat \<Rightarrow> string \<Rightarrow> json \<Rightarrow> fetch_result"

definition is_ok :: "int \<Rightarrow> bool" where "is_ok status \<longleftrightarrow> status div 100 = 2"

definition postProfileEnvelope :: "profile_env \<Rightarrow> string \<Rightarrow> json \<Rightarrow> json option" where
  "postProfileEnvelope pe url body =
     (let answer = (\<lambda>r. case r of
            Response status _ (Inr v) \<Rightarrow> if is_ok status then Some v else None
          | _ \<Rightarrow> None)
      in case pe_post pe 0 url body of
           NetworkError _ \<Rightarrow> None
         | Response status t v \<Rightarrow> if \<not> is_ok status \<and> 500 \<le> status then answer (pe_post pe 1 url body) else answer (Response status t v))"

definition key_bytes :: "string \<Rightarrow> byte list" where
  "key_bytes s = base64_bytes (if take 8 s = ''ed25519:'' then drop 8 s else s)"

definition remote_row :: "ident \<Rightarrow> ident \<Rightarrow> string \<Rightarrow> json \<Rightarrow> millis \<Rightarrow> remote_user_row" where
  "remote_row i peerId remoteUserId payload now =
     \<lparr>rus_id = i, rus_remoteInstanceId = peerId, rus_remoteUserId = remoteUserId, rus_displayNameCache = fld_text payload ''displayName'',
      rus_avatarUrlCache = opt_of (fld payload ''avatarUrl''), rus_publicKey = key_bytes (fld_text payload ''publicKey''), rus_lastSeenAt = now\<rparr>"

definition upsert_remote :: "millis \<Rightarrow> ident \<Rightarrow> string \<Rightarrow> json \<Rightarrow> inbound_world \<Rightarrow> remote_user_row \<times> inbound_world" where
  "upsert_remote now peerId remoteUserId payload w =
     (case find_remote w remoteUserId of
        Some r \<Rightarrow>
          let r' = remote_row (rus_id r) (rus_remoteInstanceId r) remoteUserId payload now
          in (r', w\<lparr>iw_remoteUsers := map (\<lambda>x. if rus_remoteUserId x = remoteUserId then r' else x) (iw_remoteUsers w)\<rparr>)
      | None \<Rightarrow>
          let (i, w) = fed_ulid w; r = remote_row i peerId remoteUserId payload now
          in (r, w\<lparr>iw_remoteUsers := iw_remoteUsers w @ [r]\<rparr>))"

definition profile_request :: "profile_env \<Rightarrow> millis \<Rightarrow> ident \<Rightarrow> string \<Rightarrow> string \<Rightarrow> envelope_error + envelope" where
  "profile_request pe now nonce host localpart = buildSignedEnvelope now nonce
     \<lparr>bi_eventType = ''profile.request'', bi_fromInstance = pe_selfHost pe, bi_toInstance = host,
      bi_payload = JObj [(''localpart'', JStr localpart)], bi_lifetimeSeconds = None, bi_notBefore = None\<rparr> (pe_sign pe)"

text \<open>Every failure throws; the callers treat all alike.\<close>

definition fetchRemoteProfile :: "profile_env \<Rightarrow> millis \<Rightarrow> string \<Rightarrow> inbound_world \<Rightarrow> (remote_user_row \<times> inbound_world) option" where
  "fetchRemoteProfile pe now remoteUserId w =
     (case parseRemoteUserId remoteUserId of None \<Rightarrow> None | Some (localpart, host) \<Rightarrow>
      if assertValidPeerHost (pe_resolver pe) host \<noteq> Inr () then None
      else case find_peer w host of None \<Rightarrow> None | Some peer \<Rightarrow>
      if rin_status peer \<noteq> Peered then None
      else case (case find_remote w remoteUserId of
                   None \<Rightarrow> None
                 | Some c \<Rightarrow> if now - rus_lastSeenAt c < CACHE_TTL_MS then Some c else None) of
        Some cached \<Rightarrow> Some (cached, w)
      | None \<Rightarrow>
          case pe_discover pe host of None \<Rightarrow> None | Some instanceKey \<Rightarrow>
          let (nonce, w) = fed_ulid w
          in case profile_request pe now nonce host localpart of Inl _ \<Rightarrow> None | Inr env \<Rightarrow>
             case postProfileEnvelope pe (''https://'' @ host @ ''/_federation/profile'') (wire (envelope_json env)) of None \<Rightarrow> None
           | Some body \<Rightarrow>
             case verifyEnvelopeShape (pe_verify pe) (pe_schema pe) now (key_bytes instanceKey) body of
               Inr (Accepted reply) \<Rightarrow> Some (upsert_remote now (rin_id peer) remoteUserId (env_payload reply) w)
             | _ \<Rightarrow> None)"

definition getCachedRemoteProfile :: "string \<Rightarrow> inbound_world \<Rightarrow> remote_user_row option" where
  "getCachedRemoteProfile remoteUserId w = find_remote w remoteUserId"

definition profileBackedRemoteUser :: "profile_env \<Rightarrow> millis \<Rightarrow> string \<Rightarrow> inbound_world \<Rightarrow> inbound_failure + remote_user_row \<times> inbound_world" where
  "profileBackedRemoteUser pe now remoteUserId w =
     (case find_remote w remoteUserId of
        Some r \<Rightarrow> Inr (r, w)
      | None \<Rightarrow>
          case fetchRemoteProfile pe now remoteUserId w of None \<Rightarrow> Inl Thrown
        | Some (_, w) \<Rightarrow> (case find_remote w remoteUserId of None \<Rightarrow> Inl Thrown | Some r \<Rightarrow> Inr (r, w)))"

end
