(* ===== verification/Mirrors.thy ===== *)
theory Mirrors
  imports RemoteUsers
begin

text \<open>
  Mirrors of servers whose home is another instance (services/federation-mirror.ts). Every operation runs
  inside the transaction of its caller. Foreign keys cascade as the schema says: with a server go its
  members, roles, channels, bans, voice states and invites, with a channel its messages, overwrites and
  voice states, with a message its reactions, edits, mentions and pins; replies to it lose their target.
\<close>

section \<open>Cascades\<close>

definition detach_reply :: "(ident \<Rightarrow> bool) \<Rightarrow> fed_message_row \<Rightarrow> fed_message_row" where
  "detach_reply gone m =
     (case fmr_replyTo m of None \<Rightarrow> m | Some r \<Rightarrow> if gone r then m\<lparr>fmr_replyTo := None\<rparr> else m)"

definition drop_messages :: "(fed_message_row \<Rightarrow> bool) \<Rightarrow> inbound_world \<Rightarrow> inbound_world" where
  "drop_messages gone w =
     (let ids = map msg_id (filter gone (iw_messages w)); here = (\<lambda>i. i \<in> set ids)
      in w\<lparr>iw_messages := map (detach_reply here) (filter (\<lambda>m. \<not> gone m) (iw_messages w)),
           iw_reactions := filter (\<lambda>r. \<not> here (rct_messageId r)) (iw_reactions w),
           iw_edits := filter (\<lambda>e. \<not> here (edt_messageId e)) (iw_edits w),
           iw_mentions := filter (\<lambda>i. \<not> here i) (iw_mentions w),
           iw_pins := filter (\<lambda>i. \<not> here i) (iw_pins w)\<rparr>)"

definition drop_channels :: "(fed_channel_row \<Rightarrow> bool) \<Rightarrow> inbound_world \<Rightarrow> inbound_world" where
  "drop_channels gone w =
     (let ids = map chn_id (filter gone (iw_channels w)); here = (\<lambda>i. i \<in> set ids); d = iw_db w;
          w = drop_messages (\<lambda>m. case msg_channelId m of None \<Rightarrow> False | Some c \<Rightarrow> here c) w
      in w\<lparr>iw_channels := filter (\<lambda>c. \<not> gone c) (iw_channels w),
           iw_db := d\<lparr>db_overwrites := filter (\<lambda>p. \<not> here (pov_channelId p)) (db_overwrites d),
                      db_voice_states := map (\<lambda>v. case voi_channelId v of
                          Some c \<Rightarrow> if here c then v\<lparr>voi_channelId := None\<rparr> else v
                        | None \<Rightarrow> v) (db_voice_states d)\<rparr>\<rparr>)"

section \<open>The service\<close>

definition everyone_role :: "ident \<Rightarrow> ident \<Rightarrow> role_row" where
  "everyone_role i serverId = \<lparr>rol_id = i, rol_serverId = serverId, rol_name = ''@everyone'',
     rol_permissions = PERMISSION_DEFAULT_EVERYONE, rol_position = 0\<rparr>"

definition add_member :: "millis \<Rightarrow> ident \<Rightarrow> ident \<Rightarrow> inbound_world \<Rightarrow> inbound_world" where
  "add_member now serverId userId w =
     w\<lparr>iw_db := (iw_db w)\<lparr>db_members := db_members (iw_db w) @ [\<lparr>mem_serverId = serverId, mem_userId = userId, mem_gatePassedAt = None\<rparr>]\<rparr>,
       iw_joinedAt := (iw_joinedAt w)((serverId, userId) := now)\<rparr>"

definition remove_member :: "ident \<Rightarrow> ident \<Rightarrow> inbound_world \<Rightarrow> inbound_world" where
  "remove_member serverId userId w =
     w\<lparr>iw_db := (iw_db w)
         \<lparr>db_members := filter (\<lambda>m. \<not> (mem_serverId m = serverId \<and> mem_userId m = userId)) (db_members (iw_db w)),
          db_member_roles := filter (\<lambda>r. \<not> (mr_serverId r = serverId \<and> mr_userId r = userId)) (db_member_roles (iw_db w))\<rparr>\<rparr>"

definition mirror_server_row :: "millis \<Rightarrow> ident \<Rightarrow> ident \<Rightarrow> ident \<Rightarrow> string \<Rightarrow> string option \<Rightarrow> string option \<Rightarrow> ident \<Rightarrow> fed_server_row" where
  "mirror_server_row now serverId originInstanceId ownerId name description iconUrl roleId =
     \<lparr>srv_id = serverId, srv_ownerUserId = ownerId, srv_name = name, srv_iconAttachmentId = None, srv_defaultRoleId = Some roleId,
      srv_federationEnabled = True, srv_originInstanceId = Some originInstanceId, srv_verificationLevel = VerNone,
      srv_verificationMinAccountAgeHours = 0, srv_modLogChannelId = None, fsr_description = description, fsr_iconUrl = iconUrl,
      fsr_createdAt = now\<rparr>"

text \<open>The result names the everyone role and the local row of the owner.\<close>

definition createMirrorServer ::
  "profile_env \<Rightarrow> millis \<Rightarrow> ident \<Rightarrow> ident \<Rightarrow> string \<Rightarrow> string \<Rightarrow> string option \<Rightarrow> string option \<Rightarrow> inbound_world \<Rightarrow>
   inbound_failure + (ident \<times> ident) \<times> inbound_world" where
  "createMirrorServer pe now serverId originInstanceId ownerRemoteUserId name description iconUrl w =
     (if find_srv w serverId \<noteq> None then Inl Thrown
      else case profileBackedRemoteUser pe now ownerRemoteUserId w of Inl e \<Rightarrow> Inl e | Inr (ownerRemote, w) \<Rightarrow>
           case ensureUserForRemoteUser now ownerRemote w of Inl e \<Rightarrow> Inl e | Inr (owner, w) \<Rightarrow>
           let (roleId, w) = fed_ulid w;
               w = w\<lparr>iw_servers := iw_servers w @ [mirror_server_row now serverId originInstanceId (usr_id owner) name description iconUrl roleId],
                     iw_db := (iw_db w)\<lparr>db_roles := db_roles (iw_db w) @ [everyone_role roleId serverId]\<rparr>\<rparr>
           in Inr ((roleId, usr_id owner), add_member now serverId (usr_id owner) w))"

record mirror_channel =
  mc_serverId :: ident
  mc_originInstanceId :: ident
  mc_channelId :: ident
  mc_name :: string
  mc_type :: string
  mc_topic :: "string option"
  mc_position :: int
  mc_federationMode :: federation_mode
  mc_nsfw :: bool

definition mirror_channel_row :: "mirror_channel \<Rightarrow> fed_channel_row" where
  "mirror_channel_row c = \<lparr>chn_id = mc_channelId c, chn_serverId = mc_serverId c, chn_federationMode = mc_federationMode c,
     fcr_type = mc_type c, fcr_name = mc_name c, fcr_topic = mc_topic c, fcr_position = mc_position c, fcr_nsfw = mc_nsfw c,
     fcr_originInstanceId = Some (mc_originInstanceId c)\<rparr>"

definition mirror_channel_update :: "mirror_channel \<Rightarrow> fed_channel_row \<Rightarrow> fed_channel_row" where
  "mirror_channel_update c r = r\<lparr>fcr_name := mc_name c, fcr_topic := mc_topic c, fcr_position := mc_position c,
     chn_federationMode := mc_federationMode c, fcr_nsfw := mc_nsfw c\<rparr>"

definition upsertMirrorChannel :: "mirror_channel \<Rightarrow> inbound_world \<Rightarrow> inbound_failure + inbound_world" where
  "upsertMirrorChannel c w =
     (if mc_type c \<noteq> ''text'' \<and> mc_type c \<noteq> ''forum'' then Inl Thrown
      else if find_chn w (mc_channelId c) = None then Inr (w\<lparr>iw_channels := iw_channels w @ [mirror_channel_row c]\<rparr>)
      else Inr (w\<lparr>iw_channels := map (\<lambda>r. if chn_id r = mc_channelId c then mirror_channel_update c r else r) (iw_channels w)\<rparr>))"

text \<open>A field that is \<^const>\<open>None\<close> is absent; without any field nothing is written, else the server must exist.\<close>

definition updateMirrorServer ::
  "ident \<Rightarrow> string option \<Rightarrow> string option option \<Rightarrow> string option option \<Rightarrow> inbound_world \<Rightarrow> inbound_failure + inbound_world" where
  "updateMirrorServer serverId name description iconUrl w =
     (if name = None \<and> description = None \<and> iconUrl = None then Inr w
      else if find_srv w serverId = None then Inl Thrown
      else Inr (w\<lparr>iw_servers := map (\<lambda>s. if srv_id s = serverId then
             s\<lparr>srv_name := get_or (srv_name s) name, fsr_description := get_or (fsr_description s) description,
               fsr_iconUrl := get_or (fsr_iconUrl s) iconUrl\<rparr> else s) (iw_servers w)\<rparr>))"

definition deleteMirrorChannel :: "ident \<Rightarrow> ident \<Rightarrow> inbound_world \<Rightarrow> inbound_failure + inbound_world" where
  "deleteMirrorChannel serverId channelId w =
     (case find_chn w channelId of
        None \<Rightarrow> Inr w
      | Some row \<Rightarrow> if chn_serverId row \<noteq> serverId then Inl Thrown else Inr (drop_channels (\<lambda>c. chn_id c = channelId) w))"

definition addMirrorMember :: "profile_env \<Rightarrow> millis \<Rightarrow> ident \<Rightarrow> string \<Rightarrow> inbound_world \<Rightarrow> inbound_failure + ident \<times> inbound_world" where
  "addMirrorMember pe now serverId joinerRemoteUserId w =
     (case profileBackedRemoteUser pe now joinerRemoteUserId w of Inl e \<Rightarrow> Inl e | Inr (remoteUser, w) \<Rightarrow>
      case ensureUserForRemoteUser now remoteUser w of Inl e \<Rightarrow> Inl e | Inr (u, w) \<Rightarrow>
      if find_member (iw_db w) serverId (usr_id u) \<noteq> None then Inr (usr_id u, w)
      else Inr (usr_id u, add_member now serverId (usr_id u) w))"

definition removeMirrorMember :: "ident \<Rightarrow> string \<Rightarrow> inbound_world \<Rightarrow> inbound_world" where
  "removeMirrorMember serverId leaverRemoteUserId w =
     (case user_of_remote w leaverRemoteUserId of None \<Rightarrow> w | Some u \<Rightarrow> remove_member serverId (usr_id u) w)"

definition local_members :: "db \<Rightarrow> ident \<Rightarrow> member_row list" where
  "local_members d serverId = filter (\<lambda>m. mem_serverId m = serverId \<and>
     (case find_user d (mem_userId m) of None \<Rightarrow> False | Some u \<Rightarrow> usr_remoteInstanceId u = None)) (db_members d)"

definition drop_server :: "ident \<Rightarrow> inbound_world \<Rightarrow> inbound_world" where
  "drop_server serverId w =
     (let w = drop_channels (\<lambda>c. chn_serverId c = serverId) w; d = iw_db w
      in w\<lparr>iw_servers := filter (\<lambda>s. srv_id s \<noteq> serverId) (iw_servers w),
           iw_invites := filter (\<lambda>i. inv_serverId i \<noteq> Some serverId) (iw_invites w),
           iw_db := d\<lparr>db_members := filter (\<lambda>m. mem_serverId m \<noteq> serverId) (db_members d),
                      db_roles := filter (\<lambda>r. rol_serverId r \<noteq> serverId) (db_roles d),
                      db_member_roles := filter (\<lambda>r. mr_serverId r \<noteq> serverId) (db_member_roles d),
                      db_bans := filter (\<lambda>b. ban_serverId b \<noteq> serverId) (db_bans d),
                      db_voice_states := filter (\<lambda>v. voi_serverId v \<noteq> serverId) (db_voice_states d)\<rparr>\<rparr>)"

definition tearDownMirrorServerIfEmpty :: "ident \<Rightarrow> inbound_world \<Rightarrow> inbound_failure + bool \<times> inbound_world" where
  "tearDownMirrorServerIfEmpty serverId w =
     (if local_members (iw_db w) serverId \<noteq> [] then Inr (False, w)
      else case find_srv w serverId of
        None \<Rightarrow> Inr (False, w)
      | Some s \<Rightarrow> if srv_originInstanceId s = None then Inl Thrown else Inr (True, drop_server serverId w))"

end
