(* ===== verification/Inbound.thy ===== *)
theory Inbound
  imports Mirrors
begin

text \<open>
  The inbound side of the federation (services/federation-inbound.ts, routes/federation-events.ts): an envelope of a
  peer is checked, logged against replay and handed to the handler of its event type in one transaction;
  what a handler returns for after the commit (publishing, the last-seen time, relays) runs last. A handler
  that fails leaves the world as it was. Texts of errors are left out, their codes are kept.
\<close>

section \<open>The service\<close>

text \<open>
  \<open>ie_schema\<close> is zod's schema of each payload, \<open>ie_hash\<close> SHA-256, \<open>ie_fan\<close> the queue client and its schemas;
  \<open>ie_queues\<close> tells whether one was given.
\<close>

record inbound_env =
  ie_verify :: scheme
  ie_schema :: "string \<Rightarrow> wire_schema"
  ie_hash :: "byte list \<Rightarrow> byte list"
  ie_profile :: profile_env
  ie_fan :: fan_env
  ie_queues :: bool
  ie_keys :: "signer option"
  ie_selfHost :: "string option"
  ie_enabled :: bool
  ie_dmsEnabled :: bool
  ie_presenceEnabled :: bool

datatype reply_data =
    ReplyMessage ident bool              \<comment> \<open>its id, and whether it was there before\<close>
  | ReplyReacted ident
  | ReplyRow ident                       \<comment> \<open>of a server, channel or user\<close>
  | ReplyMember ident "ident option"
  | ReplyDm ident bool
  | ReplySkipped string
  | ReplyEnvelope envelope

record handler_output =
  ho_data :: "reply_data option"
  ho_post :: "inbound_world \<Rightarrow> inbound_world"
  ho_response :: "(string \<times> json) option"

type_synonym handled = "inbound_failure + handler_output \<times> inbound_world"

definition refuse :: "inbound_code \<Rightarrow> inbound_failure + 'a" where "refuse c = Inl (Refused c)"

definition answer :: "reply_data \<Rightarrow> (inbound_world \<Rightarrow> inbound_world) \<Rightarrow> inbound_world \<Rightarrow> handled" where
  "answer r post w = Inr (\<lparr>ho_data = Some r, ho_post = post, ho_response = None\<rparr>, w)"

text \<open>\<open>remoteUser.update\<close> of \<open>lastSeenAt\<close>.\<close>

definition touch :: "millis \<Rightarrow> remote_user_row \<Rightarrow> inbound_world \<Rightarrow> inbound_world" where
  "touch now r w = w\<lparr>iw_remoteUsers := map (\<lambda>x. if rus_id x = rus_id r then x\<lparr>rus_lastSeenAt := now\<rparr> else x) (iw_remoteUsers w)\<rparr>"

definition MAX_CLOCK_SKEW_MS :: millis where "MAX_CLOCK_SKEW_MS = 5 * 60 * 1000"

text \<open>An unreadable date passes the comparison (\<open>NaN\<close>) and fails when it is written.\<close>

definition assertTimestampWithinSkew :: "millis \<Rightarrow> string \<Rightarrow> inbound_failure + millis" where
  "assertTimestampWithinSkew now s =
     (case Date_parse s of
        None \<Rightarrow> Inl Thrown
      | Some t \<Rightarrow> if \<bar>now - t\<bar> > MAX_CLOCK_SKEW_MS then refuse BadEnvelope else Inr t)"

definition federated_channel :: "inbound_world \<Rightarrow> fed_channel_row \<Rightarrow> bool" where
  "federated_channel w c =
     computeEffectiveFederation (case find_srv w (chn_serverId c) of None \<Rightarrow> False | Some s \<Rightarrow> srv_federationEnabled s)
       (chn_federationMode c)"

section \<open>Channel messages\<close>

definition fed_message :: "json \<Rightarrow> envelope \<Rightarrow> ident \<Rightarrow> ident \<Rightarrow> millis \<Rightarrow> fed_message_row" where
  "fed_message p env authorId peerId t =
     \<lparr>msg_id = fld_text p ''messageId'', msg_serverId = None, msg_channelId = None, msg_authorId = authorId, msg_system = False,
      msg_content = fld_text p ''content'', msg_createdAt = t, msg_deletedAt = None, fmr_dmChannelId = None,
      fmr_replyTo = opt_of (fld p ''replyToMessageId''), fmr_editedAt = None, fmr_signature = Some (base64_bytes (env_signature env)),
      fmr_originInstanceId = Some peerId\<rparr>"

definition reply_known :: "json \<Rightarrow> inbound_world \<Rightarrow> bool" where
  "reply_known p w = (case opt_of (fld p ''replyToMessageId'') of None \<Rightarrow> True | Some r \<Rightarrow> find_msg w r \<noteq> None)"

definition store_message :: "fed_message_row \<Rightarrow> inbound_world \<Rightarrow> inbound_world" where
  "store_message m w = w\<lparr>iw_messages := iw_messages w @ [m]\<rparr>"

definition queue_result :: "fan_error + fan_state \<Rightarrow> inbound_world \<Rightarrow> inbound_world" where   \<comment> \<open>a failure is logged\<close>
  "queue_result r w = (case r of Inl _ \<Rightarrow> w | Inr q \<Rightarrow> w\<lparr>iw_queue := q\<rparr>)"

definition fan_env_of :: "inbound_env \<Rightarrow> fan_env" where
  "fan_env_of ie = (ie_fan ie)\<lparr>fe_selfHost := get_or [] (ie_selfHost ie), fe_enabled := Some (ie_enabled ie)\<rparr>"

definition relay :: "inbound_env \<Rightarrow> ident \<Rightarrow> envelope \<Rightarrow> ident \<Rightarrow> ident \<Rightarrow> ident \<Rightarrow> inbound_world \<Rightarrow> inbound_world" where
  "relay ie serverId env messageId peerId authorId w =
     queue_result (fanOutMessageCreateRelay (fan_env_of ie) (iw_db w) serverId messageId (env_payload env)
        (get_or [] (env_userSignature env)) peerId authorId (iw_queue w)) w"

definition should_relay :: "inbound_env \<Rightarrow> fed_server_row option \<Rightarrow> bool" where
  "should_relay ie srv \<longleftrightarrow>
     (case srv of None \<Rightarrow> False | Some s \<Rightarrow> srv_originInstanceId s = None \<and> srv_federationEnabled s) \<and>
     ie_enabled ie \<and> ie_queues ie \<and> ie_selfHost ie \<noteq> None"

definition handleMessageCreate :: "inbound_env \<Rightarrow> millis \<Rightarrow> envelope \<Rightarrow> remote_instance_row \<Rightarrow> remote_user_row \<Rightarrow> inbound_world \<Rightarrow> handled" where
  "handleMessageCreate ie now env peer ru w =
     (let p = env_payload env; messageId = fld_text p ''messageId''
      in case find_chn w (fld_text p ''channelId'') of None \<Rightarrow> refuse UnknownChannel | Some c \<Rightarrow>
         let srv = find_srv w (chn_serverId c)
         in if \<not> federated_channel w c then refuse FederationOff
         else case ensureUserForRemoteUser now ru w of Inl e \<Rightarrow> Inl e | Inr (author, w) \<Rightarrow>
         if find_member (iw_db w) (chn_serverId c) (usr_id author) = None then refuse NotAMember
         else if find_msg w messageId \<noteq> None then answer (ReplyMessage messageId True) (touch now ru) w
         else case assertTimestampWithinSkew now (fld_text p ''createdAt'') of Inl e \<Rightarrow> Inl e | Inr t \<Rightarrow>
         if \<not> reply_known p w then Inl Thrown
         else
           let row = (fed_message p env (usr_id author) (rin_id peer) t)\<lparr>msg_serverId := Some (chn_serverId c), msg_channelId := Some (chn_id c)\<rparr>
           in answer (ReplyMessage messageId False)
                (\<lambda>w. let w = touch now ru (fed_publish (EvMessageCreate (InServer (Some (chn_serverId c)) (chn_id c)) row) w)
                     in if should_relay ie srv then relay ie (chn_serverId c) env messageId (rin_id peer) (usr_id author) w else w)
                (store_message row w))"

definition author_remote :: "inbound_world \<Rightarrow> fed_message_row \<Rightarrow> string option" where
  "author_remote w m = Option.bind (find_user (iw_db w) (msg_authorId m)) usr_remoteUserId"

definition update_message :: "ident \<Rightarrow> (fed_message_row \<Rightarrow> fed_message_row) \<Rightarrow> inbound_world \<Rightarrow> inbound_world" where
  "update_message i f w = w\<lparr>iw_messages := map (\<lambda>m. if msg_id m = i then f m else m) (iw_messages w)\<rparr>"

text \<open>The content before an edit that changes it is kept.\<close>

definition keep_edit :: "fed_message_row \<Rightarrow> string \<Rightarrow> inbound_world \<Rightarrow> inbound_world" where
  "keep_edit m content w =
     (if msg_content m = content then w
      else let (i, w) = fed_ulid w
           in w\<lparr>iw_edits := iw_edits w @ [\<lparr>edt_id = i, edt_messageId = msg_id m, edt_content = msg_content m, edt_editedBy = msg_authorId m\<rparr>]\<rparr>)"

definition edited :: "string \<Rightarrow> millis \<Rightarrow> fed_message_row \<Rightarrow> fed_message_row" where
  "edited content t m = m\<lparr>msg_content := content, fmr_editedAt := Some t\<rparr>"

definition erased :: "millis \<Rightarrow> fed_message_row \<Rightarrow> fed_message_row" where
  "erased t m = m\<lparr>msg_deletedAt := Some t, msg_content := []\<rparr>"

text \<open>The channel of a message, if it is in one; its federation, where a missing channel counts as inheriting.\<close>

definition message_federated :: "inbound_world \<Rightarrow> ident \<Rightarrow> bool" where
  "message_federated w channelId =
     (case find_chn w channelId of None \<Rightarrow> computeEffectiveFederation False Inherit | Some c \<Rightarrow> federated_channel w c)"

definition handleMessageUpdate :: "millis \<Rightarrow> envelope \<Rightarrow> remote_user_row \<Rightarrow> inbound_world \<Rightarrow> handled" where
  "handleMessageUpdate now env ru w =
     (let p = env_payload env; content = fld_text p ''content''
      in case find_msg w (fld_text p ''messageId'') of None \<Rightarrow> refuse UnknownMessage | Some m \<Rightarrow>
         if msg_deletedAt m \<noteq> None then refuse UnknownMessage
         else case msg_channelId m of None \<Rightarrow> refuse UnknownMessage | Some channelId \<Rightarrow>
         if \<not> message_federated w channelId then refuse FederationOff
         else if author_remote w m \<noteq> Some (rus_remoteUserId ru) then refuse Forbidden
         else case assertTimestampWithinSkew now (fld_text p ''editedAt'') of Inl e \<Rightarrow> Inl e | Inr t \<Rightarrow>
         answer (ReplyMessage (msg_id m) False)
           (\<lambda>w. touch now ru (fed_publish (EvMessageUpdate (InServer (msg_serverId m) channelId) (edited content t m)) w))
           (update_message (msg_id m) (edited content t) (keep_edit m content w)))"

definition clear_message :: "ident \<Rightarrow> inbound_world \<Rightarrow> inbound_world" where
  "clear_message i w = w\<lparr>iw_reactions := filter (\<lambda>r. rct_messageId r \<noteq> i) (iw_reactions w), iw_mentions := filter (\<lambda>m. m \<noteq> i) (iw_mentions w)\<rparr>"

definition unpin :: "ident \<Rightarrow> inbound_world \<Rightarrow> inbound_world" where
  "unpin i w = w\<lparr>iw_pins := filter (\<lambda>m. m \<noteq> i) (iw_pins w)\<rparr>"

definition handleMessageDelete :: "millis \<Rightarrow> envelope \<Rightarrow> remote_user_row \<Rightarrow> inbound_world \<Rightarrow> handled" where
  "handleMessageDelete now env ru w =
     (let p = env_payload env
      in case find_msg w (fld_text p ''messageId'') of None \<Rightarrow> refuse UnknownMessage | Some m \<Rightarrow>
         case msg_channelId m of None \<Rightarrow> refuse UnknownMessage | Some channelId \<Rightarrow>
         if \<not> message_federated w channelId then refuse FederationOff
         else if author_remote w m \<noteq> Some (rus_remoteUserId ru) then refuse Forbidden
         else if msg_deletedAt m \<noteq> None then answer (ReplyMessage (msg_id m) True) (touch now ru) w
         else case assertTimestampWithinSkew now (fld_text p ''deletedAt'') of Inl e \<Rightarrow> Inl e | Inr t \<Rightarrow>
         answer (ReplyMessage (msg_id m) False)
           (\<lambda>w. touch now ru (fed_publish (EvMessageDelete (InServer (msg_serverId m) channelId) (msg_id m) t) w))
           (unpin (msg_id m) (clear_message (msg_id m) (update_message (msg_id m) (erased t) w))))"

section \<open>Reactions of channels\<close>

definition custom_emoji :: "string \<Rightarrow> bool" where
  "custom_emoji emoji \<longleftrightarrow> take 7 (toLowerCase emoji) = ''custom:''"

text \<open>The result: the server, the channel and the reaction the event is about.\<close>

definition validateInboundReaction ::
  "millis \<Rightarrow> string \<Rightarrow> string \<Rightarrow> remote_user_row \<Rightarrow> inbound_world \<Rightarrow> inbound_failure + (ident \<times> ident \<times> reaction_row) \<times> inbound_world" where
  "validateInboundReaction now messageId emoji ru w =
     (if custom_emoji emoji then refuse Forbidden
      else case find_msg w messageId of None \<Rightarrow> refuse UnknownMessage | Some m \<Rightarrow>
      if msg_deletedAt m \<noteq> None then refuse UnknownMessage
      else case msg_channelId m of None \<Rightarrow> refuse UnknownMessage | Some channelId \<Rightarrow>
      if \<not> message_federated w channelId then refuse FederationOff
      else case ensureUserForRemoteUser now ru w of Inl e \<Rightarrow> Inl e | Inr (u, w) \<Rightarrow>
      case msg_serverId m of None \<Rightarrow> refuse UnknownMessage | Some serverId \<Rightarrow>
      if find_member (iw_db w) serverId (usr_id u) = None then refuse NotAMember
      else Inr ((serverId, channelId, \<lparr>rct_messageId = msg_id m, rct_userId = usr_id u, rct_emoji = emoji\<rparr>), w))"

definition add_reaction :: "reaction_row \<Rightarrow> inbound_world \<Rightarrow> inbound_world" where
  "add_reaction r w = (if r \<in> set (iw_reactions w) then w else w\<lparr>iw_reactions := iw_reactions w @ [r]\<rparr>)"

definition remove_reaction :: "reaction_row \<Rightarrow> inbound_world \<Rightarrow> inbound_world" where
  "remove_reaction r w = w\<lparr>iw_reactions := filter (\<lambda>x. x \<noteq> r) (iw_reactions w)\<rparr>"

definition handleReactionAdd :: "millis \<Rightarrow> envelope \<Rightarrow> remote_user_row \<Rightarrow> inbound_world \<Rightarrow> handled" where
  "handleReactionAdd now env ru w =
     (case validateInboundReaction now (fld_text (env_payload env) ''messageId'') (fld_text (env_payload env) ''emoji'') ru w of
        Inl e \<Rightarrow> Inl e
      | Inr ((serverId, channelId, r), w) \<Rightarrow>
          answer (ReplyReacted (rct_messageId r)) (\<lambda>w. touch now ru (fed_publish (EvReactionAdd (InServer (Some serverId) channelId) r) w)) (add_reaction r w))"

definition handleReactionRemove :: "millis \<Rightarrow> envelope \<Rightarrow> remote_user_row \<Rightarrow> inbound_world \<Rightarrow> handled" where
  "handleReactionRemove now env ru w =
     (case validateInboundReaction now (fld_text (env_payload env) ''messageId'') (fld_text (env_payload env) ''emoji'') ru w of
        Inl e \<Rightarrow> Inl e
      | Inr ((serverId, channelId, r), w) \<Rightarrow>
          answer (ReplyReacted (rct_messageId r)) (\<lambda>w. touch now ru (fed_publish (EvReactionRemove (InServer (Some serverId) channelId) r) w)) (remove_reaction r w))"

section \<open>Joining and leaving\<close>

definition snapshot_channel :: "fed_channel_row \<Rightarrow> json" where
  "snapshot_channel c = JObj [(''id'', JStr (chn_id c)), (''name'', JStr (fcr_name c)), (''type'', JStr (fcr_type c)),
     (''topic'', the (js_nullable (fcr_topic c))), (''position'', JNum (fcr_position c)),
     (''federationMode'', JStr (mode_name (chn_federationMode c))), (''nsfw'', JBool (fcr_nsfw c))]"

definition qualified_user :: "string \<Rightarrow> user_row \<Rightarrow> string" where
  "qualified_user selfHost u = get_or (usr_username u @ ''@'' @ selfHost) (usr_remoteUserId u)"

definition snapshot_member :: "string \<Rightarrow> inbound_world \<Rightarrow> member_row \<Rightarrow> json option" where
  "snapshot_member selfHost w m =
     (case (find_user (iw_db w) (mem_userId m), toISOString (iw_joinedAt w (mem_serverId m, mem_userId m))) of
        (Some u, Some t) \<Rightarrow> Some (JObj [(''remoteUserId'', JStr (qualified_user selfHost u)), (''displayName'', JStr (usr_displayName u)), (''joinedAt'', JStr t)])
      | _ \<Rightarrow> None)"

definition snapshot_channels :: "ident \<Rightarrow> inbound_world \<Rightarrow> fed_channel_row list" where
  "snapshot_channels serverId w =
     filter (\<lambda>c. computeEffectiveFederation True (chn_federationMode c))
       (sort_key fcr_position (filter (\<lambda>c. chn_serverId c = serverId \<and> (fcr_type c = ''text'' \<or> fcr_type c = ''forum'')) (iw_channels w)))"

definition snapshot_members :: "ident \<Rightarrow> inbound_world \<Rightarrow> member_row list" where
  "snapshot_members serverId w =
     sort_key (\<lambda>m. iw_joinedAt w (mem_serverId m, mem_userId m)) (filter (\<lambda>m. mem_serverId m = serverId) (db_members (iw_db w)))"

definition buildServerSnapshot :: "string \<Rightarrow> ident \<Rightarrow> inbound_world \<Rightarrow> inbound_failure + json" where
  "buildServerSnapshot selfHost serverId w =
     (case find_srv w serverId of None \<Rightarrow> Inl Thrown | Some s \<Rightarrow>
      if \<not> srv_federationEnabled s then refuse InviteNoLongerValid
      else case find_user (iw_db w) (srv_ownerUserId s) of None \<Rightarrow> Inl Thrown | Some owner \<Rightarrow>
      let ms = map (snapshot_member selfHost w) (snapshot_members serverId w)
      in case toISOString (fsr_createdAt s) of None \<Rightarrow> Inl Thrown | Some created \<Rightarrow>
         if \<exists>m \<in> set ms. m = None then Inl Thrown
         else Inr (JObj [(''serverId'', JStr (srv_id s)), (''ownerRemoteUserId'', JStr (qualified_user selfHost owner)), (''name'', JStr (srv_name s)),
                (''description'', the (js_nullable (fsr_description s))), (''iconUrl'', the (js_nullable (fsr_iconUrl s))),
                (''federationEnabled'', JBool True), (''channels'', JArr (map snapshot_channel (snapshot_channels serverId w))),
                (''members'', JArr (map the ms)), (''createdAt'', JStr created)]))"

definition find_invite :: "inbound_world \<Rightarrow> string \<Rightarrow> fed_invite_row option" where
  "find_invite w code = List.find (\<lambda>i. inv_code i = code) (iw_invites w)"

text \<open>What the joiner may use: a server invite for remote users, unrevoked, unexpired, with uses left and scoped to him.\<close>

definition invite_refusal :: "millis \<Rightarrow> string \<Rightarrow> string \<Rightarrow> fed_invite_row \<Rightarrow> inbound_code option" where
  "invite_refusal now peerHost joiner i =
     (if finv_remoteScope i = None then Some UnknownInvite
      else if inv_scope i \<noteq> ServerInvite \<or> get_or [] (inv_serverId i) = [] then Some UnknownInvite
      else if inv_revokedAt i \<noteq> None then Some InviteNoLongerValid
      else if (case inv_expiresAt i of None \<Rightarrow> False | Some t \<Rightarrow> t \<le> now) then Some InviteNoLongerValid
      else if (case inv_maxUses i of None \<Rightarrow> False | Some n \<Rightarrow> inv_uses i \<ge> n) then Some InviteNoLongerValid
      else case finv_remoteScope i of
        Some SpecificInstance \<Rightarrow> if finv_remoteInstanceHost i \<noteq> Some peerHost then Some Forbidden else None
      | Some SpecificUser \<Rightarrow>
          if finv_remoteInstanceHost i \<noteq> Some peerHost \<or> finv_remoteUserId i \<noteq> Some joiner then Some Forbidden else None
      | _ \<Rightarrow> None)"

definition invite_takes_one :: "millis \<Rightarrow> fed_invite_row \<Rightarrow> bool" where
  "invite_takes_one now i \<longleftrightarrow> inv_revokedAt i = None \<and>
     (case inv_maxUses i of None \<Rightarrow> True | Some n \<Rightarrow> inv_uses i < n) \<and> (case inv_expiresAt i of None \<Rightarrow> True | Some t \<Rightarrow> t > now)"

definition use_invite :: "ident \<Rightarrow> inbound_world \<Rightarrow> inbound_world" where
  "use_invite inviteId w =
     w\<lparr>iw_invites := map (\<lambda>i. if inv_id i = inviteId then i\<lparr>inv_uses := inv_uses i + 1\<rparr> else i) (iw_invites w)\<rparr>"

text \<open>A new member takes one use of the invite, if one is left at that moment.\<close>

definition take_seat :: "millis \<Rightarrow> ident \<Rightarrow> ident \<Rightarrow> ident \<Rightarrow> inbound_world \<Rightarrow> inbound_failure + inbound_world" where
  "take_seat now serverId userId inviteId w =
     (let w = add_member now serverId userId w
      in if list_ex (\<lambda>i. inv_id i = inviteId \<and> invite_takes_one now i) (iw_invites w) then Inr (use_invite inviteId w)
         else refuse InviteNoLongerValid)"

definition tell_joined :: "inbound_env \<Rightarrow> millis \<Rightarrow> fed_server_row option \<Rightarrow> ident \<Rightarrow> remote_user_row \<Rightarrow> ident \<Rightarrow> ident \<Rightarrow> inbound_world \<Rightarrow> inbound_world" where
  "tell_joined ie joinedAt srv serverId ru userId peerId w =
     (if ie_queues ie \<and> (case srv of None \<Rightarrow> False | Some s \<Rightarrow> srv_federationEnabled s \<and> srv_originInstanceId s = None)
      then queue_result (fanOutMemberAdd (fan_env_of ie) (iw_db w) serverId (rus_remoteUserId ru) (rus_displayNameCache ru) joinedAt userId
             (Some peerId) (iw_queue w)) w
      else w)"

definition handleMemberJoinRequest :: "inbound_env \<Rightarrow> millis \<Rightarrow> envelope \<Rightarrow> remote_instance_row \<Rightarrow> remote_user_row \<Rightarrow> inbound_world \<Rightarrow> handled" where
  "handleMemberJoinRequest ie now env peer ru w =
     (let p = env_payload env; code = fld_text p ''inviteCode''; joiner = fld_text p ''joinerRemoteUserId''
      in if get_or [] (ie_selfHost ie) = [] then Inl Thrown
         else if joiner \<noteq> rus_remoteUserId ru then refuse BadEnvelope
         else case find_invite w code of None \<Rightarrow> refuse UnknownInvite | Some i \<Rightarrow>
         case invite_refusal now (rin_host peer) joiner i of Some c \<Rightarrow> refuse c | None \<Rightarrow>
         let serverId = get_or [] (inv_serverId i)
         in case ensureUserForRemoteUser now ru w of Inl e \<Rightarrow> Inl e | Inr (u, w) \<Rightarrow>
         let (banned, d) = isBanned now serverId (usr_id u) (iw_db w); w = w\<lparr>iw_db := d\<rparr>
         in if banned then refuse Forbidden
         else
           let newMember = (find_member (iw_db w) serverId (usr_id u) = None)
           in case (if newMember then take_seat now serverId (usr_id u) (inv_id i) w else Inr w) of Inl e \<Rightarrow> Inl e | Inr w \<Rightarrow>
              case buildServerSnapshot (get_or [] (ie_selfHost ie)) serverId w of Inl e \<Rightarrow> Inl e | Inr snapshot \<Rightarrow>
              let payload = JObj [(''inviteCode'', JStr code), (''serverSnapshot'', snapshot)];
                  joinedAt = iw_joinedAt w (serverId, usr_id u); srv = find_srv w serverId
              in if fe_parse (ie_fan ie) ''member.joined'' payload = None then Inl Thrown
                 else Inr (\<lparr>ho_data = None,
                   ho_post = (\<lambda>w. touch now ru (if newMember
                      then tell_joined ie joinedAt srv serverId ru (usr_id u) (rin_id peer) (fed_publish (EvMemberAdd serverId (usr_id u)) w)
                      else w)),
                   ho_response = Some (''member.joined'', payload)\<rparr>, w))"

definition tell_left :: "inbound_env \<Rightarrow> millis \<Rightarrow> fed_server_row option \<Rightarrow> ident \<Rightarrow> string \<Rightarrow> ident \<Rightarrow> ident \<Rightarrow> inbound_world \<Rightarrow> inbound_world" where
  "tell_left ie now srv serverId leaver userId peerId w =
     (if ie_queues ie \<and> get_or [] (ie_selfHost ie) \<noteq> [] \<and>
         (case srv of None \<Rightarrow> False | Some s \<Rightarrow> srv_federationEnabled s \<and> srv_originInstanceId s = None)
      then queue_result (fanOutMemberRemove (fan_env_of ie) (iw_db w) serverId leaver ''left'' now userId [] (Some peerId) (iw_queue w)) w
      else w)"

definition handleMemberLeave :: "inbound_env \<Rightarrow> millis \<Rightarrow> envelope \<Rightarrow> remote_instance_row \<Rightarrow> remote_user_row \<Rightarrow> inbound_world \<Rightarrow> handled" where
  "handleMemberLeave ie now env peer ru w =
     (let p = env_payload env; serverId = fld_text p ''serverId''; leaver = fld_text p ''leaverRemoteUserId''
      in if leaver \<noteq> rus_remoteUserId ru then refuse UnauthorizedLeave
         else case user_of_remote w leaver of None \<Rightarrow> refuse UnknownMember | Some u \<Rightarrow>
         let present = (find_member (iw_db w) serverId (usr_id u) \<noteq> None); srv = find_srv w serverId
         in Inr (\<lparr>ho_data = None,
              ho_post = (\<lambda>w. let w = touch now ru w
                 in if present then tell_left ie now srv serverId leaver (usr_id u) (rin_id peer) (fed_publish (EvMemberRemove serverId (Some (usr_id u))) w)
                    else w),
              ho_response = Some (''member.removed'', JObj [(''serverId'', JStr serverId), (''leaverRemoteUserId'', JStr leaver)])\<rparr>,
              if present then remove_member serverId (usr_id u) w else w))"

section \<open>Mirrored servers and channels\<close>

text \<open>The implicit signer of these events: the owner of the mirror, if the peer is its origin.\<close>

definition resolveMirrorOwner :: "json \<Rightarrow> remote_instance_row \<Rightarrow> inbound_world \<Rightarrow> inbound_failure + string" where
  "resolveMirrorOwner payload peer w =
     (let serverId = fld_text payload ''serverId''
      in if serverId = [] then refuse BadEnvelope
         else case find_srv w serverId of None \<Rightarrow> refuse UnknownMirrorServer | Some s \<Rightarrow>
         case srv_originInstanceId s of None \<Rightarrow> refuse UnknownMirrorServer | Some origin \<Rightarrow>
         if origin \<noteq> rin_id peer then refuse NotOrigin
         else case get_or [] (Option.bind (find_user (iw_db w) (srv_ownerUserId s)) usr_remoteUserId) of
           [] \<Rightarrow> refuse BadEnvelope
         | owner \<Rightarrow> Inr owner)"

definition upd_text :: "json \<Rightarrow> string \<Rightarrow> string option" where "upd_text p k = opt_of (fld p k)"

definition upd_nullable :: "json \<Rightarrow> string \<Rightarrow> string option option" where
  "upd_nullable p k = (if fld p k = JUndefined then None else Some (opt_of (fld p k)))"

definition handleServerUpdate :: "millis \<Rightarrow> envelope \<Rightarrow> remote_user_row \<Rightarrow> inbound_world \<Rightarrow> handled" where
  "handleServerUpdate now env ru w =
     (let p = env_payload env; serverId = fld_text p ''serverId''
      in case updateMirrorServer serverId (upd_text p ''name'') (upd_nullable p ''description'') (upd_nullable p ''iconUrl'') w of
           Inl e \<Rightarrow> Inl e
         | Inr w \<Rightarrow>
             case find_srv w serverId of None \<Rightarrow> Inl Thrown | Some s \<Rightarrow>
             answer (ReplyRow serverId) (\<lambda>w. touch now ru (fed_publish (EvServerUpdate s) w)) w)"

definition handleChannelCreate :: "millis \<Rightarrow> envelope \<Rightarrow> remote_instance_row \<Rightarrow> remote_user_row \<Rightarrow> inbound_world \<Rightarrow> handled" where
  "handleChannelCreate now env peer ru w =
     (let p = env_payload env; c = fld p ''channel''; channelId = fld_text c ''id''
      in case upsertMirrorChannel \<lparr>mc_serverId = fld_text p ''serverId'', mc_originInstanceId = rin_id peer, mc_channelId = channelId,
             mc_name = fld_text c ''name'', mc_type = fld_text c ''type'', mc_topic = opt_of (fld c ''topic''),
             mc_position = int_of_json (fld c ''position''), mc_federationMode = mode_of (fld c ''federationMode''),
             mc_nsfw = bool_of (fld c ''nsfw'')\<rparr> w of
           Inl e \<Rightarrow> Inl e
         | Inr w \<Rightarrow>
             case find_chn w channelId of None \<Rightarrow> Inl Thrown | Some row \<Rightarrow>
             answer (ReplyRow channelId) (\<lambda>w. touch now ru (fed_publish (EvChannelCreate row) w)) w)"

definition changed_channel :: "json \<Rightarrow> ident \<Rightarrow> fed_channel_row \<Rightarrow> mirror_channel" where
  "changed_channel p peerId r = \<lparr>mc_serverId = fld_text p ''serverId'', mc_originInstanceId = peerId, mc_channelId = fld_text p ''channelId'',
     mc_name = get_or (fcr_name r) (upd_text p ''name''), mc_type = fcr_type r,
     mc_topic = get_or (fcr_topic r) (upd_nullable p ''topic''),
     mc_position = (if fld p ''position'' = JUndefined then fcr_position r else int_of_json (fld p ''position'')),
     mc_federationMode = (if fld p ''federationMode'' = JUndefined then chn_federationMode r else mode_of (fld p ''federationMode'')),
     mc_nsfw = (if fld p ''nsfw'' = JUndefined then fcr_nsfw r else bool_of (fld p ''nsfw''))\<rparr>"

definition handleChannelUpdate :: "millis \<Rightarrow> envelope \<Rightarrow> remote_instance_row \<Rightarrow> remote_user_row \<Rightarrow> inbound_world \<Rightarrow> handled" where
  "handleChannelUpdate now env peer ru w =
     (let p = env_payload env; channelId = fld_text p ''channelId''
      in case find_chn w channelId of None \<Rightarrow> refuse UnknownChannel | Some r \<Rightarrow>
         if chn_serverId r \<noteq> fld_text p ''serverId'' then refuse UnknownChannel
         else if fcr_type r \<noteq> ''text'' \<and> fcr_type r \<noteq> ''forum'' then refuse UnknownChannel
         else case upsertMirrorChannel (changed_channel p (rin_id peer) r) w of Inl e \<Rightarrow> Inl e | Inr w \<Rightarrow>
         case find_chn w channelId of None \<Rightarrow> Inl Thrown | Some row \<Rightarrow>
         answer (ReplyRow channelId) (\<lambda>w. touch now ru (fed_publish (EvChannelUpdate row) w)) w)"

definition handleChannelDelete :: "millis \<Rightarrow> envelope \<Rightarrow> remote_user_row \<Rightarrow> inbound_world \<Rightarrow> handled" where
  "handleChannelDelete now env ru w =
     (let p = env_payload env; serverId = fld_text p ''serverId''; channelId = fld_text p ''channelId''
      in case deleteMirrorChannel serverId channelId w of Inl e \<Rightarrow> Inl e | Inr w \<Rightarrow>
         answer (ReplyRow channelId) (\<lambda>w. touch now ru (fed_publish (EvChannelDelete serverId channelId) w)) w)"

definition handleMemberAdd :: "inbound_env \<Rightarrow> millis \<Rightarrow> envelope \<Rightarrow> remote_user_row \<Rightarrow> inbound_world \<Rightarrow> handled" where
  "handleMemberAdd ie now env ru w =
     (let p = env_payload env; serverId = fld_text p ''serverId''
      in case addMirrorMember (ie_profile ie) now serverId (fld_text p ''memberRemoteUserId'') w of Inl e \<Rightarrow> Inl e | Inr (userId, w) \<Rightarrow>
         answer (ReplyMember serverId (Some userId)) (\<lambda>w. touch now ru (fed_publish (EvMemberAdd serverId userId) w)) w)"

definition handleMemberRemove :: "millis \<Rightarrow> envelope \<Rightarrow> remote_user_row \<Rightarrow> inbound_world \<Rightarrow> handled" where
  "handleMemberRemove now env ru w =
     (let p = env_payload env; serverId = fld_text p ''serverId''; member = fld_text p ''memberRemoteUserId'';
          userId = map_option usr_id (user_of_remote w member)
      in answer (ReplyMember serverId userId) (\<lambda>w. touch now ru (fed_publish (EvMemberRemove serverId userId) w))
           (removeMirrorMember serverId member w))"

end
