(* ===== verification/InboundDispatch.thy ===== *)
theory InboundDispatch
  imports Inbound
begin

text \<open>
  The rest of services/federation-inbound.ts: the handlers of direct messages and of presence, the dispatcher
  \<open>processEnvelope\<close> and the status codes of routes/federation-events.ts.
\<close>

section \<open>Direct messages\<close>

text \<open>The local part and the host around the last \<open>@\<close>, both not empty.\<close>

definition split_qualified :: "string \<Rightarrow> (string \<times> string) option" where
  "split_qualified s =
     (let host = rev (takeWhile (\<lambda>c. c \<noteq> CHR ''@'') (rev s)); localpart = take (length s - length host - 1) s
      in if CHR ''@'' \<notin> set s \<or> localpart = [] \<or> host = [] then None else Some (localpart, host))"

definition user_by_name :: "inbound_world \<Rightarrow> string \<Rightarrow> user_row option" where
  "user_by_name w name = List.find (\<lambda>u. toLowerCase (usr_username u) = toLowerCase name) (db_users (iw_db w))"

definition dm_member :: "inbound_world \<Rightarrow> ident \<Rightarrow> ident \<Rightarrow> bool" where
  "dm_member w dmId userId \<longleftrightarrow> list_ex (\<lambda>m. dmm_dmChannelId m = dmId \<and> dmm_userId m = userId) (db_dm_members (iw_db w))"

definition find_dm_channel :: "inbound_world \<Rightarrow> ident \<Rightarrow> dm_channel_row option" where
  "find_dm_channel w i = List.find (\<lambda>c. dmc_id c = i) (db_dm_channels (iw_db w))"

definition store_dm :: "millis \<Rightarrow> ident \<Rightarrow> string \<Rightarrow> ident \<Rightarrow> ident \<Rightarrow> inbound_world \<Rightarrow> inbound_world" where
  "store_dm now dmId pairKey initiatorId recipientId w =
     w\<lparr>iw_db := (iw_db w)
         \<lparr>db_dm_channels := db_dm_channels (iw_db w) @
            [\<lparr>dmc_id = dmId, dmc_kind = Direct, dmc_name = None, dmc_createdById = Some initiatorId, dmc_createdAt = now,
              dmc_lastMessageAt = None, dmc_pairKey = Some pairKey\<rparr>],
          db_dm_members := db_dm_members (iw_db w) @
            map (\<lambda>u. \<lparr>dmm_dmChannelId = dmId, dmm_userId = u, dmm_joinedAt = now, dmm_lastReadAt = None\<rparr>) [recipientId, initiatorId]\<rparr>\<rparr>"

definition handleDmCreate :: "inbound_env \<Rightarrow> millis \<Rightarrow> envelope \<Rightarrow> remote_instance_row \<Rightarrow> remote_user_row \<Rightarrow> inbound_world \<Rightarrow> handled" where
  "handleDmCreate ie now env peer ru w =
     (let p = env_payload env; dmId = fld_text p ''dmChannelId''; initiatorId = fld_text p ''initiatorRemoteUserId'';
          recipientId = fld_text p ''recipientRemoteUserId''
      in if ''dms'' \<notin> set (rin_capabilities peer) then refuse DmsCapabilityMissing
         else if initiatorId \<noteq> rus_remoteUserId ru then refuse BadEnvelope
         else case split_qualified recipientId of None \<Rightarrow> refuse BadEnvelope | Some (localpart, host) \<Rightarrow>
         if get_or [] (ie_selfHost ie) = [] then Inl Thrown
         else if toLowerCase host \<noteq> toLowerCase (get_or [] (ie_selfHost ie)) then refuse UnknownRecipient
         else case user_by_name w localpart of None \<Rightarrow> refuse UnknownRecipient | Some recipient \<Rightarrow>
         if \<not> iw_acceptsDms w (usr_id recipient) then refuse RecipientRefusesFederatedDms
         else case ensureUserForRemoteUser now ru w of Inl e \<Rightarrow> Inl e | Inr (initiator, w) \<Rightarrow>
         let pairKey = federatedDmPairKey initiatorId recipientId
         in case List.find (\<lambda>c. dmc_pairKey c = Some pairKey) (db_dm_channels (iw_db w)) of
              Some c \<Rightarrow> if dmc_id c = dmId then answer (ReplyDm dmId True) (touch now ru) w else refuse DmChannelConflict
            | None \<Rightarrow>
                if find_dm_channel w dmId \<noteq> None then refuse DmChannelConflict
                else if usr_id recipient = usr_id initiator then Inl UniqueViolation
                else answer (ReplyDm dmId False) (\<lambda>w. touch now ru (fed_publish (EvDmChannelCreate dmId (usr_id recipient)) w))
                       (store_dm now dmId pairKey (usr_id initiator) (usr_id recipient) w))"

definition stamp_dm :: "ident \<Rightarrow> millis \<Rightarrow> inbound_world \<Rightarrow> inbound_world" where
  "stamp_dm dmId t w =
     w\<lparr>iw_db := (iw_db w)\<lparr>db_dm_channels :=
        map (\<lambda>c. if dmc_id c = dmId then c\<lparr>dmc_lastMessageAt := Some t\<rparr> else c) (db_dm_channels (iw_db w))\<rparr>\<rparr>"

definition handleDmMessageCreate :: "millis \<Rightarrow> envelope \<Rightarrow> remote_instance_row \<Rightarrow> remote_user_row \<Rightarrow> inbound_world \<Rightarrow> handled" where
  "handleDmMessageCreate now env peer ru w =
     (let p = env_payload env; dmId = fld_text p ''dmChannelId''; author = fld_text p ''authorRemoteUserId''; messageId = fld_text p ''messageId''
      in if ''dms'' \<notin> set (rin_capabilities peer) then refuse DmsCapabilityMissing
         else if author \<noteq> rus_remoteUserId ru then refuse BadEnvelope
         else if find_dm_channel w dmId = None then refuse UnknownDmChannel
         else case user_of_remote w author of None \<Rightarrow> refuse UnknownDmMember | Some u \<Rightarrow>
         if \<not> dm_member w dmId (usr_id u) then refuse NotDmMember
         else if find_msg w messageId \<noteq> None then answer (ReplyMessage messageId True) (touch now ru) w
         else case assertTimestampWithinSkew now (fld_text p ''createdAt'') of Inl e \<Rightarrow> Inl e | Inr t \<Rightarrow>
         if \<not> reply_known p w then Inl Thrown
         else
           let row = (fed_message p env (usr_id u) (rin_id peer) t)\<lparr>fmr_dmChannelId := Some dmId\<rparr>
           in answer (ReplyMessage messageId False)
                (\<lambda>w. touch now ru (fed_publish (EvMessageCreate (InDm dmId) row) w)) (stamp_dm dmId t (store_message row w)))"

text \<open>A message of the conversation the envelope names.\<close>

definition message_in_dm :: "string \<Rightarrow> string \<Rightarrow> inbound_world \<Rightarrow> fed_message_row option" where
  "message_in_dm dmId messageId w =
     (case find_msg w messageId of
        None \<Rightarrow> None
      | Some m \<Rightarrow> if get_or [] (fmr_dmChannelId m) = [] \<or> fmr_dmChannelId m \<noteq> Some dmId then None else Some m)"

definition handleDmMessageUpdate :: "millis \<Rightarrow> envelope \<Rightarrow> remote_instance_row \<Rightarrow> remote_user_row \<Rightarrow> inbound_world \<Rightarrow> handled" where
  "handleDmMessageUpdate now env peer ru w =
     (let p = env_payload env; dmId = fld_text p ''dmChannelId''; content = fld_text p ''content''
      in if ''dms'' \<notin> set (rin_capabilities peer) then refuse DmsCapabilityMissing
         else case message_in_dm dmId (fld_text p ''messageId'') w of None \<Rightarrow> refuse UnknownMessage | Some m \<Rightarrow>
         if msg_deletedAt m \<noteq> None then refuse UnknownMessage
         else if author_remote w m \<noteq> Some (rus_remoteUserId ru) then refuse Forbidden
         else case assertTimestampWithinSkew now (fld_text p ''editedAt'') of Inl e \<Rightarrow> Inl e | Inr t \<Rightarrow>
         answer (ReplyMessage (msg_id m) False)
           (\<lambda>w. touch now ru (fed_publish (EvMessageUpdate (InDm dmId) (edited content t m)) w))
           (update_message (msg_id m) (edited content t) (keep_edit m content w)))"

definition handleDmMessageDelete :: "millis \<Rightarrow> envelope \<Rightarrow> remote_instance_row \<Rightarrow> remote_user_row \<Rightarrow> inbound_world \<Rightarrow> handled" where
  "handleDmMessageDelete now env peer ru w =
     (let p = env_payload env; dmId = fld_text p ''dmChannelId''
      in if ''dms'' \<notin> set (rin_capabilities peer) then refuse DmsCapabilityMissing
         else case message_in_dm dmId (fld_text p ''messageId'') w of None \<Rightarrow> refuse UnknownMessage | Some m \<Rightarrow>
         if author_remote w m \<noteq> Some (rus_remoteUserId ru) then refuse Forbidden
         else if msg_deletedAt m \<noteq> None then answer (ReplyMessage (msg_id m) True) (touch now ru) w
         else case assertTimestampWithinSkew now (fld_text p ''deletedAt'') of Inl e \<Rightarrow> Inl e | Inr t \<Rightarrow>
         answer (ReplyMessage (msg_id m) False)
           (\<lambda>w. touch now ru (fed_publish (EvMessageDelete (InDm dmId) (msg_id m) t) w))
           (clear_message (msg_id m) (update_message (msg_id m) (erased t) w)))"

definition validateInboundDmReaction ::
  "json \<Rightarrow> remote_instance_row \<Rightarrow> remote_user_row \<Rightarrow> inbound_world \<Rightarrow> inbound_failure + ident \<times> reaction_row" where
  "validateInboundDmReaction p peer ru w =
     (let dmId = fld_text p ''dmChannelId''; emoji = fld_text p ''emoji''
      in if ''dms'' \<notin> set (rin_capabilities peer) then refuse DmsCapabilityMissing
         else if custom_emoji emoji then refuse Forbidden
         else case find_msg w (fld_text p ''messageId'') of None \<Rightarrow> refuse UnknownMessage | Some m0 \<Rightarrow>
         if msg_deletedAt m0 \<noteq> None then refuse UnknownMessage
         else case message_in_dm dmId (fld_text p ''messageId'') w of None \<Rightarrow> refuse UnknownMessage | Some m \<Rightarrow>
         case user_of_remote w (rus_remoteUserId ru) of None \<Rightarrow> refuse UnknownDmMember | Some u \<Rightarrow>
         if \<not> dm_member w dmId (usr_id u) then refuse NotDmMember
         else Inr (dmId, \<lparr>rct_messageId = msg_id m, rct_userId = usr_id u, rct_emoji = emoji\<rparr>))"

definition handleDmReactionAdd :: "millis \<Rightarrow> envelope \<Rightarrow> remote_instance_row \<Rightarrow> remote_user_row \<Rightarrow> inbound_world \<Rightarrow> handled" where
  "handleDmReactionAdd now env peer ru w =
     (case validateInboundDmReaction (env_payload env) peer ru w of Inl e \<Rightarrow> Inl e | Inr (dmId, r) \<Rightarrow>
      answer (ReplyReacted (rct_messageId r)) (\<lambda>w. touch now ru (fed_publish (EvReactionAdd (InDm dmId) r) w)) (add_reaction r w))"

definition handleDmReactionRemove :: "millis \<Rightarrow> envelope \<Rightarrow> remote_instance_row \<Rightarrow> remote_user_row \<Rightarrow> inbound_world \<Rightarrow> handled" where
  "handleDmReactionRemove now env peer ru w =
     (case validateInboundDmReaction (env_payload env) peer ru w of Inl e \<Rightarrow> Inl e | Inr (dmId, r) \<Rightarrow>
      answer (ReplyReacted (rct_messageId r)) (\<lambda>w. touch now ru (fed_publish (EvReactionRemove (InDm dmId) r) w)) (remove_reaction r w))"

section \<open>Presence\<close>

definition presence_of :: "string \<Rightarrow> presence" where
  "presence_of s = (if s = ''active'' then Active else if s = ''idle'' then Idle else if s = ''dnd'' then Dnd else Offline)"

definition host_after_at :: "string \<Rightarrow> string" where
  "host_after_at s = (if CHR ''@'' \<in> set s then rev (takeWhile (\<lambda>c. c \<noteq> CHR ''@'') (rev s)) else [])"

definition mirror_presence :: "ident \<Rightarrow> presence \<Rightarrow> millis \<Rightarrow> string option \<Rightarrow> millis option \<Rightarrow> inbound_world \<Rightarrow> inbound_world" where
  "mirror_presence userId p t status expires w =
     w\<lparr>iw_db := (iw_db w)\<lparr>db_users := map (\<lambda>u. if usr_id u = userId
        then u\<lparr>usr_presence := p, usr_presenceUpdatedAt := t, usr_customStatus := status, usr_customStatusExpiresAt := expires\<rparr> else u)
        (db_users (iw_db w))\<rparr>\<rparr>"

definition touch_remote_id :: "millis \<Rightarrow> string \<Rightarrow> inbound_world \<Rightarrow> inbound_world" where
  "touch_remote_id now i w =
     w\<lparr>iw_remoteUsers := map (\<lambda>x. if rus_remoteUserId x = i then x\<lparr>rus_lastSeenAt := now\<rparr> else x) (iw_remoteUsers w)\<rparr>"

text \<open>
  An unreadable \<open>updatedAt\<close> is not stale (\<open>NaN\<close>) and fails when it is written, as an unreadable end of
  the custom status does.
\<close>

definition handlePresenceUpdate :: "millis \<Rightarrow> json \<Rightarrow> remote_instance_row \<Rightarrow> inbound_world \<Rightarrow> handled" where
  "handlePresenceUpdate now p peer w =
     (let remoteId = fld_text p ''userRemoteUserId''
      in if toLowerCase (host_after_at remoteId) \<noteq> toLowerCase (rin_host peer) then refuse NotHomeInstance
         else case user_of_remote w remoteId of None \<Rightarrow> answer (ReplySkipped ''unknown_user'') id w | Some u \<Rightarrow>
         case Date_parse (fld_text p ''updatedAt'') of None \<Rightarrow> Inl Thrown | Some t \<Rightarrow>
         if t \<le> usr_presenceUpdatedAt u then answer (ReplySkipped ''stale'') id w
         else
           let ends = opt_of (fld p ''customStatusExpiresAt''); status = opt_of (fld p ''customStatus'');
               presence = presence_of (fld_text p ''presence'')
           in case (if get_or [] ends = [] then Some None else map_option Some (Date_parse (get_or [] ends))) of
                None \<Rightarrow> Inl Thrown
              | Some expires \<Rightarrow>
                  answer (ReplyRow (usr_id u))
                    (\<lambda>w. touch_remote_id now remoteId (fed_publish (EvPresence (usr_id u) presence status expires) w))
                    (mirror_presence (usr_id u) presence t status expires w))"

section \<open>The dispatcher\<close>

record prelude =
  pre_fromInstance :: string
  pre_eventType :: string
  pre_nonce :: string
  pre_payload :: json

definition parseEnvelopePrelude :: "json \<Rightarrow> inbound_failure + prelude" where
  "parseEnvelopePrelude body =
     (case body of
        JObj ps \<Rightarrow>
          (case (string_field host_ok ps ''fromInstance'', string_field (\<lambda>s. s \<in> set ENVELOPE_EVENT_TYPES) ps ''eventType'',
                 string_field nonce_ok ps ''nonce'') of
             (Some fromInstance, Some eventType, Some nonce) \<Rightarrow>
               Inr \<lparr>pre_fromInstance = fromInstance, pre_eventType = eventType, pre_nonce = nonce, pre_payload = member ps ''payload''\<rparr>
           | _ \<Rightarrow> refuse BadEnvelope)
      | _ \<Rightarrow> refuse BadEnvelope)"

text \<open>The field of the payload that names the author, for the event types whose payload names one.\<close>

definition author_field :: "string \<Rightarrow> string option" where
  "author_field ty = map_of
     [(''message.create'', ''authorRemoteUserId''), (''message.update'', ''authorRemoteUserId''), (''message.delete'', ''actorRemoteUserId''),
      (''reaction.add'', ''actorRemoteUserId''), (''reaction.remove'', ''actorRemoteUserId''), (''member.join_request'', ''joinerRemoteUserId''),
      (''member.leave'', ''leaverRemoteUserId''), (''dm.create'', ''initiatorRemoteUserId''), (''dm.message.create'', ''authorRemoteUserId''),
      (''dm.message.update'', ''authorRemoteUserId''), (''dm.message.delete'', ''actorRemoteUserId''),
      (''dm.reaction.add'', ''actorRemoteUserId''), (''dm.reaction.remove'', ''actorRemoteUserId'')] ty"

definition OWNER_SIGNED :: "string list" where
  "OWNER_SIGNED = [''server.update'', ''channel.create'', ''channel.update'', ''channel.delete'', ''member.add'', ''member.remove'']"

definition handled_type :: "string \<Rightarrow> bool" where
  "handled_type ty \<longleftrightarrow> author_field ty \<noteq> None \<or> ty \<in> set OWNER_SIGNED"

definition author_of :: "prelude \<Rightarrow> remote_instance_row \<Rightarrow> inbound_world \<Rightarrow> inbound_failure + string" where
  "author_of pre peer w =
     (case author_field (pre_eventType pre) of
        None \<Rightarrow> resolveMirrorOwner (pre_payload pre) peer w
      | Some f \<Rightarrow> (case fld_text (pre_payload pre) f of [] \<Rightarrow> refuse BadEnvelope | author \<Rightarrow> Inr author))"

text \<open>The cached author, else the author after fetching the profile; the cache survives what follows.\<close>

definition cached_author :: "inbound_env \<Rightarrow> millis \<Rightarrow> string \<Rightarrow> inbound_world \<Rightarrow> remote_user_row option \<times> inbound_world" where
  "cached_author ie now author w =
     (case find_remote w author of
        Some r \<Rightarrow> (Some r, w)
      | None \<Rightarrow>
          case fetchRemoteProfile (ie_profile ie) now author w of
            None \<Rightarrow> (None, w)
          | Some (_, w) \<Rightarrow> (find_remote w author, w))"

definition with_previous_key :: "reject_kind \<Rightarrow> remote_instance_row \<Rightarrow> (byte list \<Rightarrow> envelope_error + verify_result) \<Rightarrow> envelope_error + verify_result" where
  "with_previous_key retried peer verify =
     (case verify (rin_instanceKey peer) of
        Inr (Rejected kind reason) \<Rightarrow>
          (case rin_previousInstanceKey peer of
             Some k \<Rightarrow> if kind = retried then verify k else Inr (Rejected kind reason)
           | None \<Rightarrow> Inr (Rejected kind reason))
      | r \<Rightarrow> r)"

definition verified :: "envelope_error + verify_result \<Rightarrow> inbound_failure + envelope" where
  "verified r =
     (case r of
        Inl _ \<Rightarrow> Inl Thrown
      | Inr (Accepted env) \<Rightarrow> Inr env
      | Inr (Rejected kind _) \<Rightarrow> refuse (if kind = SigFailure \<or> kind = UserSigFailure \<or> kind = InstanceSigFailure then BadSignature else BadEnvelope))"

definition verify_inbound :: "inbound_env \<Rightarrow> millis \<Rightarrow> string \<Rightarrow> remote_instance_row \<Rightarrow> remote_user_row \<Rightarrow> json \<Rightarrow> inbound_failure + envelope" where
  "verify_inbound ie now ty peer ru body =
     verified (with_previous_key InstanceSigFailure peer
       (\<lambda>k. verifyTwoLayerMessageEnvelope (ie_verify ie) (ie_schema ie ty) now k (rus_publicKey ru) body))"

definition verify_presence :: "inbound_env \<Rightarrow> millis \<Rightarrow> remote_instance_row \<Rightarrow> json \<Rightarrow> inbound_failure + envelope" where
  "verify_presence ie now peer body =
     verified (with_previous_key SigFailure peer
       (\<lambda>k. verifyEnvelopeShape (ie_verify ie) (ie_schema ie ''presence.update'') now k body))"

definition handle :: "inbound_env \<Rightarrow> millis \<Rightarrow> string \<Rightarrow> envelope \<Rightarrow> remote_instance_row \<Rightarrow> remote_user_row \<Rightarrow> inbound_world \<Rightarrow> handled" where
  "handle ie now ty env peer ru w =
     (if ty = ''message.create'' then handleMessageCreate ie now env peer ru w
      else if ty = ''message.update'' then handleMessageUpdate now env ru w
      else if ty = ''message.delete'' then handleMessageDelete now env ru w
      else if ty = ''reaction.add'' then handleReactionAdd now env ru w
      else if ty = ''reaction.remove'' then handleReactionRemove now env ru w
      else if ty = ''member.join_request'' then handleMemberJoinRequest ie now env peer ru w
      else if ty = ''server.update'' then handleServerUpdate now env ru w
      else if ty = ''channel.create'' then handleChannelCreate now env peer ru w
      else if ty = ''channel.update'' then handleChannelUpdate now env peer ru w
      else if ty = ''channel.delete'' then handleChannelDelete now env ru w
      else if ty = ''member.add'' then handleMemberAdd ie now env ru w
      else if ty = ''member.remove'' then handleMemberRemove now env ru w
      else if ty = ''member.leave'' then handleMemberLeave ie now env peer ru w
      else if ty = ''dm.create'' then handleDmCreate ie now env peer ru w
      else if ty = ''dm.message.create'' then handleDmMessageCreate now env peer ru w
      else if ty = ''dm.message.update'' then handleDmMessageUpdate now env peer ru w
      else if ty = ''dm.message.delete'' then handleDmMessageDelete now env peer ru w
      else if ty = ''dm.reaction.add'' then handleDmReactionAdd now env peer ru w
      else if ty = ''dm.reaction.remove'' then handleDmReactionRemove now env peer ru w
      else refuse NotImplemented)"

definition seen :: "inbound_world \<Rightarrow> ident \<Rightarrow> string \<Rightarrow> bool" where
  "seen w peerId nonce \<longleftrightarrow> list_ex (\<lambda>l. log_peerInstanceId l = peerId \<and> log_nonce l = nonce) (iw_log w)"

definition log_entry :: "remote_instance_row \<Rightarrow> envelope \<Rightarrow> byte list \<Rightarrow> log_row" where
  "log_entry peer env payloadHash = \<lparr>log_peerInstanceId = rin_id peer, log_nonce = env_nonce env, log_eventType = env_eventType env,
     log_payloadHash = payloadHash\<rparr>"

definition log_envelope :: "inbound_env \<Rightarrow> remote_instance_row \<Rightarrow> envelope \<Rightarrow> inbound_world \<Rightarrow> inbound_failure + inbound_world" where
  "log_envelope ie peer env w =
     (case canonical_bytes (env_payload env) of Inl _ \<Rightarrow> Inl Thrown | Inr bytes \<Rightarrow>
      if seen w (rin_id peer) (env_nonce env) then Inl UniqueViolation
      else Inr (w\<lparr>iw_log := iw_log w @ [log_entry peer env (ie_hash ie bytes)]\<rparr>))"

definition transaction :: "inbound_env \<Rightarrow> remote_instance_row \<Rightarrow> envelope \<Rightarrow> (inbound_world \<Rightarrow> handled) \<Rightarrow> inbound_world \<Rightarrow> handled" where
  "transaction ie peer env h w =
     (case (case log_envelope ie peer env w of Inl e \<Rightarrow> Inl e | Inr w \<Rightarrow> h w) of
        Inl UniqueViolation \<Rightarrow> refuse Replay
      | r \<Rightarrow> r)"

definition respond :: "inbound_env \<Rightarrow> millis \<Rightarrow> envelope \<Rightarrow> handler_output \<Rightarrow> inbound_world \<Rightarrow> (inbound_failure + reply_data option) \<times> inbound_world" where
  "respond ie now env out w =
     (case ho_response out of
        None \<Rightarrow> (Inr (ho_data out), w)
      | Some (ty, payload) \<Rightarrow>
          case (ie_keys ie, get_or [] (ie_selfHost ie)) of
            (Some sign, c # cs) \<Rightarrow>
              let (nonce, w) = fed_ulid w
              in (case buildSignedEnvelope now nonce \<lparr>bi_eventType = ty, bi_fromInstance = c # cs, bi_toInstance = env_fromInstance env,
                      bi_payload = payload, bi_lifetimeSeconds = None, bi_notBefore = None\<rparr> sign of
                    Inl _ \<Rightarrow> (Inl Thrown, w)
                  | Inr e \<Rightarrow> (Inr (Some (ReplyEnvelope e)), w))
          | _ \<Rightarrow> (Inl Thrown, w))"

text \<open>
  A profile that \<open>member.add\<close> fetches is stored outside its transaction and survives a roll-back.
\<close>

definition survives :: "inbound_env \<Rightarrow> millis \<Rightarrow> string \<Rightarrow> remote_instance_row \<Rightarrow> envelope \<Rightarrow> inbound_world \<Rightarrow> inbound_world" where
  "survives ie now ty peer env w =
     (if ty = ''member.add'' \<and> \<not> seen w (rin_id peer) (env_nonce env) then
        (case profileBackedRemoteUser (ie_profile ie) now (fld_text (env_payload env) ''memberRemoteUserId'') w of
           Inl _ \<Rightarrow> w | Inr (_, w) \<Rightarrow> w)
      else w)"

definition finish :: "inbound_env \<Rightarrow> millis \<Rightarrow> envelope \<Rightarrow> handled \<Rightarrow> inbound_world \<Rightarrow> (inbound_failure + reply_data option) \<times> inbound_world" where
  "finish ie now env r rolled_back =
     (case r of
        Inl e \<Rightarrow> (Inl e, rolled_back)
      | Inr (out, w) \<Rightarrow> respond ie now env out (ho_post out w))"

definition processPresenceEnvelope :: "inbound_env \<Rightarrow> millis \<Rightarrow> json \<Rightarrow> remote_instance_row \<Rightarrow> inbound_world \<Rightarrow> (inbound_failure + reply_data option) \<times> inbound_world" where
  "processPresenceEnvelope ie now body peer w =
     (case verify_presence ie now peer body of
        Inl e \<Rightarrow> (Inl e, w)
      | Inr env \<Rightarrow> finish ie now env (transaction ie peer env (handlePresenceUpdate now (env_payload env) peer) w) w)"

definition admitted :: "inbound_env \<Rightarrow> json \<Rightarrow> inbound_world \<Rightarrow> inbound_failure + prelude \<times> remote_instance_row" where
  "admitted ie body w =
     (case parseEnvelopePrelude body of Inl e \<Rightarrow> Inl e | Inr pre \<Rightarrow>
      case find_peer w (pre_fromInstance pre) of None \<Rightarrow> refuse UnknownPeer | Some peer \<Rightarrow>
      if rin_status peer \<noteq> Peered then refuse PeerNotPeered
      else if \<not> ie_dmsEnabled ie \<and> take 3 (pre_eventType pre) = ''dm.'' then refuse DmsCapabilityMissing
      else if \<not> ie_presenceEnabled ie \<and> pre_eventType pre = ''presence.update'' then refuse PresenceCapabilityMissing
      else if pre_eventType pre \<noteq> ''presence.update'' \<and> \<not> handled_type (pre_eventType pre) then refuse NotImplemented
      else Inr (pre, peer))"

definition processEnvelope :: "inbound_env \<Rightarrow> millis \<Rightarrow> json \<Rightarrow> inbound_world \<Rightarrow> (inbound_failure + reply_data option) \<times> inbound_world" where
  "processEnvelope ie now body w =
     (case admitted ie body w of Inl e \<Rightarrow> (Inl e, w) | Inr (pre, peer) \<Rightarrow>
      if pre_eventType pre = ''presence.update'' then processPresenceEnvelope ie now body peer w
      else case author_of pre peer w of Inl e \<Rightarrow> (Inl e, w) | Inr author \<Rightarrow>
      case cached_author ie now author w of (None, w) \<Rightarrow> (refuse BadEnvelope, w) | (Some ru, w) \<Rightarrow>
      case verify_inbound ie now (pre_eventType pre) peer ru body of Inl e \<Rightarrow> (Inl e, w) | Inr env \<Rightarrow>
      finish ie now env (transaction ie peer env (handle ie now (pre_eventType pre) env peer ru) w) (survives ie now (pre_eventType pre) peer env w))"

section \<open>The route\<close>

definition statusForCode :: "inbound_code \<Rightarrow> int" where
  "statusForCode c =
     (case c of
        BadEnvelope \<Rightarrow> 400 | BadSignature \<Rightarrow> 401 | UnauthorizedLeave \<Rightarrow> 401 | UnknownPeer \<Rightarrow> 403 | PeerNotPeered \<Rightarrow> 403 | FederationOff \<Rightarrow> 403
      | NotAMember \<Rightarrow> 403 | NotOrigin \<Rightarrow> 403 | Forbidden \<Rightarrow> 403 | DmsCapabilityMissing \<Rightarrow> 403 | PresenceCapabilityMissing \<Rightarrow> 403
      | NotHomeInstance \<Rightarrow> 403 | NotDmMember \<Rightarrow> 403 | RecipientRefusesFederatedDms \<Rightarrow> 403 | UnknownChannel \<Rightarrow> 404 | UnknownMessage \<Rightarrow> 404
      | UnknownInvite \<Rightarrow> 404 | UnknownMirrorServer \<Rightarrow> 404 | UnknownMember \<Rightarrow> 404 | UnknownRecipient \<Rightarrow> 404 | UnknownDmChannel \<Rightarrow> 404
      | UnknownDmMember \<Rightarrow> 404 | Replay \<Rightarrow> 409 | DmChannelConflict \<Rightarrow> 409 | InviteNoLongerValid \<Rightarrow> 410 | NotImplemented \<Rightarrow> 501)"

text \<open>Any other exception is the server's 500.\<close>

definition post_event :: "inbound_env \<Rightarrow> millis \<Rightarrow> json \<Rightarrow> inbound_world \<Rightarrow> int \<times> inbound_world" where
  "post_event ie now body w =
     (case processEnvelope ie now body w of
        (Inr _, w) \<Rightarrow> (200, w)
      | (Inl (Refused c), w) \<Rightarrow> (statusForCode c, w)
      | (Inl _, w) \<Rightarrow> (500, w))"

end
