(* ===== verification/InboundSample.thy ===== *)
theory InboundSample
  imports InboundDispatch
begin

text \<open>
  A small instance to evaluate the inbound side on: one peer, one remote user who owns the mirror of a server there
  and is a member of a local server, and envelopes that pass every check.
\<close>

section \<open>A peer to listen to\<close>

text \<open>A scheme that believes anything the two keys are said to have signed, and envelopes that pass it.\<close>

definition open_scheme :: scheme where "open_scheme m s k \<longleftrightarrow> s = [1]"

definition open_input :: "string \<Rightarrow> json \<Rightarrow> build_input" where
  "open_input ty p = \<lparr>bi_eventType = ty, bi_fromInstance = ''a.b'', bi_toInstance = ''e.f'', bi_payload = p, bi_lifetimeSeconds = None, bi_notBefore = None\<rparr>"

lemma open_accepted:
  assumes "ty \<in> set ENVELOPE_EVENT_TYPES" "canonicalize p \<noteq> None"
  obtains body env where
    "verifyTwoLayerMessageEnvelope open_scheme sample_schema 5 (sample_key 1) (sample_key 2) body = Inr (Accepted env)"
    "parseEnvelopePrelude body = Inr \<lparr>pre_fromInstance = ''a.b'', pre_eventType = ty, pre_nonce = replicate 20 (CHR ''A''), pre_payload = p\<rparr>"
    "env_payload env = p" "env_eventType env = ty" "env_fromInstance env = ''a.b''" "env_toInstance env = ''e.f''"
    "env_nonce env = replicate 20 (CHR ''A'')"
proof -
  let ?n = "replicate 20 (CHR ''A'')" and ?i = "open_input ty p"
  let ?sign = "(\<lambda>m. Some [1]) :: signer"
  have i: "window_start 0 ?i = 0" "window_end 0 ?i = 300000"
    by (simp_all add: window_start_def window_end_def open_input_def ENVELOPE_DEFAULT_LIFETIME_S_def)
  have bi: "bi_eventType ?i = ty" "bi_fromInstance ?i = ''a.b''" "bi_toInstance ?i = ''e.f''" "bi_payload ?i = p"
    by (simp_all add: open_input_def)
  have n: "nonce_ok ?n" by (simp add: nonce_ok_def list_all_iff)
  have signs: "signs_for ?sign open_scheme (sample_key 1)" "signs_for ?sign open_scheme (sample_key 2)"
    by (simp_all add: signs_for_def open_scheme_def sample_keys)
  have r: "receivable sample_schema 0 5 ?n ?i p"
    using assms n i by (simp add: receivable_def) (simp add: open_input_def host_ok_def sample_schema_def)
  obtain bytes where b: "canonical_bytes p = Inr bytes" using assms(2) by (auto simp: canonical_bytes_def)
  obtain nb na where t: "toISOString 0 = Some nb" "toISOString 300000 = Some na"
    using toISOString_some [of 0] toISOString_some [of 300000] by (auto simp: MAX_TIME_def)
  define e0 where "e0 = \<lparr>env_version = PROTOCOL_VERSION, env_eventType = ty, env_nonce = ?n, env_notBefore = nb, env_notAfter = na,
     env_fromInstance = ''a.b'', env_toInstance = ''e.f'', env_payload = p, env_userSignature = Some (base64_text [1]), env_signature = []\<rparr>"
  have "\<exists>m. envelopeSigningBytes e0 = Inr m"
    using assms(2) by (auto simp: envelopeSigningBytes_def canonical_bytes_def canonicalize_def stringify_prints(1) unsigned_members_def e0_def
        split: if_splits option.splits)
  then obtain m where m: "envelopeSigningBytes e0 = Inr m" ..
  have e: "buildTwoLayerMessageEnvelope 0 ?n ?i (Some ?sign) None ?sign = Inr (e0\<lparr>env_signature := base64_text [1]\<rparr>)"
    using m by (simp add: buildTwoLayerMessageEnvelope_def sign_envelope_def iso_date_def i bi t run_signer_def b Let_def flip: e0_def)
  let ?env = "e0\<lparr>env_signature := base64_text [1]\<rparr>"
  have "verifyTwoLayerMessageEnvelope open_scheme sample_schema 5 (sample_key 1) (sample_key 2) (envelope_json ?env) = Inr (Accepted (?env\<lparr>env_payload := p\<rparr>))"
    by (rule two_layer_accepted [OF e signs(2,1) sample_receivable(1) r])
  moreover have "parseEnvelopePrelude (envelope_json ?env) = Inr \<lparr>pre_fromInstance = ''a.b'', pre_eventType = ty, pre_nonce = ?n, pre_payload = p\<rparr>"
    using assms(1) n by (simp add: parseEnvelopePrelude_def envelope_json_def string_field_def member_def unsigned_members_def e0_def host_ok_def)
  ultimately show ?thesis using that by (simp add: e0_def)
qed

section \<open>An instance\<close>

definition inn_env :: inbound_env where
  "inn_env = \<lparr>ie_verify = open_scheme, ie_schema = (\<lambda>_. sample_schema), ie_hash = id,
     ie_profile = \<lparr>pe_selfHost = ''x.y'', pe_resolver = \<lparr>rs_resolve4 = (\<lambda>_. None), rs_resolve6 = (\<lambda>_. None)\<rparr>, pe_sign = (\<lambda>_. None),
       pe_verify = open_scheme, pe_schema = sample_schema, pe_discover = (\<lambda>_. None), pe_post = (\<lambda>_ _ _. NetworkError [])\<rparr>,
     ie_fan = fan_sample_env, ie_queues = False, ie_keys = None, ie_selfHost = Some ''x.y'', ie_enabled = True, ie_dmsEnabled = True,
     ie_presenceEnabled = True\<rparr>"

definition open_peer :: remote_instance_row where
  "open_peer = \<lparr>rin_id = ''P'', rin_host = ''a.b'', rin_status = Peered, rin_capabilities = [''dms''], rin_instanceKey = sample_key 1,
     rin_previousInstanceKey = None\<rparr>"

definition olga :: remote_user_row where
  "olga = \<lparr>rus_id = ''R'', rus_remoteInstanceId = ''P'', rus_remoteUserId = ''olga@a.b'', rus_displayNameCache = ''Olga'', rus_avatarUrlCache = None,
     rus_publicKey = sample_key 2, rus_lastSeenAt = 0\<rparr>"

definition olga_here :: user_row where
  "olga_here = remote_user_new 0 ''U'' ''__rem_u'' olga"

definition open_server :: "ident \<Rightarrow> ident option \<Rightarrow> ident \<Rightarrow> fed_server_row" where
  "open_server i origin owner = (mirror_server_row 0 i ''P'' owner ''inn'' None None ''E'')\<lparr>srv_originInstanceId := origin\<rparr>"

definition open_channel :: fed_channel_row where
  "open_channel = \<lparr>chn_id = ''hall'', chn_serverId = ''L'', chn_federationMode = Inherit, fcr_type = ''text'', fcr_name = ''hall'',
     fcr_topic = None, fcr_position = 0, fcr_nsfw = False, fcr_originInstanceId = None\<rparr>"

definition open_message :: fed_message_row where
  "open_message = \<lparr>msg_id = ''M'', msg_serverId = Some ''L'', msg_channelId = Some ''hall'', msg_authorId = ''U'', msg_system = False, msg_content = ''hi'',
     msg_createdAt = 0, msg_deletedAt = None, fmr_dmChannelId = None, fmr_replyTo = None, fmr_editedAt = None, fmr_signature = None,
     fmr_originInstanceId = Some ''P''\<rparr>"

definition open_world :: inbound_world where
  "open_world = \<lparr>iw_db = empty_db\<lparr>db_users := [olga_here], db_remote_instances := [open_peer],
       db_members := [\<lparr>mem_serverId = ''L'', mem_userId = ''U'', mem_gatePassedAt = None\<rparr>]\<rparr>,
     iw_servers = [open_server ''S'' (Some ''P'') ''U'', open_server ''L'' None ''own''], iw_channels = [open_channel], iw_messages = [open_message],
     iw_reactions = [], iw_edits = [], iw_mentions = [], iw_pins = [], iw_invites = [], iw_remoteUsers = [olga], iw_log = [],
     iw_acceptsDms = (\<lambda>_. True), iw_joinedAt = (\<lambda>_. 0), iw_events = [], iw_queue = fan_sample_start, iw_ulids = (\<lambda>_. []), iw_next = 0\<rparr>"

text \<open>In a world that knows the peer and the author, processing comes down to the handler.\<close>

lemma open_process:
  assumes "ty \<in> set ENVELOPE_EVENT_TYPES" "handled_type ty" "canonicalize p \<noteq> None"
    and "\<And>pre. pre_eventType pre = ty \<Longrightarrow> pre_payload pre = p \<Longrightarrow> author_of pre open_peer w = Inr ''olga@a.b''"
    and "find_peer w ''a.b'' = Some open_peer" "find_remote w ''olga@a.b'' = Some olga"
  obtains body env where
    "processEnvelope inn_env 5 body w =
       finish inn_env 5 env (transaction inn_env open_peer env (handle inn_env 5 ty env open_peer olga) w) (survives inn_env 5 ty open_peer env w)"
    "parseEnvelopePrelude body = Inr \<lparr>pre_fromInstance = ''a.b'', pre_eventType = ty, pre_nonce = replicate 20 (CHR ''A''), pre_payload = p\<rparr>"
    "env_payload env = p" "env_nonce env = replicate 20 (CHR ''A'')"
proof (rule open_accepted [OF assms(1,3)])
  fix body env
  assume v: "verifyTwoLayerMessageEnvelope open_scheme sample_schema 5 (sample_key 1) (sample_key 2) body = Inr (Accepted env)"
    and pre: "parseEnvelopePrelude body = Inr \<lparr>pre_fromInstance = ''a.b'', pre_eventType = ty, pre_nonce = replicate 20 (CHR ''A''), pre_payload = p\<rparr>"
    and e: "env_payload env = p" "env_nonce env = replicate 20 (CHR ''A'')"
  have ty: "ty \<noteq> ''presence.update''" using assms(2) by (auto simp: handled_type_def author_field_def OWNER_SIGNED_def)
  have open_fields: "ie_verify inn_env = open_scheme" "ie_schema inn_env ty = sample_schema" "ie_dmsEnabled inn_env" "rin_status open_peer = Peered"
    "rin_instanceKey open_peer = sample_key 1" "rus_publicKey olga = sample_key 2"
    by (simp_all add: inn_env_def open_peer_def olga_def)
  have "verify_inbound inn_env 5 ty open_peer olga body = Inr env"
    by (simp add: verify_inbound_def with_previous_key_def open_fields v verified_def)
  moreover have "admitted inn_env body w = Inr (\<lparr>pre_fromInstance = ''a.b'', pre_eventType = ty, pre_nonce = replicate 20 (CHR ''A''), pre_payload = p\<rparr>, open_peer)"
    by (simp add: admitted_def pre assms(2,5) open_fields ty)
  moreover have "cached_author inn_env 5 ''olga@a.b'' w = (Some olga, w)"
    by (simp add: cached_author_def assms(6))
  ultimately have "processEnvelope inn_env 5 body w =
       finish inn_env 5 env (transaction inn_env open_peer env (handle inn_env 5 ty env open_peer olga) w) (survives inn_env 5 ty open_peer env w)"
    by (simp add: processEnvelope_def ty assms(4))
  then show thesis using that pre e by blast
qed

lemma open_world_fields:
  "find_peer open_world ''a.b'' = Some open_peer" "find_remote open_world ''olga@a.b'' = Some olga" "find_msg open_world ''M'' = Some open_message"
  "find_chn open_world ''hall'' = Some open_channel" "find_srv open_world ''S'' = Some (open_server ''S'' (Some ''P'') ''U'')"
  "find_srv open_world ''L'' = Some (open_server ''L'' None ''own'')" "user_of_remote open_world ''olga@a.b'' = Some olga_here"
  "find_user (iw_db open_world) ''U'' = Some olga_here" "find_member (iw_db open_world) ''L'' ''U'' \<noteq> None" "iw_log open_world = []"
  by (simp_all add: find_peer_def find_remote_def find_msg_def find_chn_def find_srv_def user_of_remote_def find_user_def find_member_def
      open_world_def open_peer_def olga_def open_message_def open_channel_def open_server_def mirror_server_row_def olga_here_def
      remote_user_new_def empty_db_def)

end
