(* ===== verification/InboundFacts.thy ===== *)
theory InboundFacts
  imports InboundSample
begin

text \<open>
  What the inbound side guarantees: who is heard, that nothing is heard twice, that refusals leave no trace,
  whose words may be changed by whom; and where it accepts more than it should.
\<close>

section \<open>What handlers leave alone\<close>

definition control :: "inbound_world \<Rightarrow> log_row list \<times> remote_instance_row list" where
  "control w = (iw_log w, db_remote_instances (iw_db w))"

definition keeps :: "(inbound_world \<Rightarrow> 'a) \<Rightarrow> inbound_world \<Rightarrow> handled \<Rightarrow> bool" where
  "keeps f w h \<longleftrightarrow> (\<forall>out w'. h = Inr (out, w') \<longrightarrow> f w' = f w \<and> (\<forall>v. f (ho_post out v) = f v))"

lemma keeps_refuse [simp]: "keeps f w (refuse c)" "keeps f w (Inl e)"
  by (simp_all add: keeps_def refuse_def)

lemma keeps_answer [simp]: "keeps f w (answer r post w') \<longleftrightarrow> f w' = f w \<and> (\<forall>v. f (post v) = f v)"
  by (auto simp: keeps_def answer_def)

lemma keeps_Inr [simp]: "keeps f w (Inr (out, w')) \<longleftrightarrow> f w' = f w \<and> (\<forall>v. f (ho_post out v) = f v)"
  by (auto simp: keeps_def)

named_theorems steps "what the elementary steps leave alone"

lemma control_steps [steps]:
  "control (touch now ru w) = control w" "control (fed_publish e w) = control w" "control (store_message mm w) = control w"
  "control (update_message i g w) = control w" "control (keep_edit m c w) = control w" "control (clear_message i w) = control w"
  "control (unpin i w) = control w" "control (add_reaction rr w) = control w" "control (remove_reaction rr w) = control w"
  "control (queue_result q w) = control w" "control (relay ie s env mi p a w) = control w" "control (add_member now s u w) = control w"
  "control (remove_member s u w) = control w" "control (use_invite i w) = control w" "control (removeMirrorMember s u w) = control w"
  "control (stamp_dm dm t w) = control w" "control (store_dm now dm k a b w) = control w" "control (touch_remote_id now i w) = control w"
  "control (mirror_presence u pr t st ex w) = control w" "control (drop_channels gc w) = control w"
  "control (tell_joined ie j srv s ru u p w) = control w" "control (tell_left ie now srv s l u p w) = control w"
  by (simp_all add: control_def touch_def fed_publish_def store_message_def update_message_def keep_edit_def fed_ulid_def clear_message_def
      unpin_def add_reaction_def remove_reaction_def queue_result_def relay_def add_member_def remove_member_def use_invite_def
      removeMirrorMember_def stamp_dm_def store_dm_def touch_remote_id_def mirror_presence_def drop_channels_def drop_messages_def
      tell_joined_def tell_left_def Let_def split: sum.split option.split)

lemma control_ensure: "ensureUserForRemoteUser now r w = Inr (u, w') \<Longrightarrow> control w' = control w"
  by (auto simp: ensureUserForRemoteUser_def control_def fed_ulid_def Let_def split: option.splits if_splits)

lemma control_fetch: "fetchRemoteProfile pe now i w = Some (r, w') \<Longrightarrow> control w' = control w"
  by (auto simp: fetchRemoteProfile_def control_def fed_ulid_def upsert_remote_def Let_def
      split: option.splits if_splits prod.splits sum.splits verify_result.splits)

lemma control_resolve: "profileBackedRemoteUser pe now i w = Inr (r, w') \<Longrightarrow> control w' = control w"
  by (auto simp: profileBackedRemoteUser_def split: option.splits prod.splits dest: control_fetch)

lemma control_upsert: "upsertMirrorChannel c w = Inr w' \<Longrightarrow> control w' = control w"
  by (auto simp: upsertMirrorChannel_def control_def split: if_splits)

lemma control_server: "updateMirrorServer s n d i w = Inr w' \<Longrightarrow> control w' = control w"
  by (auto simp: updateMirrorServer_def control_def split: if_splits)

lemma control_seat: "take_seat now s u i w = Inr w' \<Longrightarrow> control w' = control w"
  by (auto simp: take_seat_def refuse_def Let_def steps split: if_splits)

lemma control_banned: "control (w\<lparr>iw_db := snd (isBanned now s u (iw_db w))\<rparr>) = control w"
  by (simp add: isBanned_def control_def split: option.split)

lemma control_channel_delete: "deleteMirrorChannel s c w = Inr w' \<Longrightarrow> control w' = control w"
  by (auto simp: deleteMirrorChannel_def steps split: option.splits if_splits)

lemma control_mirror_member: "addMirrorMember pe now s j w = Inr (u, w') \<Longrightarrow> control w' = control w"
  by (auto simp: addMirrorMember_def steps split: sum.splits if_splits prod.splits dest!: control_resolve control_ensure)

lemmas control_dest = control_ensure control_resolve control_upsert control_server control_seat control_channel_delete control_mirror_member

lemma control_set_banned: "isBanned now s u (iw_db w) = (b, d) \<Longrightarrow> control (w\<lparr>iw_db := d\<rparr>) = control w"
  using control_banned [of now s u w] by simp

lemma control_reaction: "validateInboundReaction now m e ru w = Inr (x, w') \<Longrightarrow> control w' = control w"
  by (auto simp: validateInboundReaction_def refuse_def dest!: control_ensure split: option.splits if_splits sum.splits)

lemma control_join: "keeps control w (handleMemberJoinRequest ie now env peer ru w)"
  unfolding handleMemberJoinRequest_def Let_def
  by (auto simp: steps split: option.split sum.split prod.split dest!: control_ensure control_set_banned control_seat)

lemma control_handle: "keeps control w (handle ie now ty env peer ru w)"
proof -
  note one = steps control_ensure control_reaction control_upsert control_server control_channel_delete control_mirror_member
  have "keeps control w (handleMessageCreate ie now env peer ru w)" "keeps control w (handleMessageUpdate now env ru w)"
    "keeps control w (handleMessageDelete now env ru w)" "keeps control w (handleReactionAdd now env ru w)"
    "keeps control w (handleReactionRemove now env ru w)"
    by (simp_all add: handleMessageCreate_def handleMessageUpdate_def handleMessageDelete_def handleReactionAdd_def
        handleReactionRemove_def Let_def one split: option.split sum.split prod.split)
  moreover have "keeps control w (handleServerUpdate now env ru w)" "keeps control w (handleChannelCreate now env peer ru w)"
    "keeps control w (handleChannelUpdate now env peer ru w)" "keeps control w (handleChannelDelete now env ru w)"
    "keeps control w (handleMemberAdd ie now env ru w)" "keeps control w (handleMemberRemove now env ru w)"
    "keeps control w (handleMemberLeave ie now env peer ru w)"
    by (simp_all add: handleServerUpdate_def handleChannelCreate_def handleChannelUpdate_def handleChannelDelete_def handleMemberAdd_def
        handleMemberRemove_def handleMemberLeave_def Let_def one split: option.split sum.split prod.split)
  moreover have "keeps control w (handleDmCreate ie now env peer ru w)" "keeps control w (handleDmMessageCreate now env peer ru w)"
    "keeps control w (handleDmMessageUpdate now env peer ru w)" "keeps control w (handleDmMessageDelete now env peer ru w)"
    "keeps control w (handleDmReactionAdd now env peer ru w)" "keeps control w (handleDmReactionRemove now env peer ru w)"
    by (simp_all add: handleDmCreate_def handleDmMessageCreate_def handleDmMessageUpdate_def handleDmMessageDelete_def handleDmReactionAdd_def
        handleDmReactionRemove_def Let_def one split: option.split sum.split prod.split)
  ultimately show ?thesis by (simp add: handle_def control_join)
qed

lemma control_presence: "keeps control w (handlePresenceUpdate now p peer w)"
  by (simp add: handlePresenceUpdate_def Let_def steps split: option.split)

section \<open>One envelope\<close>

lemma transaction_Inr: "transaction ie peer env h w = Inr x \<longleftrightarrow> (\<exists>l. log_envelope ie peer env w = Inr l \<and> h l = Inr x)"
  by (auto simp: transaction_def refuse_def split: sum.splits inbound_failure.splits)

lemma log_envelopeD:
  assumes "log_envelope ie peer env w = Inr l"
  shows "\<not> seen w (rin_id peer) (env_nonce env)"
    "\<exists>b. l = w\<lparr>iw_log := iw_log w @ [log_entry peer env b]\<rparr>"
  using assms by (auto simp: log_envelope_def split: sum.splits if_splits)

lemma control_respond: "respond ie now env out w = (r, w') \<Longrightarrow> control w' = control w"
  by (auto simp: respond_def fed_ulid_def control_def Let_def split: option.splits list.splits sum.splits prod.splits)

lemma control_cached: "cached_author ie now a w = (r, w') \<Longrightarrow> control w' = control w"
  by (auto simp: cached_author_def split: option.splits prod.splits dest: control_fetch)

text \<open>Only the cache of profiles differs.\<close>

definition cached_only :: "inbound_world \<Rightarrow> inbound_world \<Rightarrow> bool" where
  "cached_only w w' \<longleftrightarrow> w'\<lparr>iw_remoteUsers := iw_remoteUsers w, iw_next := iw_next w\<rparr> = w"

lemma cached_only_refl [simp]: "cached_only w w"
  by (simp add: cached_only_def)

lemma cached_only_trans: "cached_only u v \<Longrightarrow> cached_only v w \<Longrightarrow> cached_only u w"
  unfolding cached_only_def by (cases u, cases v, cases w) simp

lemma cached_only_control: "cached_only w w' \<Longrightarrow> control w' = control w"
  unfolding cached_only_def control_def by (cases w, cases w') simp

lemma cached_only_fetch: "fetchRemoteProfile pe now i w = Some (r, w') \<Longrightarrow> cached_only w w'"
  by (auto simp: fetchRemoteProfile_def cached_only_def fed_ulid_def upsert_remote_def Let_def
      split: option.splits if_splits prod.splits sum.splits verify_result.splits)

lemma cached_only_author: "cached_author ie now a w = (r, w') \<Longrightarrow> cached_only w w'"
  by (auto simp: cached_author_def split: option.splits prod.splits dest: cached_only_fetch)

lemma cached_only_resolve: "profileBackedRemoteUser pe now i w = Inr (r, w') \<Longrightarrow> cached_only w w'"
  by (auto simp: profileBackedRemoteUser_def split: option.splits prod.splits dest: cached_only_fetch)

lemma cached_only_survives: "cached_only w w1 \<Longrightarrow> cached_only w (survives ie now ty peer env w1)"
  by (auto simp: survives_def split: sum.split prod.split intro: cached_only_trans dest: cached_only_resolve)

text \<open>The handler of an envelope that passed every check before the transaction, and the world it then meets.\<close>

definition heard ::
  "inbound_env \<Rightarrow> millis \<Rightarrow> json \<Rightarrow> inbound_world \<Rightarrow> remote_instance_row \<Rightarrow> envelope \<Rightarrow> (inbound_world \<Rightarrow> handled) \<Rightarrow> inbound_world \<Rightarrow> bool" where
  "heard ie now body w peer env h w1 \<longleftrightarrow> (\<exists>pre. admitted ie body w = Inr (pre, peer) \<and>
     (if pre_eventType pre = ''presence.update''
      then w1 = w \<and> verify_presence ie now peer body = Inr env \<and> h = handlePresenceUpdate now (env_payload env) peer
      else \<exists>author ru. author_of pre peer w = Inr author \<and> cached_author ie now author w = (Some ru, w1) \<and>
             verify_inbound ie now (pre_eventType pre) peer ru body = Inr env \<and> h = handle ie now (pre_eventType pre) env peer ru))"

definition step_case :: "inbound_env \<Rightarrow> millis \<Rightarrow> json \<Rightarrow> inbound_world \<Rightarrow> inbound_failure + reply_data option \<Rightarrow> inbound_world \<Rightarrow> bool" where
  "step_case ie now body w r w' \<longleftrightarrow>
     (\<exists>peer env h w1 l out w2. heard ie now body w peer env h w1 \<and> log_envelope ie peer env w1 = Inr l \<and> h l = Inr (out, w2) \<and>
        respond ie now env out (ho_post out w2) = (r, w'))"

lemma process_cases:
  assumes "processEnvelope ie now body w = (r, w')"
  shows "step_case ie now body w r w' \<or> ((\<exists>e. r = Inl e) \<and> cached_only w w')"
proof (cases "admitted ie body w")
  case (Inl e)
  then show ?thesis using assms by (auto simp: processEnvelope_def)
next
  case (Inr pp)
  obtain pre peer where pp: "pp = (pre, peer)" by (cases pp)
  note adm = Inr [unfolded pp]
  show ?thesis
  proof (cases "pre_eventType pre = ''presence.update''")
    case True
    then show ?thesis using assms adm
      by (auto simp: processEnvelope_def processPresenceEnvelope_def finish_def step_case_def heard_def transaction_Inr
          split: sum.splits prod.splits)
  next
    case False
    show ?thesis
    proof (cases "author_of pre peer w")
      case (Inl e)
      then show ?thesis using assms adm False by (auto simp: processEnvelope_def)
    next
      case (Inr author)
      obtain ru w1 where c: "cached_author ie now author w = (ru, w1)" by (cases "cached_author ie now author w")
      show ?thesis
        using assms adm False Inr c cached_only_author [OF c] cached_only_survives [OF cached_only_author [OF c]]
        by (auto simp: refuse_def processEnvelope_def finish_def step_case_def heard_def transaction_Inr split: option.splits sum.splits prod.splits)
    qed
  qed
qed

text \<open>What the checks establish of the peer, the prelude and the envelope.\<close>

lemma admittedD:
  assumes "admitted ie body w = Inr (pre, peer)"
  shows "parseEnvelopePrelude body = Inr pre" "find_peer w (pre_fromInstance pre) = Some peer" "rin_status peer = Peered"
  using assms by (auto simp: admitted_def refuse_def split: sum.splits option.splits if_splits)

lemma parse_wire_prelude:
  assumes "parse_wire z layers body = Some env" "parseEnvelopePrelude body = Inr pre"
  shows "env_fromInstance env = pre_fromInstance pre" "env_nonce env = pre_nonce pre" "env_eventType env = pre_eventType pre"
  using assms
  by (auto simp: parse_wire_def parseEnvelopePrelude_def refuse_def bind_eq_Some_conv split: json.splits option.splits if_splits)

definition peer_keys :: "remote_instance_row \<Rightarrow> byte list set" where
  "peer_keys peer = {k. k = rin_instanceKey peer \<or> rin_previousInstanceKey peer = Some k}"

lemma verified_by:
  assumes "verified (with_previous_key kind peer vf) = Inr env"
  shows "\<exists>k \<in> peer_keys peer. vf k = Inr (Accepted env)"
  using assms
  by (auto simp: verified_def with_previous_key_def peer_keys_def refuse_def split: sum.splits verify_result.splits option.splits if_splits)

text \<open>The signatures an accepted envelope carries: of the peer, and unless it is a presence, of the author.\<close>

definition authentic :: "inbound_env \<Rightarrow> millis \<Rightarrow> json \<Rightarrow> inbound_world \<Rightarrow> remote_instance_row \<Rightarrow> envelope \<Rightarrow> bool" where
  "authentic ie now body w peer env \<longleftrightarrow>
     (\<exists>key \<in> peer_keys peer.
        if env_eventType env = ''presence.update''
        then verifyEnvelopeShape (ie_verify ie) (ie_schema ie ''presence.update'') now key body = Inr (Accepted env)
        else \<exists>ru. verifyTwoLayerMessageEnvelope (ie_verify ie) (ie_schema ie (env_eventType env)) now key (rus_publicKey ru) body = Inr (Accepted env) \<and>
               (\<exists>w1. ru \<in> set (iw_remoteUsers w1) \<and> (w1 = w \<or> (\<exists>r. fetchRemoteProfile (ie_profile ie) now (rus_remoteUserId ru) w = Some (r, w1)))))"

lemma find_remoteD: "find_remote w a = Some r \<Longrightarrow> r \<in> set (iw_remoteUsers w) \<and> rus_remoteUserId r = a"
  by (auto simp: find_remote_def find_Some_iff)

lemma cached_authorD:
  assumes "cached_author ie now a w = (Some ru, w1)"
  shows "ru \<in> set (iw_remoteUsers w1)" "rus_remoteUserId ru = a" "w1 = w \<or> (\<exists>r. fetchRemoteProfile (ie_profile ie) now a w = Some (r, w1))"
  using assms by (auto simp: cached_author_def split: option.splits prod.splits dest: find_remoteD)

lemma heardD:
  assumes "heard ie now body w peer env h w1"
  shows "authentic ie now body w peer env" "control w1 = control w" "find_peer w (env_fromInstance env) = Some peer" "rin_status peer = Peered"
    "\<exists>pre. parseEnvelopePrelude body = Inr pre \<and> env_fromInstance env = pre_fromInstance pre \<and> env_nonce env = pre_nonce pre"
    "keeps control v (h v)"
proof -
  obtain pre where adm: "admitted ie body w = Inr (pre, peer)"
    and rest: "if pre_eventType pre = ''presence.update''
      then w1 = w \<and> verify_presence ie now peer body = Inr env \<and> h = handlePresenceUpdate now (env_payload env) peer
      else \<exists>author ru. author_of pre peer w = Inr author \<and> cached_author ie now author w = (Some ru, w1) \<and>
             verify_inbound ie now (pre_eventType pre) peer ru body = Inr env \<and> h = handle ie now (pre_eventType pre) env peer ru"
    using assms unfolding heard_def by blast
  note pre = admittedD [OF adm]
  have "authentic ie now body w peer env \<and> control w1 = control w \<and> env_fromInstance env = pre_fromInstance pre \<and>
      env_nonce env = pre_nonce pre \<and> keeps control v (h v)"
  proof (cases "pre_eventType pre = ''presence.update''")
    case True
    then have w1: "w1 = w" "verify_presence ie now peer body = Inr env" "h = handlePresenceUpdate now (env_payload env) peer" using rest by auto
    obtain k where k: "k \<in> peer_keys peer" "verifyEnvelopeShape (ie_verify ie) (ie_schema ie ''presence.update'') now k body = Inr (Accepted env)"
      using verified_by w1(2) unfolding verify_presence_def by blast
    then have "parse_wire (ie_schema ie ''presence.update'') False body = Some env" by (rule_tac verify_one_accepts)
    note e = parse_wire_prelude [OF this pre(1)]
    show ?thesis using k e True by (auto simp: w1 authentic_def control_presence)
  next
    case False
    then obtain author ru where r: "cached_author ie now author w = (Some ru, w1)" "verify_inbound ie now (pre_eventType pre) peer ru body = Inr env"
      "h = handle ie now (pre_eventType pre) env peer ru" using rest by auto
    obtain k where k: "k \<in> peer_keys peer"
      "verifyTwoLayerMessageEnvelope (ie_verify ie) (ie_schema ie (pre_eventType pre)) now k (rus_publicKey ru) body = Inr (Accepted env)"
      using verified_by r(2) unfolding verify_inbound_def by blast
    then have "parse_wire (ie_schema ie (pre_eventType pre)) True body = Some env" by (rule_tac verify_two_accepts)
    note e = parse_wire_prelude [OF this pre(1)]
    have "authentic ie now body w peer env"
      unfolding authentic_def using k e False cached_authorD [OF r(1)] by (intro bexI [OF _ k(1)]) auto
    then show ?thesis using e control_cached [OF r(1)] control_handle by (auto simp: r(3))
  qed
  then show "authentic ie now body w peer env" "control w1 = control w" "find_peer w (env_fromInstance env) = Some peer" "rin_status peer = Peered"
    "\<exists>pre. parseEnvelopePrelude body = Inr pre \<and> env_fromInstance env = pre_fromInstance pre \<and> env_nonce env = pre_nonce pre"
    "keeps control v (h v)"
    using pre by auto
qed

section \<open>Who is heard\<close>

lemma respond_code: "respond ie now env out w = (Inl e, w') \<Longrightarrow> e = Thrown"
  by (auto simp: respond_def Let_def split: option.splits list.splits sum.splits prod.splits)

lemma seen_control: "control w = control w' \<Longrightarrow> seen w p n = seen w' p n"
  by (simp add: control_def seen_def)

lemma find_peer_control: "control w = control w' \<Longrightarrow> find_peer w h = find_peer w' h"
  by (simp add: control_def find_peer_def)

text \<open>A transaction that commits logs the nonce of its envelope, which was new, and leaves the rest of the log.\<close>

lemma step_caseD:
  assumes "step_case ie now body w r w'"
  obtains peer env h w1 pre b where "heard ie now body w peer env h w1" "parseEnvelopePrelude body = Inr pre" "find_peer w (env_fromInstance env) = Some peer"
    "env_fromInstance env = pre_fromInstance pre" "env_nonce env = pre_nonce pre" "\<not> seen w (rin_id peer) (env_nonce env)"
    "control w' = (iw_log w @ [log_entry peer env b], db_remote_instances (iw_db w))"
proof -
  obtain peer env h w1 l out w2 where s: "heard ie now body w peer env h w1" "log_envelope ie peer env w1 = Inr l" "h l = Inr (out, w2)"
      "respond ie now env out (ho_post out w2) = (r, w')"
    using assms unfolding step_case_def by blast
  note d = heardD [OF s(1)] and l = log_envelopeD [OF s(2)]
  obtain b where b: "l = w1\<lparr>iw_log := iw_log w1 @ [log_entry peer env b]\<rparr>" using l(2) by blast
  have "control w' = control l"
    using control_respond [OF s(4)] d(6) [of l] s(3) by (auto simp: keeps_def)
  also have "\<dots> = (iw_log w @ [log_entry peer env b], db_remote_instances (iw_db w))"
    using d(2) by (auto simp: b control_def)
  finally have "control w' = (iw_log w @ [log_entry peer env b], db_remote_instances (iw_db w))" .
  moreover have "\<not> seen w (rin_id peer) (env_nonce env)" using l(1) seen_control [OF d(2)] by simp
  ultimately show ?thesis using that s(1) d(3,5) by blast
qed

lemma seen_logged: "control w' = (iw_log w @ [log_entry peer env b], ps) \<Longrightarrow> seen w' p n \<longleftrightarrow> seen w p n \<or> rin_id peer = p \<and> env_nonce env = n"
  by (auto simp: control_def seen_def log_entry_def)


text \<open>
  C37. A refusal leaves no trace: when an envelope is answered with an error code, the world is as before, but for profiles
  that were fetched to check it.
\<close>

theorem refusal_changes_nothing:
  assumes "processEnvelope ie now body w = (Inl (Refused c), w')"
  shows "cached_only w w'"
  using process_cases [OF assms] by (auto simp: step_case_def dest: respond_code)

definition inbound_run :: "(inbound_env \<times> millis \<times> json) list \<Rightarrow> inbound_world \<Rightarrow> inbound_world" where
  "inbound_run steps w = fold (\<lambda>(ie, now, body) w. snd (processEnvelope ie now body w)) steps w"

lemma process_keeps_log:
  "seen w p n \<Longrightarrow> seen (snd (processEnvelope ie now body w)) p n"
  "db_remote_instances (iw_db (snd (processEnvelope ie now body w))) = db_remote_instances (iw_db w)"
proof -
  obtain r w' where r: "processEnvelope ie now body w = (r, w')" by (cases "processEnvelope ie now body w")
  consider "step_case ie now body w r w'" | "cached_only w w'" using process_cases [OF r] by blast
  then have "(seen w p n \<longrightarrow> seen w' p n) \<and> db_remote_instances (iw_db w') = db_remote_instances (iw_db w)"
  proof cases
    case 1
    then obtain peer env b where c: "control w' = (iw_log w @ [log_entry peer env b], db_remote_instances (iw_db w))"
      by (rule step_caseD)
    have "seen w p n \<longrightarrow> seen w' p n" unfolding seen_logged [OF c] by blast
    then show ?thesis using c by (simp add: control_def)
  next
    case 2
    have "control w = control w'" using cached_only_control [OF 2] by simp
    then show ?thesis using seen_control [of w w' p n] by (simp add: control_def)
  qed
  then show "seen w p n \<Longrightarrow> seen (snd (processEnvelope ie now body w)) p n"
    "db_remote_instances (iw_db (snd (processEnvelope ie now body w))) = db_remote_instances (iw_db w)"
    by (simp_all add: r)
qed

lemma run_keeps_log:
  "(seen w p n \<longrightarrow> seen (inbound_run steps w) p n) \<and> db_remote_instances (iw_db (inbound_run steps w)) = db_remote_instances (iw_db w)"
  by (induction steps arbitrary: w) (auto simp: inbound_run_def process_keeps_log)


end
