(* ===== verification/InboundAuthority.thy ===== *)
theory InboundAuthority
  imports InboundFacts
begin

text \<open>
  What an accepted envelope may change: the words of a message only by its author, a mirror only from its home; and
  what the inbound side does not look at.
\<close>

section \<open>Messages\<close>

definition text_of :: "fed_message_row \<Rightarrow> string \<times> millis option" where
  "text_of m = (msg_content m, msg_deletedAt m)"

text \<open>Of the messages that stay, all but \<open>i\<close> keep their text.\<close>

definition text_kept :: "(ident \<Rightarrow> bool) \<Rightarrow> inbound_world \<Rightarrow> inbound_world \<Rightarrow> bool" where
  "text_kept free w w' \<longleftrightarrow> (\<forall>i m m'. find_msg w i = Some m \<longrightarrow> find_msg w' i = Some m' \<longrightarrow> \<not> free i \<longrightarrow> text_of m' = text_of m)"

lemma text_kept_same: "iw_messages w' = iw_messages w \<Longrightarrow> text_kept free w w'"
  by (simp add: text_kept_def find_msg_def)

lemma text_kept_store: "iw_messages b = iw_messages w \<Longrightarrow> text_kept free w (store_message m b)"
  by (auto simp: text_kept_def find_msg_def find_append store_message_def)

lemma find_map_id: "(\<And>m. msg_id (f m) = msg_id m) \<Longrightarrow> List.find (\<lambda>m. msg_id m = i) (map f ms) = map_option f (List.find (\<lambda>m. msg_id m = i) ms)"
  by (induction ms) auto

lemma find_msgD: "find_msg w i = Some m \<Longrightarrow> m \<in> set (iw_messages w) \<and> msg_id m = i"
  by (auto simp: find_msg_def find_Some_iff)

lemma text_kept_update:
  assumes "iw_messages w' = map (\<lambda>m. if msg_id m = j then f m else m) (iw_messages w)" "\<And>m. msg_id (f m) = msg_id m"
  shows "text_kept (\<lambda>i. i = j) w w'"
proof -
  let ?g = "\<lambda>m. if msg_id m = j then f m else m"
  have "find_msg w' i = map_option ?g (find_msg w i)" for i
    unfolding find_msg_def assms(1) by (rule find_map_id) (simp add: assms(2))
  then show ?thesis by (auto simp: text_kept_def dest: find_msgD)
qed

lemma find_distinct: "distinct (map msg_id ms) \<Longrightarrow> List.find (\<lambda>m. msg_id m = i) ms = Some m \<longleftrightarrow> m \<in> set ms \<and> msg_id m = i"
  by (induction ms) (auto simp: image_iff)

lemma text_kept_drop:
  assumes "distinct (map msg_id (iw_messages w))"
  shows "text_kept free w (drop_channels gone w)"
proof -
  have ms: "\<exists>n \<in> set (iw_messages w). \<exists>here. m = detach_reply here n" if "m \<in> set (iw_messages (drop_channels gone w))" for m
    using that unfolding drop_channels_def drop_messages_def Let_def by auto
  have g: "msg_id (detach_reply here m) = msg_id m" "text_of (detach_reply here m) = text_of m" for m here
    by (simp_all add: detach_reply_def text_of_def split: option.split)
  have "text_of m' = text_of m" if "find_msg w i = Some m" "find_msg (drop_channels gone w) i = Some m'" for i m m'
  proof -
    have "m' \<in> set (iw_messages (drop_channels gone w))" "msg_id m' = i" using find_msgD [OF that(2)] by auto
    then obtain n here where n: "n \<in> set (iw_messages w)" "msg_id n = i" "m' = detach_reply here n"
      using ms [of m'] g(1) by auto
    then have "n = m" using that(1) find_distinct [OF assms] unfolding find_msg_def by (metis option.inject)
    then show ?thesis using n(3) g(2) by simp
  qed
  then show ?thesis by (auto simp: text_kept_def)
qed

lemma messages_steps [steps]:
  "iw_messages (touch now ru w) = iw_messages w" "iw_messages (fed_publish e w) = iw_messages w"
  "iw_messages (keep_edit m c w) = iw_messages w" "iw_messages (clear_message i w) = iw_messages w"
  "iw_messages (unpin i w) = iw_messages w" "iw_messages (add_reaction rr w) = iw_messages w" "iw_messages (remove_reaction rr w) = iw_messages w"
  "iw_messages (queue_result q w) = iw_messages w" "iw_messages (relay ie s env mi p a w) = iw_messages w" "iw_messages (add_member now s u w) = iw_messages w"
  "iw_messages (remove_member s u w) = iw_messages w" "iw_messages (use_invite i w) = iw_messages w" "iw_messages (removeMirrorMember s u w) = iw_messages w"
  "iw_messages (stamp_dm dm t w) = iw_messages w" "iw_messages (store_dm now dm k a b w) = iw_messages w" "iw_messages (touch_remote_id now i w) = iw_messages w"
  "iw_messages (mirror_presence u pr t st ex w) = iw_messages w"
  "iw_messages (tell_joined ie j srv s ru u p w) = iw_messages w" "iw_messages (tell_left ie now srv s l u p w) = iw_messages w"
  by (simp_all add: touch_def fed_publish_def keep_edit_def fed_ulid_def clear_message_def
      unpin_def add_reaction_def remove_reaction_def queue_result_def relay_def add_member_def remove_member_def use_invite_def
      removeMirrorMember_def stamp_dm_def store_dm_def touch_remote_id_def mirror_presence_def
      tell_joined_def tell_left_def Let_def split: sum.split option.split)

lemma messages_ensure: "ensureUserForRemoteUser now r w = Inr (u, w') \<Longrightarrow> iw_messages w' = iw_messages w"
  by (auto simp: ensureUserForRemoteUser_def fed_ulid_def Let_def split: option.splits if_splits)

lemma cached_only_same: "cached_only w w' \<Longrightarrow> iw_messages w' = iw_messages w \<and> iw_db w' = iw_db w \<and> iw_channels w' = iw_channels w \<and> iw_servers w' = iw_servers w"
  unfolding cached_only_def by (cases w, cases w') simp

lemma messages_mirror_member: "addMirrorMember pe now s j w = Inr (u, w') \<Longrightarrow> iw_messages w' = iw_messages w"
  by (auto simp: addMirrorMember_def steps split: sum.splits if_splits prod.splits dest!: cached_only_resolve cached_only_same messages_ensure)

lemma messages_upsert: "upsertMirrorChannel c w = Inr w' \<Longrightarrow> iw_messages w' = iw_messages w"
  by (auto simp: upsertMirrorChannel_def split: if_splits)

lemma messages_server: "updateMirrorServer s n d i w = Inr w' \<Longrightarrow> iw_messages w' = iw_messages w"
  by (auto simp: updateMirrorServer_def split: if_splits)

lemma messages_seat: "take_seat now s u i w = Inr w' \<Longrightarrow> iw_messages w' = iw_messages w"
  by (auto simp: take_seat_def refuse_def Let_def steps split: if_splits)

lemma messages_reaction: "validateInboundReaction now m e ru w = Inr (x, w') \<Longrightarrow> iw_messages w' = iw_messages w"
  by (auto simp: validateInboundReaction_def refuse_def dest!: messages_ensure split: option.splits if_splits sum.splits)

section \<open>Handlers and messages\<close>

lemma keeps_messages:
  "keeps iw_messages w (handleReactionAdd now env ru w)" "keeps iw_messages w (handleReactionRemove now env ru w)"
  "keeps iw_messages w (handleServerUpdate now env ru w)" "keeps iw_messages w (handleChannelCreate now env peer ru w)"
  "keeps iw_messages w (handleChannelUpdate now env peer ru w)" "keeps iw_messages w (handleMemberAdd ie now env ru w)"
  "keeps iw_messages w (handleMemberRemove now env ru w)" "keeps iw_messages w (handleMemberLeave ie now env peer ru w)"
  "keeps iw_messages w (handleDmCreate ie now env peer ru w)" "keeps iw_messages w (handleDmReactionAdd now env peer ru w)"
  "keeps iw_messages w (handleDmReactionRemove now env peer ru w)" "keeps iw_messages w (handlePresenceUpdate now p peer w)"
  by (simp_all add: handleReactionAdd_def handleReactionRemove_def handleServerUpdate_def handleChannelCreate_def handleChannelUpdate_def
      handleMemberAdd_def handleMemberRemove_def handleMemberLeave_def handleDmCreate_def handleDmReactionAdd_def handleDmReactionRemove_def
      handlePresenceUpdate_def Let_def steps messages_ensure messages_reaction messages_upsert messages_server messages_mirror_member
      split: option.split sum.split prod.split)

lemma keeps_messages_join: "keeps iw_messages w (handleMemberJoinRequest ie now env peer ru w)"
  unfolding handleMemberJoinRequest_def Let_def
  by (auto simp: steps split: option.split sum.split prod.split dest!: messages_ensure messages_seat)

text \<open>The handlers that write messages: what they change, and on whose word.\<close>

definition edits_by :: "remote_user_row \<Rightarrow> string \<Rightarrow> inbound_world \<Rightarrow> handled \<Rightarrow> bool" where
  "edits_by ru i w h \<longleftrightarrow> (\<forall>out w'. h = Inr (out, w') \<longrightarrow>
     (\<exists>free. text_kept free w w' \<and> (\<forall>j. free j \<longrightarrow> j = i \<and> (\<forall>m. find_msg w i = Some m \<longrightarrow> author_remote w m = Some (rus_remoteUserId ru)))) \<and>
     (\<forall>v. iw_messages (ho_post out v) = iw_messages v))"

lemma edits_byI:
  assumes "\<And>out w'. h = Inr (out, w') \<Longrightarrow> text_kept (\<lambda>_. False) w w' \<and> (\<forall>v. iw_messages (ho_post out v) = iw_messages v)"
  shows "edits_by ru i w h"
  unfolding edits_by_def using assms by (intro allI impI conjI exI [of _ "\<lambda>_. False"]) auto

lemma edits_none: "keeps iw_messages w h \<Longrightarrow> edits_by ru i w h"
  by (rule edits_byI) (simp add: keeps_def text_kept_same)

lemma edits_create:
  "edits_by ru i w (handleMessageCreate ie now env peer ru w)" "edits_by ru i w (handleDmMessageCreate now env peer ru w)"
proof -
  have stamp: "text_kept f w (stamp_dm dm t b) \<longleftrightarrow> text_kept f w b" for f dm t b
    by (simp add: text_kept_def find_msg_def steps)
  show "edits_by ru i w (handleMessageCreate ie now env peer ru w)"
    by (rule edits_byI)
      (auto simp: handleMessageCreate_def answer_def refuse_def Let_def steps text_kept_same text_kept_store
        split: option.splits if_splits sum.splits dest!: messages_ensure)
  show "edits_by ru i w (handleDmMessageCreate now env peer ru w)"
    by (rule edits_byI)
      (auto simp: handleDmMessageCreate_def answer_def refuse_def Let_def steps text_kept_same text_kept_store stamp
        split: option.splits if_splits sum.splits)
qed

definition rewritten :: "ident \<Rightarrow> (fed_message_row \<Rightarrow> fed_message_row) \<Rightarrow> inbound_world \<Rightarrow> inbound_world \<Rightarrow> bool" where
  "rewritten i f w w' \<longleftrightarrow> iw_messages w' = map (\<lambda>m. if msg_id m = i then f m else m) (iw_messages w)"

lemma rewritten_steps [simp]:
  "rewritten i f w (update_message i f w)" "rewritten i f w (update_message i f (keep_edit m c w))"
  "rewritten i f w (clear_message j v) \<longleftrightarrow> rewritten i f w v" "rewritten i f w (unpin j v) \<longleftrightarrow> rewritten i f w v"
  by (simp_all add: rewritten_def steps) (simp_all add: update_message_def steps)

lemma ids_stay [simp]: "msg_id (edited c t m) = msg_id m" "msg_id (erased t m) = msg_id m"
  by (simp_all add: edited_def erased_def)

lemma edits_update:
  assumes "\<And>out w'. h = Inr (out, w') \<Longrightarrow> iw_messages w' = iw_messages w \<or>
      (\<exists>m f. find_msg w i = Some m \<and> author_remote w m = Some (rus_remoteUserId ru) \<and> rewritten i f w w' \<and> (\<forall>m. msg_id (f m) = msg_id m))"
    and "\<And>out w'. h = Inr (out, w') \<Longrightarrow> \<forall>v. iw_messages (ho_post out v) = iw_messages v"
  shows "edits_by ru i w h"
  unfolding edits_by_def
proof (intro allI impI conjI)
  fix out w' v assume h: "h = Inr (out, w')"
  show "iw_messages (ho_post out v) = iw_messages v" using assms(2) [OF h] by simp
  from assms(1) [OF h] show "\<exists>free. text_kept free w w' \<and> (\<forall>j. free j \<longrightarrow> j = i \<and> (\<forall>m. find_msg w i = Some m \<longrightarrow> author_remote w m = Some (rus_remoteUserId ru)))"
  proof
    assume "iw_messages w' = iw_messages w"
    then show ?thesis by (intro exI [of _ "\<lambda>_. False"]) (simp add: text_kept_same)
  next
    assume "\<exists>m f. find_msg w i = Some m \<and> author_remote w m = Some (rus_remoteUserId ru) \<and> rewritten i f w w' \<and> (\<forall>m. msg_id (f m) = msg_id m)"
    then show ?thesis unfolding rewritten_def by (intro exI [of _ "\<lambda>j. j = i"]) (auto intro: text_kept_update)
  qed
qed

lemma edits_channel:
  "edits_by ru (fld_text (env_payload env) ''messageId'') w (handleMessageUpdate now env ru w)"
  "edits_by ru (fld_text (env_payload env) ''messageId'') w (handleMessageDelete now env ru w)"
proof -
  show "edits_by ru (fld_text (env_payload env) ''messageId'') w (handleMessageUpdate now env ru w)"
    by (rule edits_update)
      (auto simp: handleMessageUpdate_def answer_def refuse_def Let_def steps split: option.splits if_splits sum.splits
        dest!: find_msgD intro!: exI [of _ "edited c t" for c t] rewritten_steps(1,2))
  show "edits_by ru (fld_text (env_payload env) ''messageId'') w (handleMessageDelete now env ru w)"
    by (rule edits_update)
      (auto simp: handleMessageDelete_def answer_def refuse_def Let_def steps split: option.splits if_splits sum.splits
        dest!: find_msgD intro!: exI [of _ "erased t" for t] rewritten_steps(1,2))
qed

lemma message_in_dmD: "message_in_dm dm i w = Some m \<Longrightarrow> find_msg w i = Some m \<and> msg_id m = i"
  by (auto simp: message_in_dm_def split: option.splits if_splits dest: find_msgD)

lemma edits_dm:
  "edits_by ru (fld_text (env_payload env) ''messageId'') w (handleDmMessageUpdate now env peer ru w)"
  "edits_by ru (fld_text (env_payload env) ''messageId'') w (handleDmMessageDelete now env peer ru w)"
proof -
  show "edits_by ru (fld_text (env_payload env) ''messageId'') w (handleDmMessageUpdate now env peer ru w)"
    by (rule edits_update)
      (auto simp: handleDmMessageUpdate_def answer_def refuse_def Let_def steps split: option.splits if_splits sum.splits
        dest!: message_in_dmD intro!: exI [of _ "edited c t" for c t] rewritten_steps(1,2))
  show "edits_by ru (fld_text (env_payload env) ''messageId'') w (handleDmMessageDelete now env peer ru w)"
    by (rule edits_update)
      (auto simp: handleDmMessageDelete_def answer_def refuse_def Let_def steps split: option.splits if_splits sum.splits
        dest!: message_in_dmD intro!: exI [of _ "erased t" for t] rewritten_steps(1,2))
qed

lemma edits_channel_delete:
  "distinct (map msg_id (iw_messages w)) \<Longrightarrow> edits_by ru i w (handleChannelDelete now env ru w)"
  by (rule edits_byI)
    (auto simp: handleChannelDelete_def deleteMirrorChannel_def answer_def refuse_def Let_def steps text_kept_same text_kept_drop
      split: option.splits if_splits)

lemma edits_handle:
  assumes "distinct (map msg_id (iw_messages w))"
  shows "edits_by ru (fld_text (env_payload env) ''messageId'') w (handle ie now ty env peer ru w)"
  by (simp add: handle_def edits_create edits_channel edits_dm edits_channel_delete [OF assms] edits_none keeps_messages keeps_messages_join)

section \<open>Whose words\<close>

lemma respond_same: "respond ie now env out w = (r, w') \<Longrightarrow> iw_messages w' = iw_messages w \<and> iw_channels w' = iw_channels w"
  by (auto simp: respond_def fed_ulid_def Let_def split: option.splits list.splits sum.splits prod.splits)

text \<open>An accepted envelope that is not a presence: its author, its keys, and what its handler did.\<close>

definition two_layer_step ::
  "inbound_env \<Rightarrow> millis \<Rightarrow> json \<Rightarrow> inbound_world \<Rightarrow> inbound_world \<Rightarrow> prelude \<Rightarrow> remote_instance_row \<Rightarrow> remote_user_row \<Rightarrow> envelope \<Rightarrow>
   inbound_world \<Rightarrow> handler_output \<Rightarrow> inbound_world \<Rightarrow> bool" where
  "two_layer_step ie now body w w' pre peer ru env l out w2 \<longleftrightarrow>
     parseEnvelopePrelude body = Inr pre \<and> find_peer w (env_fromInstance env) = Some peer \<and> author_of pre peer w = Inr (rus_remoteUserId ru) \<and>
     (\<exists>key \<in> peer_keys peer. verifyTwoLayerMessageEnvelope (ie_verify ie) (ie_schema ie (pre_eventType pre)) now key (rus_publicKey ru) body = Inr (Accepted env)) \<and>
     iw_messages l = iw_messages w \<and> iw_db l = iw_db w \<and> iw_channels l = iw_channels w \<and> iw_servers l = iw_servers w \<and>
     handle ie now (pre_eventType pre) env peer ru l = Inr (out, w2) \<and>
     iw_messages w' = iw_messages (ho_post out w2) \<and> iw_channels w' = iw_channels (ho_post out w2)"

lemma accepted_two_layer:
  assumes "step_case ie now body w r w'" "parseEnvelopePrelude body = Inr pre" "pre_eventType pre \<noteq> ''presence.update''"
  obtains peer ru env l out w2 where "two_layer_step ie now body w w' pre peer ru env l out w2"
proof -
  obtain peer env h w1 l out w2 where s: "heard ie now body w peer env h w1" "log_envelope ie peer env w1 = Inr l" "h l = Inr (out, w2)"
      "respond ie now env out (ho_post out w2) = (r, w')"
    using assms(1) unfolding step_case_def by blast
  obtain pre' where p: "admitted ie body w = Inr (pre', peer)" using s(1) unfolding heard_def by blast
  then have pre: "pre' = pre" using admittedD(1) assms(2) by fastforce
  obtain author ru where a: "author_of pre peer w = Inr author" "cached_author ie now author w = (Some ru, w1)"
      "verify_inbound ie now (pre_eventType pre) peer ru body = Inr env" "h = handle ie now (pre_eventType pre) env peer ru"
    using s(1) p pre assms(3) unfolding heard_def by auto
  obtain key where k: "key \<in> peer_keys peer"
      "verifyTwoLayerMessageEnvelope (ie_verify ie) (ie_schema ie (pre_eventType pre)) now key (rus_publicKey ru) body = Inr (Accepted env)"
    using verified_by a(3) unfolding verify_inbound_def by blast
  have w1: "iw_messages w1 = iw_messages w \<and> iw_db w1 = iw_db w \<and> iw_channels w1 = iw_channels w \<and> iw_servers w1 = iw_servers w"
    by (rule cached_only_same [OF cached_only_author [OF a(2)]])
  have "two_layer_step ie now body w w' pre peer ru env l out w2"
    unfolding two_layer_step_def
    using assms(2) heardD(3) [OF s(1)] a(1) cached_authorD(2) [OF a(2)] k w1 log_envelopeD(2) [OF s(2)] s(3) a(4) respond_same [OF s(4)] by auto
  then show ?thesis by (rule that)
qed


section \<open>Channels of other servers\<close>

lemma find_chn_map:
  "(\<And>c. chn_id (f c) = chn_id c) \<Longrightarrow> List.find (\<lambda>c. chn_id c = i) (map (\<lambda>c. if chn_id c = i then f c else c) cs) =
     map_option f (List.find (\<lambda>c. chn_id c = i) cs)"
  by (induction cs) auto

lemma channels_post: "iw_channels (touch now ru (fed_publish e v)) = iw_channels v"
  by (simp add: touch_def fed_publish_def)

lemma upsert_existing:
  assumes "upsertMirrorChannel c w = Inr w'" "find_chn w (mc_channelId c) = Some old"
  shows "find_chn w' (mc_channelId c) = Some (mirror_channel_update c old)"
proof -
  have w': "iw_channels w' = map (\<lambda>r. if chn_id r = mc_channelId c then mirror_channel_update c r else r) (iw_channels w)"
    using assms by (auto simp: upsertMirrorChannel_def split: if_splits)
  have "chn_id (mirror_channel_update c r) = chn_id r" for r by (simp add: mirror_channel_update_def)
  from find_chn_map [OF this, of "mc_channelId c" "iw_channels w"] show ?thesis
    using assms(2) unfolding find_chn_def w' by simp
qed


section \<open>The addressee\<close>

definition own_name :: "string option \<Rightarrow> inbound_env \<Rightarrow> inbound_env" where
  "own_name h ie = ie\<lparr>ie_selfHost := h\<rparr>"

lemma own_name_fields [simp]:
  "ie_verify (own_name h ie) = ie_verify ie" "ie_schema (own_name h ie) = ie_schema ie" "ie_hash (own_name h ie) = ie_hash ie"
  "ie_profile (own_name h ie) = ie_profile ie" "ie_dmsEnabled (own_name h ie) = ie_dmsEnabled ie"
  "ie_presenceEnabled (own_name h ie) = ie_presenceEnabled ie"
  by (simp_all add: own_name_def)

text \<open>The event types whose handler answers without a signed reply and never asks for the name of this instance.\<close>

definition NAMELESS :: "string list" where
  "NAMELESS = [''message.update'', ''message.delete'', ''reaction.add'', ''reaction.remove'', ''server.update'', ''channel.create'', ''channel.update'',
     ''channel.delete'', ''member.add'', ''member.remove'', ''dm.message.create'', ''dm.message.update'', ''dm.message.delete'', ''dm.reaction.add'',
     ''dm.reaction.remove'', ''presence.update'']"

definition unsigned_reply :: "handled \<Rightarrow> bool" where
  "unsigned_reply h \<longleftrightarrow> (\<forall>out w. h = Inr (out, w) \<longrightarrow> ho_response out = None)"

lemma unsigned_reply_simps [simp]: "unsigned_reply (refuse c)" "unsigned_reply (Inl e)" "unsigned_reply (answer r post w)"
  by (simp_all add: unsigned_reply_def refuse_def answer_def)

lemma unsigned_handlers:
  "unsigned_reply (handleMessageUpdate now env ru w)" "unsigned_reply (handleMessageDelete now env ru w)" "unsigned_reply (handleReactionAdd now env ru w)"
  "unsigned_reply (handleReactionRemove now env ru w)" "unsigned_reply (handleServerUpdate now env ru w)" "unsigned_reply (handleChannelCreate now env peer ru w)"
  "unsigned_reply (handleChannelUpdate now env peer ru w)" "unsigned_reply (handleChannelDelete now env ru w)" "unsigned_reply (handleMemberAdd ie now env ru w)"
  "unsigned_reply (handleMemberRemove now env ru w)" "unsigned_reply (handleDmMessageCreate now env peer ru w)" "unsigned_reply (handleDmMessageUpdate now env peer ru w)"
  "unsigned_reply (handleDmMessageDelete now env peer ru w)" "unsigned_reply (handleDmReactionAdd now env peer ru w)"
  "unsigned_reply (handleDmReactionRemove now env peer ru w)"
  by (simp_all add: handleMessageUpdate_def handleMessageDelete_def handleReactionAdd_def handleReactionRemove_def handleServerUpdate_def
      handleChannelCreate_def handleChannelUpdate_def handleChannelDelete_def handleMemberAdd_def handleMemberRemove_def handleDmMessageCreate_def
      handleDmMessageUpdate_def handleDmMessageDelete_def handleDmReactionAdd_def handleDmReactionRemove_def Let_def
      split: option.split sum.split prod.split)

lemma nameless_cases:
  assumes "ty \<in> set NAMELESS" "ty \<noteq> ''presence.update''"
    and "P ''message.update''" "P ''message.delete''" "P ''reaction.add''" "P ''reaction.remove''" "P ''server.update''" "P ''channel.create''"
      "P ''channel.update''" "P ''channel.delete''" "P ''member.add''" "P ''member.remove''" "P ''dm.message.create''" "P ''dm.message.update''"
      "P ''dm.message.delete''" "P ''dm.reaction.add''" "P ''dm.reaction.remove''"
  shows "P ty"
  using assms unfolding NAMELESS_def list.set insert_iff empty_iff by (elim disjE) (simp_all only: simp_thms)

lemma nameless_handle:
  assumes "ty \<in> set NAMELESS" "ty \<noteq> ''presence.update''"
  shows "unsigned_reply (handle ie now ty env peer ru w) \<and> handle (own_name h ie) now ty env peer ru w = handle ie now ty env peer ru w"
  by (rule nameless_cases [OF assms]) (simp_all add: handle_def unsigned_handlers, simp add: handleMemberAdd_def)

lemma unsigned_presence: "unsigned_reply (handlePresenceUpdate now p peer w)"
  by (auto simp: handlePresenceUpdate_def Let_def split: option.split)

lemma finish_unsigned: "unsigned_reply r \<Longrightarrow> finish (own_name h ie) now env r w = finish ie now env r w"
  by (auto simp: finish_def respond_def unsigned_reply_def split: sum.split option.split)

lemma transaction_name: "transaction (own_name h ie) = transaction ie"
  unfolding fun_eq_iff transaction_def log_envelope_def own_name_fields by simp

lemma unsigned_transaction: "(\<And>l. unsigned_reply (f l)) \<Longrightarrow> unsigned_reply (transaction ie peer env f w)"
  by (auto simp: transaction_def unsigned_reply_def refuse_def split: sum.splits inbound_failure.splits)

text \<open>
  Nobody asks to whom an envelope is addressed. For the event types whose handler does not need the name of this
  instance, the outcome is the same whatever that name is: an envelope one peer has sent to another instance
  is accepted here as well, if somebody passes it on.
\<close>

theorem addressee_is_ignored:
  assumes "parseEnvelopePrelude body = Inr pre" and "pre_eventType pre \<in> set NAMELESS"
  shows "processEnvelope (ie\<lparr>ie_selfHost := h\<rparr>) now body w = processEnvelope ie now body w"
proof -
  have a: "admitted (own_name h ie) body w = admitted ie body w" unfolding admitted_def own_name_fields ..
  have c: "cached_author (own_name h ie) = cached_author ie" unfolding fun_eq_iff cached_author_def own_name_fields by simp
  have sv: "survives (own_name h ie) = survives ie" unfolding fun_eq_iff survives_def own_name_fields by simp
  have v: "verify_inbound (own_name h ie) = verify_inbound ie" "verify_presence (own_name h ie) = verify_presence ie"
    unfolding fun_eq_iff verify_inbound_def verify_presence_def own_name_fields by simp_all
  have pr: "processPresenceEnvelope (own_name h ie) now body peer w = processPresenceEnvelope ie now body peer w" for peer
    by (simp add: processPresenceEnvelope_def v transaction_name finish_unsigned unsigned_transaction unsigned_presence split: sum.split)
  have "processEnvelope (own_name h ie) now body w = processEnvelope ie now body w"
  proof (cases "admitted ie body w")
    case (Inl e)
    then show ?thesis by (simp add: processEnvelope_def a)
  next
    case (Inr pp)
    then obtain peer where p: "pp = (pre, peer)" using admittedD(1) assms(1) by (metis prod.exhaust sum.inject(2))
    show ?thesis
    proof (cases "pre_eventType pre = ''presence.update''")
      case True
      then show ?thesis by (simp add: processEnvelope_def a Inr p pr)
    next
      case False
      note n = nameless_handle [OF assms(2) False]
      have "handle (own_name h ie) now (pre_eventType pre) = handle ie now (pre_eventType pre)" using n by (simp add: fun_eq_iff)
      then show ?thesis
        using False n
        by (simp add: processEnvelope_def a Inr p c v sv transaction_name finish_unsigned unsigned_transaction
            split: sum.split option.split prod.split)
    qed
  qed
  then show ?thesis by (simp add: own_name_def)
qed

end
