(* ===== verification/InboundExamples.thy ===== *)
theory InboundExamples
  imports InboundAuthority
begin

text \<open>
  The properties of the inbound side at work on the sample instance: envelopes of its peer that are accepted, refused, replayed,
  and what they change.
\<close>

section \<open>Examples\<close>

lemma open_finish:
  assumes "h (open_world\<lparr>iw_log := [log_entry open_peer env b]\<rparr>) = Inr (out, w2)" "canonical_bytes (env_payload env) = Inr b" "ho_response out = None"
  shows "finish inn_env 5 env (transaction inn_env open_peer env h open_world) v = (Inr (ho_data out), ho_post out w2)"
proof -
  have hash: "ie_hash inn_env = id" by (simp add: inn_env_def)
  show ?thesis using assms by (simp add: finish_def transaction_def log_envelope_def seen_def open_world_fields respond_def hash)
qed

lemma canonical_bytes_some: "canonicalize p \<noteq> None \<Longrightarrow> \<exists>b. canonical_bytes p = Inr b"
  by (auto simp: canonical_bytes_def)

text \<open>An envelope of the peer whose handler accepts is accepted, and the handler decides what becomes of the world.\<close>

lemma open_run:
  assumes "ty \<in> set ENVELOPE_EVENT_TYPES" "handled_type ty" "canonicalize p \<noteq> None"
    and "\<And>pre. pre_eventType pre = ty \<Longrightarrow> pre_payload pre = p \<Longrightarrow> author_of pre open_peer open_world = Inr ''olga@a.b''"
    and "\<And>env x. env_payload env = p \<Longrightarrow> \<exists>out w2. handle inn_env 5 ty env open_peer olga (open_world\<lparr>iw_log := x\<rparr>) = Inr (out, w2) \<and>
      ho_response out = None \<and> P (ho_data out) (ho_post out w2)"
  obtains body r w' where "processEnvelope inn_env 5 body open_world = (Inr r, w')" "P r w'"
    "parseEnvelopePrelude body = Inr \<lparr>pre_fromInstance = ''a.b'', pre_eventType = ty, pre_nonce = replicate 20 (CHR ''A''), pre_payload = p\<rparr>"
proof (rule open_process [OF assms(1-4) open_world_fields(1,2)])
  fix body env
  assume r: "processEnvelope inn_env 5 body open_world =
       finish inn_env 5 env (transaction inn_env open_peer env (handle inn_env 5 ty env open_peer olga) open_world) (survives inn_env 5 ty open_peer env open_world)"
    and pre: "parseEnvelopePrelude body = Inr \<lparr>pre_fromInstance = ''a.b'', pre_eventType = ty, pre_nonce = replicate 20 (CHR ''A''), pre_payload = p\<rparr>"
    and e: "env_payload env = p"
  obtain b where b: "canonical_bytes p = Inr b" using canonical_bytes_some [OF assms(3)] ..
  obtain out w2 where h: "handle inn_env 5 ty env open_peer olga (open_world\<lparr>iw_log := [log_entry open_peer env b]\<rparr>) = Inr (out, w2)"
      "ho_response out = None" "P (ho_data out) (ho_post out w2)" using assms(5) [OF e] by blast
  have "processEnvelope inn_env 5 body open_world = (Inr (ho_data out), ho_post out w2)"
    unfolding r by (rule open_finish [where h = "handle inn_env 5 ty env open_peer olga", OF h(1) _ h(2)]) (simp add: e b)
  then show thesis using that h(3) pre by blast
qed assumption+

lemma open_logged [simp]:
  "find_msg (open_world\<lparr>iw_log := x\<rparr>) ''M'' = Some open_message" "find_chn (open_world\<lparr>iw_log := x\<rparr>) ''hall'' = Some open_channel"
  "message_federated (open_world\<lparr>iw_log := x\<rparr>) ''hall''" "user_of_remote (open_world\<lparr>iw_log := x\<rparr>) ''olga@a.b'' = Some olga_here"
  "author_remote (open_world\<lparr>iw_log := x\<rparr>) open_message = Some ''olga@a.b''"
  "find_member (iw_db open_world) ''L'' ''U'' \<noteq> None" "rus_remoteUserId olga = ''olga@a.b''" "usr_id olga_here = ''U''"
  by (simp_all add: find_msg_def find_chn_def find_srv_def user_of_remote_def find_member_def message_federated_def federated_channel_def author_remote_def
      open_world_def open_message_def open_channel_def open_server_def mirror_server_row_def computeEffectiveFederation_def olga_def olga_here_def
      remote_user_new_def empty_db_def find_user_def)

lemma open_message_fields [simp]:
  "msg_id open_message = ''M''" "msg_channelId open_message = Some ''hall''" "msg_serverId open_message = Some ''L''" "msg_deletedAt open_message = None"
  by (simp_all add: open_message_def)

definition open_reaction :: json where
  "open_reaction = JObj [(''actorRemoteUserId'', JStr ''olga@a.b''), (''emoji'', JStr ''x''), (''messageId'', JStr ''M'')]"

lemma open_reaction_accepted:
  obtains body r w' where "processEnvelope inn_env 5 body open_world = (Inr r, w')" "r = Some (ReplyReacted ''M'')"
    "parseEnvelopePrelude body = Inr \<lparr>pre_fromInstance = ''a.b'', pre_eventType = ''reaction.add'', pre_nonce = replicate 20 (CHR ''A''), pre_payload = open_reaction\<rparr>"
proof (rule open_run [of "''reaction.add''" open_reaction "\<lambda>r w'. r = Some (ReplyReacted ''M'')"])
  show "''reaction.add'' \<in> set ENVELOPE_EVENT_TYPES" "handled_type ''reaction.add''" "canonicalize open_reaction \<noteq> None"
    by (simp_all add: ENVELOPE_EVENT_TYPES_def handled_type_def author_field_def open_reaction_def canonicalize_def)
  show "author_of pre open_peer open_world = Inr ''olga@a.b''" if "pre_eventType pre = ''reaction.add''" "pre_payload pre = open_reaction" for pre
    using that by (simp add: author_of_def author_field_def open_reaction_def fld_text_def fld_def member_def txt_of_def)
  have f: "fld_text open_reaction ''messageId'' = ''M''" "fld_text open_reaction ''emoji'' = ''x''"
    by (simp_all add: open_reaction_def fld_text_def fld_def member_def txt_of_def)
  show "\<exists>out w2. handle inn_env 5 ''reaction.add'' env open_peer olga (open_world\<lparr>iw_log := x\<rparr>) = Inr (out, w2) \<and> ho_response out = None \<and>
      ho_data out = Some (ReplyReacted ''M'')" if "env_payload env = open_reaction" for env x
    using that by (simp add: handle_def handleReactionAdd_def f validateInboundReaction_def custom_emoji_def toLowerCase_def lower_char_def
        ensureUserForRemoteUser_def answer_def)
qed

lemma find_after:
  "find_msg (touch now ru w) i = find_msg w i" "find_msg (fed_publish e w) i = find_msg w i" "find_msg (clear_message j w) i = find_msg w i"
  "find_msg (unpin j w) i = find_msg w i"
  by (simp_all add: find_msg_def steps)

lemma open_erased: "\<exists>m'. find_msg (update_message ''M'' (erased t) (open_world\<lparr>iw_log := x\<rparr>)) ''M'' = Some m' \<and> text_of m' \<noteq> text_of open_message"
  by (simp add: find_msg_def update_message_def erased_def text_of_def open_world_def open_message_def)

text \<open>The author deletes the message; the home of a mirror names a channel of another server.\<close>

definition open_delete :: "string \<Rightarrow> string \<Rightarrow> json" where
  "open_delete i t = JObj [(''actorRemoteUserId'', JStr ''olga@a.b''), (''deletedAt'', JStr t), (''messageId'', JStr i)]"

lemma open_delete_fields [simp]:
  "fld_text (open_delete i t) ''actorRemoteUserId'' = ''olga@a.b''" "fld_text (open_delete i t) ''messageId'' = i" "fld_text (open_delete i t) ''deletedAt'' = t"
  "canonicalize (open_delete i t) \<noteq> None"
  by (simp_all add: open_delete_def fld_text_def fld_def member_def txt_of_def canonicalize_def)

lemma delete_type: "''message.delete'' \<in> set ENVELOPE_EVENT_TYPES" "handled_type ''message.delete''"
  by (simp_all add: ENVELOPE_EVENT_TYPES_def handled_type_def author_field_def)

lemma delete_author: "pre_eventType pre = ''message.delete'' \<Longrightarrow> pre_payload pre = open_delete i t \<Longrightarrow> author_of pre open_peer open_world = Inr ''olga@a.b''"
  by (simp add: author_of_def author_field_def)

lemma open_delete_accepted:
  obtains t body r w' m' where "processEnvelope inn_env 5 body open_world = (Inr r, w')" "find_msg w' ''M'' = Some m'" "text_of m' \<noteq> text_of open_message"
proof -
  obtain t where t: "toISOString 0 = Some t" using toISOString_some [of 0] by (auto simp: MAX_TIME_def)
  have skew: "assertTimestampWithinSkew 5 t = Inr 0"
    by (simp add: assertTimestampWithinSkew_def iso_roundtrip [OF t] MAX_CLOCK_SKEW_MS_def)
  let ?P = "\<lambda>(r :: reply_data option) w'. \<exists>m'. find_msg w' ''M'' = Some m' \<and> text_of m' \<noteq> text_of open_message"
  show thesis
  proof (rule open_run [of "''message.delete''" "open_delete ''M'' t" ?P])
    show "\<exists>out w2. handle inn_env 5 ''message.delete'' env open_peer olga (open_world\<lparr>iw_log := x\<rparr>) = Inr (out, w2) \<and> ho_response out = None \<and>
        (\<exists>m'. find_msg (ho_post out w2) ''M'' = Some m' \<and> text_of m' \<noteq> text_of open_message)" if "env_payload env = open_delete ''M'' t" for env x
      using that by (simp add: handle_def handleMessageDelete_def skew answer_def Let_def find_after open_erased)
  qed (use delete_type delete_author that in auto)
qed

lemma open_delete_unknown:
  obtains body where "processEnvelope inn_env 5 body open_world = (Inl (Refused UnknownMessage), open_world)"
proof (rule open_process [of "''message.delete''" "open_delete ''N'' ''now''" open_world])
  fix body env
  assume r: "processEnvelope inn_env 5 body open_world =
       finish inn_env 5 env (transaction inn_env open_peer env (handle inn_env 5 ''message.delete'' env open_peer olga) open_world)
         (survives inn_env 5 ''message.delete'' open_peer env open_world)" and e: "env_payload env = open_delete ''N'' ''now''"
  obtain b where b: "canonical_bytes (open_delete ''N'' ''now'') = Inr b" using canonical_bytes_some [OF open_delete_fields(4)] ..
  have "find_msg (open_world\<lparr>iw_log := x\<rparr>) ''N'' = None" for x by (simp add: find_msg_def open_world_def open_message_def)
  then have "transaction inn_env open_peer env (handle inn_env 5 ''message.delete'' env open_peer olga) open_world = refuse UnknownMessage"
    by (simp add: transaction_def log_envelope_def e b seen_def open_world_fields handle_def handleMessageDelete_def Let_def refuse_def)
  then show thesis using that r by (simp add: finish_def survives_def refuse_def)
qed (use delete_type delete_author open_world_fields in auto)

definition open_create :: json where
  "open_create = JObj [(''channel'', JObj [(''id'', JStr ''hall''), (''name'', JStr ''taken''), (''type'', JStr ''text'')]), (''serverId'', JStr ''S'')]"

lemma open_create_accepted:
  obtains body r w' where "processEnvelope inn_env 5 body open_world = (Inr r, w')"
    "parseEnvelopePrelude body = Inr \<lparr>pre_fromInstance = ''a.b'', pre_eventType = ''channel.create'', pre_nonce = replicate 20 (CHR ''A''), pre_payload = open_create\<rparr>"
proof (rule open_run [of "''channel.create''" open_create "\<lambda>_ _. True"])
  show "''channel.create'' \<in> set ENVELOPE_EVENT_TYPES" "handled_type ''channel.create''" "canonicalize open_create \<noteq> None"
    by (simp_all add: ENVELOPE_EVENT_TYPES_def handled_type_def OWNER_SIGNED_def open_create_def canonicalize_def)
  have f: "fld_text open_create ''serverId'' = ''S''" "fld_text (fld open_create ''channel'') ''id'' = ''hall''"
    "fld_text (fld open_create ''channel'') ''type'' = ''text''"
    by (simp_all add: open_create_def fld_text_def fld_def member_def txt_of_def)
  have s: "srv_originInstanceId (open_server ''S'' (Some ''P'') ''U'') = Some ''P''" "srv_ownerUserId (open_server ''S'' (Some ''P'') ''U'') = ''U''"
    "rin_id open_peer = ''P''" "usr_remoteUserId olga_here = Some ''olga@a.b''"
    by (simp_all add: open_server_def mirror_server_row_def open_peer_def olga_here_def remote_user_new_def olga_def)
  show "author_of pre open_peer open_world = Inr ''olga@a.b''" if "pre_eventType pre = ''channel.create''" "pre_payload pre = open_create" for pre
    using that by (simp add: author_of_def author_field_def resolveMirrorOwner_def f open_world_fields s)
  show "\<exists>out w2. handle inn_env 5 ''channel.create'' env open_peer olga (open_world\<lparr>iw_log := x\<rparr>) = Inr (out, w2) \<and> ho_response out = None \<and> True"
    if "env_payload env = open_create" for env x
    using that by (auto simp: handle_def handleChannelCreate_def Let_def f upsertMirrorChannel_def find_chn_def answer_def
        mirror_channel_update_def open_world_def open_channel_def open_server_def mirror_server_row_def)
qed

section \<open>The properties at work\<close>


theorem refusal_changes_nothing_witness:
  "\<exists>body. processEnvelope inn_env 5 body open_world = (Inl (Refused UnknownMessage), open_world) \<and> cached_only open_world open_world"
proof -
  obtain body where r: "processEnvelope inn_env 5 body open_world = (Inl (Refused UnknownMessage), open_world)" by (rule open_delete_unknown)
  from refusal_changes_nothing [OF this] r show ?thesis by blast
qed




theorem addressee_is_ignored_witness:
  "\<exists>body r w'. processEnvelope inn_env 5 body open_world = (Inr r, w') \<and>
     processEnvelope (inn_env\<lparr>ie_selfHost := Some ''other''\<rparr>) 5 body open_world = (Inr r, w')"
proof -
  obtain body r w' where r: "processEnvelope inn_env 5 body open_world = (Inr r, w')" and
    p: "parseEnvelopePrelude body = Inr \<lparr>pre_fromInstance = ''a.b'', pre_eventType = ''reaction.add'', pre_nonce = replicate 20 (CHR ''A''), pre_payload = open_reaction\<rparr>"
    by (rule open_reaction_accepted)
  have "pre_eventType \<lparr>pre_fromInstance = ''a.b'', pre_eventType = ''reaction.add'', pre_nonce = replicate 20 (CHR ''A''), pre_payload = open_reaction\<rparr> \<in> set NAMELESS"
    by (simp add: NAMELESS_def)
  from addressee_is_ignored [OF p this, where ie = inn_env] r show ?thesis by metis
qed

end
