(* ===== verification/ChannelMessages.thy ===== *)
theory ChannelMessages
  imports RemoteUsers Automod Mentions
begin

text \<open>
  The message routes of channels (apps/api/src/routes/messages.ts): listing and creating. Sending is split at its
  transaction: the gates before it, the rows it writes, and what is told to others after it. The gateway's
  events carry the content (or the id) in place of the serialized row. Errors are those of the direct message
  routes: an error of the API, or the database's. Editing, deleting and reactions are in MessageEdits.
\<close>

section \<open>State\<close>

text \<open>The message table holds the messages of channels, threads and conversations alike.\<close>

record chat_message_row = message_row +
  cm_dmChannelId :: "ident option"
  cm_threadId :: "ident option"
  cm_isThreadRoot :: bool
  cm_replyTo :: "ident option"
  cm_forwardedFrom :: "ident option"
  cm_forwardedFromChannelId :: "ident option"
  cm_nonce :: "string option"
  cm_embeds :: "json list"
  cm_editedAt :: "millis option"
  cm_originInstanceId :: "ident option"

datatype posting_scope = OpenScope | ModsOnly | AdminOnly

record channel_meta =
  chm_slowmodeSeconds :: int
  chm_postingScope :: posting_scope
  chm_forum :: bool
  chm_originInstanceId :: "ident option"

record thread_row =
  thr_id :: ident
  thr_channelId :: ident
  thr_rootMessageId :: ident
  thr_title :: string
  thr_createdBy :: ident
  thr_lastActivityAt :: millis

record rule_info =
  ri_name :: string
  ri_action :: string
  ri_reason :: "string option"

text \<open>
  The database, the published events and the ULIDs are those of the services. Columns that only these
  routes read are functions of the key of their row: of channels, of members, of users, of
  onboarding settings (enabled and requiring rules), of roles and of rules. \<open>cw_previews\<close> and
  \<open>cw_lookups\<close> are the calls of the link previews and of the look-ups of remote profiles.
\<close>

record chat_world =
  cw_services :: service_world
  cw_messages :: "chat_message_row list"
  cw_attachments :: "attachment_row list"
  cw_channelMeta :: "ident \<Rightarrow> channel_meta"
  cw_timeouts :: "ident \<times> ident \<Rightarrow> millis option"
  cw_postingLocks :: "ident \<Rightarrow> millis option"
  cw_onboarding :: "ident \<Rightarrow> (bool \<times> bool) option"
  cw_mentionable :: "ident \<Rightarrow> bool"
  cw_rules :: "automod_rule list"
  cw_ruleInfo :: "ident \<Rightarrow> rule_info"
  cw_rates :: rate_state
  cw_mentions :: mention_tables
  cw_threads :: "thread_row list"
  cw_reactions :: "reaction_row list"
  cw_edits :: "edit_row list"
  cw_pins :: "ident list"
  cw_customEmoji :: "(ident \<times> ident) list"
  cw_queue :: fan_state
  cw_previews :: "(ident \<times> ident option \<times> string) list"
  cw_lookups :: "string list"

text \<open>
  \<open>ce_sanitize\<close> is the library that strips tags, \<open>ce_regexp\<close> the compiler of patterns, \<open>ce_queues\<close> and
  \<open>ce_profiles\<close> tell whether the services were given; the federation flags and the own host are in \<open>ce_fan\<close>.
\<close>

record chat_env =
  ce_sanitize :: "string \<Rightarrow> string"
  ce_regexp :: "string \<Rightarrow> (string \<Rightarrow> bool) option"
  ce_fan :: fan_env
  ce_queues :: bool
  ce_profiles :: bool

type_synonym 'a chat_result = "(dm_error + 'a) \<times> chat_world"

definition cw_db :: "chat_world \<Rightarrow> db" where "cw_db w = sw_db (cw_services w)"

definition chat_publish :: "gateway_event \<Rightarrow> chat_world \<Rightarrow> chat_world" where
  "chat_publish e w = w\<lparr>cw_services := publish_event e (cw_services w)\<rparr>"

definition chat_ulid :: "chat_world \<Rightarrow> ident \<times> chat_world" where
  "chat_ulid w = (let (i, s) = new_ulid (cw_services w) in (i, w\<lparr>cw_services := s\<rparr>))"

definition find_chat :: "chat_world \<Rightarrow> ident \<Rightarrow> chat_message_row option" where
  "find_chat w i = List.find (\<lambda>m. msg_id m = i) (cw_messages w)"

text \<open>An audit entry; the message of its mirror goes into the one message table.\<close>

definition chat_of_base :: "message_row \<Rightarrow> chat_message_row" where
  "chat_of_base m = message_row.extend m
     \<lparr>cm_dmChannelId = None, cm_threadId = None, cm_isThreadRoot = False, cm_replyTo = None, cm_forwardedFrom = None,
      cm_forwardedFromChannelId = None, cm_nonce = None, cm_embeds = [], cm_editedAt = None, cm_originInstanceId = None\<rparr>"

definition chat_audit :: "millis \<Rightarrow> audit_input \<Rightarrow> chat_world \<Rightarrow> chat_world" where
  "chat_audit now i w =
     (let s = writeAuditEntry now i ((cw_services w)\<lparr>sw_db := (cw_db w)\<lparr>db_messages := []\<rparr>\<rparr>)
      in w\<lparr>cw_services := s\<lparr>sw_db := (sw_db s)\<lparr>db_messages := db_messages (cw_db w)\<rparr>\<rparr>,
           cw_messages := cw_messages w @ map chat_of_base (db_messages (sw_db s))\<rparr>)"

section \<open>Listing\<close>

record thread_summary =
  ts_threadId :: ident
  ts_replyCount :: nat
  ts_lastActivityAt :: millis

definition loadThreadSummaryForRootId :: "chat_world \<Rightarrow> ident \<Rightarrow> thread_summary option" where
  "loadThreadSummaryForRootId w rootId =
     map_option (\<lambda>t. \<lparr>ts_threadId = thr_id t,
         ts_replyCount = length (filter (\<lambda>m. cm_threadId m = Some (thr_id t) \<and> msg_deletedAt m = None) (cw_messages w)),
         ts_lastActivityAt = thr_lastActivityAt t\<rparr>)
       (List.find (\<lambda>t. thr_rootMessageId t = rootId) (cw_threads w))"

text \<open>The object spread lets the second \<open>id\<close> condition replace the first.\<close>

definition in_page :: "ident \<Rightarrow> ident option \<Rightarrow> ident option \<Rightarrow> chat_message_row \<Rightarrow> bool" where
  "in_page channelId before after m \<longleftrightarrow>
     msg_channelId m = Some channelId \<and> cm_threadId m = None \<and> msg_deletedAt m = None \<and>
     (case (after, before) of
        (Some a, _) \<Rightarrow> msg_id m > a
      | (None, Some b) \<Rightarrow> msg_id m < b
      | (None, None) \<Rightarrow> True)"

definition list_messages ::
  "ident \<Rightarrow> ident \<Rightarrow> ident option \<Rightarrow> ident option \<Rightarrow> nat \<Rightarrow> chat_world \<Rightarrow>
   tavern_error + (chat_message_row \<times> thread_summary option) list" where
  "list_messages channelId userId before after limit w =
     (case requireChannelPermission (cw_db w) channelId userId (Permission READ_MESSAGE_HISTORY) of
        Inl e \<Rightarrow> Inl e
      | Inr _ \<Rightarrow>
          let useAscOrder = (after \<noteq> None \<and> before = None);
              found = sort_key msg_id (filter (in_page channelId before after) (cw_messages w));
              ordered = (if useAscOrder then rev (take limit found) else take limit (rev found))
          in Inr (map (\<lambda>m. (m, if cm_isThreadRoot m then loadThreadSummaryForRootId w (msg_id m) else None)) ordered))"

section \<open>Gates of sending\<close>

record post_request =
  pq_content :: string
  pq_replyTo :: "ident option"
  pq_attachmentIds :: "ident list"
  pq_nonce :: "string option"
  pq_forwardedFrom :: "ident option"
  pq_embeds :: "json list"

definition is_admin :: "int \<Rightarrow> bool" where "is_admin perms \<longleftrightarrow> hasFlag perms (Permission ADMINISTRATOR)"

definition moderates :: "int \<Rightarrow> bool" where   \<comment> \<open>\<open>isAdminOrModForChannel\<close>\<close>
  "moderates perms \<longleftrightarrow> is_admin perms \<or> hasFlag perms (Permission MANAGE_MESSAGES)"

definition later_than :: "millis option \<Rightarrow> millis \<Rightarrow> bool" where
  "later_than t now \<longleftrightarrow> (case t of None \<Rightarrow> False | Some x \<Rightarrow> x > now)"

text \<open>The posting lock, the time-out, the rules of the tavern and its verification level.\<close>

definition member_gates :: "millis \<Rightarrow> ident \<Rightarrow> ident \<Rightarrow> int \<Rightarrow> chat_world \<Rightarrow> tavern_error + unit" where
  "member_gates now serverId userId perms w =
     (if later_than (cw_postingLocks w userId) now then
        Inl (TavernError CONTENT_HELD ''Your posting privileges are temporarily locked'' 403 None)
      else
        let m = find_member (cw_db w) serverId userId
        in if m \<noteq> None \<and> later_than (cw_timeouts w (serverId, userId)) now then
             Inl (TavernError MEMBER_TIMED_OUT ''You are timed out in this tavern'' 403 None)
           else if map_option mem_gatePassedAt m = Some None \<and> \<not> moderates perms \<and> cw_onboarding w serverId = Some (True, True) then
             Inl (TavernError GATE_PENDING ''Accept the tavern rules before posting'' 403 None)
           else if moderates perms then Inr ()
           else assertCanPostUnderVerification now (cw_db w) serverId userId)"

text \<open>The author's latest message in the channel that is not deleted.\<close>

definition last_post :: "ident \<Rightarrow> ident \<Rightarrow> chat_world \<Rightarrow> millis option" where
  "last_post channelId userId w =
     (let ts = map msg_createdAt (filter (\<lambda>m. msg_channelId m = Some channelId \<and> msg_authorId m = userId \<and> msg_deletedAt m = None) (cw_messages w))
      in if ts = [] then None else Some (Max (set ts)))"

definition slowmode_text :: "millis \<Rightarrow> string" where   \<comment> \<open>the dash is written as its UTF-8 bytes\<close>
  "slowmode_text remainingMs = ''Slow mode is on '' @ [CHR 0xE2, CHR 0x80, CHR 0x94] @ '' wait '' @ show_int ((remainingMs + 999) div 1000) @ ''s''"

definition channel_gates :: "millis \<Rightarrow> ident \<Rightarrow> ident \<Rightarrow> int \<Rightarrow> chat_world \<Rightarrow> tavern_error + unit" where
  "channel_gates now channelId userId perms w =
     (let meta = cw_channelMeta w channelId; requiredMs = chm_slowmodeSeconds meta * 1000
      in if chm_postingScope meta = ModsOnly \<and> \<not> moderates perms then
           Inl (TavernError CHANNEL_READ_ONLY (''This room is mods-only '' @ [CHR 0xE2, CHR 0x80, CHR 0x94] @ '' only moderators can post here'') 403 None)
         else if chm_postingScope meta = AdminOnly \<and> \<not> is_admin perms then
           Inl (TavernError CHANNEL_READ_ONLY ''This room is admin-only'' 403 None)
         else if chm_slowmodeSeconds meta > 0 \<and> \<not> moderates perms then
           (case last_post channelId userId w of
              None \<Rightarrow> Inr ()
            | Some t \<Rightarrow> if now - t < requiredMs then Inl (TavernError SLOWMODE_ACTIVE (slowmode_text (requiredMs - (now - t))) 429 None)
                        else Inr ())
         else Inr ())"

definition replayed :: "ident \<Rightarrow> ident \<Rightarrow> string option \<Rightarrow> chat_world \<Rightarrow> tavern_error + chat_message_row option" where
  "replayed channelId userId nonce w =
     (case Option.bind nonce (\<lambda>n. List.find (\<lambda>m. msg_channelId m = Some channelId \<and> cm_nonce m = Some n) (cw_messages w)) of
        None \<Rightarrow> Inr None
      | Some m \<Rightarrow> if msg_authorId m \<noteq> userId \<or> cm_threadId m \<noteq> None \<or> msg_deletedAt m \<noteq> None
                  then Inl (validation (Some ''Nonce already used'') None) else Inr (Some m))"

definition reply_gate :: "ident \<Rightarrow> ident option \<Rightarrow> chat_world \<Rightarrow> tavern_error + unit" where
  "reply_gate channelId replyTo w =
     (case replyTo of None \<Rightarrow> Inr () | Some r \<Rightarrow>
      case find_chat w r of
        Some target \<Rightarrow> if msg_channelId target = Some channelId \<and> msg_deletedAt target = None then Inr ()
                       else Inl (validation (Some ''Reply target invalid'') None)
      | None \<Rightarrow> Inl (validation (Some ''Reply target invalid'') None))"

text \<open>The channel a message is forwarded from, \<^const>\<open>None\<close> for a conversation.\<close>

definition forward_gate :: "ident \<Rightarrow> ident option \<Rightarrow> chat_world \<Rightarrow> tavern_error + ident option" where
  "forward_gate userId source w =
     (case source of None \<Rightarrow> Inr None | Some i \<Rightarrow>
      case find_chat w i of None \<Rightarrow> Inl (validation (Some ''Forward source not found'') None) | Some m \<Rightarrow>
      if msg_deletedAt m \<noteq> None then Inl (validation (Some ''Forward source not found'') None)
      else case msg_channelId m of
        Some c \<Rightarrow> (case requireChannelPermission (cw_db w) c userId (Permission VIEW_CHANNEL) of Inl e \<Rightarrow> Inl e | Inr _ \<Rightarrow> Inr (Some c))
      | None \<Rightarrow> case cm_dmChannelId m of
          Some d \<Rightarrow> if list_ex (\<lambda>x. dmm_dmChannelId x = d \<and> dmm_userId x = userId) (db_dm_members (cw_db w)) then Inr None
                    else Inl (forbidden (Some ''You cannot forward from that conversation''))
        | None \<Rightarrow> Inr None)"

definition automod_audit :: "ident \<Rightarrow> ident \<Rightarrow> ident \<Rightarrow> automod_rule \<Rightarrow> rule_info \<Rightarrow> audit_input" where
  "automod_audit serverId userId channelId rule i =
     \<lparr>ai_serverId = Some serverId, ai_actorId = Some userId, ai_action = ''automod.hit'', ai_targetType = Some ''channel'',
      ai_targetId = Some channelId,
      ai_metadata = Some [(''ruleId'', MetaText (ar_id rule)), (''ruleName'', MetaText (ri_name i)), (''action'', MetaText (ri_action i)),
        (''reason'', (case ri_reason i of None \<Rightarrow> MetaNull | Some r \<Rightarrow> MetaText r))]\<rparr>"

text \<open>Automatic moderation: the rule that hits is audited; it stops the message if its action is to delete or hold.\<close>

definition automod_gate :: "chat_env \<Rightarrow> millis \<Rightarrow> ident \<Rightarrow> ident \<Rightarrow> ident \<Rightarrow> int \<Rightarrow> string \<Rightarrow> chat_world \<Rightarrow> (tavern_error + unit) \<times> chat_world" where
  "automod_gate e now serverId channelId userId perms content w =
     (if moderates perms then (Inr (), w)
      else case evaluateAutomod (ce_regexp e) now (cw_rules w) serverId userId content (cw_rates w) of
        (None, st) \<Rightarrow> (Inr (), w\<lparr>cw_rates := st\<rparr>)
      | (Some rule, st) \<Rightarrow>
          let i = cw_ruleInfo w (ar_id rule);
              w = chat_audit now (automod_audit serverId userId channelId rule i) (w\<lparr>cw_rates := st\<rparr>)
          in (if ri_action i = ''delete'' \<or> ri_action i = ''hold''
              then Inl (TavernError CONTENT_HELD (get_or (''Blocked by '' @ ri_name i) (ri_reason i)) 403 None) else Inr (), w))"

definition mention_gate :: "ident \<Rightarrow> int \<Rightarrow> string \<Rightarrow> chat_world \<Rightarrow> tavern_error + unit" where
  "mention_gate serverId perms content w =
     (let parsed = parseMentions content; may = (is_admin perms \<or> hasFlag perms (Permission MENTION_EVERYONE))
      in if hasGroupMention parsed \<and> \<not> may then Inl (forbidden (Some ''You cannot use @everyone or @here in this room''))
         else if may then Inr ()
         else case List.find (\<lambda>r. rol_serverId r = serverId \<and> rol_name r \<in> set (nameMentions parsed) \<and> \<not> cw_mentionable w (rol_id r))
                     (db_roles (cw_db w)) of
                None \<Rightarrow> Inr ()
              | Some r \<Rightarrow> Inl (forbidden (Some (''Role @'' @ rol_name r @ '' is not mentionable here''))))"

definition attachment_gate :: "ident \<Rightarrow> int \<Rightarrow> ident list \<Rightarrow> chat_world \<Rightarrow> dm_error + unit" where
  "attachment_gate userId perms ids w =
     (if ids = [] then Inr ()
      else if \<not> hasFlag perms (Permission ATTACH_FILES) \<and> \<not> is_admin perms then
        Inl (DmTavern (forbidden (Some ''You cannot attach files in this channel'')))
      else
        let atts = filter (\<lambda>a. att_id a \<in> set ids) (cw_attachments w)
        in if length atts \<noteq> length ids then Inl (DmTavern (validation (Some ''Unknown attachment'') None))
           else attachments_check userId atts)"

definition embed_gate :: "int \<Rightarrow> json list \<Rightarrow> tavern_error + unit" where
  "embed_gate perms embeds =
     (if embeds \<noteq> [] \<and> \<not> hasFlag perms (Permission EMBED_LINKS) \<and> \<not> is_admin perms
      then Inl (forbidden (Some ''You cannot post embeds in this channel'')) else Inr ())"

definition as_dm :: "tavern_error + 'a \<Rightarrow> dm_error + 'a" where
  "as_dm r = (case r of Inl e \<Rightarrow> Inl (DmTavern e) | Inr a \<Rightarrow> Inr a)"

text \<open>The gates before automatic moderation, in their order: an earlier message with the nonce, or where a forward is from.\<close>

definition gates_before ::
  "millis \<Rightarrow> ident \<Rightarrow> ident \<Rightarrow> ident \<Rightarrow> int \<Rightarrow> post_request \<Rightarrow> chat_world \<Rightarrow> tavern_error + (chat_message_row + ident option)" where
  "gates_before now serverId channelId userId perms req w =
     bind_result (member_gates now serverId userId perms w) (\<lambda>_.
     bind_result (channel_gates now channelId userId perms w) (\<lambda>_.
     bind_result (replayed channelId userId (pq_nonce req) w) (\<lambda>existing.
       case existing of
         Some m \<Rightarrow> Inr (Inl m)
       | None \<Rightarrow>
           bind_result (reply_gate channelId (pq_replyTo req) w) (\<lambda>_.
           bind_result (forward_gate userId (pq_forwardedFrom req) w) (\<lambda>from. Inr (Inr from))))))"

definition gates_after :: "ident \<Rightarrow> ident \<Rightarrow> int \<Rightarrow> post_request \<Rightarrow> chat_world \<Rightarrow> dm_error + unit" where
  "gates_after serverId userId perms req w =
     bind_result (as_dm (mention_gate serverId perms (pq_content req) w)) (\<lambda>_.
     bind_result (attachment_gate userId perms (pq_attachmentIds req) w) (\<lambda>_.
       as_dm (embed_gate perms (pq_embeds req))))"

text \<open>Everything before the transaction: the earlier message, or the server and the forwarded channel.\<close>

definition post_check ::
  "chat_env \<Rightarrow> millis \<Rightarrow> ident \<Rightarrow> ident \<Rightarrow> post_request \<Rightarrow> chat_world \<Rightarrow> (chat_message_row + ident \<times> ident option) chat_result" where
  "post_check e now channelId userId req w =
     (case requireChannelPermission (cw_db w) channelId userId (Permission SEND_MESSAGES) of
        Inl x \<Rightarrow> (Inl (DmTavern x), w)
      | Inr (perms, serverId) \<Rightarrow>
          case gates_before now serverId channelId userId perms req w of
            Inl x \<Rightarrow> (Inl (DmTavern x), w)
          | Inr (Inl m) \<Rightarrow> (Inr (Inl m), w)
          | Inr (Inr from) \<Rightarrow>
              case automod_gate e now serverId channelId userId perms (pq_content req) w of
                (Inl x, w) \<Rightarrow> (Inl (DmTavern x), w)
              | (Inr _, w) \<Rightarrow>
                  (case gates_after serverId userId perms req w of
                     Inl x \<Rightarrow> (Inl x, w)
                   | Inr _ \<Rightarrow> (Inr (Inr (serverId, from)), w)))"

section \<open>The transaction\<close>

definition chat_row :: "chat_env \<Rightarrow> millis \<Rightarrow> ident \<Rightarrow> ident \<Rightarrow> ident \<Rightarrow> ident \<Rightarrow> ident option \<Rightarrow> post_request \<Rightarrow> chat_message_row" where
  "chat_row e now messageId serverId channelId userId from req =
     \<lparr>msg_id = messageId, msg_serverId = Some serverId, msg_channelId = Some channelId, msg_authorId = userId, msg_system = False,
      msg_content = ce_sanitize e (pq_content req), msg_createdAt = now, msg_deletedAt = None, cm_dmChannelId = None, cm_threadId = None,
      cm_isThreadRoot = False, cm_replyTo = pq_replyTo req, cm_forwardedFrom = pq_forwardedFrom req, cm_forwardedFromChannelId = from,
      cm_nonce = pq_nonce req, cm_embeds = pq_embeds req, cm_editedAt = None, cm_originInstanceId = None\<rparr>"

definition thread_title :: "string \<Rightarrow> string" where
  "thread_title content =
     (let title = take 120 (takeWhile (\<lambda>c. c \<noteq> CHR 0x0A) (trim content))
      in if title = [] then ''Untitled thread'' else title)"

text \<open>Mentions are those of the text as it was sent; their rows draw the next ULIDs.\<close>

definition write_mentions :: "ident \<Rightarrow> ident \<Rightarrow> ident \<Rightarrow> ident \<Rightarrow> string \<Rightarrow> chat_world \<Rightarrow> recipients \<times> chat_world" where
  "write_mentions serverId channelId userId messageId content w =
     (let parsed = parseMentions content
      in if parsed = [] then ([], w)
         else
           let rs = resolveMentionRecipients (cw_db w) parsed serverId userId; s = cw_services w
           in (rs, w\<lparr>cw_mentions := writeMentionRecords (\<lambda>i. sw_ulids s (sw_next s + i)) rs messageId (Some channelId) None (cw_mentions w),
                    cw_services := s\<lparr>sw_next := sw_next s + length rs\<rparr>\<rparr>))"

definition seed_thread :: "millis \<Rightarrow> ident \<Rightarrow> ident \<Rightarrow> ident \<Rightarrow> post_request \<Rightarrow> chat_world \<Rightarrow> chat_world" where
  "seed_thread now channelId userId messageId req w =
     (if chm_forum (cw_channelMeta w channelId) \<and> pq_replyTo req = None then
        let (i, w) = chat_ulid w
        in w\<lparr>cw_threads := cw_threads w @ [\<lparr>thr_id = i, thr_channelId = channelId, thr_rootMessageId = messageId,
               thr_title = thread_title (pq_content req), thr_createdBy = userId, thr_lastActivityAt = now\<rparr>]\<rparr>
      else w)"

definition nonce_taken :: "ident \<Rightarrow> string option \<Rightarrow> chat_world \<Rightarrow> bool" where
  "nonce_taken channelId nonce w \<longleftrightarrow> nonce \<noteq> None \<and> list_ex (\<lambda>m. msg_channelId m = Some channelId \<and> cm_nonce m = nonce) (cw_messages w)"

definition post_commit ::
  "chat_env \<Rightarrow> millis \<Rightarrow> ident \<Rightarrow> ident \<Rightarrow> ident \<Rightarrow> ident option \<Rightarrow> post_request \<Rightarrow> chat_world \<Rightarrow> (chat_message_row \<times> recipients) chat_result" where
  "post_commit e now serverId channelId userId from req w =
     (let (messageId, w) = chat_ulid w; row = chat_row e now messageId serverId channelId userId from req
      in if find_chat w messageId \<noteq> None \<or> nonce_taken channelId (pq_nonce req) w \<or> find_channel (cw_db w) channelId = None
         then (Inl DmDatabase, w)
         else
           let w' = w\<lparr>cw_messages := cw_messages w @ [row],
                     cw_attachments := update_where (\<lambda>a. att_id a \<in> set (pq_attachmentIds req)) (\<lambda>a. a\<lparr>att_messageId := Some messageId\<rparr>)
                       (cw_attachments w)\<rparr>;
               (rs, w') = write_mentions serverId channelId userId messageId (pq_content req) w'
           in (Inr (row, rs), seed_thread now channelId userId messageId req w'))"

section \<open>After the transaction\<close>

definition linked :: "chat_env \<Rightarrow> bool" where   \<comment> \<open>\<open>deps.queues && deps.selfHost\<close>\<close>
  "linked e \<longleftrightarrow> ce_queues e \<and> fe_selfHost (ce_fan e) \<noteq> []"

definition chat_queue :: "fan_error + fan_state \<Rightarrow> chat_world \<Rightarrow> chat_world" where   \<comment> \<open>a failure is logged\<close>
  "chat_queue r w = (case r of Inl _ \<Rightarrow> w | Inr q \<Rightarrow> w\<lparr>cw_queue := q\<rparr>)"

text \<open>The effective federation of a channel, with the place its events are fanned out from.\<close>

definition federated_place :: "chat_world \<Rightarrow> ident \<Rightarrow> ident \<Rightarrow> place option" where
  "federated_place w serverId channelId =
     (case find_channel (cw_db w) channelId of None \<Rightarrow> None | Some c \<Rightarrow>
      if computeEffectiveFederation (case find_server (cw_db w) (chn_serverId c) of None \<Rightarrow> False | Some s \<Rightarrow> srv_federationEnabled s)
           (chn_federationMode c)
      then Some \<lparr>pl_serverId = serverId, pl_originInstanceId = chm_originInstanceId (cw_channelMeta w channelId)\<rparr> else None)"

definition username_of :: "chat_world \<Rightarrow> ident \<Rightarrow> string" where
  "username_of w userId = get_or [] (map_option usr_username (find_user (cw_db w) userId))"

definition tell_created :: "chat_env \<Rightarrow> ident \<Rightarrow> ident \<Rightarrow> chat_message_row \<Rightarrow> chat_world \<Rightarrow> chat_world" where
  "tell_created e serverId channelId row w =
     (if linked e then
        (case federated_place w serverId channelId of None \<Rightarrow> w | Some pl \<Rightarrow>
         chat_queue (fanOutMessageCreate (ce_fan e) (cw_db w) pl channelId (msg_id row) (msg_authorId row) (username_of w (msg_authorId row))
           (msg_content row) (msg_createdAt row) (cm_replyTo row) (cw_queue w)) w)
      else w)"

definition channel_event :: "string \<Rightarrow> ident option \<Rightarrow> ident option \<Rightarrow> event_data \<Rightarrow> gateway_event" where
  "channel_event t serverId channelId d = (event_for t d)\<lparr>ge_serverId := serverId, ge_channelId := channelId\<rparr>"

definition after_post :: "chat_env \<Rightarrow> ident \<Rightarrow> ident \<Rightarrow> chat_message_row \<Rightarrow> recipients \<Rightarrow> chat_world \<Rightarrow> chat_world" where
  "after_post e serverId channelId row rs w =
     (let w = chat_publish (channel_event ''MESSAGE_CREATE'' (Some serverId) (Some channelId) (OtherData (msg_content row))) w;
          w = tell_created e serverId channelId row w;
          w = w\<lparr>cw_previews := cw_previews w @ [(msg_id row, Some channelId, msg_content row)],
                cw_lookups := cw_lookups w @ resolveQualifiedMentionsAsync (msg_content row) (ce_profiles e)\<rparr>
      in fold (\<lambda>(u, k). chat_publish ((event_for ''MENTION_CREATE'' (OtherData (msg_id row)))\<lparr>ge_userId := Some u\<rparr>)) rs w)"

definition post_message :: "chat_env \<Rightarrow> millis \<Rightarrow> ident \<Rightarrow> ident \<Rightarrow> post_request \<Rightarrow> chat_world \<Rightarrow> chat_message_row chat_result" where
  "post_message e now channelId userId req w =
     (case post_check e now channelId userId req w of
        (Inl x, w) \<Rightarrow> (Inl x, w)
      | (Inr (Inl m), w) \<Rightarrow> (Inr m, w)
      | (Inr (Inr (serverId, from)), w) \<Rightarrow>
          (case post_commit e now serverId channelId userId from req w of
             (Inl x, w) \<Rightarrow> (Inl x, w)
           | (Inr (row, rs), w) \<Rightarrow> (Inr row, after_post e serverId channelId row rs w)))"

end
