(* ===== verification/MessageEdits.thy ===== *)
theory MessageEdits
  imports ChannelMessages
begin

text \<open>
  Editing and deleting messages (the rest of apps/api/src/routes/messages.ts) and reactions
  (apps/api/src/routes/reactions.ts), of channels and of conversations, with the home of the other member of a
  federated conversation (services/federation-dm.ts). The rate limit of the reaction route is the framework's.
\<close>

section \<open>Where to tell\<close>

definition resolveDmFanOutTarget :: "db \<Rightarrow> ident \<Rightarrow> ident \<Rightarrow> ident option" where
  "resolveDmFanOutTarget d dmChannelId selfUserId =
     (case find_dm d dmChannelId of None \<Rightarrow> None | Some channel \<Rightarrow>
      if dmc_kind channel \<noteq> Direct then None
      else case List.find (\<lambda>m. dmm_userId m \<noteq> selfUserId) (dm_members_of d dmChannelId) of None \<Rightarrow> None | Some other \<Rightarrow>
           (case Option.bind (find_user d (dmm_userId other)) usr_remoteInstanceId of
              None \<Rightarrow> None
            | Some peer \<Rightarrow> if peer = [] then None else Some peer))"

text \<open>The gate of every fan-out of a conversation, and the peer.\<close>

definition dm_peer :: "chat_env \<Rightarrow> chat_message_row \<Rightarrow> ident \<Rightarrow> chat_world \<Rightarrow> (ident \<times> ident) option" where
  "dm_peer e m userId w =
     (case cm_dmChannelId m of None \<Rightarrow> None | Some dm \<Rightarrow>
      if \<not> linked e \<or> fe_enabled (ce_fan e) = Some False \<or> fe_dmsEnabled (ce_fan e) = Some False then None
      else map_option (\<lambda>p. (dm, p)) (resolveDmFanOutTarget (cw_db w) dm userId))"

text \<open>The gate of every fan-out of a channel: a message of this instance in a channel that is federated.\<close>

definition channel_place :: "chat_env \<Rightarrow> chat_message_row \<Rightarrow> chat_world \<Rightarrow> place option" where
  "channel_place e m w =
     (case (msg_serverId m, msg_channelId m) of
        (Some s, Some c) \<Rightarrow> if linked e \<and> cm_dmChannelId m = None \<and> cm_originInstanceId m = None then federated_place w s c else None
      | _ \<Rightarrow> None)"

section \<open>Editing\<close>

definition update_chat :: "ident \<Rightarrow> (chat_message_row \<Rightarrow> chat_message_row) \<Rightarrow> chat_world \<Rightarrow> chat_world" where
  "update_chat i f w = w\<lparr>cw_messages := update_where (\<lambda>m. msg_id m = i) f (cw_messages w)\<rparr>"

definition keep_chat_edit :: "ident \<Rightarrow> chat_message_row \<Rightarrow> string \<Rightarrow> chat_world \<Rightarrow> chat_world" where
  "keep_chat_edit userId m content w =
     (if msg_content m = content then w
      else let (i, w) = chat_ulid w
           in w\<lparr>cw_edits := cw_edits w @ [\<lparr>edt_id = i, edt_messageId = msg_id m, edt_content = msg_content m, edt_editedBy = userId\<rparr>]\<rparr>)"

definition edit_check :: "chat_env \<Rightarrow> ident \<Rightarrow> ident \<Rightarrow> string \<Rightarrow> chat_world \<Rightarrow> tavern_error + chat_message_row" where
  "edit_check e userId messageId content w =
     (case find_chat w messageId of None \<Rightarrow> Inl (notFound (Some ''Message not found'')) | Some m \<Rightarrow>
      if msg_deletedAt m \<noteq> None then Inl (notFound (Some ''Message not found''))
      else if msg_authorId m \<noteq> userId then Inl (forbidden (Some ''Only the author can edit a message''))
      else case (msg_serverId m, msg_channelId m) of
        (Some s, Some c) \<Rightarrow>
          (case getChannelPermissions (cw_db w) c userId of
             None \<Rightarrow> Inl (notFound (Some ''Message not found''))
           | Some (perms, _) \<Rightarrow> bind_result (mention_gate s perms (ce_sanitize e content) w) (\<lambda>_. Inr m))
      | _ \<Rightarrow> Inr m)"

definition chat_event_of :: "string \<Rightarrow> chat_message_row \<Rightarrow> event_data \<Rightarrow> gateway_event" where
  "chat_event_of t m d =
     (case cm_dmChannelId m of
        Some dm \<Rightarrow> (event_for (''DM_'' @ t) d)\<lparr>ge_dmChannelId := Some dm\<rparr>
      | None \<Rightarrow> channel_event t (msg_serverId m) (msg_channelId m) d)"

definition tell_edited :: "chat_env \<Rightarrow> millis \<Rightarrow> ident \<Rightarrow> chat_message_row \<Rightarrow> chat_world \<Rightarrow> chat_world" where
  "tell_edited e now userId m w =
     (let name = username_of w (msg_authorId m);
          w = (case dm_peer e m userId w of None \<Rightarrow> w | Some (dm, peer) \<Rightarrow>
                 chat_queue (fanOutDmMessageUpdate (ce_fan e) (cw_db w) dm (msg_id m) (msg_authorId m) name (msg_content m) now peer (cw_queue w)) w)
      in case channel_place e m w of None \<Rightarrow> w | Some pl \<Rightarrow>
           chat_queue (fanOutMessageUpdate (ce_fan e) (cw_db w) pl (msg_id m) (msg_authorId m) name (msg_content m) now (cw_queue w)) w)"

definition edited_row :: "chat_env \<Rightarrow> millis \<Rightarrow> string \<Rightarrow> chat_message_row \<Rightarrow> chat_message_row" where
  "edited_row e now content m = m\<lparr>msg_content := ce_sanitize e content, cm_editedAt := Some now\<rparr>"

definition patch_chat :: "chat_env \<Rightarrow> millis \<Rightarrow> ident \<Rightarrow> ident \<Rightarrow> string \<Rightarrow> chat_world \<Rightarrow> (chat_message_row \<times> thread_summary option) chat_result" where
  "patch_chat e now userId messageId content w =
     (case edit_check e userId messageId content w of
        Inl x \<Rightarrow> (Inl (DmTavern x), w)
      | Inr m \<Rightarrow>
          let m' = edited_row e now content m;
              w = update_chat messageId (edited_row e now content) (keep_chat_edit userId m (ce_sanitize e content) w);
              summary = (if cm_isThreadRoot m then loadThreadSummaryForRootId w messageId else None);
              w = chat_publish (chat_event_of ''MESSAGE_UPDATE'' m (OtherData (msg_content m'))) w
          in (Inr (m', summary), tell_edited e now userId m' w))"

section \<open>Deleting\<close>

definition delete_check :: "ident \<Rightarrow> ident \<Rightarrow> chat_world \<Rightarrow> tavern_error + chat_message_row" where
  "delete_check userId messageId w =
     (case find_chat w messageId of None \<Rightarrow> Inl (notFound (Some ''Message not found'')) | Some m \<Rightarrow>
      if msg_deletedAt m \<noteq> None then Inl (notFound (Some ''Message not found''))
      else if msg_authorId m = userId then Inr m
      else if cm_dmChannelId m \<noteq> None then Inl (forbidden None)
      else case msg_channelId m of None \<Rightarrow> Inl (notFound (Some ''Message not found'')) | Some c \<Rightarrow>
      case getChannelPermissions (cw_db w) c userId of None \<Rightarrow> Inl (notFound (Some ''Message not found'')) | Some (perms, _) \<Rightarrow>
      if moderates perms then Inr m else Inl (forbidden None))"

definition erase_chat :: "millis \<Rightarrow> ident \<Rightarrow> chat_world \<Rightarrow> chat_world" where
  "erase_chat now i w =
     (update_chat i (\<lambda>m. m\<lparr>msg_deletedAt := Some now, msg_content := []\<rparr>) w)
       \<lparr>cw_reactions := filter (\<lambda>r. rct_messageId r \<noteq> i) (cw_reactions w),
        cw_mentions := (cw_mentions w)\<lparr>mt_mentions := filter (\<lambda>n. mn_messageId n \<noteq> i) (mt_mentions (cw_mentions w))\<rparr>,
        cw_pins := filter (\<lambda>p. p \<noteq> i) (cw_pins w)\<rparr>"

definition audit_deletion :: "millis \<Rightarrow> ident \<Rightarrow> chat_message_row \<Rightarrow> chat_world \<Rightarrow> chat_world" where
  "audit_deletion now userId m w =
     (if msg_authorId m \<noteq> userId \<and> msg_serverId m \<noteq> None
      then chat_audit now \<lparr>ai_serverId = msg_serverId m, ai_actorId = Some userId, ai_action = ''message.deleted'', ai_targetType = Some ''message'',
             ai_targetId = Some (msg_id m), ai_metadata = None\<rparr> w
      else w)"

definition tell_deleted :: "chat_env \<Rightarrow> millis \<Rightarrow> ident \<Rightarrow> chat_message_row \<Rightarrow> chat_world \<Rightarrow> chat_world" where
  "tell_deleted e now userId m w =
     (let name = username_of w (msg_authorId m);
          w = (case dm_peer e m userId w of None \<Rightarrow> w | Some (dm, peer) \<Rightarrow>
                 chat_queue (fanOutDmMessageDelete (ce_fan e) (cw_db w) dm (msg_id m) (msg_authorId m) name now peer (cw_queue w)) w)
      in if msg_authorId m \<noteq> userId then w
         else case channel_place e m w of None \<Rightarrow> w | Some pl \<Rightarrow>
           chat_queue (fanOutMessageDelete (ce_fan e) (cw_db w) pl (msg_id m) (msg_authorId m) name now (cw_queue w)) w)"

definition delete_message :: "chat_env \<Rightarrow> millis \<Rightarrow> ident \<Rightarrow> ident \<Rightarrow> chat_world \<Rightarrow> ident chat_result" where
  "delete_message e now userId messageId w =
     (case delete_check userId messageId w of
        Inl x \<Rightarrow> (Inl (DmTavern x), w)
      | Inr m \<Rightarrow>
          (Inr messageId,
           tell_deleted e now userId m
             (chat_publish (chat_event_of ''MESSAGE_DELETE'' m (OtherData messageId))
               (audit_deletion now userId m (erase_chat now messageId w)))))"

section \<open>Reactions\<close>

definition authorizeReaction :: "chat_message_row \<Rightarrow> ident \<Rightarrow> chat_world \<Rightarrow> dm_error + unit" where
  "authorizeReaction m userId w =
     (case cm_dmChannelId m of
        Some dm \<Rightarrow> bind_result (requireDmChannelMembership (cw_db w) dm userId) (\<lambda>_. Inr ())
      | None \<Rightarrow>
          case msg_channelId m of
            None \<Rightarrow> Inl (DmTavern (notFound None))
          | Some c \<Rightarrow> bind_result (as_dm (requireChannelPermission (cw_db w) c userId (Permission ADD_REACTIONS))) (\<lambda>_. Inr ()))"

definition reactionEvent :: "string \<Rightarrow> chat_message_row \<Rightarrow> string \<Rightarrow> gateway_event" where
  "reactionEvent t m emoji =
     (case cm_dmChannelId m of
        Some dm \<Rightarrow> (event_for t (OtherData emoji))\<lparr>ge_dmChannelId := Some dm\<rparr>
      | None \<Rightarrow> channel_event t (msg_serverId m) (msg_channelId m) (OtherData emoji))"

definition custom_emoji_gate :: "chat_message_row \<Rightarrow> string \<Rightarrow> chat_world \<Rightarrow> dm_error + unit" where
  "custom_emoji_gate m emoji w =
     (if take 7 emoji = ''custom:'' \<and> (msg_serverId m = None \<or> map_of (cw_customEmoji w) (drop 7 emoji) \<noteq> msg_serverId m)
      then Inl (DmTavern (validation (Some ''Custom emoji unavailable in this channel'') None)) else Inr ())"

text \<open>What a reaction is told of: the fan-out to the peer of a conversation, or to the peers of the channel.\<close>

definition tell_reaction ::
  "chat_env \<Rightarrow> (fan_env \<Rightarrow> db \<Rightarrow> ident \<Rightarrow> string \<Rightarrow> ident \<Rightarrow> string \<Rightarrow> string \<Rightarrow> ident \<Rightarrow> fan_state \<Rightarrow> fan_error + fan_state) \<Rightarrow>
   (fan_env \<Rightarrow> db \<Rightarrow> place \<Rightarrow> string \<Rightarrow> ident \<Rightarrow> string \<Rightarrow> string \<Rightarrow> fan_state \<Rightarrow> fan_error + fan_state) \<Rightarrow>
   ident \<Rightarrow> chat_message_row \<Rightarrow> string \<Rightarrow> chat_world \<Rightarrow> chat_world" where
  "tell_reaction e dm_fan channel_fan userId m emoji w =
     (case find_user (cw_db w) userId of None \<Rightarrow> w | Some reactor \<Rightarrow>
      let w = (case dm_peer e m userId w of None \<Rightarrow> w | Some (dm, peer) \<Rightarrow>
                 chat_queue (dm_fan (ce_fan e) (cw_db w) dm (msg_id m) userId (usr_username reactor) emoji peer (cw_queue w)) w)
      in case channel_place e m w of None \<Rightarrow> w | Some pl \<Rightarrow>
           chat_queue (channel_fan (ce_fan e) (cw_db w) pl (msg_id m) userId (usr_username reactor) emoji (cw_queue w)) w)"

definition put_reaction :: "chat_env \<Rightarrow> ident \<Rightarrow> ident \<Rightarrow> string \<Rightarrow> chat_world \<Rightarrow> unit chat_result" where
  "put_reaction e userId messageId emoji w =
     (case find_chat w messageId of None \<Rightarrow> (Inl (DmTavern (notFound None)), w) | Some m \<Rightarrow>
      if msg_deletedAt m \<noteq> None then (Inl (DmTavern (notFound None)), w)
      else case bind_result (authorizeReaction m userId w) (\<lambda>_. custom_emoji_gate m emoji w) of
        Inl x \<Rightarrow> (Inl x, w)
      | Inr _ \<Rightarrow>
          let r = \<lparr>rct_messageId = messageId, rct_userId = userId, rct_emoji = emoji\<rparr>;
              w = (if r \<in> set (cw_reactions w) then w else w\<lparr>cw_reactions := cw_reactions w @ [r]\<rparr>)
          in (Inr (), tell_reaction e fanOutDmReactionAdd fanOutReactionAdd userId m emoji (chat_publish (reactionEvent ''REACTION_ADD'' m emoji) w)))"

definition delete_reaction :: "chat_env \<Rightarrow> ident \<Rightarrow> ident \<Rightarrow> string \<Rightarrow> chat_world \<Rightarrow> unit chat_result" where
  "delete_reaction e userId messageId emoji w =
     (case find_chat w messageId of None \<Rightarrow> (Inl (DmTavern (notFound None)), w) | Some m \<Rightarrow>
      if msg_deletedAt m \<noteq> None then (Inl (DmTavern (notFound None)), w)
      else
        let r = \<lparr>rct_messageId = messageId, rct_userId = userId, rct_emoji = emoji\<rparr>;
            w = w\<lparr>cw_reactions := filter (\<lambda>x. x \<noteq> r) (cw_reactions w)\<rparr>
        in (Inr (), tell_reaction e fanOutDmReactionRemove fanOutReactionRemove userId m emoji
              (chat_publish (reactionEvent ''REACTION_REMOVE'' m emoji) w)))"

text \<open>The eight emoji used most in the last thirty days, by how often; equals in the order of the table.\<close>

definition quick_reactions :: "millis \<Rightarrow> ident \<Rightarrow> ident \<Rightarrow> chat_world \<Rightarrow> tavern_error + (string \<times> nat) list" where
  "quick_reactions now serverId userId w =
     (case requireServerPermission (cw_db w) serverId userId (Permission VIEW_CHANNEL) of
        Inl x \<Rightarrow> Inl x
      | Inr _ \<Rightarrow>
          let recent = filter (\<lambda>r. case find_chat w (rct_messageId r) of None \<Rightarrow> False
                 | Some m \<Rightarrow> msg_serverId m = Some serverId \<and> msg_createdAt m \<ge> now - 30 * 24 * 60 * 60 * 1000) (cw_reactions w);
              counts = map (\<lambda>x. (x, length (filter (\<lambda>r. rct_emoji r = x) recent))) (first_seen (map rct_emoji recent))
          in Inr (take 8 (sort_key (\<lambda>(_, n). - int n) counts)))"

end
