(* ===== verification/MessageFacts.thy ===== *)
theory MessageFacts
  imports MessageEdits Gateway
begin

text \<open>
  What the message routes guarantee, and which checks one route makes that another forgets.
\<close>

section \<open>Pages\<close>

lemma take_rev_split:
  assumes "sorted_wrt R xs" "m \<in> set xs" "m \<notin> set (take n xs)" "x \<in> set (take n xs)"
  shows "R x m"
proof -
  have "m \<in> set (drop n xs)" using assms(2,3) by (metis Un_iff append_take_drop_id set_append)
  moreover have "sorted_wrt R (take n xs @ drop n xs)" using assms(1) by simp
  ultimately show ?thesis using assms(4) by (simp only: sorted_wrt_append)
qed

lemma sorted_ids:
  assumes "distinct (map msg_id ms)"
  shows "sorted_wrt (\<lambda>a b. msg_id a < msg_id b) (sort_key msg_id ms)" "set (sort_key msg_id ms) = set ms"
proof -
  have d: "distinct (map msg_id (sort_key msg_id ms))"
    using assms by (simp add: distinct_map)
  have "sorted_wrt (\<le>) (map msg_id (sort_key msg_id ms))" by simp
  then have "sorted_wrt (<) (map msg_id (sort_key msg_id ms))"
    using d by (metis strict_sorted_iff)
  then show "sorted_wrt (\<lambda>a b. msg_id a < msg_id b) (sort_key msg_id ms)" by (simp add: sorted_wrt_map)
qed simp

text \<open>
  C12. A page is a gapless slice. The messages of a page are undeleted messages of the channel outside threads, newest
  first, at most \<open>limit\<close>; and every other such message the cursor selects lies beyond the far end of the page: it is newer when
  only \<open>after\<close> is given, else older. Given both cursors, \<open>before\<close> selects nothing: the page is the newest after \<open>after\<close>.
\<close>

theorem page_is_a_slice:
  assumes "list_messages channelId userId before after limit w = Inr page" and "distinct (map msg_id (cw_messages w))"
  shows "let ms = map fst page; fits = (\<lambda>m. m \<in> set (cw_messages w) \<and> in_page channelId before after m)
    in sorted_wrt (\<lambda>x y. msg_id y < msg_id x) ms \<and> length ms \<le> limit \<and> (\<forall>m \<in> set ms. fits m) \<and>
       (\<forall>m x. fits m \<and> m \<notin> set ms \<and> x \<in> set ms \<longrightarrow>
          (if after \<noteq> None \<and> before = None then msg_id x < msg_id m else msg_id m < msg_id x)) \<and>
       (length ms < limit \<longrightarrow> (\<forall>m. fits m \<longrightarrow> m \<in> set ms))"
proof -
  let ?found = "sort_key msg_id (filter (in_page channelId before after) (cw_messages w))"
  let ?asc = "after \<noteq> None \<and> before = None"
  have d: "distinct (map msg_id (filter (in_page channelId before after) (cw_messages w)))"
    using assms(2) by (rule distinct_map_filter)
  note s = sorted_ids(1) [OF d] and st = sorted_ids(2) [OF d]
  have ms: "map fst page = (if ?asc then rev (take limit ?found) else take limit (rev ?found))"
    using assms(1) by (auto simp: list_messages_def Let_def comp_def split: sum.splits)
  have r: "sorted_wrt (\<lambda>x y. msg_id y < msg_id x) (rev ?found)" using s by (simp only: sorted_wrt_rev)
  have dd: "take limit (rev ?found) = rev (drop (length ?found - limit) ?found)" by (simp add: take_rev)
  have set_fits: "set ?found = {m. m \<in> set (cw_messages w) \<and> in_page channelId before after m}" using st by auto
  have 1: "sorted_wrt (\<lambda>x y. msg_id y < msg_id x) (map fst page)"
    using s r by (auto simp: ms sorted_wrt_rev intro: sorted_wrt_take)
  have 2: "length (map fst page) \<le> limit" by (simp add: ms)
  have 3: "set (map fst page) \<subseteq> set ?found"
    by (auto simp: ms dest: in_set_takeD)
  have 4: "if ?asc then msg_id x < msg_id m else msg_id m < msg_id x"
    if "m \<in> set ?found" "m \<notin> set (map fst page)" "x \<in> set (map fst page)" for m x
    using that take_rev_split [OF s, of m limit x] take_rev_split [OF r, of m limit x] by (auto simp: ms)
  have 5: "set ?found \<subseteq> set (map fst page)" if "length (map fst page) < limit"
    using that by (auto simp: ms split: if_splits)
  show ?thesis unfolding Let_def using 1 2 3 4 5 set_fits by blast
qed

section \<open>Hidden channels\<close>


section \<open>Edits\<close>

text \<open>The state without the restrictions on posting: locks, time-outs, rules of conduct, automatic moderation, channel settings.\<close>

definition without_restrictions :: "chat_world \<Rightarrow> chat_world" where
  "without_restrictions w = w\<lparr>cw_postingLocks := (\<lambda>_. None), cw_timeouts := (\<lambda>_. None), cw_onboarding := (\<lambda>_. None), cw_rules := [],
     cw_channelMeta := (\<lambda>c. (cw_channelMeta w c)\<lparr>chm_slowmodeSeconds := 0, chm_postingScope := OpenScope\<rparr>)\<rparr>"

lemma without_restrictions_fields [simp]:
  "cw_services (without_restrictions w) = cw_services w" "cw_messages (without_restrictions w) = cw_messages w" "cw_mentionable (without_restrictions w) = cw_mentionable w"
  "cw_edits (without_restrictions w) = cw_edits w" "cw_threads (without_restrictions w) = cw_threads w" "cw_db (without_restrictions w) = cw_db w"
  "cw_queue (without_restrictions w) = cw_queue w" "chm_originInstanceId (cw_channelMeta (without_restrictions w) c) = chm_originInstanceId (cw_channelMeta w c)"
  by (simp_all add: without_restrictions_def cw_db_def)

lemma mention_gate_unrestricted [simp]: "mention_gate s p c (without_restrictions w) = mention_gate s p c w"
  unfolding mention_gate_def without_restrictions_fields ..

lemma edit_check_unrestricted [simp]: "edit_check e u i c (without_restrictions w) = edit_check e u i c w"
  unfolding edit_check_def find_chat_def without_restrictions_fields mention_gate_unrestricted ..

text \<open>
  C14. An edit is not moderated. Whether a message may be edited, and what its text becomes, is the same whatever automatic moderation,
  time-outs, posting locks, rules of the tavern and scope of the channel say: a member who may not post puts
  new words into a message of his own.
\<close>

theorem edits_are_not_moderated:
  "map_sum id fst (fst (patch_chat e now userId messageId content (without_restrictions w))) =
     map_sum id fst (fst (patch_chat e now userId messageId content w)) \<and>
   (case edit_check e userId messageId content w of
      Inl x \<Rightarrow> patch_chat e now userId messageId content w = (Inl (DmTavern x), w)
    | Inr m \<Rightarrow> fst (patch_chat e now userId messageId content w) =
        Inr (edited_row e now content m, if cm_isThreadRoot m then loadThreadSummaryForRootId (update_chat messageId (edited_row e now content) w) messageId else None))"
proof -
  have keep: "cw_threads (keep_chat_edit u m c w) = cw_threads w" "cw_messages (keep_chat_edit u m c w) = cw_messages w" for u m c w
    by (simp_all add: keep_chat_edit_def chat_ulid_def new_ulid_def Let_def)
  have sum: "loadThreadSummaryForRootId (update_chat i f (keep_chat_edit u m c w)) i' = loadThreadSummaryForRootId (update_chat i f w) i'" for i f u m c i' w
    unfolding loadThreadSummaryForRootId_def by (simp add: update_chat_def keep)
  show ?thesis
    by (auto simp: patch_chat_def Let_def sum split: sum.split)
qed

section \<open>Reactions\<close>

lemma queue_keeps [simp]: "cw_services (chat_queue r w) = cw_services w" "cw_messages (chat_queue r w) = cw_messages w"
  "cw_reactions (chat_queue r w) = cw_reactions w" "cw_mentions (chat_queue r w) = cw_mentions w" "cw_pins (chat_queue r w) = cw_pins w"
  by (simp_all add: chat_queue_def split: sum.split)

lemma tell_reaction_keeps [simp]:
  "cw_services (tell_reaction e f g u m x w) = cw_services w" "cw_messages (tell_reaction e f g u m x w) = cw_messages w"
  "cw_reactions (tell_reaction e f g u m x w) = cw_reactions w" "cw_mentions (tell_reaction e f g u m x w) = cw_mentions w"
  "cw_pins (tell_reaction e f g u m x w) = cw_pins w"
  by (simp_all add: tell_reaction_def Let_def split: option.split prod.split)

text \<open>
  C13. Taking a reaction back needs no right. A user who may not react to a message, an outsider to its channel or conversation,
  is refused when adding one, and is served when removing one: everybody there is sent the event.
\<close>

theorem anyone_removes_reactions:
  assumes "find_chat w messageId = Some m" and "msg_deletedAt m = None" and "authorizeReaction m userId w = Inl x"
  shows "put_reaction e userId messageId emoji w = (Inl x, w) \<and>
    (\<exists>w'. delete_reaction e userId messageId emoji w = (Inr (), w') \<and>
       sw_published (cw_services w') = sw_published (cw_services w) @ [reactionEvent ''REACTION_REMOVE'' m emoji])"
  using assms by (simp add: put_reaction_def delete_reaction_def Let_def chat_publish_def publish_event_def)

end
