(* ===== verification/MessageRuns.thy ===== *)
theory MessageRuns
  imports MessageFacts
begin

text \<open>
  What sending guarantees over the whole route and over runs of all message operations: which messages are accepted, what a
  retry gets, and that deleted messages stay empty.
\<close>

section \<open>What the parts change\<close>

text \<open>An audit entry changes the audit table, and adds at most one message, of the system, with a new ULID.\<close>

definition noted :: "chat_world \<Rightarrow> chat_world \<Rightarrow> chat_message_row list \<Rightarrow> bool" where
  "noted w w' ns \<longleftrightarrow> cw_messages w' = cw_messages w @ ns \<and> (\<exists>a. cw_db w' = (cw_db w)\<lparr>db_audit := a\<rparr>) \<and>
     sw_ulids (cw_services w') = sw_ulids (cw_services w) \<and> sw_next (cw_services w) \<le> sw_next (cw_services w') \<and>
     cw_reactions w' = cw_reactions w \<and> cw_mentions w' = cw_mentions w \<and> cw_pins w' = cw_pins w \<and> cw_channelMeta w' = cw_channelMeta w \<and>
     cw_postingLocks w' = cw_postingLocks w \<and> cw_timeouts w' = cw_timeouts w \<and> cw_onboarding w' = cw_onboarding w \<and>
     cw_mentionable w' = cw_mentionable w \<and> cw_attachments w' = cw_attachments w \<and>
     (ns = [] \<or> (\<exists>n k. ns = [n] \<and> msg_system n \<and> msg_deletedAt n = None \<and> msg_id n = sw_ulids (cw_services w) k \<and>
        sw_next (cw_services w) \<le> k \<and> k < sw_next (cw_services w')))"

lemma db_trivial_audit [simp]: "(d :: db)\<lparr>db_audit := db_audit d\<rparr> = d"
  by simp

lemma noted_refl: "noted w (w\<lparr>cw_rates := st\<rparr>) []"
  by (auto simp: noted_def cw_db_def intro: exI [of _ "db_audit (sw_db (cw_services w))"])

lemma chat_of_base_fields [simp]:
  "msg_id (chat_of_base m) = msg_id m" "msg_system (chat_of_base m) = msg_system m" "msg_deletedAt (chat_of_base m) = msg_deletedAt m"
  "msg_authorId (chat_of_base m) = msg_authorId m" "msg_channelId (chat_of_base m) = msg_channelId m"
  by (simp_all add: chat_of_base_def message_row.defs)

lemma mirror_shape:
  obtains ns where "sw_db (postModLogMirror now i v) = (sw_db v)\<lparr>db_messages := db_messages (sw_db v) @ ns\<rparr>"
    "sw_ulids (postModLogMirror now i v) = sw_ulids v" "sw_next v \<le> sw_next (postModLogMirror now i v)"
    "ns = [] \<or> (\<exists>n. ns = [n] \<and> msg_system n \<and> msg_deletedAt n = None \<and> msg_id n = sw_ulids v (sw_next v) \<and>
       sw_next v < sw_next (postModLogMirror now i v))"
proof (cases "Option.bind (ai_serverId i) (\<lambda>s. Option.bind (find_server (sw_db v) s) srv_modLogChannelId)")
  case None
  then have "postModLogMirror now i v = v" by (auto simp: postModLogMirror_def bind_eq_None_conv split: option.splits)
  then show ?thesis using that [of "[]"] by simp
next
  case (Some c)
  then obtain s v' where "ai_serverId i = Some s" "find_server (sw_db v) s = Some v'" "srv_modLogChannelId v' = Some c"
    by (auto simp: bind_eq_Some_conv)
  then show ?thesis
    by (intro that [of "drop (length (db_messages (sw_db v))) (db_messages (sw_db (postModLogMirror now i v)))"])
       (simp_all add: postModLogMirror_def new_ulid_def Let_def publish_event_def)
qed

lemma audit_shape:
  assumes "db_messages (sw_db s) = []" "s' = writeAuditEntry now i s"
  obtains a ns where "sw_db s' = (sw_db s)\<lparr>db_audit := a, db_messages := ns\<rparr>" "sw_ulids s' = sw_ulids s" "sw_next s < sw_next s'"
    "ns = [] \<or> (\<exists>n. ns = [n] \<and> msg_system n \<and> msg_deletedAt n = None \<and> msg_id n = sw_ulids s (sw_next s + 1) \<and> sw_next s + 1 < sw_next s')"
proof -
  let ?e = "\<lparr>aud_id = sw_ulids s (sw_next s), aud_serverId = ai_serverId i, aud_actorId = ai_actorId i, aud_action = ai_action i,
     aud_targetType = ai_targetType i, aud_targetId = ai_targetId i, aud_metadata = ai_metadata i\<rparr>"
  let ?v = "s\<lparr>sw_next := sw_next s + 1, sw_db := (sw_db s)\<lparr>db_audit := db_audit (sw_db s) @ [?e]\<rparr>\<rparr>"
  have s': "s' = (if get_or [] (ai_serverId i) \<noteq> [] then postModLogMirror now i ?v else ?v)"
    unfolding assms(2) writeAuditEntry_def new_ulid_def by simp
  have v: "sw_db ?v = (sw_db s)\<lparr>db_audit := db_audit (sw_db s) @ [?e], db_messages := []\<rparr>" "sw_ulids ?v = sw_ulids s" "sw_next ?v = sw_next s + 1"
    using assms(1) by simp_all
  show ?thesis
  proof (cases "get_or [] (ai_serverId i) = []")
    case True
    then have "s' = ?v" unfolding s' by simp
    have "sw_db s' = (sw_db s)\<lparr>db_audit := db_audit (sw_db s) @ [?e], db_messages := []\<rparr>" unfolding \<open>s' = ?v\<close> by (rule v(1))
    moreover have "sw_ulids s' = sw_ulids s" "sw_next s < sw_next s'" unfolding \<open>s' = ?v\<close> by simp_all
    ultimately show ?thesis by (intro that [of "[]"]) simp_all
  next
    case False
    then have m: "s' = postModLogMirror now i ?v" unfolding s' by simp
    obtain ns where ns: "sw_db s' = (sw_db ?v)\<lparr>db_messages := db_messages (sw_db ?v) @ ns\<rparr>" "sw_ulids s' = sw_ulids ?v" "sw_next ?v \<le> sw_next s'"
      "ns = [] \<or> (\<exists>n. ns = [n] \<and> msg_system n \<and> msg_deletedAt n = None \<and> msg_id n = sw_ulids ?v (sw_next ?v) \<and> sw_next ?v < sw_next s')"
      unfolding m by (rule mirror_shape)
    have "sw_db s' = (sw_db s)\<lparr>db_audit := db_audit (sw_db s) @ [?e], db_messages := ns\<rparr>" using ns(1) assms(1) by simp
    then show ?thesis using ns(2,3,4) by (intro that [of ns]) auto
  qed
qed

lemma noted_audit: "\<exists>ns. noted w (chat_audit now i (w\<lparr>cw_rates := st\<rparr>)) ns"
proof -
  let ?s = "(cw_services w)\<lparr>sw_db := (cw_db w)\<lparr>db_messages := []\<rparr>\<rparr>"
  let ?s' = "writeAuditEntry now i ?s"
  have "db_messages (sw_db ?s) = []" by simp
  then obtain a ms where a: "sw_db ?s' = (sw_db ?s)\<lparr>db_audit := a, db_messages := ms\<rparr>" "sw_ulids ?s' = sw_ulids ?s" "sw_next ?s < sw_next ?s'"
    "ms = [] \<or> (\<exists>n. ms = [n] \<and> msg_system n \<and> msg_deletedAt n = None \<and> msg_id n = sw_ulids ?s (sw_next ?s + 1) \<and> sw_next ?s + 1 < sw_next ?s')"
    by (rule audit_shape) (rule refl)
  let ?w = "chat_audit now i (w\<lparr>cw_rates := st\<rparr>)"
  have w: "?w = w\<lparr>cw_rates := st, cw_services := ?s'\<lparr>sw_db := (sw_db ?s')\<lparr>db_messages := db_messages (cw_db w)\<rparr>\<rparr>,
      cw_messages := cw_messages w @ map chat_of_base ms\<rparr>"
    using a(1) by (simp add: chat_audit_def Let_def cw_db_def)
  have db: "cw_db ?w = (cw_db w)\<lparr>db_audit := a\<rparr>" using a(1) unfolding w by (simp add: cw_db_def)
  have ns: "map chat_of_base ms = [] \<or> (\<exists>n k. map chat_of_base ms = [n] \<and> msg_system n \<and> msg_deletedAt n = None \<and>
      msg_id n = sw_ulids (cw_services w) k \<and> sw_next (cw_services w) \<le> k \<and> k < sw_next (cw_services ?w))"
    using a(4) unfolding w by (elim disjE exE conjE) (simp, auto intro!: exI [of _ "sw_next (cw_services w) + 1"])
  have "noted w ?w (map chat_of_base ms)"
    unfolding noted_def using db ns a(2,3) by (intro conjI exI [of _ a]) (simp_all add: w)
  then show ?thesis by blast
qed

lemma noted_gate:
  assumes "automod_gate e now s c u p content w = (r, w')"
  shows "\<exists>ns. noted w w' ns"
proof -
  have "noted w w []" using noted_refl [of w "cw_rates w"] by simp
  then show ?thesis
    using assms noted_refl [of w] noted_audit [where w = w and now = now]
    by (auto simp: automod_gate_def Let_def split: if_splits prod.splits option.splits)
qed

lemma noted_audit_deletion: "\<exists>ns. noted w (audit_deletion now u m w) ns"
proof -
  have "noted w w []" using noted_refl [of w "cw_rates w"] by simp
  then show ?thesis using noted_audit [where w = w and now = now and st = "cw_rates w"] by (auto simp: audit_deletion_def)
qed

text \<open>What the gates read is not the audit table.\<close>

lemma finds_audit [simp]:
  "find_user (d\<lparr>db_audit := a\<rparr>) = find_user d" "find_server (d\<lparr>db_audit := a\<rparr>) = find_server d"
  "find_member (d\<lparr>db_audit := a\<rparr>) = find_member d" "find_role (d\<lparr>db_audit := a\<rparr>) = find_role d"
  "find_channel (d\<lparr>db_audit := a\<rparr>) = find_channel d"
  by (simp_all add: fun_eq_iff find_defs)

lemma contexts_audit [simp]:
  "member_roles_of (d\<lparr>db_audit := a\<rparr>) = member_roles_of d" "loadMemberContext (d\<lparr>db_audit := a\<rparr>) = loadMemberContext d"
proof -
  show roles: "member_roles_of (d\<lparr>db_audit := a\<rparr>) = member_roles_of d" by (simp add: fun_eq_iff member_roles_of_def)
  show "loadMemberContext (d\<lparr>db_audit := a\<rparr>) = loadMemberContext d"
    unfolding fun_eq_iff loadMemberContext_def finds_audit roles by simp
qed

lemma gates_audit [simp]:
  "getChannelPermissions (d\<lparr>db_audit := a\<rparr>) = getChannelPermissions d"
  "requireChannelPermission (d\<lparr>db_audit := a\<rparr>) = requireChannelPermission d"
  "assertCanPostUnderVerification now (d\<lparr>db_audit := a\<rparr>) = assertCanPostUnderVerification now d"
proof -
  show perms: "getChannelPermissions (d\<lparr>db_audit := a\<rparr>) = getChannelPermissions d"
    by (simp add: fun_eq_iff getChannelPermissions_def Let_def split: option.split)
  show "requireChannelPermission (d\<lparr>db_audit := a\<rparr>) = requireChannelPermission d"
    unfolding fun_eq_iff requireChannelPermission_def perms by simp
  show "assertCanPostUnderVerification now (d\<lparr>db_audit := a\<rparr>) = assertCanPostUnderVerification now d"
    unfolding fun_eq_iff assertCanPostUnderVerification_def finds_audit by simp
qed

lemma mention_gate_noted: "noted w w' ns \<Longrightarrow> mention_gate s p content w' = mention_gate s p content w"
  by (auto simp: noted_def mention_gate_def Let_def)

lemma member_gates_noted: "noted w w' ns \<Longrightarrow> member_gates now s u p w' = member_gates now s u p w"
  by (auto simp: member_gates_def noted_def Let_def)

section \<open>Accepted messages\<close>

lemma gates_beforeD:
  assumes "gates_before now s c u p req w = Inr (Inr from)"
  shows "member_gates now s u p w = Inr ()" "channel_gates now c u p w = Inr ()" "replayed c u (pq_nonce req) w = Inr None"
    "reply_gate c (pq_replyTo req) w = Inr ()" "forward_gate u (pq_forwardedFrom req) w = Inr from"
  using assms unfolding gates_before_def by (auto simp: bind_result_def split: sum.splits option.splits)

lemma replayedD: "gates_before now s c u p req w = Inr (Inl m) \<Longrightarrow>
    m \<in> set (cw_messages w) \<and> msg_channelId m = Some c \<and> msg_authorId m = u \<and> cm_nonce m = pq_nonce req \<and> msg_deletedAt m = None"
  unfolding gates_before_def replayed_def
  by (auto simp: bind_result_def bind_eq_Some_conv find_Some_iff split: sum.splits option.splits if_splits)

lemma publish_keeps [simp]:
  "cw_messages (chat_publish ev w) = cw_messages w" "cw_reactions (chat_publish ev w) = cw_reactions w" "cw_mentions (chat_publish ev w) = cw_mentions w"
  "cw_pins (chat_publish ev w) = cw_pins w" "sw_ulids (cw_services (chat_publish ev w)) = sw_ulids (cw_services w)"
  "sw_next (cw_services (chat_publish ev w)) = sw_next (cw_services w)" "cw_db (chat_publish ev w) = cw_db w"
  "sw_published (cw_services (chat_publish ev w)) = sw_published (cw_services w) @ [ev]"
  "cw_channelMeta (chat_publish ev w) = cw_channelMeta w" "cw_postingLocks (chat_publish ev w) = cw_postingLocks w"
  "cw_timeouts (chat_publish ev w) = cw_timeouts w" "cw_onboarding (chat_publish ev w) = cw_onboarding w"
  by (simp_all add: chat_publish_def publish_event_def cw_db_def)

text \<open>Parts that only tell others: the tables and the supply of ULIDs stay, events are appended.\<close>

definition tells :: "chat_world \<Rightarrow> chat_world \<Rightarrow> bool" where
  "tells w w' \<longleftrightarrow> cw_messages w' = cw_messages w \<and> cw_reactions w' = cw_reactions w \<and> cw_mentions w' = cw_mentions w \<and> cw_pins w' = cw_pins w \<and>
     sw_ulids (cw_services w') = sw_ulids (cw_services w) \<and> sw_next (cw_services w') = sw_next (cw_services w) \<and> cw_db w' = cw_db w \<and>
     cw_channelMeta w' = cw_channelMeta w \<and> cw_postingLocks w' = cw_postingLocks w \<and> cw_timeouts w' = cw_timeouts w \<and>
     cw_onboarding w' = cw_onboarding w \<and> set (sw_published (cw_services w)) \<subseteq> set (sw_published (cw_services w'))"

lemma tells_refl [simp]: "tells w w" by (simp add: tells_def)

lemma tells_trans: "tells u v \<Longrightarrow> tells v w \<Longrightarrow> tells u w" unfolding tells_def by auto

lemma tells_publish: "tells w (chat_publish ev w)" by (auto simp: tells_def)

lemma tells_queue: "tells w (chat_queue r w)" by (simp add: tells_def chat_queue_def cw_db_def split: sum.split)

lemma tells_mentions: "tells w (fold (\<lambda>(u, k). chat_publish (ev u)) rs w)"
  by (induction rs arbitrary: w) (auto intro: tells_trans tells_publish)

lemma tells_created: "tells w (tell_created e s c row w)"
  by (simp add: tell_created_def tells_queue split: option.split)

lemma tells_edited: "tells w (tell_edited e now u m w)"
  by (auto simp: tell_edited_def Let_def tells_queue intro: tells_trans [OF tells_queue tells_queue] split: option.split)

lemma tells_deleted: "tells w (tell_deleted e now u m w)"
  by (auto simp: tell_deleted_def Let_def tells_queue intro: tells_trans [OF tells_queue tells_queue] split: option.split)

lemma tells_reaction: "tells w (tell_reaction e f g u m x w)"
  by (auto simp: tell_reaction_def Let_def tells_queue intro: tells_trans [OF tells_queue tells_queue] split: option.split)

lemma tells_after:
  "tells w (after_post e s c row rs w)"
  "channel_event ''MESSAGE_CREATE'' (Some s) (Some c) (OtherData (msg_content row)) \<in> set (sw_published (cw_services (after_post e s c row rs w)))"
proof -
  let ?ev = "channel_event ''MESSAGE_CREATE'' (Some s) (Some c) (OtherData (msg_content row))"
  have other: "tells v (v\<lparr>cw_previews := a, cw_lookups := b\<rparr>)" for v a b by (simp add: tells_def cw_db_def)
  have "tells (chat_publish ?ev w) (after_post e s c row rs w)"
    unfolding after_post_def Let_def by (rule tells_trans [OF tells_created tells_trans [OF other tells_mentions]])
  then show "tells w (after_post e s c row rs w)" "?ev \<in> set (sw_published (cw_services (after_post e s c row rs w)))"
    using tells_publish tells_trans by (blast, auto simp: tells_def)
qed

lemma post_checkD:
  assumes "post_check e now c u req w = (r, w1)"
  shows "(case r of
      Inl x \<Rightarrow> \<exists>ns. noted w w1 ns
    | Inr (Inl m) \<Rightarrow> w1 = w \<and> m \<in> set (cw_messages w) \<and> msg_channelId m = Some c \<and> msg_authorId m = u \<and> cm_nonce m = pq_nonce req \<and> msg_deletedAt m = None
    | Inr (Inr (s, src)) \<Rightarrow> \<exists>perms ns. requireChannelPermission (cw_db w) c u (Permission SEND_MESSAGES) = Inr (perms, s) \<and>
        gates_before now s c u perms req w = Inr (Inr src) \<and> automod_gate e now s c u perms (pq_content req) w = (Inr (), w1) \<and>
        noted w w1 ns \<and> gates_after s u perms req w1 = Inr ())"
proof -
  have refl: "\<exists>ns. noted w w ns" using noted_refl [of w "cw_rates w"] by auto
  show ?thesis
  proof (cases "requireChannelPermission (cw_db w) c u (Permission SEND_MESSAGES)")
    case (Inl x)
    then show ?thesis using assms refl by (auto simp: post_check_def)
  next
    case (Inr ps)
    obtain perms s where ps: "ps = (perms, s)" by (cases ps)
    show ?thesis
    proof (cases "gates_before now s c u perms req w")
      case (Inl x)
      then show ?thesis using assms refl Inr ps by (auto simp: post_check_def)
    next
      case b: (Inr y)
      show ?thesis
      proof (cases y)
        case (Inl m)
        then show ?thesis using assms Inr ps b replayedD [of now s c u perms req w m] by (auto simp: post_check_def)
      next
        case y: (Inr src)
        obtain g v where g: "automod_gate e now s c u perms (pq_content req) w = (g, v)" by (cases "automod_gate e now s c u perms (pq_content req) w")
        obtain ns where n: "noted w v ns" using noted_gate [OF g] ..
        show ?thesis
          using assms Inr ps b y g n by (auto simp: post_check_def split: sum.splits)
      qed
    qed
  qed
qed

lemma write_mentions_keeps:
  assumes "write_mentions s c u i content w = (rs, w')"
  shows "cw_messages w' = cw_messages w" "cw_reactions w' = cw_reactions w" "cw_pins w' = cw_pins w" "cw_db w' = cw_db w"
    "sw_ulids (cw_services w') = sw_ulids (cw_services w)" "sw_next (cw_services w) \<le> sw_next (cw_services w')"
    "cw_channelMeta w' = cw_channelMeta w" "cw_postingLocks w' = cw_postingLocks w" "cw_timeouts w' = cw_timeouts w" "cw_onboarding w' = cw_onboarding w"
    "\<forall>n \<in> set (mt_mentions (cw_mentions w')). n \<in> set (mt_mentions (cw_mentions w)) \<or> mn_messageId n = i"
  using assms by (auto simp: write_mentions_def Let_def cw_db_def writeMentionRecords_def split: if_splits prod.splits)

lemma seed_thread_keeps:
  "cw_messages (seed_thread now c u i req w) = cw_messages w" "cw_reactions (seed_thread now c u i req w) = cw_reactions w"
  "cw_pins (seed_thread now c u i req w) = cw_pins w" "cw_db (seed_thread now c u i req w) = cw_db w"
  "cw_mentions (seed_thread now c u i req w) = cw_mentions w" "sw_ulids (cw_services (seed_thread now c u i req w)) = sw_ulids (cw_services w)"
  "sw_next (cw_services w) \<le> sw_next (cw_services (seed_thread now c u i req w))" "cw_channelMeta (seed_thread now c u i req w) = cw_channelMeta w"
  "cw_postingLocks (seed_thread now c u i req w) = cw_postingLocks w" "cw_timeouts (seed_thread now c u i req w) = cw_timeouts w"
  "cw_onboarding (seed_thread now c u i req w) = cw_onboarding w"
  by (simp_all add: seed_thread_def chat_ulid_def new_ulid_def Let_def cw_db_def)

text \<open>A commit adds the row, with the next ULID, and mentions of it only.\<close>

definition adds_row :: "chat_world \<Rightarrow> chat_world \<Rightarrow> chat_message_row \<Rightarrow> bool" where
  "adds_row w w' row \<longleftrightarrow> msg_id row = sw_ulids (cw_services w) (sw_next (cw_services w)) \<and> find_chat w (msg_id row) = None \<and>
     cw_messages w' = cw_messages w @ [row] \<and> cw_reactions w' = cw_reactions w \<and> cw_pins w' = cw_pins w \<and> cw_db w' = cw_db w \<and>
     sw_ulids (cw_services w') = sw_ulids (cw_services w) \<and> sw_next (cw_services w) < sw_next (cw_services w') \<and>
     cw_channelMeta w' = cw_channelMeta w \<and> cw_postingLocks w' = cw_postingLocks w \<and> cw_timeouts w' = cw_timeouts w \<and> cw_onboarding w' = cw_onboarding w \<and>
     (\<forall>n \<in> set (mt_mentions (cw_mentions w')). n \<in> set (mt_mentions (cw_mentions w)) \<or> mn_messageId n = msg_id row)"

lemma post_commitD:
  assumes "post_commit e now s c u from req w = (r, w')"
  shows "case r of
      Inl x \<Rightarrow> w' = w\<lparr>cw_services := (cw_services w)\<lparr>sw_next := sw_next (cw_services w) + 1\<rparr>\<rparr>
    | Inr (row, rs) \<Rightarrow> row = chat_row e now (msg_id row) s c u from req \<and> adds_row w w' row"
proof -
  obtain i w1 where i: "chat_ulid w = (i, w1)" by (cases "chat_ulid w")
  have w1: "i = sw_ulids (cw_services w) (sw_next (cw_services w))" "w1 = w\<lparr>cw_services := (cw_services w)\<lparr>sw_next := sw_next (cw_services w) + 1\<rparr>\<rparr>"
    using i by (auto simp: chat_ulid_def new_ulid_def Let_def)
  let ?row = "chat_row e now i s c u from req"
  have id: "msg_id ?row = i" by (simp add: chat_row_def)
  show ?thesis
  proof (cases "find_chat w1 i \<noteq> None \<or> nonce_taken c (pq_nonce req) w1 \<or> find_channel (cw_db w1) c = None")
    case True
    then show ?thesis using assms by (auto simp: post_commit_def i w1 cw_db_def Let_def)
  next
    case False
    let ?v = "w1\<lparr>cw_messages := cw_messages w1 @ [?row], cw_attachments := update_where (\<lambda>a. att_id a \<in> set (pq_attachmentIds req))
        (\<lambda>a. a\<lparr>att_messageId := Some i\<rparr>) (cw_attachments w1)\<rparr>"
    obtain rs v where m: "write_mentions s c u i (pq_content req) ?v = (rs, v)" by (cases "write_mentions s c u i (pq_content req) ?v")
    have r: "r = Inr (?row, rs)" "w' = seed_thread now c u i req v"
      using assms False by (auto simp: post_commit_def i m Let_def)
    have "adds_row w w' ?row"
      unfolding adds_row_def id using False write_mentions_keeps [OF m] seed_thread_keeps [where now = now and c = c and u = u and i = i and req = req and w = v]
      by (auto simp: r w1 cw_db_def find_chat_def)
    then show ?thesis by (simp add: r id)
  qed
qed

section \<open>What an accepted post is\<close>

lemma gates_after_noted:
  assumes "noted w w' ns"
  shows "gates_after s u p req w' = gates_after s u p req w"
proof -
  have "attachment_gate u p ids w' = attachment_gate u p ids w" for ids
    using assms by (auto simp: noted_def attachment_gate_def)
  then show ?thesis unfolding gates_after_def mention_gate_noted [OF assms] by simp
qed

lemma note_lists: "noted w w' ns \<Longrightarrow> cw_messages w' = cw_messages w @ ns \<and> length ns \<le> 1 \<and> list_all msg_system ns"
  by (auto simp: noted_def)

lemma post_messageD:
  assumes "post_message e now c u req w = (Inr row, w')"
  shows "(w' = w \<and> row \<in> set (cw_messages w) \<and> msg_channelId row = Some c \<and> msg_authorId row = u \<and> cm_nonce row = pq_nonce req \<and> msg_deletedAt row = None) \<or>
    (\<exists>s perms src ns w1 w2 rs. requireChannelPermission (cw_db w) c u (Permission SEND_MESSAGES) = Inr (perms, s) \<and>
       gates_before now s c u perms req w = Inr (Inr src) \<and> noted w w1 ns \<and> gates_after s u perms req w1 = Inr () \<and>
       row = chat_row e now (msg_id row) s c u src req \<and> adds_row w1 w2 row \<and> w' = after_post e s c row rs w2)"
proof -
  obtain r w1 where c: "post_check e now c u req w = (r, w1)" by (cases "post_check e now c u req w")
  note check = post_checkD [OF c]
  show ?thesis
  proof (cases r)
    case (Inl x)
    then show ?thesis using assms c by (simp add: post_message_def)
  next
    case (Inr y)
    show ?thesis
    proof (cases y)
      case (Inl m)
      then show ?thesis using assms c check Inr by (simp add: post_message_def)
    next
      case y: (Inr ss)
      obtain s src where ss: "ss = (s, src)" by (cases ss)
      obtain q w2 where q: "post_commit e now s c u src req w1 = (q, w2)" by (cases "post_commit e now s c u src req w1")
      show ?thesis
      proof (cases q)
        case (Inl x)
        then show ?thesis using assms c Inr y ss q by (simp add: post_message_def)
      next
        case q': (Inr rr)
        obtain row' rs where rr: "rr = (row', rs)" by (cases rr)
        have "row' = row" "w' = after_post e s c row rs w2" using assms c Inr y ss q q' rr by (auto simp: post_message_def)
        moreover have "row = chat_row e now (msg_id row) s c u src req \<and> adds_row w1 w2 row"
          using post_commitD [OF q] q' rr \<open>row' = row\<close> by simp
        moreover obtain perms ns where "requireChannelPermission (cw_db w) c u (Permission SEND_MESSAGES) = Inr (perms, s)"
            "gates_before now s c u perms req w = Inr (Inr src)" "gates_after s u perms req w1 = Inr ()" "noted w w1 ns"
          using check Inr y ss by auto
        ultimately show ?thesis by blast
      qed
    qed
  qed
qed


text \<open>
  Slow mode refuses a retry. A request that repeats the nonce of the author's own message is answered with that message
  in a channel without slow mode; in one with slow mode it is refused until the interval is over, because slow mode is
  checked before the nonce.
\<close>

theorem retry_hits_slowmode:
  assumes "requireChannelPermission (cw_db w) channelId userId (Permission SEND_MESSAGES) = Inr (perms, serverId)"
    and "\<not> moderates perms" and "member_gates now serverId userId perms w = Inr ()"
    and "chm_postingScope (cw_channelMeta w channelId) = OpenScope"
    and "replayed channelId userId (pq_nonce req) w = Inr (Some m)" and "msg_createdAt m \<le> now"
    and "now - msg_createdAt m < chm_slowmodeSeconds (cw_channelMeta w channelId) * 1000"
  shows "(\<exists>t. post_message e now channelId userId req w = (Inl (DmTavern (TavernError SLOWMODE_ACTIVE t 429 None)), w)) \<and>
    (let w0 = w\<lparr>cw_channelMeta := (\<lambda>c. (cw_channelMeta w c)\<lparr>chm_slowmodeSeconds := 0\<rparr>)\<rparr>
     in post_message e now channelId userId req w0 = (Inr m, w0))"
proof -
  have m: "m \<in> set (cw_messages w)" "msg_channelId m = Some channelId" "msg_authorId m = userId" "msg_deletedAt m = None"
    using assms(5) unfolding replayed_def by (auto simp: bind_eq_Some_conv find_Some_iff split: option.splits if_splits)
  let ?T = "map msg_createdAt (filter (\<lambda>m. msg_channelId m = Some channelId \<and> msg_authorId m = userId \<and> msg_deletedAt m = None) (cw_messages w))"
  have in_T: "msg_createdAt m \<in> set ?T" using m by auto
  then have "?T \<noteq> []" by force
  then have "last_post channelId userId w = Some (Max (set ?T))" unfolding last_post_def Let_def by (simp only: if_False)
  moreover have "msg_createdAt m \<le> Max (set ?T)" using in_T by (intro Max_ge) simp_all
  ultimately have "\<exists>t. channel_gates now channelId userId perms w = Inl (TavernError SLOWMODE_ACTIVE t 429 None)"
    using assms(2,4,6,7) by (auto simp: channel_gates_def Let_def)
  then have refused: "\<exists>t. post_message e now channelId userId req w = (Inl (DmTavern (TavernError SLOWMODE_ACTIVE t 429 None)), w)"
    using assms(1,3) by (auto simp: post_message_def post_check_def gates_before_def bind_result_def)
  let ?w0 = "w\<lparr>cw_channelMeta := (\<lambda>c. (cw_channelMeta w c)\<lparr>chm_slowmodeSeconds := 0\<rparr>)\<rparr>"
  have db: "cw_db ?w0 = cw_db w" by (simp add: cw_db_def)
  have "member_gates now serverId userId perms ?w0 = Inr ()" "replayed channelId userId (pq_nonce req) ?w0 = Inr (Some m)"
    "channel_gates now channelId userId perms ?w0 = Inr ()"
    using assms(3,4,5) by (simp_all add: member_gates_def db replayed_def channel_gates_def Let_def cong: if_cong option.case_cong)
  then have "post_message e now channelId userId req ?w0 = (Inr m, ?w0)"
    using assms(1) by (simp add: post_message_def post_check_def gates_before_def bind_result_def db)
  then show ?thesis using refused by simp
qed

section \<open>Deleted messages\<close>

datatype chat_op =
    PostOp millis ident ident post_request
  | EditOp millis ident ident string
  | DeleteOp millis ident ident
  | ReactOp ident ident string
  | UnreactOp ident ident string

fun chat_step :: "chat_env \<Rightarrow> chat_op \<Rightarrow> chat_world \<Rightarrow> chat_world" where
  "chat_step e (PostOp now c u req) w = snd (post_message e now c u req w)"
| "chat_step e (EditOp now u i content) w = snd (patch_chat e now u i content w)"
| "chat_step e (DeleteOp now u i) w = snd (delete_message e now u i w)"
| "chat_step e (ReactOp u i emoji) w = snd (put_reaction e u i emoji w)"
| "chat_step e (UnreactOp u i emoji) w = snd (delete_reaction e u i emoji w)"

text \<open>Nothing of a deleted message is left; ids are unique and those to come are new.\<close>

definition bare :: "chat_world \<Rightarrow> chat_message_row \<Rightarrow> bool" where
  "bare w m \<longleftrightarrow> msg_content m = [] \<and> msg_id m \<notin> rct_messageId ` set (cw_reactions w) \<and>
     msg_id m \<notin> mn_messageId ` set (mt_mentions (cw_mentions w)) \<and> msg_id m \<notin> set (cw_pins w)"

definition buried :: "chat_world \<Rightarrow> bool" where
  "buried w \<longleftrightarrow> inj (sw_ulids (cw_services w)) \<and> distinct (map msg_id (cw_messages w)) \<and>
     (\<forall>m \<in> set (cw_messages w). \<forall>k \<ge> sw_next (cw_services w). msg_id m \<noteq> sw_ulids (cw_services w) k) \<and>
     (\<forall>m \<in> set (cw_messages w). msg_deletedAt m \<noteq> None \<longrightarrow> bare w m)"

definition graves :: "chat_world \<Rightarrow> chat_message_row set" where
  "graves w = {m \<in> set (cw_messages w). msg_deletedAt m \<noteq> None}"

definition rests :: "chat_world \<Rightarrow> chat_world \<Rightarrow> bool" where
  "rests w w' \<longleftrightarrow> (buried w \<longrightarrow> buried w' \<and> graves w \<subseteq> graves w')"

named_theorems rests_intros

lemma rests_refl [rests_intros]: "rests w w" by (simp add: rests_def)

lemma rests_trans: "rests u v \<Longrightarrow> rests v w \<Longrightarrow> rests u w" unfolding rests_def by blast

lemma rests_tells: "tells w w' \<Longrightarrow> rests w w'"
  by (simp add: rests_def tells_def buried_def graves_def bare_def)

lemma rests_publish: "rests w (chat_publish ev w)" by (rule rests_tells [OF tells_publish])

lemma rests_noted:
  assumes "noted w w' ns"
  shows "rests w w'"
proof -
  note n = assms [unfolded noted_def]
  show ?thesis
    unfolding rests_def
  proof
    assume b: "buried w"
    have fresh: "msg_id m \<noteq> sw_ulids (cw_services w) k" if "m \<in> set (cw_messages w)" "sw_next (cw_services w) \<le> k" for m k
      using b that unfolding buried_def by blast
    have later: "sw_ulids (cw_services w) i \<noteq> sw_ulids (cw_services w) k" if "i < k" for i k
      using b that unfolding buried_def by (auto dest: injD)
    have "buried w'" using n b fresh later unfolding buried_def bare_def by auto
    then show "buried w' \<and> graves w \<subseteq> graves w'" using n by (auto simp: graves_def)
  qed
qed

lemma rests_row:
  assumes "adds_row w w' row" "msg_deletedAt row = None"
  shows "rests w w'"
proof -
  note a = assms(1) [unfolded adds_row_def]
  show ?thesis
    unfolding rests_def
  proof
    assume b: "buried w"
    have fresh: "msg_id m \<noteq> sw_ulids (cw_services w) k" if "m \<in> set (cw_messages w)" "sw_next (cw_services w) \<le> k" for m k
      using b that unfolding buried_def by blast
    have later: "sw_ulids (cw_services w) i \<noteq> sw_ulids (cw_services w) k" if "i < k" for i k
      using b that unfolding buried_def by (auto dest: injD)
    have other: "msg_id m \<noteq> msg_id row" if "m \<in> set (cw_messages w)" for m
      using fresh [OF that, of "sw_next (cw_services w)"] a by simp
    have new: "msg_id row \<notin> msg_id ` set (cw_messages w)" using other by fastforce
    have dead: "bare w' m" if m: "m \<in> set (cw_messages w')" "msg_deletedAt m \<noteq> None" for m
    proof -
      have "m \<in> set (cw_messages w)" using m a assms(2) by auto
      then have "bare w m" "msg_id m \<noteq> msg_id row" using b m other unfolding buried_def by auto
      then show ?thesis using a unfolding bare_def by fastforce
    qed
    have "buried w'" unfolding buried_def
      using a b fresh later new dead by (auto simp: buried_def)
    then show "buried w' \<and> graves w \<subseteq> graves w'" using a by (auto simp: graves_def)
  qed
qed

lemma find_chatD: "find_chat w i = Some m \<Longrightarrow> m \<in> set (cw_messages w) \<and> msg_id m = i"
  by (auto simp: find_chat_def find_Some_iff)

text \<open>The id of a live message is not that of a deleted one.\<close>

lemma live_id:
  assumes "buried w" "find_chat w i = Some m" "msg_deletedAt m = None" "x \<in> set (cw_messages w)" "msg_deletedAt x \<noteq> None"
  shows "msg_id x \<noteq> i"
proof
  assume "msg_id x = i"
  then have "x = m" using assms find_chatD [OF assms(2)] by (auto simp: buried_def distinct_map dest: inj_onD)
  then show False using assms by simp
qed

lemma rests_post: "rests w (snd (post_message e now c u req w))"
proof -
  obtain r w' where p: "post_message e now c u req w = (r, w')" by (cases "post_message e now c u req w")
  obtain q w1 where c: "post_check e now c u req w = (q, w1)" by (cases "post_check e now c u req w")
  have noted1: "rests w w1" using post_checkD [OF c] rests_noted by (cases q; cases "projr q") (auto intro: rests_refl)
  have next1: "rests v (v\<lparr>cw_services := (cw_services v)\<lparr>sw_next := sw_next (cw_services v) + 1\<rparr>\<rparr>)" for v
    by (auto simp: rests_def buried_def graves_def bare_def)
  show ?thesis
  proof (cases r)
    case (Inr row)
    from post_messageD [OF p [unfolded Inr]] show ?thesis
    proof (elim disjE exE conjE)
      fix s perms src ns v1 v2 rs
      assume "noted w v1 ns" "adds_row v1 v2 row" "w' = after_post e s c row rs v2" and row: "row = chat_row e now (msg_id row) s c u src req"
      moreover have "msg_deletedAt row = None" by (subst row) (simp add: chat_row_def)
      ultimately have "rests w w'"
        using rests_noted rests_row rests_tells [OF tells_after(1)] rests_trans by metis
      then show ?thesis by (simp add: p)
    qed (simp add: p rests_refl)
  next
    case (Inl x)
    show ?thesis
    proof (cases "\<exists>s src. q = Inr (Inr (s, src))")
      case True
      then obtain s src where q: "q = Inr (Inr (s, src))" by blast
      obtain t w2 where t: "post_commit e now s c u src req w1 = (t, w2)" by (cases "post_commit e now s c u src req w1")
      have "\<exists>y. t = Inl y" "w' = w2" using p Inl c q t by (auto simp: post_message_def split: sum.splits prod.splits)
      then have "rests w1 w'" using post_commitD [OF t] next1 by auto
      then have "rests w w'" by (rule rests_trans [OF noted1])
      then show ?thesis by (simp add: p)
    next
      case False
      then have "w' = w1" using p Inl c by (auto simp: post_message_def split: sum.splits)
      then show ?thesis using noted1 by (simp add: p)
    qed
  qed
qed

lemma rests_edit: "rests w (snd (patch_chat e now u i content w))"
proof (cases "edit_check e u i content w")
  case (Inl x)
  then show ?thesis by (simp add: patch_chat_def rests_refl)
next
  case (Inr m)
  then have m: "find_chat w i = Some m" "msg_deletedAt m = None"
    by (auto simp: edit_check_def bind_result_def split: option.splits if_splits sum.splits)
  let ?v = "keep_chat_edit u m (ce_sanitize e content) w"
  let ?x = "update_chat i (edited_row e now content) ?v"
  have v: "cw_messages ?v = cw_messages w" "cw_reactions ?v = cw_reactions w" "cw_mentions ?v = cw_mentions w" "cw_pins ?v = cw_pins w"
    "sw_ulids (cw_services ?v) = sw_ulids (cw_services w)" "sw_next (cw_services w) \<le> sw_next (cw_services ?v)"
    by (simp_all add: keep_chat_edit_def chat_ulid_def new_ulid_def Let_def)
  have ids: "map msg_id (update_where (\<lambda>m. msg_id m = i) (edited_row e now content) ms) = map msg_id ms" for ms
    by (induction ms) (auto simp: update_where_def edited_row_def)
  have row: "msg_deletedAt (edited_row e now content x) = msg_deletedAt x" "msg_id (edited_row e now content x) = msg_id x" for x
    by (simp_all add: edited_row_def)
  have "rests w ?x"
    unfolding rests_def
  proof
    assume b: "buried w"
    note live = live_id [OF b m]
    have same: "graves ?x = graves w"
      using live by (force simp: graves_def update_chat_def update_where_def v row split: if_splits)
    have ids_eq: "map msg_id (cw_messages ?x) = map msg_id (cw_messages w)"
      unfolding update_chat_def using ids v(1) by simp
    have "buried ?x"
      unfolding buried_def
    proof (intro conjI ballI allI impI)
      show "inj (sw_ulids (cw_services ?x))" using b by (simp add: buried_def update_chat_def v)
      show "distinct (map msg_id (cw_messages ?x))" using b by (simp add: buried_def ids_eq)
      show "msg_id x \<noteq> sw_ulids (cw_services ?x) k" if "x \<in> set (cw_messages ?x)" "sw_next (cw_services ?x) \<le> k" for x k
      proof -
        have "msg_id x \<in> msg_id ` set (cw_messages w)" using that(1) ids_eq by (metis image_eqI list.set_map)
        moreover have "sw_next (cw_services w) \<le> k" "sw_ulids (cw_services ?x) = sw_ulids (cw_services w)"
          using that(2) v(5,6) unfolding update_chat_def by simp_all
        ultimately show ?thesis using b unfolding buried_def by fastforce
      qed
      show "bare ?x x" if "x \<in> set (cw_messages ?x)" "msg_deletedAt x \<noteq> None" for x
      proof -
        have "x \<in> graves w" using that same by (auto simp: graves_def)
        then have "bare w x" using b by (auto simp: graves_def buried_def)
        then show ?thesis by (simp add: bare_def update_chat_def v)
      qed
    qed
    then show "buried ?x \<and> graves w \<subseteq> graves ?x" using same by simp
  qed
  then show ?thesis
    using Inr by (auto simp: patch_chat_def Let_def intro: rests_trans [OF _ rests_trans [OF rests_publish rests_tells [OF tells_edited]]])
qed

lemma rests_erase:
  assumes m: "find_chat w i = Some m" "msg_deletedAt m = None"
  shows "rests w (erase_chat now i w)"
proof -
  let ?f = "\<lambda>m. m\<lparr>msg_deletedAt := Some now, msg_content := []\<rparr> :: chat_message_row"
  let ?x = "erase_chat now i w"
  have x: "cw_messages ?x = update_where (\<lambda>m. msg_id m = i) ?f (cw_messages w)" "cw_services ?x = cw_services w"
    by (simp_all add: erase_chat_def update_chat_def)
  have ids: "map msg_id (update_where (\<lambda>m. msg_id m = i) ?f ms) = map msg_id ms" for ms
    by (induction ms) (auto simp: update_where_def)
  have bare_mono: "bare w y \<Longrightarrow> bare ?x y" for y by (auto simp: bare_def erase_chat_def update_chat_def)
  have bare_new: "msg_id y = i \<Longrightarrow> bare ?x (?f y)" for y by (auto simp: bare_def erase_chat_def update_chat_def)
  show ?thesis
    unfolding rests_def
  proof
    assume b: "buried w"
    note live = live_id [OF b m]
    have "distinct (map msg_id (cw_messages ?x))" using b by (simp add: buried_def x ids)
    moreover have "\<forall>y \<in> set (cw_messages ?x). \<forall>k \<ge> sw_next (cw_services ?x). msg_id y \<noteq> sw_ulids (cw_services ?x) k"
      using b by (auto simp: buried_def x update_where_def)
    moreover have "\<forall>y \<in> set (cw_messages ?x). msg_deletedAt y \<noteq> None \<longrightarrow> bare ?x y"
      using b bare_mono bare_new by (auto simp: buried_def x update_where_def split: if_splits)
    ultimately have "buried ?x" using b by (simp add: buried_def x(2))
    moreover have "graves w \<subseteq> graves ?x" using live by (force simp: graves_def x update_where_def)
    ultimately show "buried ?x \<and> graves w \<subseteq> graves ?x" ..
  qed
qed

lemma rests_delete: "rests w (snd (delete_message e now u i w))"
proof (cases "delete_check u i w")
  case (Inl x)
  then show ?thesis by (simp add: delete_message_def rests_refl)
next
  case (Inr m)
  then have m: "find_chat w i = Some m" "msg_deletedAt m = None"
    by (auto simp: delete_check_def split: option.splits if_splits)
  obtain ns where n: "noted (erase_chat now i w) (audit_deletion now u m (erase_chat now i w)) ns"
    using noted_audit_deletion by blast
  have "rests w (tell_deleted e now u m (chat_publish (chat_event_of ''MESSAGE_DELETE'' m (OtherData i))
      (audit_deletion now u m (erase_chat now i w))))"
    by (rule rests_trans [OF rests_erase [OF m] rests_trans [OF rests_noted [OF n] rests_trans [OF rests_publish rests_tells [OF tells_deleted]]]])
  then show ?thesis using Inr by (simp add: delete_message_def)
qed

lemma rests_reactions:
  assumes "\<And>x. buried w \<Longrightarrow> x \<in> set rs \<Longrightarrow> x \<in> set (cw_reactions w) \<or> (\<exists>m. find_chat w (rct_messageId x) = Some m \<and> msg_deletedAt m = None)"
  shows "rests w (w\<lparr>cw_reactions := rs\<rparr>)"
  unfolding rests_def
proof
  assume b: "buried w"
  have "bare (w\<lparr>cw_reactions := rs\<rparr>) y" if y: "y \<in> set (cw_messages w)" "msg_deletedAt y \<noteq> None" for y
  proof -
    have "bare w y" using b y by (simp add: buried_def)
    moreover have "msg_id y \<notin> rct_messageId ` set rs"
    proof
      assume "msg_id y \<in> rct_messageId ` set rs"
      then obtain x where x: "x \<in> set rs" "rct_messageId x = msg_id y" by auto
      show False using assms [OF b x(1)] \<open>bare w y\<close> x live_id [OF b _ _ y] by (auto simp: bare_def image_iff)
    qed
    ultimately show ?thesis by (simp add: bare_def)
  qed
  then show "buried (w\<lparr>cw_reactions := rs\<rparr>) \<and> graves w \<subseteq> graves (w\<lparr>cw_reactions := rs\<rparr>)"
    using b by (simp add: buried_def graves_def)
qed

lemma rests_react: "rests w (snd (put_reaction e u i emoji w))"
proof (cases "fst (put_reaction e u i emoji w)")
  case (Inl x)
  then have "snd (put_reaction e u i emoji w) = w"
    by (auto simp: put_reaction_def Let_def split: option.splits if_splits sum.splits)
  then show ?thesis by (simp add: rests_refl)
next
  case (Inr x)
  then obtain m where m: "find_chat w i = Some m" "msg_deletedAt m = None"
    and "bind_result (authorizeReaction m u w) (\<lambda>_. custom_emoji_gate m emoji w) = Inr ()"
    by (auto simp: put_reaction_def split: option.splits if_splits sum.splits)
  let ?r = "\<lparr>rct_messageId = i, rct_userId = u, rct_emoji = emoji\<rparr>"
  let ?v = "if ?r \<in> set (cw_reactions w) then w else w\<lparr>cw_reactions := cw_reactions w @ [?r]\<rparr>"
  have "rests w ?v" using m by (auto intro!: rests_reactions intro: rests_refl)
  then have "rests w (tell_reaction e fanOutDmReactionAdd fanOutReactionAdd u m emoji (chat_publish (reactionEvent ''REACTION_ADD'' m emoji) ?v))"
    by (rule rests_trans [OF _ rests_trans [OF rests_publish rests_tells [OF tells_reaction]]])
  then show ?thesis
    using m \<open>bind_result _ _ = Inr ()\<close> by (simp add: put_reaction_def Let_def)
qed

lemma rests_unreact: "rests w (snd (delete_reaction e u i emoji w))"
proof -
  let ?v = "w\<lparr>cw_reactions := filter (\<lambda>x. x \<noteq> \<lparr>rct_messageId = i, rct_userId = u, rct_emoji = emoji\<rparr>) (cw_reactions w)\<rparr>"
  have "rests w ?v" by (rule rests_reactions) auto
  then have "rests w (tell_reaction e fanOutDmReactionRemove fanOutReactionRemove u m emoji (chat_publish (reactionEvent ''REACTION_REMOVE'' m emoji) ?v))" for m
    by (rule rests_trans [OF _ rests_trans [OF rests_publish rests_tells [OF tells_reaction]]])
  then show ?thesis by (simp add: delete_reaction_def Let_def rests_refl split: option.split)
qed

lemma rests_step: "rests w (chat_step e op w)"
  by (cases op) (simp_all add: rests_post rests_edit rests_delete rests_react rests_unreact)

lemma rests_run: "rests w (fold (chat_step e) ops w)"
  by (induction ops arbitrary: w) (auto intro: rests_refl rests_trans [OF rests_step])


end
