(* ===== verification/MessageExamples.thy ===== *)
theory MessageExamples
  imports MessageRuns
begin

text \<open>
  The message routes at work on a small tavern: \<open>ann\<close> may read the cellar and its history there, which is hidden from her, and may post
  in the hall, where slow mode is on; \<open>bob\<close> is an outsider.
\<close>

section \<open>The tavern\<close>

definition tavern_db :: db where
  "tavern_db = sample_db\<lparr>db_roles := [
     \<lparr>rol_id = ''everyone'', rol_serverId = ''S'', rol_name = ''everyone'', rol_permissions = 7, rol_position = 0\<rparr>,
     \<lparr>rol_id = ''mod'', rol_serverId = ''S'', rol_name = ''mod'', rol_permissions = 0, rol_position = 5\<rparr>]\<rparr>"

definition tavern_message :: "ident \<Rightarrow> millis option \<Rightarrow> string option \<Rightarrow> chat_message_row" where
  "tavern_message i gone nonce =
     \<lparr>msg_id = i, msg_serverId = Some ''S'', msg_channelId = Some ''hall'', msg_authorId = ''ann'', msg_system = False,
      msg_content = (if gone = None then ''hi'' else []), msg_createdAt = 0, msg_deletedAt = gone, cm_dmChannelId = None, cm_threadId = None,
      cm_isThreadRoot = False, cm_replyTo = None, cm_forwardedFrom = None, cm_forwardedFromChannelId = None, cm_nonce = nonce, cm_embeds = [],
      cm_editedAt = None, cm_originInstanceId = None\<rparr>"

definition tavern_world :: "int \<Rightarrow> chat_world" where
  "tavern_world slow =
     \<lparr>cw_services = \<lparr>sw_db = tavern_db, sw_published = [], sw_member_removals = [], sw_ulids = (\<lambda>k. replicate k (CHR ''i'')), sw_next = 0\<rparr>,
      cw_messages = [tavern_message ''x'' None (Some ''n''), tavern_message ''y'' (Some 0) None], cw_attachments = [],
      cw_channelMeta = (\<lambda>_. \<lparr>chm_slowmodeSeconds = slow, chm_postingScope = OpenScope, chm_forum = False, chm_originInstanceId = None\<rparr>),
      cw_timeouts = (\<lambda>_. None), cw_postingLocks = (\<lambda>_. None), cw_onboarding = (\<lambda>_. None), cw_mentionable = (\<lambda>_. False),
      cw_rules = [], cw_ruleInfo = (\<lambda>_. \<lparr>ri_name = [], ri_action = [], ri_reason = None\<rparr>), cw_rates = [],
      cw_mentions = \<lparr>mt_mentions = [], mt_readStates = []\<rparr>, cw_threads = [], cw_reactions = [], cw_edits = [], cw_pins = [],
      cw_customEmoji = [], cw_queue = \<lparr>fs_jobs = [], fs_ulids = (\<lambda>_. []), fs_next = 0\<rparr>, cw_previews = [], cw_lookups = []\<rparr>"

definition tavern_env :: chat_env where
  "tavern_env = \<lparr>ce_sanitize = id, ce_regexp = (\<lambda>_. None),
     ce_fan = \<lparr>fe_selfHost = [], fe_parse = (\<lambda>_ v. Some v), fe_fails = (\<lambda>_. False), fe_enabled = None, fe_dmsEnabled = None, fe_presenceEnabled = True\<rparr>,
     ce_queues = False, ce_profiles = False\<rparr>"

definition tavern_request :: "string option \<Rightarrow> post_request" where
  "tavern_request nonce = \<lparr>pq_content = ''hi'', pq_replyTo = None, pq_attachmentIds = [], pq_nonce = nonce, pq_forwardedFrom = None, pq_embeds = []\<rparr>"

lemma tavern_fields [simp]:
  "cw_db (tavern_world s) = tavern_db" "cw_messages (tavern_world s) = [tavern_message ''x'' None (Some ''n''), tavern_message ''y'' (Some 0) None]"
  "pq_nonce (tavern_request n) = n"
  by (simp_all add: tavern_world_def cw_db_def tavern_request_def)

lemma tavern_finds [simp]:
  "find_member tavern_db ''S'' ''ann'' = Some \<lparr>mem_serverId = ''S'', mem_userId = ''ann'', mem_gatePassedAt = None\<rparr>"
  "find_server tavern_db ''S'' = find_server sample_db ''S''" "find_channel tavern_db = find_channel sample_db"
  "find_user tavern_db u = None" "db_overwrites tavern_db = db_overwrites sample_db"
  by (simp_all add: tavern_db_def sample_db_def empty_db_def find_defs fun_eq_iff)

lemma tavern_member:
  "loadMemberContext tavern_db ''S'' ''ann'' =
     Some \<lparr>mi_isOwner = False, mi_everyonePerms = 7, mi_rolePerms = [0], mi_roleIds = [''mod''], mi_everyoneRoleId = Some ''everyone''\<rparr>"
  by (simp add: tavern_db_def sample_simps)

lemma tavern_permissions:
  "getChannelPermissions tavern_db ''hall'' ''ann'' = Some (7, ''S'')" "getChannelPermissions tavern_db ''cellar'' ''ann'' = Some (6, ''S'')"
  by (simp_all add: getChannelPermissions_def tavern_member sample_channel sample_overwrites resolve_simps) code_simp+

lemma tavern_flags:
  "hasFlag 7 (Permission SEND_MESSAGES)" "hasFlag 7 (Permission READ_MESSAGE_HISTORY)" "hasFlag 6 (Permission READ_MESSAGE_HISTORY)"
  "\<not> hasFlag 7 (Permission ADMINISTRATOR)" "\<not> hasFlag 7 (Permission MANAGE_MESSAGES)" "\<not> hasFlag 7 (Permission MENTION_EVERYONE)"
  "\<not> viewable 6" "\<not> moderates 7" "\<not> is_admin 7"
  by (simp_all add: viewable_iff moderates_def is_admin_def) code_simp+

lemma tavern_gates:
  "requireChannelPermission tavern_db ''hall'' ''ann'' (Permission SEND_MESSAGES) = Inr (7, ''S'')"
  "requireChannelPermission tavern_db ''hall'' ''ann'' (Permission READ_MESSAGE_HISTORY) = Inr (7, ''S'')"
  using tavern_flags(1,2) by (simp_all add: requireChannelPermission_def tavern_permissions hasFlag_def)

lemma tavern_settings [simp]:
  "cw_timeouts (tavern_world s) = (\<lambda>_. None)" "cw_postingLocks (tavern_world s) = (\<lambda>_. None)" "cw_onboarding (tavern_world s) = (\<lambda>_. None)"
  "cw_rules (tavern_world s) = []" "cw_rates (tavern_world s) = []"
  "cw_channelMeta (tavern_world s) c = \<lparr>chm_slowmodeSeconds = s, chm_postingScope = OpenScope, chm_forum = False, chm_originInstanceId = None\<rparr>"
  by (simp_all add: tavern_world_def)

lemma tavern_member_gates: "member_gates 5 ''S'' ''ann'' 7 (tavern_world s) = Inr ()"
proof -
  have "assertCanPostUnderVerification 5 tavern_db ''S'' ''ann'' = Inr ()"
    by (simp add: assertCanPostUnderVerification_def tavern_db_def sample_simps)
  then show ?thesis by (simp add: member_gates_def tavern_flags later_than_def)
qed

lemma outsider_refused: "\<exists>x. requireChannelPermission tavern_db ''hall'' ''bob'' (Permission ADD_REACTIONS) = Inl x"
proof -
  have "loadMemberContext tavern_db ''S'' ''bob'' = None" by (simp add: tavern_db_def sample_simps)
  moreover have "\<not> hasFlag PERMISSION_NONE (Permission ADMINISTRATOR)" "\<not> hasFlag PERMISSION_NONE (Permission ADD_REACTIONS)" by code_simp+
  ultimately show ?thesis
    by (simp add: requireChannelPermission_def getChannelPermissions_def sample_channel hasFlag_def)
qed

lemma tavern_replayed: "replayed ''hall'' ''ann'' (Some ''n'') (tavern_world s) = Inr (Some (tavern_message ''x'' None (Some ''n'')))"
  by (simp add: replayed_def tavern_message_def)

section \<open>Witnesses\<close>

theorem page_is_a_slice_witness:
  "\<exists>page. list_messages ''hall'' ''ann'' None None 5 (tavern_world 0) = Inr page \<and> length page \<le> 5 \<and>
     sorted_wrt (\<lambda>x y. msg_id y < msg_id x) (map fst page)"
proof -
  obtain page where p: "list_messages ''hall'' ''ann'' None None 5 (tavern_world 0) = Inr page"
    using tavern_gates by (simp add: list_messages_def Let_def)
  have "distinct (map msg_id (cw_messages (tavern_world 0)))" by (simp add: tavern_message_def)
  from page_is_a_slice [OF p this] p show ?thesis unfolding Let_def by simp
qed


theorem anyone_removes_reactions_witness:
  "\<exists>x w'. put_reaction tavern_env ''bob'' ''x'' ''y'' (tavern_world 0) = (Inl x, tavern_world 0) \<and>
     delete_reaction tavern_env ''bob'' ''x'' ''y'' (tavern_world 0) = (Inr (), w') \<and> sw_published (cw_services w') \<noteq> []"
proof -
  have f: "find_chat (tavern_world 0) ''x'' = Some (tavern_message ''x'' None (Some ''n''))" "msg_deletedAt (tavern_message ''x'' None (Some ''n'')) = None"
    by (simp_all add: find_chat_def tavern_message_def)
  note outsider_refused
  then obtain x where "authorizeReaction (tavern_message ''x'' None (Some ''n'')) ''bob'' (tavern_world 0) = Inl x"
    by (auto simp: authorizeReaction_def as_dm_def bind_result_def tavern_message_def)
  from anyone_removes_reactions [OF f this, of tavern_env "''y''"] show ?thesis by auto
qed

theorem retry_hits_slowmode_witness:
  "\<exists>t. post_message tavern_env 5 ''hall'' ''ann'' (tavern_request (Some ''n'')) (tavern_world 10) =
     (Inl (DmTavern (TavernError SLOWMODE_ACTIVE t 429 None)), tavern_world 10)"
proof -
  have "chm_postingScope (cw_channelMeta (tavern_world 10) ''hall'') = OpenScope" "msg_createdAt (tavern_message ''x'' None (Some ''n'')) \<le> 5"
    "5 - msg_createdAt (tavern_message ''x'' None (Some ''n'')) < chm_slowmodeSeconds (cw_channelMeta (tavern_world 10) ''hall'') * 1000"
    by (simp_all add: tavern_message_def)
  from retry_hits_slowmode [OF _ tavern_flags(8) tavern_member_gates this(1) _ this(2,3), where req = "tavern_request (Some ''n'')" and e = tavern_env] show ?thesis
    by (simp add: tavern_gates tavern_replayed)
qed



end
