(* ===== verification/Peering.thy ===== *)
theory Peering
  imports RemoteUsers
begin

text \<open>
  How two instances become peers (apps/api/src/services/federation-peering.ts with its public route and those of the
  administrator, routes/federation-peering.ts and routes/admin-federation.ts). A request is recorded as pending, an administrator approves it, the
  acceptance is sent back; either side may revoke. What the network answers is an argument, what is posted is recorded. The
  parts of an approval and of an acceptance around their slow steps are separate definitions, so that others
  can come between; the look-up and the write of a request are one step, which differs only when two first requests of a host race.
\<close>

section \<open>State\<close>

record peering_row = remote_instance_row +
  per_createdAt :: millis
  per_peeredAt :: "millis option"
  per_peeredByUserId :: "ident option"
  per_revokedAt :: "millis option"
  per_revokedReason :: "string option"
  per_contactEmail :: "string option"
  per_note :: "string option"

record peering_log = log_row +
  plg_id :: ident

record peering_world =
  pw_peers :: "peering_row list"
  pw_log :: "peering_log list"
  pw_posts :: "(string \<times> json) list"
  pw_ulids :: "nat \<Rightarrow> ident"
  pw_next :: nat

text \<open>A discovery document that passes its schema.\<close>

record discovery =
  dd_instanceKey :: string
  dd_peering :: string
  dd_capabilities :: "string list"

text \<open>\<open>pge_discover\<close> is \<^const>\<open>None\<close> where the request or the schema fails; \<open>pge_post\<close> answers the first and the second attempt.\<close>

record peering_env =
  pge_selfHost :: string
  pge_resolver :: resolver
  pge_discover :: "string \<Rightarrow> discovery option"
  pge_verify :: scheme
  pge_requestSchema :: wire_schema
  pge_acceptSchema :: wire_schema
  pge_hash :: "byte list \<Rightarrow> byte list"
  pge_sign :: signer
  pge_post :: "nat \<Rightarrow> string \<Rightarrow> json \<Rightarrow> fetch_result"
  pge_localCapabilities :: "string list"

datatype peering_code = PeerBadEnvelope | PeerSignature | PeerReplay | PeerBlocked | PeerUnreachable

datatype peering_error = PeeringError peering_code string | PeeringThrown    \<comment> \<open>any other exception\<close>

type_synonym 'a peering_result = "(peering_error + 'a) \<times> peering_world"

fun status_text :: "instance_status \<Rightarrow> string" where
  "status_text PendingInbound = ''pending_inbound''"
| "status_text PendingOutbound = ''pending_outbound''"
| "status_text Peered = ''peered''"
| "status_text Revoked = ''revoked''"
| "status_text Blocked = ''blocked''"

definition shut :: "instance_status \<Rightarrow> bool" where "shut s \<longleftrightarrow> s = Revoked \<or> s = Blocked"

definition peering_ulid :: "peering_world \<Rightarrow> ident \<times> peering_world" where
  "peering_ulid w = (pw_ulids w (pw_next w), w\<lparr>pw_next := pw_next w + 1\<rparr>)"

definition peer_by_id :: "peering_world \<Rightarrow> ident \<Rightarrow> peering_row option" where
  "peer_by_id w i = List.find (\<lambda>r. rin_id r = i) (pw_peers w)"

definition peer_by_host :: "peering_world \<Rightarrow> string \<Rightarrow> peering_row option" where
  "peer_by_host w h = List.find (\<lambda>r. rin_host r = h) (pw_peers w)"

text \<open>The id and the host are unique columns; an update of a row that is gone throws.\<close>

definition create_peer :: "peering_row \<Rightarrow> peering_world \<Rightarrow> unit peering_result" where
  "create_peer r w =
     (if peer_by_id w (rin_id r) \<noteq> None \<or> peer_by_host w (rin_host r) \<noteq> None then (Inl PeeringThrown, w)
      else (Inr (), w\<lparr>pw_peers := pw_peers w @ [r]\<rparr>))"

definition update_peer :: "ident \<Rightarrow> (peering_row \<Rightarrow> peering_row) \<Rightarrow> peering_world \<Rightarrow> unit peering_result" where
  "update_peer i f w =
     (if peer_by_id w i = None then (Inl PeeringThrown, w)
      else (Inr (), w\<lparr>pw_peers := update_where (\<lambda>r. rin_id r = i) f (pw_peers w)\<rparr>))"

section \<open>Helpers\<close>

definition CAPABILITIES :: "string list" where
  "CAPABILITIES = [''messages'', ''dms'', ''presence'', ''invites'', ''moderation'']"

definition intersectCapabilities :: "string list \<Rightarrow> string list \<Rightarrow> string list" where
  "intersectCapabilities ours theirs = filter (\<lambda>c. c \<in> set ours \<and> c \<in> set theirs) CAPABILITIES"

definition guardPeerHost :: "peering_env \<Rightarrow> string \<Rightarrow> peering_error + unit" where
  "guardPeerHost pge host =
     (case assertValidPeerHost (pge_resolver pge) host of Inl m \<Rightarrow> Inl (PeeringError PeerBadEnvelope m) | Inr _ \<Rightarrow> Inr ())"

definition hex_byte :: "byte \<Rightarrow> string" where
  "hex_byte b = [hex_digit (unat b div 16), hex_digit (unat b mod 16)]"

fun join_colon :: "string list \<Rightarrow> string" where
  "join_colon [] = []"
| "join_colon [s] = s"
| "join_colon (s # t # ss) = s @ '':'' @ join_colon (t # ss)"

definition computeKeyFingerprint :: "peering_env \<Rightarrow> byte list \<Rightarrow> string option" where
  "computeKeyFingerprint pge rawKey =
     (if list_all (\<lambda>b. b = 0) rawKey then None else Some (join_colon (map hex_byte (take 8 (pge_hash pge rawKey)))))"

definition discover_peer :: "peering_env \<Rightarrow> string \<Rightarrow> peering_error + discovery" where
  "discover_peer pge host = (case pge_discover pge host of None \<Rightarrow> Inl PeeringThrown | Some d \<Rightarrow> Inr d)"

definition verified_envelope :: "peering_env \<Rightarrow> wire_schema \<Rightarrow> millis \<Rightarrow> byte list \<Rightarrow> json \<Rightarrow> peering_error + envelope" where
  "verified_envelope pge z now rawKey body =
     (case verifyEnvelopeShape (pge_verify pge) z now rawKey body of
        Inl _ \<Rightarrow> Inl PeeringThrown
      | Inr (Rejected _ reason) \<Rightarrow> Inl (PeeringError PeerSignature reason)
      | Inr (Accepted env) \<Rightarrow> Inr env)"

definition texts_of :: "json \<Rightarrow> string list" where
  "texts_of v = (case v of JArr vs \<Rightarrow> map txt_of vs | _ \<Rightarrow> [])"

definition write_unless_undefined :: "'a option \<Rightarrow> 'a option \<Rightarrow> 'a option" where   \<comment> \<open>\<open>undefined\<close> leaves a column as it is\<close>
  "write_unless_undefined new old = (case new of None \<Rightarrow> old | Some _ \<Rightarrow> new)"

text \<open>The log entry; its unique key is the peer with the nonce.\<close>

definition log_peering :: "peering_env \<Rightarrow> ident \<Rightarrow> envelope \<Rightarrow> byte list \<Rightarrow> ident \<Rightarrow> peering_world \<Rightarrow> unit peering_result" where
  "log_peering pge peerId env bytes logId w =
     (if list_ex (\<lambda>l. log_peerInstanceId l = peerId \<and> log_nonce l = env_nonce env) (pw_log w)
      then (Inl (PeeringError PeerReplay ''nonce already seen for this peer''), w)
      else (Inr (), w\<lparr>pw_log := pw_log w @ [\<lparr>log_peerInstanceId = peerId, log_nonce = env_nonce env, log_eventType = env_eventType env,
              log_payloadHash = pge_hash pge bytes, plg_id = logId\<rparr>]\<rparr>))"

definition hashed_log :: "peering_env \<Rightarrow> ident \<Rightarrow> envelope \<Rightarrow> peering_world \<Rightarrow> ident peering_result" where
  "hashed_log pge peerId env w =
     (case canonical_bytes (env_payload env) of
        Inl _ \<Rightarrow> (Inl PeeringThrown, w)
      | Inr bytes \<Rightarrow>
          let (logId, w) = peering_ulid w
          in case log_peering pge peerId env bytes logId w of (Inl e, w) \<Rightarrow> (Inl e, w) | (Inr _, w) \<Rightarrow> (Inr logId, w))"

section \<open>Requests\<close>

definition request_check :: "peering_env \<Rightarrow> millis \<Rightarrow> json \<Rightarrow> peering_error + byte list \<times> envelope" where
  "request_check pge now body =
     (let host = fld_text body ''fromInstance''
      in if host = [] then Inl (PeeringError PeerBadEnvelope ''envelope missing fromInstance'')
         else bind_result (guardPeerHost pge host) (\<lambda>_.
              bind_result (discover_peer pge host) (\<lambda>d.
                let rawKey = key_bytes (dd_instanceKey d)
                in bind_result (verified_envelope pge (pge_requestSchema pge) now rawKey body) (\<lambda>env. Inr (rawKey, env)))))"

definition new_peer :: "millis \<Rightarrow> ident \<Rightarrow> string \<Rightarrow> byte list \<Rightarrow> instance_status \<Rightarrow> string list \<Rightarrow> peering_row" where
  "new_peer now i host rawKey status caps =
     \<lparr>rin_id = i, rin_host = host, rin_status = status, rin_capabilities = caps, rin_instanceKey = rawKey, rin_previousInstanceKey = None,
      per_createdAt = now, per_peeredAt = None, per_peeredByUserId = None, per_revokedAt = None, per_revokedReason = None,
      per_contactEmail = None, per_note = None\<rparr>"

definition request_store :: "peering_env \<Rightarrow> millis \<Rightarrow> byte list \<Rightarrow> envelope \<Rightarrow> peering_world \<Rightarrow> ident peering_result" where
  "request_store pge now rawKey env w =
     (let payload = env_payload env;
          negotiated = intersectCapabilities (pge_localCapabilities pge) (texts_of (fld payload ''requestedCapabilities''));
          note = opt_of (fld payload ''note'')
      in case peer_by_host w (env_fromInstance env) of
           None \<Rightarrow>
             let (i, w) = peering_ulid w
             in (case create_peer ((new_peer now i (env_fromInstance env) rawKey PendingInbound negotiated)
                     \<lparr>per_contactEmail := opt_of (fld payload ''contactEmail''), per_note := note\<rparr>) w of
                   (Inl e, w) \<Rightarrow> (Inl e, w) | (Inr _, w) \<Rightarrow> (Inr i, w))
         | Some existing \<Rightarrow>
             if shut (rin_status existing) then
               (Inl (PeeringError PeerBlocked (''peer '' @ env_fromInstance env @ '' is '' @ status_text (rin_status existing))), w)
             else (case update_peer (rin_id existing) (\<lambda>r. r\<lparr>rin_instanceKey := rawKey, rin_capabilities := negotiated,
                            per_note := write_unless_undefined note (per_note r)\<rparr>) w of
                     (Inl e, w) \<Rightarrow> (Inl e, w) | (Inr _, w) \<Rightarrow> (Inr (rin_id existing), w)))"

definition recordInboundRequest :: "peering_env \<Rightarrow> millis \<Rightarrow> json \<Rightarrow> peering_world \<Rightarrow> (ident \<times> ident) peering_result" where
  "recordInboundRequest pge now body w =
     (case request_check pge now body of Inl e \<Rightarrow> (Inl e, w) | Inr (rawKey, env) \<Rightarrow>
      case request_store pge now rawKey env w of (Inl e, w) \<Rightarrow> (Inl e, w) | (Inr peerId, w) \<Rightarrow>
      case hashed_log pge peerId env w of (Inl e, w) \<Rightarrow> (Inl e, w) | (Inr logId, w) \<Rightarrow> (Inr (logId, peerId), w))"

section \<open>Acceptances\<close>

definition accept_check :: "peering_env \<Rightarrow> millis \<Rightarrow> json \<Rightarrow> peering_world \<Rightarrow> peering_error + peering_row \<times> byte list \<times> envelope" where
  "accept_check pge now body w =
     (let host = fld_text body ''fromInstance''
      in if fld body ''eventType'' \<noteq> JStr ''peering.accept'' then Inl (PeeringError PeerBadEnvelope ''expected eventType peering.accept'')
         else if host = [] then Inl (PeeringError PeerBadEnvelope ''envelope missing fromInstance'')
         else bind_result (guardPeerHost pge host) (\<lambda>_.
           case peer_by_host w host of
             None \<Rightarrow> Inl (PeeringError PeerBadEnvelope (''received peering.accept from unknown peer '' @ host))
           | Some existing \<Rightarrow>
               if shut (rin_status existing) then Inl (PeeringError PeerBlocked (''peer '' @ host @ '' is '' @ status_text (rin_status existing)))
               else bind_result (discover_peer pge host) (\<lambda>d.
                 let rawKey = key_bytes (dd_instanceKey d)
                 in bind_result (verified_envelope pge (pge_acceptSchema pge) now rawKey body) (\<lambda>env. Inr (existing, rawKey, env)))))"

definition accepted_row :: "peering_env \<Rightarrow> millis \<Rightarrow> byte list \<Rightarrow> envelope \<Rightarrow> peering_row \<Rightarrow> peering_row" where
  "accepted_row pge now rawKey env r =
     r\<lparr>rin_instanceKey := rawKey, rin_status := Peered,
       rin_capabilities := intersectCapabilities (pge_localCapabilities pge) (texts_of (fld (env_payload env) ''acceptedCapabilities'')),
       per_peeredAt := Some (get_or now (per_peeredAt r))\<rparr>"

text \<open>The transaction reads the row again; a failure undoes it.\<close>

definition accept_commit :: "peering_env \<Rightarrow> millis \<Rightarrow> peering_row \<Rightarrow> byte list \<Rightarrow> envelope \<Rightarrow> peering_world \<Rightarrow> (ident \<times> ident) peering_result" where
  "accept_commit pge now existing rawKey env w =
     (case canonical_bytes (env_payload env) of Inl _ \<Rightarrow> (Inl PeeringThrown, w) | Inr bytes \<Rightarrow>
      let (logId, w) = peering_ulid w; host = env_fromInstance env
      in case peer_by_id w (rin_id existing) of
           None \<Rightarrow> (Inl (PeeringError PeerBadEnvelope (''peer '' @ host @ '' was deleted concurrently'')), w)
         | Some fresh \<Rightarrow>
             if shut (rin_status fresh) then
               (Inl (PeeringError PeerBlocked (''peer '' @ host @ '' is '' @ status_text (rin_status fresh))), w)
             else if rin_status fresh \<noteq> PendingOutbound \<and> rin_status fresh \<noteq> Peered then
               (Inl (PeeringError PeerBadEnvelope (''peer '' @ host @ '' is '' @ status_text (rin_status fresh) @ ''; cannot accept'')), w)
             else case log_peering pge (rin_id fresh) env bytes logId
                         (snd (update_peer (rin_id fresh) (accepted_row pge now rawKey env) w)) of
               (Inl e, _) \<Rightarrow> (Inl e, w)
             | (Inr _, w) \<Rightarrow> (Inr (logId, rin_id existing), w))"

definition recordInboundAccept :: "peering_env \<Rightarrow> millis \<Rightarrow> json \<Rightarrow> peering_world \<Rightarrow> (ident \<times> ident) peering_result" where
  "recordInboundAccept pge now body w =
     (case accept_check pge now body w of Inl e \<Rightarrow> (Inl e, w) | Inr (existing, rawKey, env) \<Rightarrow> accept_commit pge now existing rawKey env w)"

section \<open>The public route\<close>

datatype peering_reply = PeeringDone ident ident | PeeringFailed int string | PeeringUnhandled

definition peering_status :: "peering_code \<Rightarrow> int" where
  "peering_status c = (case c of PeerBadEnvelope \<Rightarrow> 400 | PeerSignature \<Rightarrow> 401 | PeerReplay \<Rightarrow> 409 | PeerBlocked \<Rightarrow> 403 | PeerUnreachable \<Rightarrow> 502)"

definition peering_answer :: "peering_error + ident \<times> ident \<Rightarrow> peering_reply" where
  "peering_answer r =
     (case r of Inr (logId, peerId) \<Rightarrow> PeeringDone logId peerId
      | Inl (PeeringError c m) \<Rightarrow> PeeringFailed (peering_status c) m
      | Inl PeeringThrown \<Rightarrow> PeeringUnhandled)"

definition peering_route :: "peering_env \<Rightarrow> millis \<Rightarrow> json \<Rightarrow> peering_world \<Rightarrow> peering_reply \<times> peering_world" where
  "peering_route pge now body w =
     (let ty = fld body ''eventType''
      in if ty = JStr ''peering.request'' then map_prod peering_answer id (recordInboundRequest pge now body w)
         else if ty = JStr ''peering.accept'' then map_prod peering_answer id (recordInboundAccept pge now body w)
         else (PeeringFailed 400 (''unsupported eventType: '' @ (case ty of JStr s \<Rightarrow> s | _ \<Rightarrow> ''missing'')), w))"

section \<open>The administrator\<close>

text \<open>Posting is tried again once when the server fails; the answer has to be JSON.\<close>

definition postPeeringEnvelope :: "peering_env \<Rightarrow> string \<Rightarrow> json \<Rightarrow> peering_world \<Rightarrow> unit peering_result" where
  "postPeeringEnvelope pge url body w =
     (let read = (\<lambda>r. case r of Response status _ (Inr _) \<Rightarrow> if is_ok status then Inr () else Inl PeeringThrown | _ \<Rightarrow> Inl PeeringThrown);
          w1 = w\<lparr>pw_posts := pw_posts w @ [(url, body)]\<rparr>
      in case pge_post pge 0 url body of
           NetworkError _ \<Rightarrow> (Inl PeeringThrown, w1)
         | Response status t v \<Rightarrow>
             if \<not> is_ok status \<and> 500 \<le> status then (read (pge_post pge 1 url body), w1\<lparr>pw_posts := pw_posts w1 @ [(url, body)]\<rparr>)
             else (read (Response status t v), w1))"

definition peering_input :: "peering_env \<Rightarrow> string \<Rightarrow> string \<Rightarrow> json \<Rightarrow> build_input" where
  "peering_input pge ty host payload =
     \<lparr>bi_eventType = ty, bi_fromInstance = pge_selfHost pge, bi_toInstance = host, bi_payload = payload,
      bi_lifetimeSeconds = None, bi_notBefore = None\<rparr>"

definition undefined_or :: "string option \<Rightarrow> json" where "undefined_or v = (case v of None \<Rightarrow> JUndefined | Some s \<Rightarrow> JStr s)"

definition send_peering :: "peering_env \<Rightarrow> millis \<Rightarrow> string \<Rightarrow> discovery \<Rightarrow> string \<Rightarrow> json \<Rightarrow> peering_world \<Rightarrow> unit peering_result" where
  "send_peering pge now ty d host payload w =
     (let (nonce, w) = peering_ulid w
      in case buildSignedEnvelope now nonce (peering_input pge ty host payload) (pge_sign pge) of
           Inl _ \<Rightarrow> (Inl PeeringThrown, w)
         | Inr env \<Rightarrow> postPeeringEnvelope pge (dd_peering d) (wire (envelope_json env)) w)"

definition listPeers :: "peering_env \<Rightarrow> peering_world \<Rightarrow> (peering_row \<times> string option) list" where
  "listPeers pge w = map (\<lambda>r. (r, computeKeyFingerprint pge (rin_instanceKey r))) (sort_key (\<lambda>r. - per_createdAt r) (pw_peers w))"

definition initiate_store :: "millis \<Rightarrow> string \<Rightarrow> ident \<Rightarrow> byte list \<Rightarrow> string list \<Rightarrow> string option \<Rightarrow> peering_world \<Rightarrow> ident peering_result" where
  "initiate_store now host adminUserId rawKey negotiated note w =
     (case peer_by_host w host of
        None \<Rightarrow>
          let (i, w) = peering_ulid w
          in (case create_peer ((new_peer now i host rawKey PendingOutbound negotiated)\<lparr>per_note := note, per_peeredByUserId := Some adminUserId\<rparr>) w of
                (Inl e, w) \<Rightarrow> (Inl e, w) | (Inr _, w) \<Rightarrow> (Inr i, w))
      | Some existing \<Rightarrow>
          (case update_peer (rin_id existing) (\<lambda>r. r\<lparr>rin_instanceKey := rawKey, rin_status := PendingOutbound, rin_capabilities := negotiated,
                  per_note := write_unless_undefined note (per_note r), per_peeredByUserId := Some adminUserId\<rparr>) w of
             (Inl e, w) \<Rightarrow> (Inl e, w) | (Inr _, w) \<Rightarrow> (Inr (rin_id existing), w)))"

definition initiatePeering :: "peering_env \<Rightarrow> millis \<Rightarrow> string \<Rightarrow> ident \<Rightarrow> string list \<Rightarrow> string option \<Rightarrow> peering_world \<Rightarrow> ident peering_result" where
  "initiatePeering pge now host adminUserId requested note w =
     (case guardPeerHost pge host of Inl e \<Rightarrow> (Inl e, w) | Inr _ \<Rightarrow>
      case discover_peer pge host of Inl e \<Rightarrow> (Inl e, w) | Inr d \<Rightarrow>
      let peerAdvertised = filter (\<lambda>c. c \<in> set CAPABILITIES) (dd_capabilities d);
          negotiated = intersectCapabilities (pge_localCapabilities pge) (intersectCapabilities requested peerAdvertised)
      in case initiate_store now host adminUserId (key_bytes (dd_instanceKey d)) negotiated note w of
           (Inl e, w) \<Rightarrow> (Inl e, w)
         | (Inr i, w) \<Rightarrow>
             (case send_peering pge now ''peering.request'' d host
                     (JObj [(''requestedCapabilities'', JArr (map JStr requested)), (''note'', undefined_or note)]) w of
                (Inl e, w) \<Rightarrow> (Inl e, w)
              | (Inr _, w) \<Rightarrow> (Inr i, w)))"

text \<open>Telling the peer of an approval or a revocation: every failure is swallowed.\<close>

definition tell_peer :: "peering_env \<Rightarrow> millis \<Rightarrow> string \<Rightarrow> string \<Rightarrow> json \<Rightarrow> peering_world \<Rightarrow> peering_world" where
  "tell_peer pge now ty host payload w =
     (case discover_peer pge host of Inl _ \<Rightarrow> w | Inr d \<Rightarrow> snd (send_peering pge now ty d host payload w))"

definition approve_check :: "ident \<Rightarrow> peering_world \<Rightarrow> peering_error + peering_row" where
  "approve_check i w =
     (case peer_by_id w i of
        None \<Rightarrow> Inl (PeeringError PeerBadEnvelope (''peer '' @ i @ '' not found''))
      | Some peer \<Rightarrow>
          if rin_status peer \<noteq> PendingInbound then
            Inl (PeeringError PeerBadEnvelope (''peer is '' @ status_text (rin_status peer) @ ''; only pending_inbound peers can be approved on this side''))
          else Inr peer)"

definition approve_store :: "millis \<Rightarrow> ident \<Rightarrow> ident \<Rightarrow> peering_world \<Rightarrow> unit peering_result" where
  "approve_store now i adminUserId w =
     update_peer i (\<lambda>r. r\<lparr>rin_status := Peered, per_peeredAt := Some now, per_peeredByUserId := Some adminUserId\<rparr>) w"

definition approvePeer :: "peering_env \<Rightarrow> millis \<Rightarrow> ident \<Rightarrow> ident \<Rightarrow> peering_world \<Rightarrow> unit peering_result" where
  "approvePeer pge now i adminUserId w =
     (case approve_check i w of Inl e \<Rightarrow> (Inl e, w) | Inr peer \<Rightarrow>
      case approve_store now i adminUserId w of (Inl e, w) \<Rightarrow> (Inl e, w) | (Inr _, w) \<Rightarrow>
        (Inr (), tell_peer pge now ''peering.accept'' (rin_host peer)
           (JObj [(''acceptedCapabilities'', JArr (map JStr (rin_capabilities peer)))]) w))"

definition revokePeer :: "peering_env \<Rightarrow> millis \<Rightarrow> ident \<Rightarrow> string option \<Rightarrow> peering_world \<Rightarrow> unit peering_result" where
  "revokePeer pge now i reason w =
     (case peer_by_id w i of
        None \<Rightarrow> (Inl (PeeringError PeerBadEnvelope (''peer '' @ i @ '' not found'')), w)
      | Some peer \<Rightarrow>
          (case update_peer i (\<lambda>r. r\<lparr>rin_status := Revoked, per_revokedAt := Some now,
                  per_revokedReason := write_unless_undefined reason (per_revokedReason r)\<rparr>) w of
             (Inl e, w) \<Rightarrow> (Inl e, w)
           | (Inr _, w) \<Rightarrow> (Inr (), tell_peer pge now ''peering.revoke'' (rin_host peer) (JObj [(''reason'', undefined_or reason)]) w)))"

text \<open>The routes of the administrator do nothing for others.\<close>

definition admin_only :: "bool \<Rightarrow> (peering_world \<Rightarrow> 'a peering_result) \<Rightarrow> peering_world \<Rightarrow> ((tavern_error + peering_error) + 'a) \<times> peering_world" where
  "admin_only isInstanceAdmin act w =
     (if \<not> isInstanceAdmin then (Inl (Inl (forbidden (Some ''Instance admins only''))), w)
      else case act w of (Inl e, w) \<Rightarrow> (Inl (Inr e), w) | (Inr a, w) \<Rightarrow> (Inr a, w))"

end
