(* ===== verification/PeeringFacts.thy ===== *)
theory PeeringFacts
  imports Peering
begin

text \<open>
  What the handshake guarantees: who becomes a peer, what a refusal leaves, what a race with a revocation ends in, and
  which handshakes never end.
\<close>

section \<open>Rows\<close>

definition peers_ok :: "peering_world \<Rightarrow> bool" where
  "peers_ok w \<longleftrightarrow> distinct (map rin_id (pw_peers w)) \<and> distinct (map rin_host (pw_peers w))"

text \<open>An update that changes neither key of a row.\<close>

definition keeps_keys :: "(peering_row \<Rightarrow> peering_row) \<Rightarrow> bool" where
  "keeps_keys f \<longleftrightarrow> (\<forall>r. rin_id (f r) = rin_id r \<and> rin_host (f r) = rin_host r)"

lemma map_update_keys: "keeps_keys f \<Longrightarrow> map rin_id (update_where P f rs) = map rin_id rs"
  "keeps_keys f \<Longrightarrow> map rin_host (update_where P f rs) = map rin_host rs"
  by (simp_all add: update_where_def keeps_keys_def)

lemma find_by_keyD:
  "peer_by_id w i = Some r \<Longrightarrow> r \<in> set (pw_peers w) \<and> rin_id r = i"
  "peer_by_host w h = Some r \<Longrightarrow> r \<in> set (pw_peers w) \<and> rin_host r = h"
  by (auto simp: peer_by_id_def peer_by_host_def find_Some_iff)

lemma find_none: "peer_by_id w i = None \<longleftrightarrow> i \<notin> rin_id ` set (pw_peers w)" "peer_by_host w h = None \<longleftrightarrow> h \<notin> rin_host ` set (pw_peers w)"
  by (auto simp: peer_by_id_def peer_by_host_def find_None_iff)

lemma find_by_key:
  assumes "peers_ok w" "r \<in> set (pw_peers w)"
  shows "peer_by_id w (rin_id r) = Some r" "peer_by_host w (rin_host r) = Some r"
proof -
  show "peer_by_id w (rin_id r) = Some r"
  proof (cases "peer_by_id w (rin_id r)")
    case None
    then show ?thesis using assms(2) by (simp add: find_none)
  next
    case (Some x)
    then show ?thesis using find_by_keyD(1) [OF Some] assms by (auto simp: peers_ok_def distinct_map dest: inj_onD)
  qed
  show "peer_by_host w (rin_host r) = Some r"
  proof (cases "peer_by_host w (rin_host r)")
    case None
    then show ?thesis using assms(2) by (simp add: find_none)
  next
    case (Some x)
    then show ?thesis using find_by_keyD(2) [OF Some] assms by (auto simp: peers_ok_def distinct_map dest: inj_onD)
  qed
qed

lemma update_peer_ok:
  assumes "peers_ok w" "keeps_keys f"
  shows "peers_ok (snd (update_peer i f w))"
  using assms by (simp add: update_peer_def peers_ok_def map_update_keys)

lemma create_peer_ok: "peers_ok w \<Longrightarrow> peers_ok (snd (create_peer r w))"
  by (auto simp: create_peer_def peers_ok_def find_none)

text \<open>The parts that leave the peers alone.\<close>

lemma log_keeps [simp]:
  "pw_peers (snd (log_peering pge i env b l w)) = pw_peers w" "pw_posts (snd (log_peering pge i env b l w)) = pw_posts w"
  "pw_peers (snd (hashed_log pge i env w)) = pw_peers w" "pw_posts (snd (hashed_log pge i env w)) = pw_posts w"
  by (simp_all add: log_peering_def hashed_log_def peering_ulid_def Let_def split: sum.split)

lemma update_keeps [simp]:
  "pw_posts (snd (update_peer i f w)) = pw_posts w" "pw_log (snd (update_peer i f w)) = pw_log w" "pw_posts (snd (create_peer r w)) = pw_posts w"
  "pw_log (snd (create_peer r w)) = pw_log w"
  by (simp_all add: update_peer_def create_peer_def)

lemma ulid_keeps [simp]:
  "pw_peers (snd (peering_ulid w)) = pw_peers w" "pw_posts (snd (peering_ulid w)) = pw_posts w" "pw_log (snd (peering_ulid w)) = pw_log w"
  "peer_by_id (snd (peering_ulid w)) = peer_by_id w" "peer_by_host (snd (peering_ulid w)) = peer_by_host w"
  by (simp_all add: peering_ulid_def peer_by_id_def peer_by_host_def fun_eq_iff)

lemma post_keeps [simp]: "pw_peers (snd (postPeeringEnvelope pge url b w)) = pw_peers w" "pw_log (snd (postPeeringEnvelope pge url b w)) = pw_log w"
  by (simp_all add: postPeeringEnvelope_def Let_def split: fetch_result.split)

lemma send_keeps [simp]: "pw_peers (snd (send_peering pge now ty d h p w)) = pw_peers w" "pw_log (snd (send_peering pge now ty d h p w)) = pw_log w"
  by (simp_all add: send_peering_def case_prod_beta split: sum.split)

lemma tell_keeps [simp]: "pw_peers (tell_peer pge now ty h p w) = pw_peers w" "pw_log (tell_peer pge now ty h p w) = pw_log w"
  by (simp_all add: tell_peer_def split: sum.split)

lemma peers_ok_cong: "pw_peers w = pw_peers w' \<Longrightarrow> peers_ok w = peers_ok w'"
  by (simp add: peers_ok_def)

text \<open>What is posted carries the event type it was built with.\<close>

lemma built_type: "buildSignedEnvelope now nonce i sign = Inr env \<Longrightarrow> env_eventType env = bi_eventType i"
  by (auto simp: buildSignedEnvelope_def sign_envelope_def Let_def split: sum.splits)

lemma wired_type: "fld (wire (envelope_json env)) ''eventType'' = JStr (env_eventType env)"
  by (simp add: envelope_json_def unsigned_members_def fld_def member_def)

lemma post_posts: "x \<in> set (pw_posts (snd (postPeeringEnvelope pge url b w))) \<Longrightarrow> x \<in> set (pw_posts w) \<or> x = (url, b)"
  by (auto simp: postPeeringEnvelope_def Let_def split: fetch_result.splits if_splits)

lemma send_posts:
  "x \<in> set (pw_posts (snd (send_peering pge now ty d h p w))) \<Longrightarrow> x \<in> set (pw_posts w) \<or> (fst x = dd_peering d \<and> fld (snd x) ''eventType'' = JStr ty)"
  by (auto simp: send_peering_def case_prod_beta wired_type peering_input_def dest!: built_type post_posts split: sum.splits)

lemma tell_posts:
  "x \<in> set (pw_posts (tell_peer pge now ty h p w)) \<Longrightarrow> x \<in> set (pw_posts w) \<or>
     (\<exists>d. pge_discover pge h = Some d \<and> fst x = dd_peering d \<and> fld (snd x) ''eventType'' = JStr ty)"
  by (auto simp: tell_peer_def discover_peer_def split: sum.splits option.splits dest!: send_posts)

section \<open>The state machine of a peer\<close>

datatype peering_op =
    PublicOp millis json
  | InitiateOp millis string ident "string list" "string option"
  | ApproveOp millis ident ident
  | RevokeOp millis ident "string option"

fun peering_step :: "peering_env \<Rightarrow> peering_op \<Rightarrow> peering_world \<Rightarrow> peering_world" where
  "peering_step pge (PublicOp now body) w = snd (peering_route pge now body w)"
| "peering_step pge (InitiateOp now host admin caps note) w = snd (initiatePeering pge now host admin caps note w)"
| "peering_step pge (ApproveOp now i admin) w = snd (approvePeer pge now i admin w)"
| "peering_step pge (RevokeOp now i reason) w = snd (revokePeer pge now i reason w)"

text \<open>A body by which the host accepts: signed with the key it publishes.\<close>

definition consented :: "peering_env \<Rightarrow> millis \<Rightarrow> json \<Rightarrow> string \<Rightarrow> bool" where
  "consented pge now body host \<longleftrightarrow> fld body ''eventType'' = JStr ''peering.accept'' \<and> fld_text body ''fromInstance'' = host \<and>
     (\<exists>d env. pge_discover pge host = Some d \<and> verified_envelope pge (pge_acceptSchema pge) now (key_bytes (dd_instanceKey d)) body = Inr env)"

definition moved :: "peering_env \<Rightarrow> peering_op \<Rightarrow> peering_row \<Rightarrow> instance_status \<Rightarrow> bool" where
  "moved pge op r s \<longleftrightarrow> s = rin_status r \<or>
     (case op of
        PublicOp now body \<Rightarrow> s = Peered \<and> rin_status r \<in> {PendingOutbound, Peered} \<and> consented pge now body (rin_host r)
      | InitiateOp _ host _ _ _ \<Rightarrow> s = PendingOutbound \<and> rin_host r = host
      | ApproveOp _ i _ \<Rightarrow> s = Peered \<and> rin_status r = PendingInbound \<and> rin_id r = i
      | RevokeOp _ i _ \<Rightarrow> s = Revoked \<and> rin_id r = i)"

definition appeared :: "peering_op \<Rightarrow> instance_status \<Rightarrow> bool" where
  "appeared op s \<longleftrightarrow> (case op of PublicOp _ body \<Rightarrow> s = PendingInbound \<and> fld body ''eventType'' = JStr ''peering.request''
     | InitiateOp _ _ _ _ _ \<Rightarrow> s = PendingOutbound | _ \<Rightarrow> False)"

definition same_peer :: "peering_row \<Rightarrow> peering_row \<Rightarrow> bool" where
  "same_peer r r' \<longleftrightarrow> rin_id r' = rin_id r \<and> rin_host r' = rin_host r"

definition evolves :: "peering_env \<Rightarrow> peering_op \<Rightarrow> peering_world \<Rightarrow> peering_world \<Rightarrow> bool" where
  "evolves pge op w w' \<longleftrightarrow> peers_ok w' \<and>
     (\<forall>r' \<in> set (pw_peers w'). (\<exists>r \<in> set (pw_peers w). same_peer r r' \<and> moved pge op r (rin_status r')) \<or>
        (rin_host r' \<notin> rin_host ` set (pw_peers w) \<and> appeared op (rin_status r'))) \<and>
     (\<forall>r \<in> set (pw_peers w). \<exists>r' \<in> set (pw_peers w'). same_peer r r')"

lemma evolves_refl: "peers_ok w \<Longrightarrow> pw_peers w' = pw_peers w \<Longrightarrow> evolves pge op w w'"
  unfolding evolves_def by (auto simp: same_peer_def moved_def peers_ok_def)

lemma evolves_cong: "evolves pge op w w' \<Longrightarrow> pw_peers w'' = pw_peers w' \<Longrightarrow> evolves pge op w w''"
  by (simp add: evolves_def peers_ok_def)

lemma evolves_from: "evolves pge op w w' \<Longrightarrow> pw_peers v = pw_peers w \<Longrightarrow> evolves pge op v w'"
  by (simp add: evolves_def)

lemma evolves_update:
  assumes ok: "peers_ok w" and f: "keeps_keys f" and m: "\<And>r. peer_by_id w i = Some r \<Longrightarrow> moved pge op r (rin_status (f r))"
  shows "evolves pge op w (snd (update_peer i f w))"
proof (cases "peer_by_id w i")
  case None
  then show ?thesis using evolves_refl [OF ok] by (simp add: update_peer_def)
next
  case (Some r0)
  have step: "\<exists>r \<in> set (pw_peers w). same_peer r r' \<and> moved pge op r (rin_status r')"
    if h: "r' \<in> set (update_where (\<lambda>r. rin_id r = i) f (pw_peers w))" for r'
  proof -
    obtain r where r: "r \<in> set (pw_peers w)" "r' = (if rin_id r = i then f r else r)" using h unfolding update_where_def set_map by blast
    show ?thesis
    proof (cases "rin_id r = i")
      case True
      then have "peer_by_id w i = Some r" using find_by_key(1) [OF ok r(1)] by simp
      then show ?thesis using m r True f by (auto simp: same_peer_def keeps_keys_def intro!: bexI [of _ r])
    next
      case False
      then show ?thesis using r by (auto simp: same_peer_def moved_def intro!: bexI [of _ r])
    qed
  qed
  have kept: "\<exists>r' \<in> set (update_where (\<lambda>r. rin_id r = i) f (pw_peers w)). same_peer r r'" if "r \<in> set (pw_peers w)" for r
    using that f by (auto simp: update_where_def same_peer_def keeps_keys_def)
  show ?thesis
    using step kept update_peer_ok [OF ok f, of i] Some unfolding evolves_def by (auto simp: update_peer_def)
qed

lemma evolves_create:
  assumes "peers_ok w" "appeared op (rin_status r)"
  shows "evolves pge op w (snd (create_peer r w))"
  using assms create_peer_ok [OF assms(1), of r] unfolding evolves_def
  by (auto simp: create_peer_def find_none same_peer_def moved_def)

lemma snd_pass: "snd (case r of (Inl e, w) \<Rightarrow> (Inl e, w) | (Inr x, w) \<Rightarrow> (Inr (g x), w)) = snd r"
  by (auto split: prod.split sum.split)

lemma shut_keys [simp]: "keeps_keys (accepted_row pge now k env)"
  "keeps_keys (\<lambda>r. r\<lparr>rin_status := s, per_peeredAt := a, per_peeredByUserId := b\<rparr>)"
  "keeps_keys (\<lambda>r. r\<lparr>rin_status := s, per_revokedAt := a, per_revokedReason := g r\<rparr>)"
  "keeps_keys (\<lambda>r. r\<lparr>rin_instanceKey := k, rin_capabilities := c, per_note := g r\<rparr>)"
  "keeps_keys (\<lambda>r. r\<lparr>rin_instanceKey := k, rin_status := s, rin_capabilities := c, per_note := g r, per_peeredByUserId := b\<rparr>)"
  by (simp_all add: keeps_keys_def accepted_row_def)

lemma request_evolves:
  assumes "peers_ok w" "fld body ''eventType'' = JStr ''peering.request''"
  shows "evolves pge (PublicOp now body) w (snd (recordInboundRequest pge now body w))"
proof -
  have store: "evolves pge (PublicOp now body) w (snd (request_store pge now k env w))" for k env
  proof (cases "peer_by_host w (env_fromInstance env)")
    case None
    obtain i v where u: "peering_ulid w = (i, v)" by (cases "peering_ulid w")
    have v: "pw_peers v = pw_peers w" using ulid_keeps(1) [of w] by (simp add: u)
    show ?thesis
      unfolding request_store_def Let_def None option.case u prod.case snd_pass [where g = "\<lambda>_. i"]
      by (rule evolves_from [OF evolves_create v [symmetric]])
         (use assms v in \<open>auto simp: appeared_def new_peer_def peers_ok_def\<close>)
  next
    case (Some r)
    have "evolves pge (PublicOp now body) w (snd (update_peer (rin_id r) f w))"
      if "keeps_keys f" "\<And>x. rin_status (f x) = rin_status x" for f
      by (rule evolves_update [OF assms(1) that(1)]) (simp add: moved_def that(2))
    then show ?thesis
      unfolding request_store_def Let_def Some option.case snd_pass [where g = "\<lambda>_. rin_id r"]
      using evolves_refl [OF assms(1)] by (auto simp: snd_pass [where g = "\<lambda>_. rin_id r"])
  qed
  show ?thesis
  proof (cases "request_check pge now body")
    case (Inl e)
    then show ?thesis using evolves_refl [OF assms(1)] by (simp add: recordInboundRequest_def)
  next
    case (Inr ke)
    obtain k env where ke: "ke = (k, env)" by (cases ke)
    obtain q v where q: "request_store pge now k env w = (q, v)" by (cases "request_store pge now k env w")
    have "pw_peers u = pw_peers v" if "hashed_log pge x env v = (r, u)" for x r u
      using log_keeps(3) [of pge x env v] that by simp
    then have "pw_peers (snd (recordInboundRequest pge now body w)) = pw_peers v"
      using Inr ke q by (auto simp: recordInboundRequest_def split: sum.split prod.split)
    then show ?thesis using evolves_cong [OF store [of k env]] by (simp add: q)
  qed
qed

lemma accept_evolves:
  assumes "peers_ok w" "fld body ''eventType'' = JStr ''peering.accept''"
  shows "evolves pge (PublicOp now body) w (snd (recordInboundAccept pge now body w))"
proof (cases "accept_check pge now body w")
  case (Inl e)
  then show ?thesis using evolves_refl [OF assms(1)] by (simp add: recordInboundAccept_def)
next
  case (Inr x)
  obtain r k env where x: "x = (r, k, env)" by (cases x)
  have c: "consented pge now body (fld_text body ''fromInstance'')" and h: "peer_by_host w (fld_text body ''fromInstance'') = Some r"
    using Inr x assms(2)
    by (auto simp: accept_check_def Let_def bind_result_def discover_peer_def consented_def split: if_splits sum.splits option.splits)
  have id: "peer_by_id w (rin_id r) = Some r" "rin_host r = fld_text body ''fromInstance''"
    using find_by_key(1) [OF assms(1)] find_by_keyD(2) [OF h] by auto
  show ?thesis
  proof (cases "pw_peers (snd (accept_commit pge now r k env w)) = pw_peers w")
    case True
    then show ?thesis using evolves_refl [OF assms(1)] Inr x by (simp add: recordInboundAccept_def)
  next
    case False
    obtain i v where u: "peering_ulid w = (i, v)" by (cases "peering_ulid w")
    have v: "pw_peers v = pw_peers w" "peer_by_id v = peer_by_id w" using ulid_keeps(1,4) [of w] by (simp_all add: u)
    let ?u = "update_peer (rin_id r) (accepted_row pge now k env) v"
    have s: "rin_status r \<in> {PendingOutbound, Peered}" "pw_peers (snd (accept_commit pge now r k env w)) = pw_peers (snd ?u)"
    proof -
      have l: "pw_peers z = pw_peers (snd ?u)" if "log_peering pge j env b l (snd ?u) = (q, z)" for j b l q z
        using log_keeps(1) [of pge j env b l "snd ?u"] that by simp
      show "rin_status r \<in> {PendingOutbound, Peered}"
        using False id v by (auto simp: accept_commit_def Let_def u split: sum.splits prod.splits option.splits if_splits)
      show "pw_peers (snd (accept_commit pge now r k env w)) = pw_peers (snd ?u)"
        using False id v l by (auto simp: accept_commit_def Let_def u split: sum.splits prod.splits option.splits if_splits)
    qed
    have "evolves pge (PublicOp now body) v (snd ?u)"
      by (rule evolves_update) (use assms(1) v id s(1) c in \<open>auto simp: moved_def accepted_row_def peers_ok_def\<close>)
    then have "evolves pge (PublicOp now body) w (snd (accept_commit pge now r k env w))"
      using evolves_from [OF evolves_cong [OF _ s(2)]] v(1) by metis
    then show ?thesis using Inr x by (simp add: recordInboundAccept_def)
  qed
qed

lemma initiate_evolves:
  assumes "peers_ok w"
  shows "evolves pge (InitiateOp now host admin caps note) w (snd (initiatePeering pge now host admin caps note w))"
proof -
  let ?op = "InitiateOp now host admin caps note"
  have store: "evolves pge ?op w (snd (initiate_store now host admin k c note w))" for k c
  proof (cases "peer_by_host w host")
    case None
    obtain i v where u: "peering_ulid w = (i, v)" by (cases "peering_ulid w")
    have v: "pw_peers v = pw_peers w" using ulid_keeps(1) [of w] by (simp add: u)
    show ?thesis
      unfolding initiate_store_def Let_def None option.case u prod.case snd_pass [where g = "\<lambda>_. i"]
      by (rule evolves_from [OF evolves_create v [symmetric]])
         (use assms v in \<open>auto simp: appeared_def new_peer_def peers_ok_def\<close>)
  next
    case (Some r)
    show ?thesis
      unfolding initiate_store_def Let_def Some option.case snd_pass [where g = "\<lambda>_. rin_id r"]
      by (rule evolves_update [OF assms shut_keys(5)])
         (use find_by_keyD(2) [OF Some] find_by_key(1) [OF assms] in \<open>auto simp: moved_def\<close>)
  qed
  have sent: "pw_peers z = pw_peers v" if "send_peering pge now ty d h p v = (q, z)" for ty d h p v q z
    using send_keeps(1) [of pge now ty d h p v] that by simp
  show ?thesis
  proof (cases "guardPeerHost pge host")
    case (Inl e)
    then show ?thesis using evolves_refl [OF assms] by (simp add: initiatePeering_def)
  next
    case g: (Inr x)
    show ?thesis
    proof (cases "discover_peer pge host")
      case (Inl e)
      then show ?thesis using evolves_refl [OF assms] g by (simp add: initiatePeering_def)
    next
      case (Inr d)
      let ?c = "intersectCapabilities (pge_localCapabilities pge) (intersectCapabilities caps (filter (\<lambda>c. c \<in> set CAPABILITIES) (dd_capabilities d)))"
      obtain q v where q: "initiate_store now host admin (key_bytes (dd_instanceKey d)) ?c note w = (q, v)"
        by (cases "initiate_store now host admin (key_bytes (dd_instanceKey d)) ?c note w")
      have "pw_peers (snd (initiatePeering pge now host admin caps note w)) = pw_peers v"
        unfolding initiatePeering_def g Inr Let_def sum.case q prod.case by (cases q) (auto dest: sent split: sum.split prod.split)
      then show ?thesis using evolves_cong [OF store] q by (metis snd_conv)
    qed
  qed
qed

lemma approve_evolves:
  assumes "peers_ok w"
  shows "evolves pge (ApproveOp now i admin) w (snd (approvePeer pge now i admin w))"
proof (cases "approve_check i w")
  case (Inl e)
  then show ?thesis using evolves_refl [OF assms] by (simp add: approvePeer_def)
next
  case (Inr r)
  then have r: "peer_by_id w i = Some r" "rin_status r = PendingInbound" by (auto simp: approve_check_def split: option.splits if_splits)
  then have "evolves pge (ApproveOp now i admin) w (snd (approve_store now i admin w))"
    unfolding approve_store_def
    by (intro evolves_update [OF assms shut_keys(2)]) (auto simp: moved_def dest: find_by_keyD)
  then show ?thesis
    by (rule evolves_cong) (auto simp: approvePeer_def Inr split: sum.split prod.split)
qed

lemma revoke_evolves:
  assumes "peers_ok w"
  shows "evolves pge (RevokeOp now i reason) w (snd (revokePeer pge now i reason w))"
proof (cases "peer_by_id w i")
  case None
  then show ?thesis using evolves_refl [OF assms] by (simp add: revokePeer_def)
next
  case (Some r)
  have "evolves pge (RevokeOp now i reason) w (snd (update_peer i (\<lambda>r. r\<lparr>rin_status := Revoked, per_revokedAt := Some now,
      per_revokedReason := write_unless_undefined reason (per_revokedReason r)\<rparr>) w))"
    by (rule evolves_update [OF assms shut_keys(3)]) (auto simp: moved_def dest: find_by_keyD)
  then show ?thesis
    by (rule evolves_cong) (auto simp: revokePeer_def Some split: sum.split prod.split)
qed

lemma step_evolves:
  assumes "peers_ok w"
  shows "evolves pge op w (peering_step pge op w)"
proof (cases op)
  case (PublicOp now body)
  then show ?thesis
    using request_evolves [OF assms] accept_evolves [OF assms] evolves_refl [OF assms] by (simp add: peering_route_def Let_def)
qed (use initiate_evolves [OF assms] approve_evolves [OF assms] revoke_evolves [OF assms] in simp_all)

section \<open>Who becomes a peer\<close>

text \<open>
  C27. Nobody becomes a peer without consent. A row is peered after a step only if it was, or if an administrator approved the request
  pending for it, or if it was waiting for an answer and its host signed an acceptance with the key it publishes; and
  ids and hosts stay unique.
\<close>

theorem peering_needs_consent:
  assumes "peers_ok w" and "r' \<in> set (pw_peers (peering_step pge op w))" and "rin_status r' = Peered"
  shows "peers_ok (peering_step pge op w) \<and>
    (\<exists>r \<in> set (pw_peers w). rin_id r = rin_id r' \<and> rin_host r = rin_host r' \<and>
      (rin_status r = Peered \<or>
       (rin_status r = PendingInbound \<and> (\<exists>now admin. op = ApproveOp now (rin_id r) admin)) \<or>
       (rin_status r = PendingOutbound \<and> (\<exists>now body. op = PublicOp now body \<and> consented pge now body (rin_host r)))))"
proof -
  note e = step_evolves [OF assms(1), of pge op, unfolded evolves_def]
  have "\<not> appeared op (rin_status r')" using assms(3) by (auto simp: appeared_def split: peering_op.splits)
  then obtain r where "r \<in> set (pw_peers w)" "same_peer r r'" "moved pge op r (rin_status r')" using e assms(2) by blast
  then show ?thesis
    using e assms(3) by (intro conjI bexI [of _ r]) (auto simp: moved_def same_peer_def split: peering_op.splits)
qed

section \<open>Refusals\<close>

text \<open>
  A refused acceptance leaves no trace: whatever the reason, the peers, the log and the posts are as they were.
\<close>

theorem refused_acceptance_leaves_no_trace:
  assumes "recordInboundAccept pge now body w = (Inl e, w')"
  shows "pw_peers w' = pw_peers w \<and> pw_log w' = pw_log w \<and> pw_posts w' = pw_posts w"
proof (cases "accept_check pge now body w")
  case (Inl x)
  then show ?thesis using assms by (simp add: recordInboundAccept_def)
next
  case (Inr x)
  obtain r k env where x: "x = (r, k, env)" by (cases x)
  have c: "accept_commit pge now r k env w = (Inl e, w')" using assms Inr x by (simp add: recordInboundAccept_def)
  obtain i v where u: "peering_ulid w = (i, v)" by (cases "peering_ulid w")
  have v: "pw_peers v = pw_peers w" "pw_log v = pw_log w" "pw_posts v = pw_posts w" using ulid_keeps(1,2,3) [of w] by (simp_all add: u)
  have "w' = w \<or> w' = v"
    using c unfolding accept_commit_def u Let_def prod.case by (auto split: sum.splits prod.splits option.splits if_splits)
  then show ?thesis using v by auto
qed


section \<open>Revocations\<close>

text \<open>
  An acceptance that is being checked when the administrator revokes the peer is refused; an approval that has read the row before is not: it makes the
  revoked peer a peer again.
\<close>

theorem approval_overwrites_revocation:
  assumes "approve_check i w0 = Inr peer" and "peer_by_id w i = Some r" and "rin_status r = Revoked"
  shows "(\<exists>w' r'. approve_store now i admin w = (Inr (), w') \<and> r' \<in> set (pw_peers w') \<and> rin_id r' = i \<and> rin_status r' = Peered) \<and>
    (\<forall>(existing :: peering_row) rawKey env. rin_id existing = i \<longrightarrow>
       (\<exists>e w'. accept_commit pge now existing rawKey env w = (Inl e, w') \<and> pw_peers w' = pw_peers w))"
proof
  show "\<exists>w' r'. approve_store now i admin w = (Inr (), w') \<and> r' \<in> set (pw_peers w') \<and> rin_id r' = i \<and> rin_status r' = Peered"
    using find_by_keyD(1) [OF assms(2)] assms(2) by (auto simp: approve_store_def update_peer_def update_where_def)
  show "\<forall>(existing :: peering_row) rawKey env. rin_id existing = i \<longrightarrow>
       (\<exists>e w'. accept_commit pge now existing rawKey env w = (Inl e, w') \<and> pw_peers w' = pw_peers w)"
  proof (intro allI impI)
    fix existing :: peering_row and rawKey env
    assume e: "rin_id existing = i"
    obtain l v where u: "peering_ulid w = (l, v)" by (cases "peering_ulid w")
    have v: "pw_peers v = pw_peers w" "peer_by_id v i = Some r" using ulid_keeps(1,4) [of w] assms(2) by (simp_all add: u)
    show "\<exists>e w'. accept_commit pge now existing rawKey env w = (Inl e, w') \<and> pw_peers w' = pw_peers w"
      using v assms(3) by (simp add: accept_commit_def u e shut_def split: sum.split)
  qed
qed

text \<open>
  A revocation is never heard. What a revocation posts to the peer is an envelope the public route of every instance refuses as unsupported: the
  other side goes on treating this instance as its peer.
\<close>

theorem revocation_is_never_heard:
  assumes "revokePeer pge now i reason w = (Inr (), w')" and "x \<in> set (pw_posts w')" and "x \<notin> set (pw_posts w)"
  shows "peering_route pge' later (snd x) v = (PeeringFailed 400 ''unsupported eventType: peering.revoke'', v)"
proof -
  obtain r v1 h p where "w' = tell_peer pge now ''peering.revoke'' h p v1" "pw_posts v1 = pw_posts w"
  proof (cases "peer_by_id w i")
    case None
    then show thesis using assms(1) by (simp add: revokePeer_def)
  next
    case (Some r)
    let ?f = "\<lambda>r. r\<lparr>rin_status := Revoked, per_revokedAt := Some now, per_revokedReason := write_unless_undefined reason (per_revokedReason r)\<rparr>"
    obtain v1 where "update_peer i ?f w = (Inr (), v1)" "pw_posts v1 = pw_posts w" by (simp add: update_peer_def Some)
    moreover from this have "tell_peer pge now ''peering.revoke'' (rin_host r) (JObj [(''reason'', undefined_or reason)]) v1 = w'"
      using assms(1) by (simp add: revokePeer_def Some)
    ultimately show thesis using that by blast
  qed
  then have "fld (snd x) ''eventType'' = JStr ''peering.revoke''" using tell_posts [of x pge now "''peering.revoke''" h p v1] assms(2,3) by auto
  then show ?thesis by (simp add: peering_route_def)
qed

section \<open>Capabilities\<close>

lemma intersect_set: "set (intersectCapabilities a b) = set a \<inter> set b \<inter> set CAPABILITIES"
  by (auto simp: intersectCapabilities_def)

lemma intersect_eq: "intersectCapabilities a b = intersectCapabilities c d \<longleftrightarrow> set (intersectCapabilities a b) = set (intersectCapabilities c d)"
proof
  assume "set (intersectCapabilities a b) = set (intersectCapabilities c d)"
  then have "\<forall>x \<in> set CAPABILITIES. (x \<in> set a \<and> x \<in> set b) = (x \<in> set c \<and> x \<in> set d)" by (auto simp: intersect_set)
  then show "intersectCapabilities a b = intersectCapabilities c d" unfolding intersectCapabilities_def by (intro filter_cong) auto
qed simp

lemma texts_of_texts [simp]: "texts_of (JArr (map JStr cs)) = cs"
  by (simp add: texts_of_def txt_of_def comp_def)

text \<open>
  C29. Both sides agree on the capabilities only if the asking side asked for no more than it offers. The approving side keeps what it offers of what was
  asked; after its acceptance the asking side keeps what it offers itself of that: the two rows agree exactly if that is all. By default an administrator
  asks for every capability there is.
\<close>

theorem handshake_agrees_iff:
  assumes "texts_of (fld (env_payload request) ''requestedCapabilities'') = asked"
    and "request_store pgb now rawKey request w = (Inr i, w')" and "peers_ok w" and "peer_by_id w' i = Some there"
    and "env_payload acceptance = JObj [(''acceptedCapabilities'', JArr (map JStr (rin_capabilities there)))]"
  shows "rin_capabilities there = intersectCapabilities (pge_localCapabilities pgb) asked \<and>
    (rin_capabilities (accepted_row pga later rawKey' acceptance here) = rin_capabilities there \<longleftrightarrow>
     set (pge_localCapabilities pgb) \<inter> set asked \<inter> set CAPABILITIES \<subseteq> set (pge_localCapabilities pga))"
proof -
  have there: "rin_capabilities there = intersectCapabilities (pge_localCapabilities pgb) asked"
  proof (cases "peer_by_host w (env_fromInstance request)")
    case None
    obtain j v where u: "peering_ulid w = (j, v)" by (cases "peering_ulid w")
    have v: "pw_peers v = pw_peers w" using ulid_keeps(1) [of w] by (simp add: u)
    let ?row = "(new_peer now j (env_fromInstance request) rawKey PendingInbound (intersectCapabilities (pge_localCapabilities pgb) asked))
        \<lparr>per_contactEmail := opt_of (fld (env_payload request) ''contactEmail''), per_note := opt_of (fld (env_payload request) ''note'')\<rparr>"
    have "create_peer ?row v = (Inr (), w') \<and> i = j"
      using assms(1,2) unfolding request_store_def Let_def None option.case u prod.case by (auto split: prod.splits sum.splits)
    then have "pw_peers w' = pw_peers w @ [?row]" "j \<notin> rin_id ` set (pw_peers w)" "rin_id there = j"
      using v find_by_keyD(1) [OF assms(4)] by (auto simp: create_peer_def find_none new_peer_def split: if_splits)
    then have "there = ?row" using find_by_keyD(1) [OF assms(4)] by auto
    then have "rin_capabilities there = rin_capabilities ?row" by (rule arg_cong)
    then show ?thesis by (simp add: new_peer_def)
  next
    case (Some r)
    then have "i = rin_id r" "\<exists>f. pw_peers w' = update_where (\<lambda>x. rin_id x = rin_id r) f (pw_peers w) \<and> keeps_keys f \<and>
        (\<forall>x. rin_capabilities (f x) = intersectCapabilities (pge_localCapabilities pgb) asked)"
      using assms(1,2) by (auto simp: request_store_def Let_def update_peer_def keeps_keys_def split: if_splits intro!: exI)
    then show ?thesis
      using find_by_keyD(1) [OF assms(4)] by (auto simp: update_where_def keeps_keys_def split: if_splits)
  qed
  have "fld (env_payload acceptance) ''acceptedCapabilities'' = JArr (map JStr (rin_capabilities there))"
    by (simp add: assms(5) fld_def member_def)
  then have "rin_capabilities (accepted_row pga later rawKey' acceptance here) = intersectCapabilities (pge_localCapabilities pga) (rin_capabilities there)"
    by (simp add: accepted_row_def)
  then show ?thesis
    using there by (simp add: intersect_eq intersect_set) blast
qed

section \<open>Crossed requests\<close>

text \<open>An instance that waits for the other, and has accepted nobody.\<close>

definition waiting :: "string \<Rightarrow> peering_world \<Rightarrow> bool" where
  "waiting other w \<longleftrightarrow> peers_ok w \<and> other \<in> rin_host ` set (pw_peers w) \<and>
     (\<forall>r \<in> set (pw_peers w). rin_host r = other \<longrightarrow> rin_status r \<noteq> PendingInbound \<and> rin_status r \<noteq> Peered) \<and>
     (\<forall>x \<in> set (pw_posts w). fld (snd x) ''eventType'' \<noteq> JStr ''peering.accept'')"

text \<open>
  What may happen at it: any step of the public or of the administrators, where acceptances in the name of the other are ones the other
  posted, and approvals are those of the other.
\<close>

definition between :: "peering_env \<Rightarrow> string \<Rightarrow> peering_world \<Rightarrow> peering_world \<Rightarrow> peering_op \<Rightarrow> bool" where
  "between pge other there w op \<longleftrightarrow>
     (case op of
        PublicOp now body \<Rightarrow> consented pge now body other \<longrightarrow> body \<in> snd ` set (pw_posts there)
      | ApproveOp _ i _ \<Rightarrow> (\<forall>r \<in> set (pw_peers w). rin_id r = i \<longrightarrow> rin_host r = other)
      | _ \<Rightarrow> True)"

inductive handshake :: "peering_env \<Rightarrow> string \<Rightarrow> peering_env \<Rightarrow> string \<Rightarrow> peering_world \<times> peering_world \<Rightarrow> peering_world \<times> peering_world \<Rightarrow> bool"
  for ea a eb b s where
  handshake_start: "handshake ea a eb b s s"
| handshake_a: "handshake ea a eb b s (wa, wb) \<Longrightarrow> between ea b wb wa op \<Longrightarrow> handshake ea a eb b s (peering_step ea op wa, wb)"
| handshake_b: "handshake ea a eb b s (wa, wb) \<Longrightarrow> between eb a wa wb op \<Longrightarrow> handshake ea a eb b s (wa, peering_step eb op wb)"

lemma public_posts: "pw_posts (snd (peering_route pge now body w)) = pw_posts w"
proof -
  have "pw_posts (snd (recordInboundRequest pge now body w)) = pw_posts w"
  proof (cases "request_check pge now body")
    case (Inr ke)
    obtain k env where ke: "ke = (k, env)" by (cases ke)
    obtain q v where q: "request_store pge now k env w = (q, v)" by (cases "request_store pge now k env w")
    have "pw_posts (snd (request_store pge now k env w)) = pw_posts w"
      by (auto simp: request_store_def Let_def snd_pass [where g = "\<lambda>_. rin_id r" for r] split: option.split prod.split sum.split)
         (metis snd_conv ulid_keeps(2) update_keeps(1,3))+
    moreover have "pw_posts z = pw_posts v" if "hashed_log pge x env v = (r, z)" for x r z
      using log_keeps(4) [of pge x env v] that by simp
    ultimately show ?thesis using Inr ke q by (auto simp: recordInboundRequest_def split: sum.split prod.split)
  qed (simp add: recordInboundRequest_def)
  moreover have "pw_posts (snd (recordInboundAccept pge now body w)) = pw_posts w"
  proof (cases "accept_check pge now body w")
    case (Inr x)
    obtain r k env where x: "x = (r, k, env)" by (cases x)
    obtain i v where u: "peering_ulid w = (i, v)" by (cases "peering_ulid w")
    have v: "pw_posts v = pw_posts w" using ulid_keeps(2) [of w] by (simp add: u)
    have l: "pw_posts z = pw_posts w" if "log_peering pge j env bs i (snd (update_peer j f v)) = (q, z)" for j f bs q z
      using log_keeps(2) [of pge j env bs i "snd (update_peer j f v)"] that v by simp
    have "pw_posts (snd (accept_commit pge now r k env w)) = pw_posts w"
      unfolding accept_commit_def u Let_def prod.case using v by (auto dest: l split: sum.split prod.split option.split)
    then show ?thesis using Inr x by (simp add: recordInboundAccept_def)
  qed (simp add: recordInboundAccept_def)
  ultimately show ?thesis by (simp add: peering_route_def Let_def)
qed

lemma result_keeps:
  "update_peer i f w = (q, v) \<Longrightarrow> pw_posts v = pw_posts w" "create_peer r w = (q', v) \<Longrightarrow> pw_posts v = pw_posts w"
  "peering_ulid w = (j, v) \<Longrightarrow> pw_posts v = pw_posts w"
  using update_keeps(1) [of i f w] update_keeps(3) [of r w] ulid_keeps(2) [of w] by auto

lemma admin_posts:
  "x \<in> set (pw_posts (snd (initiatePeering pge now host admin caps note w))) \<Longrightarrow>
     x \<in> set (pw_posts w) \<or> fld (snd x) ''eventType'' = JStr ''peering.request''"
  "x \<in> set (pw_posts (snd (revokePeer pge now i reason w))) \<Longrightarrow> x \<in> set (pw_posts w) \<or> fld (snd x) ''eventType'' = JStr ''peering.revoke''"
proof -
  have store: "pw_posts v = pw_posts w" if "initiate_store now host admin k c note w = (q, v)" for k c q v
    using that by (auto simp: initiate_store_def Let_def dest!: result_keeps split: option.splits prod.splits sum.splits)
  have sent: "x \<in> set (pw_posts v') \<Longrightarrow> x \<in> set (pw_posts v) \<or> fld (snd x) ''eventType'' = JStr ty"
    if "send_peering pge now ty d h p v = (q, v')" for ty d h p v q v'
    using send_posts [of x pge now ty d h p v] that by auto
  show "x \<in> set (pw_posts (snd (initiatePeering pge now host admin caps note w))) \<Longrightarrow>
     x \<in> set (pw_posts w) \<or> fld (snd x) ''eventType'' = JStr ''peering.request''"
    by (auto simp: initiatePeering_def Let_def dest!: store split: sum.splits prod.splits) (drule sent, assumption, simp)+
  show "x \<in> set (pw_posts (snd (revokePeer pge now i reason w))) \<Longrightarrow> x \<in> set (pw_posts w) \<or> fld (snd x) ''eventType'' = JStr ''peering.revoke''"
    by (auto simp: revokePeer_def dest!: result_keeps(1) tell_posts split: option.splits sum.splits prod.splits)
qed

lemma waiting_step:
  assumes w: "waiting other w" and there: "\<forall>x \<in> set (pw_posts there). fld (snd x) ''eventType'' \<noteq> JStr ''peering.accept''"
    and op: "between pge other there w op"
  shows "waiting other (peering_step pge op w)"
proof -
  let ?w' = "peering_step pge op w"
  have ok: "peers_ok w" and known: "other \<in> rin_host ` set (pw_peers w)"
    and idle: "r \<in> set (pw_peers w) \<Longrightarrow> rin_host r = other \<Longrightarrow> rin_status r \<noteq> PendingInbound \<and> rin_status r \<noteq> Peered" for r
    using w by (auto simp: waiting_def)
  note e = step_evolves [OF ok, of pge op, unfolded evolves_def]
  have idle': "rin_status r' \<noteq> PendingInbound \<and> rin_status r' \<noteq> Peered" if r': "r' \<in> set (pw_peers ?w')" "rin_host r' = other" for r'
  proof -
    obtain r where r: "r \<in> set (pw_peers w)" "same_peer r r'" "moved pge op r (rin_status r')" using e r' known by blast
    have "\<not> (\<exists>now body. op = PublicOp now body \<and> consented pge now body other)"
      using op there unfolding between_def by (auto simp: consented_def)
    then show ?thesis using r idle [OF r(1)] r'(2) by (auto simp: moved_def same_peer_def split: peering_op.splits)
  qed
  have posts: "fld (snd x) ''eventType'' \<noteq> JStr ''peering.accept''" if x: "x \<in> set (pw_posts ?w')" for x
  proof (cases op)
    case (ApproveOp now i admin)
    have "approve_check i w \<noteq> Inr r" for r
      using op idle find_by_keyD(1) [of w i] unfolding ApproveOp between_def by (auto simp: approve_check_def split: option.splits)
    then obtain y where "approve_check i w = Inl y" by (cases "approve_check i w") auto
    then have "?w' = w" by (simp add: ApproveOp approvePeer_def)
    then show ?thesis using w x by (auto simp: waiting_def)
  next
    case (PublicOp now body)
    then show ?thesis using w x by (auto simp: waiting_def public_posts)
  next
    case (InitiateOp now host admin caps memo)
    then have "x \<in> set (pw_posts w) \<or> fld (snd x) ''eventType'' = JStr ''peering.request''" using x admin_posts(1) by simp
    then show ?thesis using w by (auto simp: waiting_def)
  next
    case (RevokeOp now i reason)
    then have "x \<in> set (pw_posts w) \<or> fld (snd x) ''eventType'' = JStr ''peering.revoke''" using x admin_posts(2) by simp
    then show ?thesis using w by (auto simp: waiting_def)
  qed
  obtain r where "r \<in> set (pw_peers w)" "rin_host r = other" using known by auto
  then have known': "other \<in> rin_host ` set (pw_peers ?w')" using e unfolding same_peer_def by (metis imageI)
  have "peers_ok ?w'" using e by blast
  then show ?thesis using known' idle' posts unfolding waiting_def by blast
qed


section \<open>What is not checked\<close>

text \<open>To whom an envelope is addressed makes no difference: an acceptance for one instance makes its sender the peer of any other that waits for it.\<close>

lemma peering_ignores_addressee: "peering_route (pge\<lparr>pge_selfHost := h\<rparr>) now body w = peering_route pge now body w"
proof -
  have env: "pge_resolver (pge\<lparr>pge_selfHost := h\<rparr>) = pge_resolver pge" "pge_discover (pge\<lparr>pge_selfHost := h\<rparr>) = pge_discover pge"
    "pge_verify (pge\<lparr>pge_selfHost := h\<rparr>) = pge_verify pge" "pge_requestSchema (pge\<lparr>pge_selfHost := h\<rparr>) = pge_requestSchema pge"
    "pge_acceptSchema (pge\<lparr>pge_selfHost := h\<rparr>) = pge_acceptSchema pge" "pge_hash (pge\<lparr>pge_selfHost := h\<rparr>) = pge_hash pge"
    "pge_localCapabilities (pge\<lparr>pge_selfHost := h\<rparr>) = pge_localCapabilities pge"
    by simp_all
  show ?thesis
    unfolding peering_route_def recordInboundRequest_def recordInboundAccept_def request_check_def request_store_def hashed_log_def log_peering_def
      accept_check_def accept_commit_def accepted_row_def [abs_def] guardPeerHost_def discover_peer_def verified_envelope_def env ..
qed

text \<open>A host that cannot be reached is not answered as such.\<close>

lemma unreachable_is_never_answered: "fst (peering_route pge now body w) \<noteq> PeeringFailed 502 m"
proof -
  have codes: "peering_status c = 502 \<longleftrightarrow> c = PeerUnreachable" for c by (cases c) (simp_all add: peering_status_def)
  have v: "verified_envelope pge z now k body \<noteq> Inl (PeeringError PeerUnreachable n)" for z k n
    by (simp add: verified_envelope_def split: sum.split verify_result.split)
  have g: "guardPeerHost pge h \<noteq> Inl (PeeringError PeerUnreachable n)" "discover_peer pge h \<noteq> Inl (PeeringError PeerUnreachable n)" for h n
    by (simp_all add: guardPeerHost_def discover_peer_def split: sum.split option.split)
  have l: "fst (log_peering pge i env bs l u) \<noteq> Inl (PeeringError PeerUnreachable n)" "fst (hashed_log pge i env u) \<noteq> Inl (PeeringError PeerUnreachable n)" for i env bs l u n
    by (auto simp: log_peering_def hashed_log_def Let_def split: sum.split prod.split)
  have s: "fst (request_store pge now k env u) \<noteq> Inl (PeeringError PeerUnreachable n)" for k env u n
    by (auto simp: request_store_def create_peer_def update_peer_def Let_def split: option.split prod.split sum.split if_splits)
  have chk1: "request_check pge now body \<noteq> Inl (PeeringError PeerUnreachable n)" for n
    using v g by (auto simp: request_check_def Let_def bind_result_def split: sum.splits if_splits)
  have req: "fst (recordInboundRequest pge now body w) \<noteq> Inl (PeeringError PeerUnreachable n)" for n
  proof (cases "request_check pge now body")
    case (Inl x)
    then show ?thesis using chk1 [of n] by (simp add: recordInboundRequest_def)
  next
    case (Inr x)
    obtain k env where x: "x = (k, env)" by (cases x)
    obtain q u where q: "request_store pge now k env w = (q, u)" by (cases "request_store pge now k env w")
    show ?thesis
    proof (cases q)
      case (Inl y)
      then show ?thesis using s [of k env w n] Inr x q by (simp add: recordInboundRequest_def)
    next
      case (Inr i)
      obtain h u' where "hashed_log pge i env u = (h, u')" by (cases "hashed_log pge i env u")
      then show ?thesis using l(2) [of i env u n] \<open>request_check pge now body = Inr x\<close> x q Inr
        by (cases h) (simp_all add: recordInboundRequest_def)
    qed
  qed
  have chk: "accept_check pge now body w \<noteq> Inl (PeeringError PeerUnreachable n)" for n
    using v g by (auto simp: accept_check_def Let_def bind_result_def split: sum.splits option.splits if_splits)
  have l': "x \<noteq> PeeringError PeerUnreachable n" if "log_peering pge i env bs k u = (Inl x, z)" for i env bs k u x z n
    using l(1) [of i env bs k u n] that by auto
  have com: "fst (accept_commit pge now r k env w) \<noteq> Inl (PeeringError PeerUnreachable n)" for r k env n
  proof -
    obtain i u where "peering_ulid w = (i, u)" by (cases "peering_ulid w")
    then show ?thesis using l' by (auto simp: accept_commit_def Let_def split: sum.splits prod.splits option.splits)
  qed
  have acc: "fst (recordInboundAccept pge now body w) \<noteq> Inl (PeeringError PeerUnreachable n)" for n
  proof (cases "accept_check pge now body w")
    case (Inl x)
    then show ?thesis using chk [of n] by (simp add: recordInboundAccept_def)
  next
    case (Inr x)
    then show ?thesis using com by (cases x) (simp add: recordInboundAccept_def)
  qed
  show ?thesis
  proof -
    have answer: "peering_answer r \<noteq> PeeringFailed 502 m" if "\<And>n. r \<noteq> Inl (PeeringError PeerUnreachable n)" for r
      using that codes by (auto simp: peering_answer_def split: sum.split prod.split peering_error.split)
    show ?thesis
      using answer [OF req] answer [OF acc] by (simp add: peering_route_def Let_def map_prod_def case_prod_beta)
  qed
qed

text \<open>What is posted goes to the address the peer names, whatever that is; only the host that named it is guarded.\<close>

lemma posts_go_where_told:
  assumes "x \<in> set (pw_posts (snd (approvePeer pge now i admin w)))" and "x \<notin> set (pw_posts w)"
  shows "\<exists>peer d. peer_by_id w i = Some peer \<and> pge_discover pge (rin_host peer) = Some d \<and> fst x = dd_peering d"
proof (cases "approve_check i w")
  case (Inl e)
  then show ?thesis using assms by (simp add: approvePeer_def)
next
  case (Inr peer)
  then have p: "peer_by_id w i = Some peer" by (auto simp: approve_check_def split: option.splits if_splits)
  have "pw_posts v = pw_posts w" if "approve_store now i admin w = (q, v)" for q v
    using that unfolding approve_store_def by (rule result_keeps(1))
  then show ?thesis
    using assms p Inr by (cases "approve_store now i admin w"; cases "fst (approve_store now i admin w)") (auto simp: approvePeer_def dest!: tell_posts)
qed

end
