(* ===== verification/PeeringExamples.thy ===== *)
theory PeeringExamples
  imports PeeringFacts
begin

text \<open>
  The handshake at work on an instance that knows one host, with a scheme that believes every signature that is the byte one.
\<close>

section \<open>An instance\<close>

definition peer_scheme :: scheme where "peer_scheme m s k \<longleftrightarrow> s = [1]"

definition quiet_resolver :: resolver where
  "quiet_resolver = \<lparr>rs_resolve4 = (\<lambda>h. None), rs_resolve6 = (\<lambda>h. None)\<rparr>"

definition peer_doc :: discovery where
  "peer_doc = \<lparr>dd_instanceKey = ''ed25519:'' @ base64_text (sample_key 1), dd_peering = ''u'', dd_capabilities = [''messages'']\<rparr>"

definition peering_sample :: "string list \<Rightarrow> peering_env" where
  "peering_sample caps = \<lparr>pge_selfHost = ''x.y'', pge_resolver = quiet_resolver, pge_discover = (\<lambda>h. if h = ''a.b'' then Some peer_doc else None),
     pge_verify = peer_scheme, pge_requestSchema = sample_schema, pge_acceptSchema = sample_schema, pge_hash = id, pge_sign = (\<lambda>_. Some [1]),
     pge_post = (\<lambda>_ _ _. NetworkError []), pge_localCapabilities = caps\<rparr>"

definition known_peer :: "instance_status \<Rightarrow> peering_row" where
  "known_peer status = new_peer 0 ''R'' ''a.b'' (sample_key 1) status [''messages'']"

definition peering_start :: "instance_status \<Rightarrow> peering_log list \<Rightarrow> peering_world" where
  "peering_start status log = \<lparr>pw_peers = [known_peer status], pw_log = log, pw_posts = [], pw_ulids = (\<lambda>_. ''Z''), pw_next = 0\<rparr>"

lemma sample_fields [simp]:
  "pge_discover (peering_sample c) ''a.b'' = Some peer_doc" "pge_verify (peering_sample c) = peer_scheme" "pge_localCapabilities (peering_sample c) = c"
  "pge_requestSchema (peering_sample c) = sample_schema" "pge_acceptSchema (peering_sample c) = sample_schema"
  "key_bytes (dd_instanceKey peer_doc) = sample_key 1" "guardPeerHost (peering_sample c) ''a.b'' = Inr ()"
  "rin_id (known_peer s) = ''R''" "rin_host (known_peer s) = ''a.b''" "rin_status (known_peer s) = s"
  by (simp_all add: peering_sample_def peer_doc_def key_bytes_def base64_roundtrip guardPeerHost_def quiet_resolver_def assertValidPeerHost_def bare_ipv4_def
      after_digits_def is_digit_def toLowerCase_def lower_char_def ends_def Let_def known_peer_def new_peer_def)

lemma start_fields [simp]:
  "pw_peers (peering_start s l) = [known_peer s]" "pw_log (peering_start s l) = l" "pw_posts (peering_start s l) = []" "peers_ok (peering_start s l)"
  "peer_by_id (peering_start s l) ''R'' = Some (known_peer s)" "peer_by_host (peering_start s l) ''a.b'' = Some (known_peer s)"
  by (simp_all add: peering_start_def peers_ok_def peer_by_id_def peer_by_host_def known_peer_def new_peer_def)

text \<open>Whatever the known host signs is accepted.\<close>

lemma peer_builds:
  assumes "canonicalize p \<noteq> None"
  obtains env where "buildSignedEnvelope 0 n \<lparr>bi_eventType = ty, bi_fromInstance = h, bi_toInstance = t, bi_payload = p,
     bi_lifetimeSeconds = None, bi_notBefore = None\<rparr> (\<lambda>_. Some [1]) = Inr env"
    "env_payload env = p" "env_eventType env = ty" "env_fromInstance env = h" "env_nonce env = n"
proof -
  let ?i = "\<lparr>bi_eventType = ty, bi_fromInstance = h, bi_toInstance = t, bi_payload = p, bi_lifetimeSeconds = None, bi_notBefore = None\<rparr>"
  have w: "window_start 0 ?i = 0" "window_end 0 ?i = 300000"
    by (simp_all add: window_start_def window_end_def ENVELOPE_DEFAULT_LIFETIME_S_def)
  obtain nb na where d: "toISOString 0 = Some nb" "toISOString 300000 = Some na"
    using toISOString_some [of 0] toISOString_some [of 300000] by (auto simp: MAX_TIME_def)
  define e0 where "e0 = \<lparr>env_version = PROTOCOL_VERSION, env_eventType = ty, env_nonce = n, env_notBefore = nb, env_notAfter = na,
     env_fromInstance = h, env_toInstance = t, env_payload = p, env_userSignature = None, env_signature = []\<rparr>"
  have "\<exists>m. envelopeSigningBytes e0 = Inr m"
    using assms by (auto simp: envelopeSigningBytes_def canonical_bytes_def canonicalize_def stringify_prints(1) unsigned_members_def e0_def
        split: if_splits option.splits)
  then obtain m where m: "envelopeSigningBytes e0 = Inr m" ..
  have "buildSignedEnvelope 0 n ?i (\<lambda>_. Some [1]) = Inr (e0\<lparr>env_signature := base64_text [1]\<rparr>)"
    using m by (simp add: buildSignedEnvelope_def sign_envelope_def iso_date_def w d run_signer_def Let_def flip: e0_def)
  then show ?thesis by (rule that) (simp_all add: e0_def)
qed

lemma peer_signs:
  assumes "canonicalize p \<noteq> None" "ty \<in> set ENVELOPE_EVENT_TYPES"
  obtains env where "verifyEnvelopeShape peer_scheme sample_schema 5 (sample_key 1) (envelope_json env) = Inr (Accepted env)"
    "env_payload env = p" "env_fromInstance env = ''a.b''" "env_eventType env = ty" "env_nonce env = replicate 20 (CHR ''A'')"
    "fld (envelope_json env) ''eventType'' = JStr ty" "fld_text (envelope_json env) ''fromInstance'' = ''a.b''"
proof -
  let ?n = "replicate 20 (CHR ''A'')"
  let ?i = "\<lparr>bi_eventType = ty, bi_fromInstance = ''a.b'', bi_toInstance = ''x.y'', bi_payload = p, bi_lifetimeSeconds = None, bi_notBefore = None\<rparr>"
  obtain env where e: "buildSignedEnvelope 0 ?n ?i (\<lambda>_. Some [1]) = Inr env" "env_payload env = p" "env_eventType env = ty"
    "env_fromInstance env = ''a.b''" "env_nonce env = ?n"
    by (rule peer_builds [OF assms(1)])
  have signs: "signs_for (\<lambda>_. Some [1]) peer_scheme (sample_key 1)" by (simp add: signs_for_def peer_scheme_def sample_keys)
  have "nonce_ok ?n" by (simp add: nonce_ok_def list_all_iff)
  then have "receivable sample_schema 0 5 ?n ?i p"
    using assms by (simp add: receivable_def host_ok_def sample_schema_def window_start_def window_end_def ENVELOPE_DEFAULT_LIFETIME_S_def)
  from single_accepted [OF e(1) signs sample_receivable(1) this]
  have "verifyEnvelopeShape peer_scheme sample_schema 5 (sample_key 1) (envelope_json env) = Inr (Accepted env)" by (simp flip: e(2))
  then show ?thesis by (rule that) (simp_all add: e fld_def fld_text_def txt_of_def envelope_json_def unsigned_members_def member_def)
qed

section \<open>Witnesses\<close>

theorem peering_needs_consent_witness:
  "\<exists>r' \<in> set (pw_peers (peering_step (peering_sample []) (ApproveOp 5 ''R'' ''root'') (peering_start PendingInbound []))).
     rin_status r' = Peered \<and> peers_ok (peering_step (peering_sample []) (ApproveOp 5 ''R'' ''root'') (peering_start PendingInbound []))"
proof -
  let ?op = "ApproveOp 5 ''R'' ''root''" and ?w = "peering_start PendingInbound []"
  have "approve_check ''R'' ?w = Inr (known_peer PendingInbound)" by (simp add: approve_check_def)
  then have "pw_peers (peering_step (peering_sample []) ?op ?w) = pw_peers (snd (approve_store 5 ''R'' ''root'' ?w))"
    by (simp add: approvePeer_def approve_store_def update_peer_def)
  then have "\<exists>r' \<in> set (pw_peers (peering_step (peering_sample []) ?op ?w)). rin_status r' = Peered"
    by (simp add: approve_store_def update_peer_def update_where_def)
  then show ?thesis using peering_needs_consent [of ?w _ "peering_sample []" ?op] by force
qed

lemma acceptance_checked:
  assumes "rin_status (known_peer s) = PendingOutbound \<or> s = PendingInbound"
  obtains env where "accept_check (peering_sample c) 5 (envelope_json env) (peering_start s l) = Inr (known_peer s, sample_key 1, env)"
    "env_payload env = JObj [(''acceptedCapabilities'', JArr [JStr ''messages''])]" "env_fromInstance env = ''a.b''"
proof -
  obtain env where "verifyEnvelopeShape peer_scheme sample_schema 5 (sample_key 1) (envelope_json env) = Inr (Accepted env)"
    "env_payload env = JObj [(''acceptedCapabilities'', JArr [JStr ''messages''])]" "env_fromInstance env = ''a.b''"
    "fld (envelope_json env) ''eventType'' = JStr ''peering.accept''" "fld_text (envelope_json env) ''fromInstance'' = ''a.b''"
    by (rule peer_signs [of "JObj [(''acceptedCapabilities'', JArr [JStr ''messages''])]" "''peering.accept''"])
       (simp_all add: canonicalize_def ENVELOPE_EVENT_TYPES_def)
  then show ?thesis
    using assms by (intro that [of env]) (auto simp: accept_check_def discover_peer_def verified_envelope_def shut_def bind_result_def Let_def)
qed

theorem refused_acceptance_leaves_no_trace_witness:
  "\<exists>body m w'. recordInboundAccept (peering_sample []) 5 body (peering_start PendingInbound []) = (Inl (PeeringError PeerBadEnvelope m), w') \<and>
     pw_peers w' = [known_peer PendingInbound]"
proof -
  obtain env where c: "accept_check (peering_sample []) 5 (envelope_json env) (peering_start PendingInbound []) = Inr (known_peer PendingInbound, sample_key 1, env)"
    "env_payload env = JObj [(''acceptedCapabilities'', JArr [JStr ''messages''])]"
    by (rule acceptance_checked [of PendingInbound]) auto
  obtain bytes where "canonical_bytes (env_payload env) = Inr bytes" by (simp add: c(2) canonical_bytes_def canonicalize_def)
  then obtain m w' where r: "recordInboundAccept (peering_sample []) 5 (envelope_json env) (peering_start PendingInbound []) = (Inl (PeeringError PeerBadEnvelope m), w')"
    using ulid_keeps(4) [of "peering_start PendingInbound []"]
    by (cases "peering_ulid (peering_start PendingInbound [])") (simp add: recordInboundAccept_def c(1) accept_commit_def shut_def)
  from refused_acceptance_leaves_no_trace [OF r] r show ?thesis by auto
qed


theorem approval_overwrites_revocation_witness:
  "\<exists>w' r'. approve_store 7 ''R'' ''root'' (snd (revokePeer (peering_sample []) 6 ''R'' None (peering_start PendingInbound []))) = (Inr (), w') \<and>
     r' \<in> set (pw_peers w') \<and> rin_id r' = ''R'' \<and> rin_status r' = Peered"
proof -
  let ?u = "peering_start PendingInbound []" and ?w = "snd (revokePeer (peering_sample []) 6 ''R'' None (peering_start PendingInbound []))"
  have c: "approve_check ''R'' ?u = Inr (known_peer PendingInbound)" by (simp add: approve_check_def)
  have "pw_peers ?w = [(known_peer PendingInbound)\<lparr>rin_status := Revoked, per_revokedAt := Some 6, per_revokedReason := None\<rparr>]"
    by (simp add: revokePeer_def update_peer_def update_where_def) (simp add: write_unless_undefined_def known_peer_def new_peer_def)
  then have "\<exists>r. peer_by_id ?w ''R'' = Some r \<and> rin_status r = Revoked" by (simp add: peer_by_id_def)
  then obtain r where r: "peer_by_id ?w ''R'' = Some r" "rin_status r = Revoked" by blast
  from approval_overwrites_revocation [OF c r, THEN conjunct1] show ?thesis .
qed

theorem revocation_is_never_heard_witness:
  "\<exists>x. x \<in> set (pw_posts (snd (revokePeer (peering_sample []) 0 ''R'' None (peering_start Peered [])))) \<and>
     peering_route (peering_sample []) 5 (snd x) (peering_start Peered []) = (PeeringFailed 400 ''unsupported eventType: peering.revoke'', peering_start Peered [])"
proof -
  let ?w = "peering_start Peered []"
  obtain w' where r: "revokePeer (peering_sample []) 0 ''R'' None ?w = (Inr (), w')" by (simp add: revokePeer_def update_peer_def)
  let ?p = "JObj [(''reason'', JUndefined)]"
  have send: "pw_posts (snd (send_peering (peering_sample []) 0 ''peering.revoke'' peer_doc ''a.b'' ?p v)) \<noteq> []" for v
  proof -
    obtain n u where u: "peering_ulid v = (n, u)" by (cases "peering_ulid v")
    obtain env where "buildSignedEnvelope 0 n \<lparr>bi_eventType = ''peering.revoke'', bi_fromInstance = ''x.y'', bi_toInstance = ''a.b'', bi_payload = ?p,
        bi_lifetimeSeconds = None, bi_notBefore = None\<rparr> (\<lambda>_. Some [1]) = Inr env"
      by (rule peer_builds [of ?p n "''peering.revoke''" "''x.y''" "''a.b''"]) (auto simp: canonicalize_def)
    then show ?thesis by (simp add: send_peering_def u peering_input_def postPeeringEnvelope_def peering_sample_def Let_def)
  qed
  have "pw_posts w' \<noteq> []"
    using r send by (auto simp: revokePeer_def update_peer_def tell_peer_def discover_peer_def undefined_or_def)
  then obtain x where x: "x \<in> set (pw_posts w')" by (cases "pw_posts w'") auto
  from revocation_is_never_heard [OF r x, of "peering_sample []" 5 ?w] x r show ?thesis by (intro exI [of _ x]) simp
qed

theorem handshake_agrees_iff_witness:
  "\<exists>there :: peering_row. rin_capabilities there = [''messages'', ''dms''] \<and>
     rin_capabilities (accepted_row (peering_sample [''messages'']) 6 (sample_key 1)
       (sample_envelope\<lparr>env_payload := JObj [(''acceptedCapabilities'', JArr (map JStr (rin_capabilities there)))]\<rparr>) (known_peer PendingOutbound)) \<noteq>
     rin_capabilities there"
proof -
  let ?pgb = "peering_sample [''messages'', ''dms'']" and ?w = "(peering_start Peered [])\<lparr>pw_peers := []\<rparr>"
  let ?ask = "sample_envelope\<lparr>env_payload := JObj [(''requestedCapabilities'', JArr (map JStr CAPABILITIES))]\<rparr>"
  have asked: "texts_of (fld (env_payload ?ask) ''requestedCapabilities'') = CAPABILITIES" by (simp add: fld_def member_def)
  obtain w' i where s: "request_store ?pgb 5 (sample_key 1) ?ask ?w = (Inr i, w')"
    by (simp add: request_store_def peering_ulid_def create_peer_def peer_by_id_def peer_by_host_def Let_def)
  moreover from this have "pw_peers w' \<noteq> []" "\<exists>there. peer_by_id w' i = Some there"
    by (auto simp: request_store_def peering_ulid_def create_peer_def peer_by_id_def peer_by_host_def new_peer_def Let_def)
  ultimately obtain there where t: "peer_by_id w' i = Some there" by blast
  have ok: "peers_ok ?w" by (simp add: peers_ok_def)
  let ?acc = "sample_envelope\<lparr>env_payload := JObj [(''acceptedCapabilities'', JArr (map JStr (rin_capabilities there)))]\<rparr>"
  have acc: "env_payload ?acc = JObj [(''acceptedCapabilities'', JArr (map JStr (rin_capabilities there)))]" by simp
  have h: "rin_capabilities there = intersectCapabilities [''messages'', ''dms''] CAPABILITIES \<and>
      (rin_capabilities (accepted_row (peering_sample [''messages'']) 6 (sample_key 1) ?acc (known_peer PendingOutbound)) = rin_capabilities there \<longleftrightarrow>
       set [''messages'', ''dms''] \<inter> set CAPABILITIES \<inter> set CAPABILITIES \<subseteq> set [''messages''])"
    by (rule handshake_agrees_iff [OF asked s ok t acc, of "peering_sample [''messages'']", unfolded sample_fields(3)])
  have i: "intersectCapabilities [''messages'', ''dms''] CAPABILITIES = [''messages'', ''dms'']"
    and n: "\<not> set [''messages'', ''dms''] \<inter> set CAPABILITIES \<inter> set CAPABILITIES \<subseteq> set [''messages'']"
    by (simp_all add: CAPABILITIES_def intersectCapabilities_def)
  have "rin_capabilities there = [''messages'', ''dms'']" using h [THEN conjunct1] i by (rule trans)
  moreover have "rin_capabilities (accepted_row (peering_sample [''messages'']) 6 (sample_key 1) ?acc (known_peer PendingOutbound)) \<noteq> rin_capabilities there"
    by (subst h [THEN conjunct2]) (rule n)
  ultimately show ?thesis by (intro exI [of _ there] conjI)
qed


end
