(* ===== verification/Spec2Isabelle.thy ===== *)
theory Spec2Isabelle
  imports Permissions PermissionService Dice Broker Presence AuditLog Moderation Automod Gateway
    GatewayClient ClientStore UploadGovernor Mentions Totp AuthTokens AuthService
    Accounts AuthRuns Lockouts Dms EphemeralStore CanonicalJson JsDate Envelopes
    Delivery FederationKeys Outbox RemoteUsers Mirrors Inbound InboundDispatch
    InboundSample InboundFacts InboundAuthority InboundExamples
    ChannelMessages MessageEdits MessageFacts MessageRuns MessageExamples
    Peering PeeringFacts PeeringExamples
begin

text \<open>
  Tavern is a self-hosted chat server (servers, channels, roles, voice rooms, direct messages, dice,
  federation between instances) with a Fastify API (apps/api), shared packages (packages/*) and a
  React client (apps/web). This library models the API's services, its realtime gateway, the shared
  logic and the client's connection and store, and proves what they promise each other.

  \<^bold>\<open>How the parts interact.\<close> A request is authenticated by a token and a session row (AuthTokens,
  AuthService), its user's rights are the role and channel bits of a server (Permissions,
  PermissionService), the services change the database, write the audit log and publish events on a
  broker (Moderation, AuditLog, Broker), and the gateway numbers, buffers and delivers each event to
  the sockets that may see it (Gateway). Presence is derived from those sockets (Presence). The web
  client connects and reconnects (GatewayClient) and folds the events into its store (ClientStore).

  \<^bold>\<open>Theories.\<close>
  \<^item> Prelude, JsText, Errors, Database: identifiers and times, JavaScript maps, text and numbers, tables
    as lists of rows (schema.prisma), the error vocabulary (packages/shared/src/errors.ts). Locales: a
    keyed store, interpreted on the maps, and the lift of an invariant from steps to runs, interpreted
    on every state machine below.
  \<^item> Permissions, PermissionService (packages/shared/src/permissions.ts,
    services/permissions-service.ts): bit sets, resolution, the guards of the routes. The resolution
    agrees with layered rules, the batched filter with the single look-up, the hierarchy check with
    rank and holding.
  \<^item> Dice, Mentions, Automod (packages/shared/src/dice.ts, parsing/mentions.ts, services/mentions-service.ts,
    services/automod-service.ts): parsing and evaluation of dice, who is notified, rule evaluation.
  \<^item> Broker, Presence, Gateway (services/gateway-broker.ts, services/presence-service.ts,
    gateway/index.ts): publish and subscribe with promotion to Redis, presence and its federation,
    connections with IDENTIFY, RESUME, numbered and buffered dispatches. Confidentiality of the fan-out,
    contiguity of the buffers, what RESUME replays.
  \<^item> AuditLog, Moderation (services/audit-service.ts, ban-service.ts, block-service.ts,
    verification-service.ts): bans as one transaction with their audit entry and event.
  \<^item> Totp, AuthTokens, AuthService, Accounts, AuthRuns, Lockouts (lib/totp.ts, lib/jwt.ts,
    plugins/auth.ts, services/auth-service.ts): one-time codes, tokens, sessions, registration, resets.
    Handlers that read, wait and write are split there; AuthRuns and Lockouts run the parts in any order
    with stale reads, and show one successor per refresh token, the cap on sessions, codes that work
    once and what the lock-outs count.
  \<^item> Dms (services/dm-service.ts, routes/dms.ts): conversations of two and of groups, their messages. One
    conversation per pair under races, idempotent sends, what outsiders see.
  \<^item> ChannelMessages, MessageEdits (routes/messages.ts, routes/reactions.ts, services/federation-dm.ts,
    lib/thread-summary.ts): pages of messages, sending as gates, a transaction and what is told after it, edits,
    deletions, reactions. MessageFacts and MessageRuns show what a page is, what an accepted message has
    passed, that deleted messages stay empty over any run, and which checks one route makes and another forgets;
    MessageExamples evaluates them.
  \<^item> EphemeralStore (lib/ephemeral-store.ts): short-lived values, in memory with a cap or in Redis; the
    former refines a plain table of values with deadlines.
  \<^item> CanonicalJson (packages/federation/src/canonical-json.ts): the text that signatures are made over,
    and that it determines the value.
  \<^item> JsDate, Envelopes, Delivery, FederationKeys, Outbox: the sending side of the federation. Dates in ISO form;
    signed envelopes and their checks (packages/federation/src/federation-message-signing.ts,
    services/federation-envelopes.ts): what is accepted was signed, what is built is accepted; the guard
    against private addresses and the dispatch of jobs (ssrf-guard.ts, outbox-dispatcher.ts,
    sync-dispatch.ts); instance and user keys and their encryption at rest (federation-keys.ts,
    user-keys.ts, at-rest.ts); who is told of what (services/federation-outbox.ts) and the
    de-duplication of the queue.
  \<^item> RemoteUsers, Mirrors, Inbound, InboundDispatch: the receiving side. Local rows of remote users and
    the cache of their profiles (services/remote-user-upsert.ts, federation-profile.ts), mirrored servers
    (services/federation-mirror.ts), every handler of services/federation-inbound.ts and the dispatcher
    that checks an envelope, logs its nonce and runs the handler in one transaction. InboundFacts and
    InboundAuthority show who is heard, that nothing is heard twice, that refusals leave no trace, whose
    words change, and what is not checked; InboundSample and InboundExamples evaluate them.
  \<^item> Peering (services/federation-peering.ts, routes/federation-peering.ts, routes/admin-federation.ts): how two
    instances become peers. PeeringFacts shows the state machine of a peer and whose consent it needs, what
    refusals and races leave, when both sides agree on capabilities, and that crossed requests never
    complete; PeeringExamples evaluates them.
  \<^item> UploadGovernor (services/upload-governor.ts): tickets, slots, the size guard, the token bucket.
  \<^item> GatewayClient, ClientStore (apps/web/src/lib/gateway-client.ts, store.ts).

  \<^bold>\<open>Conventions.\<close> State is a record passed explicitly and returned updated; a thrown error is \<open>Inl\<close>. A
  callback, or the part of a handler between two awaits, is one atomic step, and so is a transaction.
  Strings are sequences of code units below 256, JavaScript numbers are exact integers (32-bit words
  where the code computes with 32 bits, decimals where it parses them), times are milliseconds.
  Hashing, signing, random values, clocks and the job queues are arguments or lists of recorded calls;
  what the proofs need of them is a hypothesis of the theorem. Definitions compute; loops that are not
  structural have a termination proof, none needs fuel.

  \<^bold>\<open>Not modelled.\<close> Rendering and presentation, input validation by zod schemas, image, scanner, storage
  and mail libraries, OpenID Connect and WebAuthn; the answering side of profiles; the media pipeline, the worker and the other routes (channels, threads, voice, polls,
  administration), most of which validate, authorise and call a service.
\<close>

section \<open>Bans and the gateway\<close>

lemma not_member_may_not_receive:
  assumes "loadMemberContext d s u = None" and "find_member d s u = None"
    and "map_option srv_ownerUserId (find_server d s) \<noteq> Some u"
    and "ge_type event \<noteq> ''PRESENCE_UPDATE''" and "ge_dmChannelId event = None" and "ge_userId event = None"
    and "case ge_channelId event of
           None \<Rightarrow> ge_serverId event = Some s
         | Some ch \<Rightarrow> \<exists>channel. find_channel d ch = Some channel \<and> chn_serverId channel = s"
  shows "\<not> may_receive d event u"
  using assms
  by (auto simp: may_receive_def channel_visible_def getChannelPermissions_def viewable_def
      PERMISSION_NONE_def Permission_def split: option.splits)

text \<open>
  C7. A ban cuts the event stream at once: once \<open>banMember\<close> has succeeded, an event of the server,
  or of any of its channels, that is fanned out over the new database leaves every socket of the
  banned user exactly as it was, even a socket that the ban event has not closed yet.
\<close>

theorem banned_user_hears_nothing:
  assumes "banMember now i w = (Inr n, w')" and "gw_db g = sw_db w'"
    and "map_get (gw_clients g) k = Some c" and "cl_userId c = Some (bi_targetUserId i)"
    and "ge_type event \<noteq> ''PRESENCE_UPDATE''" and "ge_dmChannelId event = None" and "ge_userId event = None"
    and "case ge_channelId event of
           None \<Rightarrow> ge_serverId event = Some (bi_serverId i)
         | Some ch \<Rightarrow> \<exists>channel. find_channel (gw_db g) ch = Some channel \<and> chn_serverId channel = bi_serverId i"
  shows "map_get (gw_clients (fanout env event g)) k = Some c"
proof -
  have "\<not> may_receive (gw_db g) event (bi_targetUserId i)"
    using ban_target_gone [OF assms(1)] ban_context_gone [OF assms(1)] assms(2,5-8)
    by (intro not_member_may_not_receive [where s = "bi_serverId i"]) auto
  then show ?thesis
    using assms(3,4) by (simp add: fanout_client delivers_def shouldDeliver_may_receive)
qed

theorem banned_user_hears_nothing_witness:
  "\<exists>w'. banMember 10 sample_ban sample_world = (Inr 0, w') \<and>
     map_get (gw_clients (fanout open_env ((event_for ''SERVER_UPDATE'' (OtherData ''x''))\<lparr>ge_serverId := Some ''S''\<rparr>)
       ((start_gateway (start_world (sw_db w')))\<lparr>gw_clients := [(''n'', ann_online)]\<rparr>))) ''n'' = Some ann_online"
proof -
  obtain w' where w: "banMember 10 sample_ban sample_world = (Inr 0, w')"
    using sample_ban_runs by blast
  let ?g = "(start_gateway (start_world (sw_db w')))\<lparr>gw_clients := [(''n'', ann_online)]\<rparr>"
  have "gw_db ?g = sw_db w'" "map_get (gw_clients ?g) ''n'' = Some ann_online"
    "cl_userId ann_online = Some (bi_targetUserId sample_ban)"
    by (simp_all add: gw_db_def start_gateway_def start_world_def ann_online_def sample_ban_def)
  from banned_user_hears_nothing [OF w this,
      where event = "(event_for ''SERVER_UPDATE'' (OtherData ''x''))\<lparr>ge_serverId := Some ''S''\<rparr>"] w
  show ?thesis
    by (auto simp: event_for_def sample_ban_def)
qed

end
